(* ===== verification/Prelude.thy ===== *)
theory Prelude
  imports Main "HOL-Library.AList" "HOL-Library.Word"
begin

text \<open>
  Shared vocabulary of the development: the Go values the program manipulates
  (fixed-width integers, slices, maps, byte strings), the ways a goroutine can stop
  without returning (a run-time panic, a channel operation that never proceeds, a
  fatal log call), a state monad for handlers that can stop, and the generic facts
  about them that the component theories reuse.
\<close>

named_theorems runs_intros \<open>what a handler keeps and why it may stop\<close>
named_theorems go_simps \<open>unfolding of the handler monad\<close>

section \<open>Go values\<close>

text \<open>A Go string is a sequence of bytes, as is a byte slice.\<close>

type_synonym byte = char
type_synonym bytes = "char list"

text \<open>How a goroutine stops without returning.\<close>

datatype stop =
    IndexOutOfRange
  | NilMapWrite
  | NilDereference
  | MakeSliceNegative
  | ReflectIsNilOnZeroValue
  | CloseOfClosedChannel
  | SendOnClosedChannel
  | BlockedForever
  | FatalExit

type_synonym 'a res = "stop + 'a"

text \<open>
  \<open>int\<close> is 64 bits wide on the supported platforms, so \<open>int\<close> and \<open>int64\<close> are both
  mathematical integers with the conversion \<open>int64\<close> written where a result can
  wrap; \<open>int32\<close> is the conversion of a wider integer to 32 bits.
\<close>

definition int32 :: "int \<Rightarrow> int" where
  "int32 x = signed_take_bit 31 x"

definition int64 :: "int \<Rightarrow> int" where
  "int64 x = signed_take_bit 63 x"

definition max_int64 :: int where
  "max_int64 = 2 ^ 63 - 1"

lemma int32_id: "- (2 ^ 31) \<le> x \<Longrightarrow> x < 2 ^ 31 \<Longrightarrow> int32 x = x"
  unfolding int32_def by (rule signed_take_bit_int_eq_self) simp_all

lemma int64_id: "- (2 ^ 63) \<le> x \<Longrightarrow> x < 2 ^ 63 \<Longrightarrow> int64 x = x"
  unfolding int64_def by (rule signed_take_bit_int_eq_self) simp_all

lemma int32_range: "- (2 ^ 31) \<le> int32 x \<and> int32 x < 2 ^ 31"
  using signed_take_bit_int_greater_eq_minus_exp [of 31 x] signed_take_bit_int_less_exp [of 31 x]
  by (simp add: int32_def)

lemma int64_range: "- (2 ^ 63) \<le> int64 x \<and> int64 x < 2 ^ 63"
  using signed_take_bit_int_greater_eq_minus_exp [of 63 x] signed_take_bit_int_less_exp [of 63 x]
  by (simp add: int64_def)

text \<open>Integer division truncates towards zero.\<close>

definition go_div :: "int \<Rightarrow> int \<Rightarrow> int" where
  "go_div a b = sgn a * sgn b * (\<bar>a\<bar> div \<bar>b\<bar>)"

lemma go_div_nonneg: "0 \<le> a \<Longrightarrow> 0 < b \<Longrightarrow> go_div a b = a div b"
  by (cases "a = 0") (auto simp: go_div_def)

text \<open>Slices: an index outside the slice panics, and so does a negative length.\<close>

definition slice_get :: "'a list \<Rightarrow> int \<Rightarrow> 'a res" where
  "slice_get xs i = (if 0 \<le> i \<and> i < int (length xs) then Inr (xs ! nat i) else Inl IndexOutOfRange)"

definition slice_set :: "'a list \<Rightarrow> int \<Rightarrow> 'a \<Rightarrow> 'a list res" where
  "slice_set xs i v =
     (if 0 \<le> i \<and> i < int (length xs) then Inr (xs[nat i := v]) else Inl IndexOutOfRange)"

definition make_slice :: "int \<Rightarrow> 'a \<Rightarrow> 'a list res" where
  "make_slice n zero = (if n < 0 then Inl MakeSliceNegative else Inr (replicate (nat n) zero))"

lemma slice_get_ok:
  "slice_get xs i = Inr v \<longleftrightarrow> 0 \<le> i \<and> i < int (length xs) \<and> xs ! nat i = v"
  by (auto simp: slice_get_def)

lemma slice_set_ok:
  "slice_set xs i v = Inr ys \<longleftrightarrow> 0 \<le> i \<and> i < int (length xs) \<and> ys = xs[nat i := v]"
  by (auto simp: slice_set_def)

lemma make_slice_ok:
  "make_slice n z = Inr xs \<longleftrightarrow> 0 \<le> n \<and> xs = replicate (nat n) z"
  by (auto simp: make_slice_def)

text \<open>
  A Go map is an association list with distinct keys. The list order is the (arbitrary)
  iteration order, so facts about an iteration are stated up to order.
\<close>

type_synonym ('k, 'v) gomap = "('k \<times> 'v) list"

abbreviation mget :: "('k, 'v) gomap \<Rightarrow> 'k \<Rightarrow> 'v option" where
  "mget \<equiv> map_of"

abbreviation mput :: "'k \<Rightarrow> 'v \<Rightarrow> ('k, 'v) gomap \<Rightarrow> ('k, 'v) gomap" where
  "mput \<equiv> AList.update"

abbreviation mdel :: "'k \<Rightarrow> ('k, 'v) gomap \<Rightarrow> ('k, 'v) gomap" where
  "mdel \<equiv> AList.delete"

definition wf_map :: "('k, 'v) gomap \<Rightarrow> bool" where
  "wf_map m \<longleftrightarrow> distinct (map fst m)"

lemma wf_map_Nil [simp, intro]: "wf_map []"
  by (simp add: wf_map_def)

lemma wf_map_mput [simp, intro]: "wf_map m \<Longrightarrow> wf_map (mput k v m)"
  by (simp add: wf_map_def distinct_update)

lemma wf_map_mdel [simp, intro]: "wf_map m \<Longrightarrow> wf_map (mdel k m)"
  by (simp add: wf_map_def distinct_delete)

lemma mget_mput [simp]: "mget (mput k v m) k' = (if k' = k then Some v else mget m k')"
  by (simp add: update_conv)

lemma mget_mdel [simp]: "mget (mdel k m) k' = (if k' = k then None else mget m k')"
  by (simp add: delete_conv)

lemma mget_mem: "wf_map m \<Longrightarrow> (k, v) \<in> set m \<longleftrightarrow> mget m k = Some v"
  by (simp add: wf_map_def)

section \<open>The handler monad\<close>

text \<open>
  A handler reads and writes a state and returns a value or stops; what it did to the
  state before it stopped is kept.
\<close>

type_synonym ('s, 'a) go = "'s \<Rightarrow> 'a res \<times> 's"

definition go_return :: "'a \<Rightarrow> ('s, 'a) go" where
  "go_return x s = (Inr x, s)"

definition go_stop :: "stop \<Rightarrow> ('s, 'a) go" where
  "go_stop e s = (Inl e, s)"

definition go_bind :: "('s, 'a) go \<Rightarrow> ('a \<Rightarrow> ('s, 'b) go) \<Rightarrow> ('s, 'b) go" where
  "go_bind m f s = (case m s of (Inl e, s') \<Rightarrow> (Inl e, s') | (Inr x, s') \<Rightarrow> f x s')"

definition go_then :: "('s, 'a) go \<Rightarrow> ('s, 'b) go \<Rightarrow> ('s, 'b) go" where
  "go_then m k = go_bind m (\<lambda>_. k)"

definition go_gets :: "('s \<Rightarrow> 'a) \<Rightarrow> ('s, 'a) go" where
  "go_gets f s = (Inr (f s), s)"

definition go_modify :: "('s \<Rightarrow> 's) \<Rightarrow> ('s, unit) go" where
  "go_modify f s = (Inr (), f s)"

definition go_lift :: "'a res \<Rightarrow> ('s, 'a) go" where
  "go_lift r s = (r, s)"

fun go_forM :: "'a list \<Rightarrow> ('a \<Rightarrow> ('s, unit) go) \<Rightarrow> ('s, unit) go" where
  "go_forM [] f = go_return ()"
| "go_forM (x # xs) f = go_then (f x) (go_forM xs f)"

lemmas go_defs [go_simps] =
  go_return_def go_stop_def go_bind_def go_then_def go_gets_def go_modify_def go_lift_def

subsection \<open>Invariants of handlers\<close>

text \<open>
  \<open>runs P E m\<close>: started in \<open>P\<close>, the handler keeps \<open>P\<close>, whether it returns or stops, and it
  stops for no reason outside \<open>E\<close>.
\<close>

definition runs :: "('s \<Rightarrow> bool) \<Rightarrow> stop set \<Rightarrow> ('s, 'a) go \<Rightarrow> bool" where
  "runs P E m \<longleftrightarrow> (\<forall>s. P s \<longrightarrow> P (snd (m s)) \<and> (\<forall>e. fst (m s) = Inl e \<longrightarrow> e \<in> E))"

lemma runsI: "(\<And>s. P s \<Longrightarrow> P (snd (m s)) \<and> (\<forall>e. fst (m s) = Inl e \<longrightarrow> e \<in> E)) \<Longrightarrow> runs P E m"
  by (simp add: runs_def)

lemma runsD:
  assumes "runs P E m" "P s"
  shows "P (snd (m s))" "fst (m s) = Inl e \<Longrightarrow> e \<in> E"
  using assms by (auto simp: runs_def)

text \<open>With nothing in \<open>E\<close> the handler returns.\<close>

lemma runs_returns:
  assumes "runs P {} m" "P s"
  shows "\<exists>x s'. m s = (Inr x, s') \<and> P s'"
  using runsD [OF assms] by (cases "m s") (metis empty_iff fst_conv snd_conv sum.exhaust)

lemma runs_mono: "runs P E m \<Longrightarrow> E \<subseteq> E' \<Longrightarrow> runs P E' m"
  by (auto simp: runs_def)

lemma runs_return [runs_intros]: "runs P E (go_return x)"
  by (simp add: runs_def go_simps)

lemma runs_stop [runs_intros]: "e \<in> E \<Longrightarrow> runs P E (go_stop e)"
  by (simp add: runs_def go_simps)

lemma runs_gets [runs_intros]: "runs P E (go_gets f)"
  by (simp add: runs_def go_simps)

lemma runs_lift: "(\<And>e. r = Inl e \<Longrightarrow> e \<in> E) \<Longrightarrow> runs P E (go_lift r)"
  by (simp add: runs_def go_simps)

lemma runs_modify: "(\<And>s. P s \<Longrightarrow> P (f s)) \<Longrightarrow> runs P E (go_modify f)"
  by (simp add: runs_def go_simps)

text \<open>What follows may use what the first part returned, and that it returned.\<close>

lemma runs_bind_if:
  assumes "runs P E m" and "\<And>s x s'. P s \<Longrightarrow> m s = (Inr x, s') \<Longrightarrow> runs P E (f x)"
  shows "runs P E (go_bind m f)"
proof (rule runsI)
  fix s assume p: "P s"
  obtain r s' where m: "m s = (r, s')" by (cases "m s")
  show "P (snd (go_bind m f s)) \<and> (\<forall>e. fst (go_bind m f s) = Inl e \<longrightarrow> e \<in> E)"
  proof (cases r)
    case (Inl e)
    then show ?thesis using runsD [OF assms(1) p] m by (simp add: go_bind_def)
  next
    case (Inr x)
    then have "P s'" using runsD(1) [OF assms(1) p] m by simp
    moreover have "runs P E (f x)" using assms(2) [OF p] m Inr by blast
    ultimately show ?thesis using m Inr by (simp add: go_bind_def runs_def)
  qed
qed

lemma runs_bind [runs_intros]: "runs P E m \<Longrightarrow> (\<And>x. runs P E (f x)) \<Longrightarrow> runs P E (go_bind m f)"
  by (rule runs_bind_if)

lemma runs_then_if:
  "runs P E m \<Longrightarrow> (\<And>s x s'. P s \<Longrightarrow> m s = (Inr x, s') \<Longrightarrow> runs P E k) \<Longrightarrow> runs P E (go_then m k)"
  unfolding go_then_def by (rule runs_bind_if)

lemma runs_then [runs_intros]: "runs P E m \<Longrightarrow> runs P E k \<Longrightarrow> runs P E (go_then m k)"
  by (simp add: go_then_def runs_intros)

lemma runs_forM [runs_intros]: "(\<And>x. x \<in> set xs \<Longrightarrow> runs P E (f x)) \<Longrightarrow> runs P E (go_forM xs f)"
  by (induction xs) (simp_all add: runs_intros)

lemma runs_if [runs_intros]:
  "(b \<Longrightarrow> runs P E m) \<Longrightarrow> (\<not> b \<Longrightarrow> runs P E k) \<Longrightarrow> runs P E (if b then m else k)"
  by simp

lemma runs_sum [runs_intros]:
  "(\<And>e. r = Inl e \<Longrightarrow> runs P E (f e)) \<Longrightarrow> (\<And>x. r = Inr x \<Longrightarrow> runs P E (g x)) \<Longrightarrow>
   runs P E (case r of Inl e \<Rightarrow> f e | Inr x \<Rightarrow> g x)"
  by (cases r) simp_all

lemma runs_option [runs_intros]:
  "(r = None \<Longrightarrow> runs P E m) \<Longrightarrow> (\<And>x. r = Some x \<Longrightarrow> runs P E (g x)) \<Longrightarrow>
   runs P E (case r of None \<Rightarrow> m | Some x \<Rightarrow> g x)"
  by (cases r) simp_all

lemma runs_list [runs_intros]:
  "(r = [] \<Longrightarrow> runs P E m) \<Longrightarrow> (\<And>x xs. r = x # xs \<Longrightarrow> runs P E (g x xs)) \<Longrightarrow>
   runs P E (case r of [] \<Rightarrow> m | x # xs \<Rightarrow> g x xs)"
  by (cases r) simp_all

lemma runs_prod [runs_intros]:
  "(\<And>a b. r = (a, b) \<Longrightarrow> runs P E (g a b)) \<Longrightarrow> runs P E (case r of (a, b) \<Rightarrow> g a b)"
  by (cases r) simp_all

section \<open>Transition systems and their invariants\<close>

text \<open>
  The contract every step relation of the development meets: an invariant that holds
  at the start and is kept by each step holds in every reachable state.
\<close>

locale invariant_system =
  fixes start :: "'s \<Rightarrow> bool"
    and step :: "'s \<Rightarrow> 's \<Rightarrow> bool"
    and inv :: "'s \<Rightarrow> bool"
  assumes start_inv: "start s \<Longrightarrow> inv s"
    and step_inv: "inv s \<Longrightarrow> step s t \<Longrightarrow> inv t"
begin

lemma steps_inv: "step\<^sup>*\<^sup>* s t \<Longrightarrow> inv s \<Longrightarrow> inv t"
  by (induction rule: rtranclp_induct) (auto intro: step_inv)

lemma reachable_inv: "start s \<Longrightarrow> step\<^sup>*\<^sup>* s t \<Longrightarrow> inv t"
  using steps_inv start_inv by blast

end

text \<open>
  A system that implements an abstract one: every step from a state of the invariant is, seen
  through the abstraction, a step of the specification; so is, by induction, every run.
\<close>

locale refinement = invariant_system +
  fixes abst :: "'s \<Rightarrow> 'a"
    and spec :: "'a \<Rightarrow> 'a \<Rightarrow> bool"
  assumes simulates: "inv s \<Longrightarrow> step s t \<Longrightarrow> spec (abst s) (abst t)"
begin

lemma runs_simulate: "step\<^sup>*\<^sup>* s t \<Longrightarrow> inv s \<Longrightarrow> spec\<^sup>*\<^sup>* (abst s) (abst t)"
proof (induction rule: rtranclp_induct)
  case (step t u)
  then show ?case using simulates steps_inv by (meson rtranclp.rtrancl_into_rtrancl)
qed simp

end

section \<open>Lists\<close>

lemma distinct_map_filter_imp [simp]: "distinct (map f xs) \<Longrightarrow> distinct (map f (filter p xs))"
  by (induction xs) auto

lemma distinct_map_unique:
  "distinct (map f xs) \<Longrightarrow> x \<in> set xs \<Longrightarrow> y \<in> set xs \<Longrightarrow> f x = f y \<Longrightarrow> x = y"
  by (auto simp: distinct_map dest: inj_onD)

end
