(* ===== verification/Wire.thy ===== *)
theory Wire
  imports Prelude
begin

text \<open>
  The messages of internal/shared/protocol (protocol.proto and the structs generated from
  it), the getters the program calls, and the message builders of internal/node/protocol.go.
  A pointer to a message is an option, None the nil pointer; the payload of a oneof wrapper
  is never nil, because the program and the decoder always allocate it. An int32 field is a
  mathematical integer that its writers convert with \<open>int32\<close>.
\<close>

section \<open>Messages\<close>

record FileInfo =
  fi_FileName :: string
  fi_FileHash :: string
  fi_FileSize :: int
  fi_TotalChunks :: int
  fi_ChunkSize :: int

record PeerInfo =
  pi_Id :: string

record AnnounceMessage =
  am_Files :: "FileInfo list"

record PeerListRequest =
  plr_FileHash :: string

record PeerListResponse =
  plp_FileHash :: string
  plp_TotalChunks :: int
  plp_ChunkSize :: int
  plp_Peers :: "PeerInfo list"

record HeartbeatMessage =
  hb_Timestamp :: int

datatype GoodbyeMessage = GoodbyeMessage

record ChunkRequest =
  cr_FileHash :: string
  cr_ChunkIndex :: int
  cr_ChunkHash :: string

record ChunkResponse =
  cs_FileHash :: string
  cs_ChunkIndex :: int
  cs_ChunkData :: bytes

record IntroductionMessage =
  im_FileHash :: string
  im_ChunksMap :: "int list"

record SignalRegisterMessage =
  sr_FilePath :: string

record SignalDownloadMessage =
  sd_FilePath :: string

record Offer =
  of_Sdp :: string

record Answer =
  an_Sdp :: string

record IceCandidate =
  ic_Candidate :: string
  ic_SdpMid :: string
  ic_SdpMlineIndex :: "32 word"

datatype SignalingMessage_Message =
    SignalingMessage_Offer Offer
  | SignalingMessage_Answer Answer
  | SignalingMessage_IceCandidate IceCandidate

record SignalingMessage =
  sg_SourcePeerId :: string
  sg_TargetPeerId :: string
  sg_Message :: "SignalingMessage_Message option"

record IDMessage =
  idm_Id :: string

record LogMessage =
  lm_Message :: string

datatype message_type =
    NetworkMessage_Announce AnnounceMessage
  | NetworkMessage_PeerListRequest PeerListRequest
  | NetworkMessage_PeerListResponse PeerListResponse
  | NetworkMessage_Heartbeat HeartbeatMessage
  | NetworkMessage_Goodbye GoodbyeMessage
  | NetworkMessage_ChunkRequest ChunkRequest
  | NetworkMessage_ChunkResponse ChunkResponse
  | NetworkMessage_Introduction IntroductionMessage
  | NetworkMessage_SignalRegister SignalRegisterMessage
  | NetworkMessage_SignalDownload SignalDownloadMessage
  | NetworkMessage_Signaling SignalingMessage
  | NetworkMessage_Id IDMessage
  | NetworkMessage_Log LogMessage

record NetworkMessage =
  MessageType :: "message_type option"

section \<open>Getters\<close>

text \<open>A getter of a nil message returns the zero value of the field.\<close>

definition FileInfo_GetFileName :: "FileInfo option \<Rightarrow> string" where
  "FileInfo_GetFileName x = (case x of None \<Rightarrow> [] | Some m \<Rightarrow> fi_FileName m)"

definition FileInfo_GetFileHash :: "FileInfo option \<Rightarrow> string" where
  "FileInfo_GetFileHash x = (case x of None \<Rightarrow> [] | Some m \<Rightarrow> fi_FileHash m)"

definition FileInfo_GetFileSize :: "FileInfo option \<Rightarrow> int" where
  "FileInfo_GetFileSize x = (case x of None \<Rightarrow> 0 | Some m \<Rightarrow> fi_FileSize m)"

definition FileInfo_GetTotalChunks :: "FileInfo option \<Rightarrow> int" where
  "FileInfo_GetTotalChunks x = (case x of None \<Rightarrow> 0 | Some m \<Rightarrow> fi_TotalChunks m)"

definition FileInfo_GetChunkSize :: "FileInfo option \<Rightarrow> int" where
  "FileInfo_GetChunkSize x = (case x of None \<Rightarrow> 0 | Some m \<Rightarrow> fi_ChunkSize m)"

definition AnnounceMessage_GetFiles :: "AnnounceMessage option \<Rightarrow> FileInfo list" where
  "AnnounceMessage_GetFiles x = (case x of None \<Rightarrow> [] | Some m \<Rightarrow> am_Files m)"

definition PeerInfo_GetId :: "PeerInfo option \<Rightarrow> string" where
  "PeerInfo_GetId x = (case x of None \<Rightarrow> [] | Some m \<Rightarrow> pi_Id m)"

definition PeerListRequest_GetFileHash :: "PeerListRequest option \<Rightarrow> string" where
  "PeerListRequest_GetFileHash x = (case x of None \<Rightarrow> [] | Some m \<Rightarrow> plr_FileHash m)"

definition PeerListResponse_GetFileHash :: "PeerListResponse option \<Rightarrow> string" where
  "PeerListResponse_GetFileHash x = (case x of None \<Rightarrow> [] | Some m \<Rightarrow> plp_FileHash m)"

definition PeerListResponse_GetPeers :: "PeerListResponse option \<Rightarrow> PeerInfo list" where
  "PeerListResponse_GetPeers x = (case x of None \<Rightarrow> [] | Some m \<Rightarrow> plp_Peers m)"

definition IntroductionMessage_GetFileHash :: "IntroductionMessage option \<Rightarrow> string" where
  "IntroductionMessage_GetFileHash x = (case x of None \<Rightarrow> [] | Some m \<Rightarrow> im_FileHash m)"

definition IntroductionMessage_GetChunksMap :: "IntroductionMessage option \<Rightarrow> int list" where
  "IntroductionMessage_GetChunksMap x = (case x of None \<Rightarrow> [] | Some m \<Rightarrow> im_ChunksMap m)"

definition SignalRegisterMessage_GetFilePath :: "SignalRegisterMessage option \<Rightarrow> string" where
  "SignalRegisterMessage_GetFilePath x = (case x of None \<Rightarrow> [] | Some m \<Rightarrow> sr_FilePath m)"

definition SignalDownloadMessage_GetFilePath :: "SignalDownloadMessage option \<Rightarrow> string" where
  "SignalDownloadMessage_GetFilePath x = (case x of None \<Rightarrow> [] | Some m \<Rightarrow> sd_FilePath m)"

definition SignalingMessage_GetSourcePeerId :: "SignalingMessage option \<Rightarrow> string" where
  "SignalingMessage_GetSourcePeerId x = (case x of None \<Rightarrow> [] | Some m \<Rightarrow> sg_SourcePeerId m)"

definition SignalingMessage_GetTargetPeerId :: "SignalingMessage option \<Rightarrow> string" where
  "SignalingMessage_GetTargetPeerId x = (case x of None \<Rightarrow> [] | Some m \<Rightarrow> sg_TargetPeerId m)"

definition SignalingMessage_GetMessage :: "SignalingMessage option \<Rightarrow> SignalingMessage_Message option" where
  "SignalingMessage_GetMessage x = (case x of None \<Rightarrow> None | Some m \<Rightarrow> sg_Message m)"

definition SignalingMessage_GetOffer :: "SignalingMessage option \<Rightarrow> Offer option" where
  "SignalingMessage_GetOffer x =
     (case x of None \<Rightarrow> None
      | Some m \<Rightarrow> (case sg_Message m of Some (SignalingMessage_Offer d) \<Rightarrow> Some d | _ \<Rightarrow> None))"

definition SignalingMessage_GetAnswer :: "SignalingMessage option \<Rightarrow> Answer option" where
  "SignalingMessage_GetAnswer x =
     (case x of None \<Rightarrow> None
      | Some m \<Rightarrow> (case sg_Message m of Some (SignalingMessage_Answer d) \<Rightarrow> Some d | _ \<Rightarrow> None))"

definition SignalingMessage_GetIceCandidate :: "SignalingMessage option \<Rightarrow> IceCandidate option" where
  "SignalingMessage_GetIceCandidate x =
     (case x of None \<Rightarrow> None
      | Some m \<Rightarrow> (case sg_Message m of Some (SignalingMessage_IceCandidate d) \<Rightarrow> Some d | _ \<Rightarrow> None))"

definition Offer_GetSdp :: "Offer option \<Rightarrow> string" where
  "Offer_GetSdp x = (case x of None \<Rightarrow> [] | Some m \<Rightarrow> of_Sdp m)"

definition Answer_GetSdp :: "Answer option \<Rightarrow> string" where
  "Answer_GetSdp x = (case x of None \<Rightarrow> [] | Some m \<Rightarrow> an_Sdp m)"

definition IceCandidate_GetCandidate :: "IceCandidate option \<Rightarrow> string" where
  "IceCandidate_GetCandidate x = (case x of None \<Rightarrow> [] | Some m \<Rightarrow> ic_Candidate m)"

definition IceCandidate_GetSdpMlineIndex :: "IceCandidate option \<Rightarrow> 32 word" where
  "IceCandidate_GetSdpMlineIndex x = (case x of None \<Rightarrow> 0 | Some m \<Rightarrow> ic_SdpMlineIndex m)"

definition IDMessage_GetId :: "IDMessage option \<Rightarrow> string" where
  "IDMessage_GetId x = (case x of None \<Rightarrow> [] | Some m \<Rightarrow> idm_Id m)"

definition LogMessage_GetMessage :: "LogMessage option \<Rightarrow> string" where
  "LogMessage_GetMessage x = (case x of None \<Rightarrow> [] | Some m \<Rightarrow> lm_Message m)"

lemmas getters [simp] =
  FileInfo_GetFileName_def FileInfo_GetFileHash_def FileInfo_GetFileSize_def
  FileInfo_GetTotalChunks_def FileInfo_GetChunkSize_def AnnounceMessage_GetFiles_def
  PeerInfo_GetId_def PeerListRequest_GetFileHash_def PeerListResponse_GetFileHash_def
  PeerListResponse_GetPeers_def IntroductionMessage_GetFileHash_def
  IntroductionMessage_GetChunksMap_def SignalRegisterMessage_GetFilePath_def
  SignalDownloadMessage_GetFilePath_def SignalingMessage_GetSourcePeerId_def
  SignalingMessage_GetTargetPeerId_def SignalingMessage_GetMessage_def
  SignalingMessage_GetOffer_def SignalingMessage_GetAnswer_def
  SignalingMessage_GetIceCandidate_def Offer_GetSdp_def Answer_GetSdp_def
  IceCandidate_GetCandidate_def IceCandidate_GetSdpMlineIndex_def IDMessage_GetId_def
  LogMessage_GetMessage_def

section \<open>Builders\<close>

text \<open>The JSON form of an ICE candidate; its optional fields are pointers that the builder reads.\<close>

record ICECandidateInit =
  ici_Candidate :: string
  ici_SDPMid :: "string option"
  ici_SDPMLineIndex :: "16 word option"

definition BuildICECandidateMessage :: "string \<Rightarrow> ICECandidateInit \<Rightarrow> NetworkMessage res" where
  "BuildICECandidateMessage targetPeerID json =
     (case (ici_SDPMid json, ici_SDPMLineIndex json) of
        (Some mid, Some line) \<Rightarrow>
          Inr \<lparr>MessageType = Some (NetworkMessage_Signaling
            \<lparr>sg_SourcePeerId = [], sg_TargetPeerId = targetPeerID,
             sg_Message = Some (SignalingMessage_IceCandidate
               \<lparr>ic_Candidate = ici_Candidate json, ic_SdpMid = mid, ic_SdpMlineIndex = ucast line\<rparr>)\<rparr>)\<rparr>
      | _ \<Rightarrow> Inl NilDereference)"

definition BuildSignalingOfferMessage :: "string \<Rightarrow> string \<Rightarrow> NetworkMessage" where
  "BuildSignalingOfferMessage targetPeerID sdp =
     \<lparr>MessageType = Some (NetworkMessage_Signaling
       \<lparr>sg_SourcePeerId = [], sg_TargetPeerId = targetPeerID,
        sg_Message = Some (SignalingMessage_Offer \<lparr>of_Sdp = sdp\<rparr>)\<rparr>)\<rparr>"

definition BuildSignalingAnswerMessage :: "string \<Rightarrow> string \<Rightarrow> NetworkMessage" where
  "BuildSignalingAnswerMessage targetPeerID sdp =
     \<lparr>MessageType = Some (NetworkMessage_Signaling
       \<lparr>sg_SourcePeerId = [], sg_TargetPeerId = targetPeerID,
        sg_Message = Some (SignalingMessage_Answer \<lparr>an_Sdp = sdp\<rparr>)\<rparr>)\<rparr>"

definition BuildAnnounceMessage :: "FileInfo list \<Rightarrow> NetworkMessage" where
  "BuildAnnounceMessage fs = \<lparr>MessageType = Some (NetworkMessage_Announce \<lparr>am_Files = fs\<rparr>)\<rparr>"

definition BuildPeerListRequestMessage :: "string \<Rightarrow> NetworkMessage" where
  "BuildPeerListRequestMessage fileHash =
     \<lparr>MessageType = Some (NetworkMessage_PeerListRequest \<lparr>plr_FileHash = fileHash\<rparr>)\<rparr>"

definition BuildHeartbeatMessage :: "int \<Rightarrow> NetworkMessage" where
  "BuildHeartbeatMessage timestamp =
     \<lparr>MessageType = Some (NetworkMessage_Heartbeat \<lparr>hb_Timestamp = timestamp\<rparr>)\<rparr>"

definition BuildLogMessage :: "string \<Rightarrow> NetworkMessage" where
  "BuildLogMessage msg = \<lparr>MessageType = Some (NetworkMessage_Log \<lparr>lm_Message = msg\<rparr>)\<rparr>"

definition BuildIntroductionMessage :: "string \<Rightarrow> int list \<Rightarrow> NetworkMessage" where
  "BuildIntroductionMessage fileHash chunksMap =
     \<lparr>MessageType = Some (NetworkMessage_Introduction
       \<lparr>im_FileHash = fileHash, im_ChunksMap = chunksMap\<rparr>)\<rparr>"

definition BuildChunkRequestMessage :: "string \<Rightarrow> int \<Rightarrow> NetworkMessage" where
  "BuildChunkRequestMessage fileHash chunkIndex =
     \<lparr>MessageType = Some (NetworkMessage_ChunkRequest
       \<lparr>cr_FileHash = fileHash, cr_ChunkIndex = chunkIndex, cr_ChunkHash = []\<rparr>)\<rparr>"

definition BuildChunkResponseMessage :: "string \<Rightarrow> int \<Rightarrow> bytes \<Rightarrow> NetworkMessage" where
  "BuildChunkResponseMessage fileHash chunkIndex data =
     \<lparr>MessageType = Some (NetworkMessage_ChunkResponse
       \<lparr>cs_FileHash = fileHash, cs_ChunkIndex = chunkIndex, cs_ChunkData = data\<rparr>)\<rparr>"

lemmas builders [simp] =
  BuildSignalingOfferMessage_def BuildSignalingAnswerMessage_def BuildAnnounceMessage_def
  BuildPeerListRequestMessage_def BuildHeartbeatMessage_def BuildLogMessage_def
  BuildIntroductionMessage_def BuildChunkRequestMessage_def BuildChunkResponseMessage_def

text \<open>An ICE candidate's line index survives the widening to uint32 and the narrowing back.\<close>

lemma mline_index_round_trip: "(ucast (ucast (w :: 16 word) :: 32 word) :: 16 word) = w"
  by (rule bit_word_eqI) (simp add: bit_ucast_iff)

lemmas build_defs =
  BuildAnnounceMessage_def BuildHeartbeatMessage_def BuildPeerListRequestMessage_def BuildLogMessage_def
  BuildSignalingOfferMessage_def BuildSignalingAnswerMessage_def BuildICECandidateMessage_def
  BuildIntroductionMessage_def BuildChunkRequestMessage_def BuildChunkResponseMessage_def

end
