(* ===== verification/Router.thy ===== *)
theory Router
  imports Wire
begin

text \<open>
  internal/shared/prouter/prouter.go and internal/shared/utils/utils.go: messages framed by
  a 32-bit big-endian length on a byte stream, the listening loop that decodes frames and
  sends each message to the channels whose route matches it, and the bounded channels
  themselves. The protobuf codec is a parameter (\<open>marshal\<close>, \<open>unmarshal\<close>).
\<close>

section \<open>The length prefix\<close>

definition be32 :: "32 word \<Rightarrow> bytes" where
  "be32 w = (let n = unat w in
     [char_of (n div 2 ^ 24), char_of (n div 2 ^ 16), char_of (n div 2 ^ 8), char_of n])"

fun of_be32 :: "bytes \<Rightarrow> 32 word" where
  "of_be32 [a, b, c, d] =
     word_of_nat (((of_char a * 256 + of_char b) * 256 + of_char c) * 256 + of_char d)"
| "of_be32 bs = 0"

lemma length_be32 [simp]: "length (be32 w) = 4"
  by (simp add: be32_def Let_def)

lemma be32_digits:
  "n < 2 ^ 32 \<Longrightarrow>
   ((n div 2 ^ 24 mod 256 * 256 + n div 2 ^ 16 mod 256) * 256 + n div 2 ^ 8 mod 256) * 256 + n mod 256 = (n :: nat)"
proof -
  assume n: "n < 2 ^ 32"
  have d: "n div 2 ^ 16 = n div 2 ^ 8 div 256" "n div 2 ^ 24 = n div 2 ^ 8 div 256 div 256"
    by (simp_all flip: div_mult2_eq)
  have "n div 2 ^ 8 div 256 div 256 < 256" using n by (simp flip: div_mult2_eq add: less_mult_imp_div_less)
  then show ?thesis unfolding d by simp
qed

lemma of_be32_be32 [simp]: "of_be32 (be32 w) = w"
proof -
  have n: "unat w < 2 ^ 32" using unsigned_less [where ?'a = nat, of w] by simp
  show ?thesis
    unfolding be32_def Let_def of_be32.simps of_char_of be32_digits [OF n] by simp
qed

definition frame :: "bytes \<Rightarrow> bytes" where
  "frame data = be32 (word_of_nat (length data)) @ data"

lemma frame_nonempty [simp]: "frame d \<noteq> []"
  by (simp add: frame_def flip: length_0_conv)

section \<open>Writing\<close>

text \<open>
  A connection's outgoing stream. Each Write either succeeds or fails after a prefix of its
  bytes was sent; the schedule says which, and every Write succeeds once it is used up.
\<close>

record wconn =
  w_out :: bytes
  w_sched :: "nat option list"

datatype send_error = MarshalError | WriteError

definition conn_write :: "bytes \<Rightarrow> wconn \<Rightarrow> bool \<times> wconn" where
  "conn_write bs c =
     (case w_sched c of
        [] \<Rightarrow> (True, c\<lparr>w_out := w_out c @ bs\<rparr>)
      | None # rest \<Rightarrow> (True, c\<lparr>w_out := w_out c @ bs, w_sched := rest\<rparr>)
      | Some n # rest \<Rightarrow> (False, c\<lparr>w_out := w_out c @ take n bs, w_sched := rest\<rparr>))"

definition WriteMessage ::
  "(NetworkMessage \<Rightarrow> bytes option) \<Rightarrow> NetworkMessage \<Rightarrow> wconn \<Rightarrow> (send_error + unit) \<times> wconn" where
  "WriteMessage marshal msg c =
     (case marshal msg of
        None \<Rightarrow> (Inl MarshalError, c)
      | Some data \<Rightarrow>
          let msgLen = word_of_nat (length data)
          in (case conn_write (be32 msgLen) c of
                (False, c1) \<Rightarrow> (Inl WriteError, c1)
              | (True, c1) \<Rightarrow>
                  (case conn_write data c1 of
                     (False, c2) \<Rightarrow> (Inl WriteError, c2)
                   | (True, c2) \<Rightarrow> (Inr (), c2))))"

text \<open>utils.SendNetMsg writes the same frame on a bare connection.\<close>

definition SendNetMsg ::
  "(NetworkMessage \<Rightarrow> bytes option) \<Rightarrow> NetworkMessage \<Rightarrow> wconn \<Rightarrow> (send_error + unit) \<times> wconn" where
  "SendNetMsg marshal msg c =
     (case marshal msg of
        None \<Rightarrow> (Inl MarshalError, c)
      | Some data \<Rightarrow>
          let msgLen = word_of_nat (length data)
          in (case conn_write (be32 msgLen) c of
                (False, c1) \<Rightarrow> (Inl WriteError, c1)
              | (True, c1) \<Rightarrow>
                  (case conn_write data c1 of
                     (False, c2) \<Rightarrow> (Inl WriteError, c2)
                   | (True, c2) \<Rightarrow> (Inr (), c2))))"

definition SendAnnounceMsg ::
  "(NetworkMessage \<Rightarrow> bytes option) \<Rightarrow> AnnounceMessage \<Rightarrow> wconn \<Rightarrow> (send_error + unit) \<times> wconn" where
  "SendAnnounceMsg marshal msg = SendNetMsg marshal \<lparr>MessageType = Some (NetworkMessage_Announce msg)\<rparr>"

definition SendPeerListRequestMsg ::
  "(NetworkMessage \<Rightarrow> bytes option) \<Rightarrow> PeerListRequest \<Rightarrow> wconn \<Rightarrow> (send_error + unit) \<times> wconn" where
  "SendPeerListRequestMsg marshal msg =
     SendNetMsg marshal \<lparr>MessageType = Some (NetworkMessage_PeerListRequest msg)\<rparr>"

definition SendIntroductionMsg ::
  "(NetworkMessage \<Rightarrow> bytes option) \<Rightarrow> IntroductionMessage \<Rightarrow> wconn \<Rightarrow> (send_error + unit) \<times> wconn" where
  "SendIntroductionMsg marshal msg =
     SendNetMsg marshal \<lparr>MessageType = Some (NetworkMessage_Introduction msg)\<rparr>"

lemma conn_write_ok: "conn_write bs c = (True, c') \<Longrightarrow> w_out c' = w_out c @ bs"
  by (auto simp: conn_write_def split: list.splits option.splits)

lemma conn_write_prefix: "conn_write bs c = (b, c') \<Longrightarrow> \<exists>n. w_out c' = w_out c @ take n bs"
  by (cases b) (auto simp: conn_write_def split: list.splits option.splits intro: exI [of _ "length bs"])

lemma WriteMessage_ok:
  "WriteMessage marshal msg c = (Inr u, c') \<Longrightarrow>
   \<exists>data. marshal msg = Some data \<and> w_out c' = w_out c @ frame data"
  by (auto simp: WriteMessage_def Let_def frame_def dest!: conn_write_ok
      split: option.splits prod.splits bool.splits)

lemma SendNetMsg_eq: "SendNetMsg = WriteMessage"
  by (simp add: SendNetMsg_def WriteMessage_def fun_eq_iff)

section \<open>Reading\<close>

datatype read_error = StreamEOF | StreamShort

definition ReadFull :: "nat \<Rightarrow> bytes \<Rightarrow> read_error + bytes \<times> bytes" where
  "ReadFull n input =
     (if n \<le> length input then Inr (take n input, drop n input)
      else if input = [] then Inl StreamEOF
      else Inl StreamShort)"

section \<open>Routes\<close>

text \<open>The element type of a channel is one of the oneof wrappers.\<close>

datatype kind =
    KAnnounce | KPeerListRequest | KPeerListResponse | KHeartbeat | KGoodbye | KChunkRequest
  | KChunkResponse | KIntroduction | KSignalRegister | KSignalDownload | KSignaling | KId | KLog

fun kind_of :: "message_type \<Rightarrow> kind" where
  "kind_of (NetworkMessage_Announce _) = KAnnounce"
| "kind_of (NetworkMessage_PeerListRequest _) = KPeerListRequest"
| "kind_of (NetworkMessage_PeerListResponse _) = KPeerListResponse"
| "kind_of (NetworkMessage_Heartbeat _) = KHeartbeat"
| "kind_of (NetworkMessage_Goodbye _) = KGoodbye"
| "kind_of (NetworkMessage_ChunkRequest _) = KChunkRequest"
| "kind_of (NetworkMessage_ChunkResponse _) = KChunkResponse"
| "kind_of (NetworkMessage_Introduction _) = KIntroduction"
| "kind_of (NetworkMessage_SignalRegister _) = KSignalRegister"
| "kind_of (NetworkMessage_SignalDownload _) = KSignalDownload"
| "kind_of (NetworkMessage_Signaling _) = KSignaling"
| "kind_of (NetworkMessage_Id _) = KId"
| "kind_of (NetworkMessage_Log _) = KLog"

datatype chan = Chan (chan_name: string) (chan_elem: kind)

type_synonym routes = "(chan, NetworkMessage \<Rightarrow> bool) gomap"

definition AddRoute :: "chan \<Rightarrow> (NetworkMessage \<Rightarrow> bool) \<Rightarrow> routes \<Rightarrow> routes" where
  "AddRoute ch matchFn rs = mput ch matchFn rs"

text \<open>The match functions the program registers: a type assertion on the oneof.\<close>

definition asserts :: "kind \<Rightarrow> NetworkMessage \<Rightarrow> bool" where
  "asserts k msg = (case MessageType msg of None \<Rightarrow> False | Some m \<Rightarrow> kind_of m = k)"

text \<open>
  A message with no oneof set has a nil interface there, and IsNil of the zero reflect
  value panics.
\<close>

definition routeMessage :: "routes \<Rightarrow> NetworkMessage \<Rightarrow> (chan \<times> message_type) list res" where
  "routeMessage rs msg =
     (case MessageType msg of
        None \<Rightarrow> Inl ReflectIsNilOnZeroValue
      | Some m \<Rightarrow> Inr [(ch, m). (ch, matchFn) \<leftarrow> rs, matchFn msg \<and> kind_of m = chan_elem ch])"

section \<open>The listening loop\<close>

text \<open>How the loop ends: at the end of the stream, at a truncated frame, or with a panic.\<close>

datatype listen_stop = StreamClosed | BadLength | BadBody | Panicked stop

definition listen_once ::
  "(bytes \<Rightarrow> NetworkMessage option) \<Rightarrow> routes \<Rightarrow> bytes \<Rightarrow>
   listen_stop + (chan \<times> message_type) list \<times> bytes" where
  "listen_once unmarshal rs input =
     (case ReadFull 4 input of
        Inl StreamEOF \<Rightarrow> Inl StreamClosed
      | Inl StreamShort \<Rightarrow> Inl BadLength
      | Inr (hdr, rest) \<Rightarrow>
          (case ReadFull (unat (of_be32 hdr)) rest of
             Inl e \<Rightarrow> Inl BadBody
           | Inr (msgBytes, rest') \<Rightarrow>
               (case unmarshal msgBytes of
                  None \<Rightarrow> Inr ([], rest')
                | Some msg \<Rightarrow>
                    (case routeMessage rs msg of
                       Inl p \<Rightarrow> Inl (Panicked p)
                     | Inr sends \<Rightarrow> Inr (sends, rest')))))"

lemma ReadFull_length: "ReadFull n input = Inr (a, b) \<Longrightarrow> length b + n = length input"
  by (auto simp: ReadFull_def split: if_splits)

lemma listen_once_length: "listen_once u rs input = Inr (sends, rest) \<Longrightarrow> length rest < length input"
  by (auto simp: listen_once_def dest!: ReadFull_length
      split: sum.splits read_error.splits prod.splits option.splits)

function listen ::
  "(bytes \<Rightarrow> NetworkMessage option) \<Rightarrow> routes \<Rightarrow> bytes \<Rightarrow> (chan \<times> message_type) list \<times> listen_stop" where
  "listen unmarshal rs input =
     (case listen_once unmarshal rs input of
        Inl e \<Rightarrow> ([], e)
      | Inr (sends, rest) \<Rightarrow> (case listen unmarshal rs rest of (l, e) \<Rightarrow> (sends @ l, e)))"
  by pat_completeness auto
termination
  by (relation "measure (\<lambda>(u, rs, input). length input)") (auto dest: listen_once_length)

declare listen.simps [simp del]

text \<open>utils.UnsafeReceiveNetMsg: an end of stream at the length is not an error, the length stays 0.\<close>

definition UnsafeReceiveNetMsg ::
  "(bytes \<Rightarrow> NetworkMessage option) \<Rightarrow> bytes \<Rightarrow> (unit + NetworkMessage) \<times> bytes" where
  "UnsafeReceiveNetMsg unmarshal input =
     (case (case ReadFull 4 input of
              Inl StreamEOF \<Rightarrow> Some (0, input)
            | Inl StreamShort \<Rightarrow> None
            | Inr (hdr, rest) \<Rightarrow> Some (of_be32 hdr, rest)) of
        None \<Rightarrow> (Inl (), [])
      | Some (msgLen, rest) \<Rightarrow>
          (case ReadFull (unat msgLen) rest of
             Inl e \<Rightarrow> (Inl (), [])
           | Inr (data, rest') \<Rightarrow>
               (case unmarshal data of
                  None \<Rightarrow> (Inl (), rest')
                | Some netMsg \<Rightarrow> (Inr netMsg, rest'))))"

end
