(* ===== verification/RouterInv.thy ===== *)
theory RouterInv
  imports Router "HOL-Library.Sublist"
begin

text \<open>
  What the message router guarantees: frames written one after another are decoded into the
  same messages in the same order; a router with bounded channels and a slow consumer drops
  and reorders nothing; and what happens to interleaved frames and to an empty message.
\<close>

section \<open>Decoding frames\<close>

lemma ReadFull_append: "n = length a \<Longrightarrow> ReadFull n (a @ b) = Inr (a, b)"
  by (simp add: ReadFull_def)

lemma unat_length [simp]: "length d < 2 ^ 32 \<Longrightarrow> unat (word_of_nat (length d) :: 32 word) = length d"
  by (simp add: unat_of_nat)

lemma listen_once_frame:
  assumes "length data < 2 ^ 32"
  shows "listen_once u rs (frame data @ rest) =
    (case u data of
       None \<Rightarrow> Inr ([], rest)
     | Some msg \<Rightarrow> (case routeMessage rs msg of Inl p \<Rightarrow> Inl (Panicked p) | Inr sends \<Rightarrow> Inr (sends, rest)))"
  using assms by (simp add: listen_once_def frame_def ReadFull_append)

lemma listen_Nil [simp]: "listen u rs [] = ([], StreamClosed)"
  by (simp add: listen.simps listen_once_def ReadFull_def)

text \<open>What one decoded message adds to the channels; an undecodable frame adds nothing.\<close>

definition sends_of :: "routes \<Rightarrow> message_type \<Rightarrow> (chan \<times> message_type) list" where
  "sends_of rs m = [(ch, m). (ch, f) \<leftarrow> rs, f \<lparr>MessageType = Some m\<rparr> \<and> kind_of m = chan_elem ch]"

lemma routeMessage_Some: "routeMessage rs \<lparr>MessageType = Some m\<rparr> = Inr (sends_of rs m)"
  by (simp add: routeMessage_def sends_of_def)

lemma listen_step:
  "listen_once u rs input = Inr (sends, rest) \<Longrightarrow>
   listen u rs input = (sends @ fst (listen u rs rest), snd (listen u rs rest))"
  by (subst listen.simps) (simp add: split_beta)

lemma listen_stop: "listen_once u rs input = Inl e \<Longrightarrow> listen u rs input = ([], e)"
  by (subst listen.simps) simp

lemma listen_frames:
  assumes "\<forall>(d, m) \<in> set dms. length d < 2 ^ 32 \<and> u d = Some \<lparr>MessageType = Some m\<rparr>"
  shows "listen u rs (concat (map (\<lambda>(d, m). frame d) dms) @ rest) =
    (concat (map (\<lambda>(d, m). sends_of rs m) dms) @ fst (listen u rs rest), snd (listen u rs rest))"
  using assms
proof (induction dms)
  case (Cons dm dms)
  obtain d m where dm: "dm = (d, m)" by (cases dm)
  let ?rest = "concat (map (\<lambda>(d, m). frame d) dms) @ rest"
  have "listen_once u rs (frame d @ ?rest) = Inr (sends_of rs m, ?rest)"
    using Cons.prems dm by (simp add: listen_once_frame routeMessage_Some)
  from listen_step [OF this] show ?case
    using Cons by (simp add: dm)
qed simp

section \<open>A sequence of messages on one connection\<close>

text \<open>
  What the code relies on of the protobuf library: what it encodes it decodes again, and
  it encodes nothing of 2 GiB or more.
\<close>

definition codec_ok :: "(NetworkMessage \<Rightarrow> bytes option) \<Rightarrow> (bytes \<Rightarrow> NetworkMessage option) \<Rightarrow> bool" where
  "codec_ok marshal unmarshal \<longleftrightarrow>
     (\<forall>m d. marshal m = Some d \<longrightarrow> length d < 2 ^ 31 \<and> unmarshal d = Some m)"

fun write_all ::
  "(NetworkMessage \<Rightarrow> bytes option) \<Rightarrow> message_type list \<Rightarrow> wconn \<Rightarrow> (send_error + unit) \<times> wconn" where
  "write_all marshal [] c = (Inr (), c)"
| "write_all marshal (m # ms) c =
     (case WriteMessage marshal \<lparr>MessageType = Some m\<rparr> c of
        (Inl e, c') \<Rightarrow> (Inl e, c')
      | (Inr u, c') \<Rightarrow> write_all marshal ms c')"

lemma write_all_frames:
  assumes "codec_ok marshal unmarshal" "write_all marshal ms c = (Inr u, c')"
  shows "\<exists>ds. length ds = length ms \<and> w_out c' = w_out c @ concat (map frame ds) \<and>
    (\<forall>(d, m) \<in> set (zip ds ms). length d < 2 ^ 32 \<and> unmarshal d = Some \<lparr>MessageType = Some m\<rparr>)"
  using assms(2)
proof (induction ms arbitrary: c)
  case (Cons m ms)
  obtain r c1 where w: "WriteMessage marshal \<lparr>MessageType = Some m\<rparr> c = (r, c1)"
    by (cases "WriteMessage marshal \<lparr>MessageType = Some m\<rparr> c")
  then obtain v where r: "r = Inr v" and rest: "write_all marshal ms c1 = (Inr u, c')"
    using Cons.prems by (auto split: sum.splits)
  obtain d where d: "marshal \<lparr>MessageType = Some m\<rparr> = Some d" "w_out c1 = w_out c @ frame d"
    using WriteMessage_ok [OF w [unfolded r]] by blast
  then have ok: "length d < 2 ^ 32" "unmarshal d = Some \<lparr>MessageType = Some m\<rparr>"
    using assms(1) unfolding codec_ok_def by fastforce+
  obtain ds where ds: "length ds = length ms" "w_out c' = w_out c1 @ concat (map frame ds)"
    "\<forall>(d, m) \<in> set (zip ds ms). length d < 2 ^ 32 \<and> unmarshal d = Some \<lparr>MessageType = Some m\<rparr>"
    using Cons.IH [OF rest] by blast
  have "length (d # ds) = length (m # ms) \<and> w_out c' = w_out c @ concat (map frame (d # ds)) \<and>
    (\<forall>(d, m) \<in> set (zip (d # ds) (m # ms)). length d < 2 ^ 32 \<and> unmarshal d = Some \<lparr>MessageType = Some m\<rparr>)"
    using ds d(2) ok by simp
  then show ?case by blast
qed simp

section \<open>The router with bounded channels\<close>

text \<open>
  The listening goroutine, the channels it sends to (of capacity 100 everywhere in the
  program) and the goroutines that receive from them. \<open>rt_taken\<close> records, per channel, what
  has been received. A send waits while its channel is full.
\<close>

definition chan_cap :: nat where
  "chan_cap = 100"

record router_state =
  rt_input :: bytes
  rt_pending :: "(chan \<times> message_type) list"
  rt_queue :: "chan \<Rightarrow> message_type list"
  rt_taken :: "chan \<Rightarrow> message_type list"
  rt_stopped :: "listen_stop option"

definition router_init :: "bytes \<Rightarrow> router_state" where
  "router_init input =
     \<lparr>rt_input = input, rt_pending = [], rt_queue = (\<lambda>_. []), rt_taken = (\<lambda>_. []), rt_stopped = None\<rparr>"

inductive router_step ::
  "(bytes \<Rightarrow> NetworkMessage option) \<Rightarrow> routes \<Rightarrow> router_state \<Rightarrow> router_state \<Rightarrow> bool"
  for u :: "bytes \<Rightarrow> NetworkMessage option" and rs :: routes where
  read: "rt_pending s = [] \<Longrightarrow> rt_stopped s = None \<Longrightarrow> listen_once u rs (rt_input s) = Inr (sends, rest) \<Longrightarrow>
    router_step u rs s (s\<lparr>rt_input := rest, rt_pending := sends\<rparr>)"
| stop: "rt_pending s = [] \<Longrightarrow> rt_stopped s = None \<Longrightarrow> listen_once u rs (rt_input s) = Inl e \<Longrightarrow>
    router_step u rs s (s\<lparr>rt_stopped := Some e\<rparr>)"
| send: "rt_pending s = (ch, m) # ps \<Longrightarrow> length (rt_queue s ch) < chan_cap \<Longrightarrow>
    router_step u rs s (s\<lparr>rt_pending := ps, rt_queue := (rt_queue s)(ch := rt_queue s ch @ [m])\<rparr>)"
| take: "rt_queue s ch = m # q \<Longrightarrow>
    router_step u rs s (s\<lparr>rt_queue := (rt_queue s)(ch := q), rt_taken := (rt_taken s)(ch := rt_taken s ch @ [m])\<rparr>)"

definition on_chan :: "chan \<Rightarrow> (chan \<times> message_type) list \<Rightarrow> message_type list" where
  "on_chan ch xs = map snd (filter (\<lambda>x. fst x = ch) xs)"

lemma on_chan_simps [simp]:
  "on_chan ch [] = []"
  "on_chan ch ((c, m) # xs) = (if c = ch then m # on_chan ch xs else on_chan ch xs)"
  "on_chan ch (xs @ ys) = on_chan ch xs @ on_chan ch ys"
  by (simp_all add: on_chan_def)

definition router_inv :: "(bytes \<Rightarrow> NetworkMessage option) \<Rightarrow> routes \<Rightarrow> bytes \<Rightarrow> router_state \<Rightarrow> bool" where
  "router_inv u rs input s \<longleftrightarrow>
     (\<forall>ch. length (rt_queue s ch) \<le> chan_cap) \<and>
     (rt_stopped s \<noteq> None \<longrightarrow> rt_pending s = [] \<and> listen u rs (rt_input s) = ([], the (rt_stopped s))) \<and>
     snd (listen u rs (rt_input s)) = snd (listen u rs input) \<and>
     (\<forall>ch. rt_taken s ch @ rt_queue s ch @ on_chan ch (rt_pending s) @ on_chan ch (fst (listen u rs (rt_input s)))
        = on_chan ch (fst (listen u rs input)))"

lemma router_inv_init: "router_inv u rs input (router_init input)"
  by (simp add: router_inv_def router_init_def)

lemma router_inv_step: "router_inv u rs input s \<Longrightarrow> router_step u rs s t \<Longrightarrow> router_inv u rs input t"
proof -
  assume inv: "router_inv u rs input s" and step: "router_step u rs s t"
  have cap: "length (rt_queue s ch) \<le> chan_cap" for ch using inv by (simp add: router_inv_def)
  have eq: "rt_taken s ch @ rt_queue s ch @ on_chan ch (rt_pending s) @ on_chan ch (fst (listen u rs (rt_input s)))
      = on_chan ch (fst (listen u rs input))" for ch using inv by (simp add: router_inv_def)
  from step show ?thesis
  proof cases
    case (send ch m ps)
    have "rt_taken t c @ rt_queue t c @ on_chan c (rt_pending t) @ on_chan c (fst (listen u rs (rt_input t)))
        = on_chan c (fst (listen u rs input))" for c
      using eq [of c] send by auto
    then show ?thesis using inv send cap by (auto simp: router_inv_def)
  next
    case (take ch m q)
    have "rt_taken t c @ rt_queue t c @ on_chan c (rt_pending t) @ on_chan c (fst (listen u rs (rt_input t)))
        = on_chan c (fst (listen u rs input))" for c
      using eq [of c] take by auto
    moreover have "length q \<le> chan_cap" using cap [of ch] take by simp
    ultimately show ?thesis using inv take cap by (auto simp: router_inv_def)
  qed (use inv in \<open>auto simp: router_inv_def listen_step listen_stop\<close>)
qed

interpretation router: invariant_system "\<lambda>s. s = router_init input" "router_step u rs" "router_inv u rs input"
  for u rs input
  by unfold_locales (auto intro: router_inv_init router_inv_step)

inductive_simps router_stuck_simps: "router_step u rs s t"

section \<open>Properties of the router\<close>

lemma map_zip_sides:
  assumes "length xs = length ys"
  shows "map (\<lambda>(x, y). f x) (zip xs ys) = map f xs" and "map (\<lambda>(x, y). g y) (zip xs ys) = map g ys"
  using assms by (induction xs ys rule: list_induct2) simp_all

lemma be32_zero: "be32 0 = replicate 4 (CHR 0x00)"
proof -
  have "be32 0 = [CHR 0x00, CHR 0x00, CHR 0x00, CHR 0x00]" by (simp add: be32_def char_of_def)
  also have "\<dots> = replicate 4 (CHR 0x00)" by (simp add: numeral_eq_Suc)
  finally show ?thesis .
qed

lemma listen_written:
  assumes "codec_ok marshal unmarshal" "write_all marshal ms c = (Inr u, c')" "w_out c = []"
  shows "listen unmarshal rs (w_out c') = (concat (map (sends_of rs) ms), StreamClosed)"
proof -
  obtain ds where ds: "length ds = length ms" "w_out c' = concat (map frame ds)"
    "\<forall>(d, m) \<in> set (zip ds ms). length d < 2 ^ 32 \<and> unmarshal d = Some \<lparr>MessageType = Some m\<rparr>"
    using write_all_frames [OF assms(1,2)] assms(3) by auto
  have "map (\<lambda>(d, m). frame d) (zip ds ms) = map frame ds"
    "map (\<lambda>(d, m). sends_of rs m) (zip ds ms) = map (sends_of rs) ms"
    using ds(1) by (rule map_zip_sides)+
  then show ?thesis using listen_frames [OF ds(3), of rs "[]"] ds(2) by simp
qed

text \<open>C27: messages written one after another on a connection, each write succeeding, are all
  delivered by the listening loop at the other end, in order, each to the channels whose route
  matches it, and the loop then ends with the stream.\<close>

theorem written_messages_arrive:
  assumes "codec_ok marshal unmarshal" "write_all marshal ms c = (Inr u, c')" "w_out c = []"
  shows "listen unmarshal rs (w_out c') = (concat (map (sends_of rs) ms), StreamClosed)"
  by (rule listen_written [OF assms])

definition sample_marshal :: "NetworkMessage \<Rightarrow> bytes option" where
  "sample_marshal m =
     (if m = BuildHeartbeatMessage 7 then Some ''hb''
      else if m = BuildLogMessage ''done'' then Some ''log'' else None)"

definition sample_unmarshal :: "bytes \<Rightarrow> NetworkMessage option" where
  "sample_unmarshal d =
     (if d = ''hb'' then Some (BuildHeartbeatMessage 7)
      else if d = ''log'' then Some (BuildLogMessage ''done'')
      else if d = [] then Some \<lparr>MessageType = None\<rparr> else None)"

lemma sample_codec_ok: "codec_ok sample_marshal sample_unmarshal"
  by (auto simp: codec_ok_def sample_marshal_def sample_unmarshal_def)

definition sample_routes :: routes where
  "sample_routes = AddRoute (Chan ''heartbeat'' KHeartbeat) (asserts KHeartbeat)
     (AddRoute (Chan ''log'' KLog) (asserts KLog) [])"

theorem written_messages_arrive_witness:
  "listen sample_unmarshal sample_routes
     (w_out (snd (write_all sample_marshal
        [NetworkMessage_Heartbeat \<lparr>hb_Timestamp = 7\<rparr>, NetworkMessage_Log \<lparr>lm_Message = ''done''\<rparr>]
        \<lparr>w_out = [], w_sched = []\<rparr>)))
   = ([(Chan ''heartbeat'' KHeartbeat, NetworkMessage_Heartbeat \<lparr>hb_Timestamp = 7\<rparr>),
       (Chan ''log'' KLog, NetworkMessage_Log \<lparr>lm_Message = ''done''\<rparr>)], StreamClosed)"
proof -
  let ?ms = "[NetworkMessage_Heartbeat \<lparr>hb_Timestamp = 7\<rparr>, NetworkMessage_Log \<lparr>lm_Message = ''done''\<rparr>]"
  have "write_all sample_marshal ?ms \<lparr>w_out = [], w_sched = []\<rparr> =
      (Inr (), snd (write_all sample_marshal ?ms \<lparr>w_out = [], w_sched = []\<rparr>))"
    by (simp add: WriteMessage_def sample_marshal_def conn_write_def)
  from written_messages_arrive [OF sample_codec_ok this] show ?thesis
    by (simp add: sample_routes_def AddRoute_def sends_of_def asserts_def)
qed

text \<open>C28: whatever the speed of the goroutines that receive from them, the channels of a router
  hold at most 100 messages each and nothing is dropped or reordered: what was taken from a channel
  is always a prefix of what the stream carries for it, and all of it once the router has stopped
  and the channel is empty.\<close>

theorem router_drops_nothing:
  assumes "(router_step u rs)\<^sup>*\<^sup>* (router_init input) s"
  shows "length (rt_queue s ch) \<le> chan_cap \<and>
    prefix (rt_taken s ch) (on_chan ch (fst (listen u rs input))) \<and>
    (rt_stopped s \<noteq> None \<longrightarrow> rt_queue s ch = [] \<longrightarrow> rt_taken s ch = on_chan ch (fst (listen u rs input)))"
proof -
  have inv: "router_inv u rs input s" by (rule router.reachable_inv [OF refl assms])
  have "rt_taken s ch @ rt_queue s ch @ on_chan ch (rt_pending s) @ on_chan ch (fst (listen u rs (rt_input s)))
      = on_chan ch (fst (listen u rs input))" using inv by (simp add: router_inv_def)
  then have "prefix (rt_taken s ch) (on_chan ch (fst (listen u rs input)))" by (metis prefixI)
  moreover have "rt_taken s ch = on_chan ch (fst (listen u rs input))"
    if "rt_stopped s \<noteq> None" "rt_queue s ch = []"
  proof -
    have "rt_pending s = []" "fst (listen u rs (rt_input s)) = []"
      using inv that(1) by (auto simp: router_inv_def)
    then show ?thesis using inv that(2) unfolding router_inv_def by (metis append_Nil append_Nil2 on_chan_simps(1))
  qed
  ultimately show ?thesis using inv unfolding router_inv_def by blast
qed

theorem router_drops_nothing_witness:
  "prefix (rt_taken ((router_init (frame ''hb''))\<lparr>rt_input := [],
       rt_pending := [(Chan ''heartbeat'' KHeartbeat, NetworkMessage_Heartbeat \<lparr>hb_Timestamp = 7\<rparr>)]\<rparr>)
     (Chan ''heartbeat'' KHeartbeat))
   (on_chan (Chan ''heartbeat'' KHeartbeat) (fst (listen sample_unmarshal sample_routes (frame ''hb''))))"
proof -
  have "listen_once sample_unmarshal sample_routes (rt_input (router_init (frame ''hb'')))
      = Inr ([(Chan ''heartbeat'' KHeartbeat, NetworkMessage_Heartbeat \<lparr>hb_Timestamp = 7\<rparr>)], [])"
    using listen_once_frame [of "''hb''" sample_unmarshal sample_routes "[]"]
    by (simp add: router_init_def sample_unmarshal_def routeMessage_def sample_routes_def AddRoute_def asserts_def)
  from router_step.read [OF _ _ this]
  have "router_step sample_unmarshal sample_routes (router_init (frame ''hb''))
    ((router_init (frame ''hb''))\<lparr>rt_input := [],
       rt_pending := [(Chan ''heartbeat'' KHeartbeat, NetworkMessage_Heartbeat \<lparr>hb_Timestamp = 7\<rparr>)]\<rparr>)"
    by (simp add: router_init_def)
  from router_drops_nothing [OF r_into_rtranclp [of "router_step sample_unmarshal sample_routes", OF this]]
  show ?thesis by blast
qed



text \<open>An empty frame, four zero bytes, stops the listening goroutine with a panic wherever it
  stands in the stream, when the empty encoding decodes to the message with no oneof set.\<close>

theorem empty_frame_panics:
  assumes "\<forall>(d, m) \<in> set dms. length d < 2 ^ 32 \<and> unmarshal d = Some \<lparr>MessageType = Some m\<rparr>"
    and "unmarshal [] = Some \<lparr>MessageType = None\<rparr>"
  shows "listen unmarshal rs (concat (map (\<lambda>(d, m). frame d) dms) @ replicate 4 (CHR 0x00) @ rest) =
    (concat (map (\<lambda>(d, m). sends_of rs m) dms), Panicked ReflectIsNilOnZeroValue)"
proof -
  have z: "replicate 4 (CHR 0x00) @ rest = frame [] @ rest"
    by (simp add: frame_def be32_zero)
  have "listen_once unmarshal rs (frame [] @ rest) = Inl (Panicked ReflectIsNilOnZeroValue)"
    using assms(2) by (simp add: listen_once_frame routeMessage_def)
  from listen_stop [OF this] show ?thesis
    unfolding z using listen_frames [OF assms(1), of rs "frame [] @ rest"] by simp
qed

theorem empty_frame_panics_witness:
  "snd (listen sample_unmarshal sample_routes (frame ''hb'' @ replicate 4 (CHR 0x00) @ ''rest''))
   = Panicked ReflectIsNilOnZeroValue"
  using empty_frame_panics [of "[(''hb'', NetworkMessage_Heartbeat \<lparr>hb_Timestamp = 7\<rparr>)]" sample_unmarshal
      sample_routes "''rest''"]
  by (simp add: sample_unmarshal_def)

text \<open>Two goroutines that write a message each on the same connection, their two Write calls
  interleaved header, header, body, body, give the reader a first frame whose body starts with the
  second header instead of the first body.\<close>

theorem interleaved_writes_are_misread:
  assumes "length d1 < 2 ^ 32"
  shows "listen_once unmarshal rs (be32 (word_of_nat (length d1)) @ be32 (word_of_nat (length d2)) @ d1 @ d2) =
    (let body = be32 (word_of_nat (length d2)) @ d1 @ d2;
         rest = drop (length d1) body
     in case unmarshal (take (length d1) body) of
          None \<Rightarrow> Inr ([], rest)
        | Some msg \<Rightarrow>
            (case routeMessage rs msg of Inl p \<Rightarrow> Inl (Panicked p) | Inr sends \<Rightarrow> Inr (sends, rest)))"
proof -
  let ?body = "be32 (word_of_nat (length d2)) @ d1 @ d2"
  have len: "length (take (length d1) ?body) = length d1" by simp
  have "be32 (word_of_nat (length d1)) @ ?body = frame (take (length d1) ?body) @ drop (length d1) ?body"
    unfolding frame_def len by (simp only: append_assoc append_take_drop_id)
  then show ?thesis using listen_once_frame [of "take (length d1) ?body"] assms len by (simp only: Let_def)
qed

theorem interleaved_writes_are_misread_witness:
  "listen_once sample_unmarshal sample_routes (be32 2 @ be32 3 @ ''hb'' @ ''log'') =
   Inr ([], drop (length ''hb'') (be32 3 @ ''hb'' @ ''log''))"
proof -
  have "sample_unmarshal (take (Suc (Suc 0)) (be32 3 @ ''hb'' @ ''log'')) = None"
    by (simp add: be32_def sample_unmarshal_def char_of_def)
  then show ?thesis
    using interleaved_writes_are_misread [of "''hb''" sample_unmarshal sample_routes "''log''"]
    by (simp add: Let_def)
qed

end
