(* ===== verification/Database.thy ===== *)
theory Database
  imports Prelude
begin

text \<open>
  The SQLite database of the daemon and of the tracker: the row types of
  internal/db/models.go, the tables and constraints of internal/db/schema.sql and
  the statements of internal/db/queries.sql.go, each with the meaning SQL gives it
  under those constraints. Rows are kept in the order of their ids. The engine is
  not part of the repository; what it may do is in \<open>slot\<close>: a statement can fail in
  the driver, and it runs on a pooled connection on which foreign keys are enforced
  or not (internal/db/connection.go issues the PRAGMA once, on one connection).
\<close>

section \<open>Rows\<close>

record file_row =
  f_ID :: int
  f_Name :: string
  f_Size :: int
  f_MaxChunkSize :: int
  f_TotalChunks :: int
  f_Hash :: string
  f_CreatedAt :: int

record chunk_row =
  c_ID :: int
  c_FileID :: int
  c_ChunkIndex :: int
  c_ChunkSize :: int
  c_ChunkHash :: string
  c_IsAvailable :: int

record peer_row =
  p_ID :: int
  p_IpAddress :: string
  p_Port :: string

record swarm_row =
  s_ID :: int
  s_PeerID :: int
  s_FileID :: int

section \<open>Tables\<close>

text \<open>
  The \<open>seq\<close> fields are the rows of sqlite_sequence: the largest id ever given out,
  which AUTOINCREMENT never reuses.
\<close>

record tables =
  files :: "file_row list"
  chunks :: "chunk_row list"
  peers :: "peer_row list"
  swarms :: "swarm_row list"
  seq_files :: int
  seq_chunks :: int
  seq_peers :: int
  seq_swarms :: int

definition empty_tables :: tables where
  "empty_tables =
     \<lparr>files = [], chunks = [], peers = [], swarms = [],
      seq_files = 0, seq_chunks = 0, seq_peers = 0, seq_swarms = 0\<rparr>"

datatype sql_error =
    ErrNoRows
  | UniqueViolation
  | ForeignKeyViolation
  | DatabaseFull
  | DriverError

type_synonym 'a sql_result = "sql_error + 'a"

text \<open>What the environment does with one statement.\<close>

datatype slot = DriverFault | OnConn bool

record sqldb =
  tables_of :: tables
  sched :: "slot list"

definition next_slot :: "sqldb \<Rightarrow> slot \<times> sqldb" where
  "next_slot c =
     (case sched c of
        [] \<Rightarrow> (OnConn True, c)
      | x # xs \<Rightarrow> (x, c\<lparr>sched := xs\<rparr>))"

definition run_stmt ::
  "(bool \<Rightarrow> tables \<Rightarrow> 'a sql_result \<times> tables) \<Rightarrow> sqldb \<Rightarrow> 'a sql_result \<times> sqldb" where
  "run_stmt stmt c =
     (case next_slot c of
        (DriverFault, c') \<Rightarrow> (Inl DriverError, c')
      | (OnConn fk, c') \<Rightarrow>
          (case stmt fk (tables_of c') of (r, t) \<Rightarrow> (r, c'\<lparr>tables_of := t\<rparr>)))"

text \<open>A query (SELECT) reads the tables only; \<open>Inl ErrNoRows\<close> is what QueryRow reports.\<close>

definition run_query :: "(tables \<Rightarrow> 'a sql_result) \<Rightarrow> sqldb \<Rightarrow> 'a sql_result \<times> sqldb" where
  "run_query q = run_stmt (\<lambda>fk t. (q t, t))"

fun first_row :: "'a list \<Rightarrow> 'a sql_result" where
  "first_row [] = Inl ErrNoRows"
| "first_row (r # rs) = Inr r"

text \<open>AUTOINCREMENT: the next id, unless the table has held the largest one.\<close>

definition next_id :: "int \<Rightarrow> int sql_result" where
  "next_id seq = (if seq \<ge> max_int64 then Inl DatabaseFull else Inr (seq + 1))"

section \<open>Statements on files\<close>

record CreateFileParams =
  cfp_Name :: string
  cfp_Size :: int
  cfp_MaxChunkSize :: int
  cfp_TotalChunks :: int
  cfp_Hash :: string
  cfp_CreatedAt :: int

definition insert_file :: "CreateFileParams \<Rightarrow> bool \<Rightarrow> tables \<Rightarrow> file_row sql_result \<times> tables" where
  "insert_file a fk t =
     (if \<exists>f \<in> set (files t). f_Hash f = cfp_Hash a then (Inl UniqueViolation, t)
      else (case next_id (seq_files t) of
              Inl e \<Rightarrow> (Inl e, t)
            | Inr i \<Rightarrow>
                let row = \<lparr>f_ID = i, f_Name = cfp_Name a, f_Size = cfp_Size a,
                           f_MaxChunkSize = cfp_MaxChunkSize a,
                           f_TotalChunks = cfp_TotalChunks a,
                           f_Hash = cfp_Hash a, f_CreatedAt = cfp_CreatedAt a\<rparr>
                in (Inr row, t\<lparr>files := files t @ [row], seq_files := i\<rparr>)))"

definition Q_CreateFile :: "CreateFileParams \<Rightarrow> sqldb \<Rightarrow> file_row sql_result \<times> sqldb" where
  "Q_CreateFile a = run_stmt (insert_file a)"

definition Q_GetAllFiles :: "sqldb \<Rightarrow> file_row list sql_result \<times> sqldb" where
  "Q_GetAllFiles = run_query (\<lambda>t. Inr (files t))"

definition select_file_by_hash :: "string \<Rightarrow> tables \<Rightarrow> file_row list" where
  "select_file_by_hash h t = filter (\<lambda>f. f_Hash f = h) (files t)"

definition Q_GetFileByHash :: "string \<Rightarrow> sqldb \<Rightarrow> file_row sql_result \<times> sqldb" where
  "Q_GetFileByHash h = run_query (\<lambda>t. first_row (select_file_by_hash h t))"

definition Q_GetFileByID :: "int \<Rightarrow> sqldb \<Rightarrow> file_row sql_result \<times> sqldb" where
  "Q_GetFileByID i = run_query (\<lambda>t. first_row (filter (\<lambda>f. f_ID f = i) (files t)))"

definition Q_GetFileNameByHash :: "string \<Rightarrow> sqldb \<Rightarrow> string sql_result \<times> sqldb" where
  "Q_GetFileNameByHash h = run_query (\<lambda>t. first_row (map f_Name (select_file_by_hash h t)))"

section \<open>Statements on chunks\<close>

record CreateChunkParams =
  ccp_FileID :: int
  ccp_ChunkIndex :: int
  ccp_ChunkSize :: int
  ccp_ChunkHash :: string
  ccp_IsAvailable :: int

definition insert_chunk :: "CreateChunkParams \<Rightarrow> bool \<Rightarrow> tables \<Rightarrow> chunk_row sql_result \<times> tables" where
  "insert_chunk a fk t =
     (if fk \<and> ccp_FileID a \<notin> f_ID ` set (files t) then (Inl ForeignKeyViolation, t)
      else (case next_id (seq_chunks t) of
              Inl e \<Rightarrow> (Inl e, t)
            | Inr i \<Rightarrow>
                let row = \<lparr>c_ID = i, c_FileID = ccp_FileID a, c_ChunkIndex = ccp_ChunkIndex a,
                           c_ChunkSize = ccp_ChunkSize a, c_ChunkHash = ccp_ChunkHash a,
                           c_IsAvailable = ccp_IsAvailable a\<rparr>
                in (Inr row, t\<lparr>chunks := chunks t @ [row], seq_chunks := i\<rparr>)))"

definition Q_CreateChunk :: "CreateChunkParams \<Rightarrow> sqldb \<Rightarrow> chunk_row sql_result \<times> sqldb" where
  "Q_CreateChunk a = run_stmt (insert_chunk a)"

definition join_chunks_files :: "string \<Rightarrow> tables \<Rightarrow> chunk_row list" where
  "join_chunks_files h t =
     concat (map (\<lambda>c. map (\<lambda>f. c) (filter (\<lambda>f. c_FileID c = f_ID f \<and> f_Hash f = h) (files t)))
       (chunks t))"

definition Q_GetChunk :: "string \<Rightarrow> int \<Rightarrow> sqldb \<Rightarrow> chunk_row sql_result \<times> sqldb" where
  "Q_GetChunk h i =
     run_query (\<lambda>t. first_row (filter (\<lambda>c. c_ChunkIndex c = i) (join_chunks_files h t)))"

definition select_chunks_by_hash :: "string \<Rightarrow> tables \<Rightarrow> chunk_row list" where
  "select_chunks_by_hash h t = sort_key c_ChunkIndex (join_chunks_files h t)"

definition Q_GetChunksByFileHash :: "string \<Rightarrow> sqldb \<Rightarrow> chunk_row list sql_result \<times> sqldb" where
  "Q_GetChunksByFileHash h = run_query (\<lambda>t. Inr (select_chunks_by_hash h t))"

definition Q_GetChunksByFileID :: "int \<Rightarrow> sqldb \<Rightarrow> chunk_row list sql_result \<times> sqldb" where
  "Q_GetChunksByFileID i =
     run_query (\<lambda>t. Inr (sort_key c_ChunkIndex (filter (\<lambda>c. c_FileID c = i) (chunks t))))"

definition update_available :: "string \<Rightarrow> int \<Rightarrow> bool \<Rightarrow> tables \<Rightarrow> unit sql_result \<times> tables" where
  "update_available h i fk t =
     (case first_row (select_file_by_hash h t) of
        Inl e \<Rightarrow> (Inr (), t)
      | Inr f \<Rightarrow>
          (Inr (), t\<lparr>chunks := map (\<lambda>c. if c_FileID c = f_ID f \<and> c_ChunkIndex c = i
                                       then c\<lparr>c_IsAvailable := 1\<rparr> else c) (chunks t)\<rparr>))"

definition Q_MarkChunkAvailable :: "string \<Rightarrow> int \<Rightarrow> sqldb \<Rightarrow> unit sql_result \<times> sqldb" where
  "Q_MarkChunkAvailable h i = run_stmt (update_available h i)"

section \<open>Statements on peers and swarms\<close>

definition insert_peer :: "string \<Rightarrow> string \<Rightarrow> bool \<Rightarrow> tables \<Rightarrow> peer_row sql_result \<times> tables" where
  "insert_peer ip port fk t =
     (if \<exists>p \<in> set (peers t). p_IpAddress p = ip \<and> p_Port p = port then (Inl UniqueViolation, t)
      else (case next_id (seq_peers t) of
              Inl e \<Rightarrow> (Inl e, t)
            | Inr i \<Rightarrow>
                let row = \<lparr>p_ID = i, p_IpAddress = ip, p_Port = port\<rparr>
                in (Inr row, t\<lparr>peers := peers t @ [row], seq_peers := i\<rparr>)))"

definition Q_CreatePeer :: "string \<Rightarrow> string \<Rightarrow> sqldb \<Rightarrow> peer_row sql_result \<times> sqldb" where
  "Q_CreatePeer ip port = run_stmt (insert_peer ip port)"

definition select_peer :: "string \<Rightarrow> string \<Rightarrow> tables \<Rightarrow> peer_row list" where
  "select_peer ip port t = filter (\<lambda>p. p_IpAddress p = ip \<and> p_Port p = port) (peers t)"

definition Q_GetPeerByIPPort :: "string \<Rightarrow> string \<Rightarrow> sqldb \<Rightarrow> peer_row sql_result \<times> sqldb" where
  "Q_GetPeerByIPPort ip port = run_query (\<lambda>t. first_row (select_peer ip port t))"

text \<open>
  Deleting peers deletes the swarm rows that reference them (ON DELETE CASCADE) on a
  connection that enforces foreign keys, and leaves them on one that does not.
\<close>

definition delete_peers :: "(peer_row \<Rightarrow> bool) \<Rightarrow> bool \<Rightarrow> tables \<Rightarrow> unit sql_result \<times> tables" where
  "delete_peers pr fk t =
     (let gone = p_ID ` set (filter pr (peers t));
          t' = t\<lparr>peers := filter (\<lambda>p. \<not> pr p) (peers t)\<rparr>
      in (Inr (), if fk then t'\<lparr>swarms := filter (\<lambda>s. s_PeerID s \<notin> gone) (swarms t)\<rparr> else t'))"

definition Q_DeletePeerByIPPort :: "string \<Rightarrow> string \<Rightarrow> sqldb \<Rightarrow> unit sql_result \<times> sqldb" where
  "Q_DeletePeerByIPPort ip port =
     run_stmt (delete_peers (\<lambda>p. p_IpAddress p = ip \<and> p_Port p = port))"

definition Q_DeleteAllPeers :: "sqldb \<Rightarrow> unit sql_result \<times> sqldb" where
  "Q_DeleteAllPeers = run_stmt (delete_peers (\<lambda>p. True))"

definition Q_DeleteAllSwarms :: "sqldb \<Rightarrow> unit sql_result \<times> sqldb" where
  "Q_DeleteAllSwarms = run_stmt (\<lambda>fk t. (Inr (), t\<lparr>swarms := []\<rparr>))"

definition insert_swarm :: "int \<Rightarrow> int \<Rightarrow> bool \<Rightarrow> tables \<Rightarrow> swarm_row sql_result \<times> tables" where
  "insert_swarm p f fk t =
     (if \<exists>s \<in> set (swarms t). s_PeerID s = p \<and> s_FileID s = f then (Inl UniqueViolation, t)
      else if fk \<and> (p \<notin> p_ID ` set (peers t) \<or> f \<notin> f_ID ` set (files t))
      then (Inl ForeignKeyViolation, t)
      else (case next_id (seq_swarms t) of
              Inl e \<Rightarrow> (Inl e, t)
            | Inr i \<Rightarrow>
                let row = \<lparr>s_ID = i, s_PeerID = p, s_FileID = f\<rparr>
                in (Inr row, t\<lparr>swarms := swarms t @ [row], seq_swarms := i\<rparr>)))"

definition Q_CreateSwarm :: "int \<Rightarrow> int \<Rightarrow> sqldb \<Rightarrow> swarm_row sql_result \<times> sqldb" where
  "Q_CreateSwarm p f = run_stmt (insert_swarm p f)"

text \<open>INSERT ... SELECT: every selected pair is inserted, or the statement undoes all of them.\<close>

fun insert_swarms :: "(int \<times> int) list \<Rightarrow> bool \<Rightarrow> tables \<Rightarrow> unit sql_result \<times> tables" where
  "insert_swarms [] fk t = (Inr (), t)"
| "insert_swarms ((p, f) # ps) fk t =
     (case insert_swarm p f fk t of
        (Inl e, t') \<Rightarrow> (Inl e, t)
      | (Inr row, t') \<Rightarrow>
          (case insert_swarms ps fk t' of
             (Inl e, t'') \<Rightarrow> (Inl e, t)
           | (Inr u, t'') \<Rightarrow> (Inr u, t'')))"

definition select_peer_file :: "string \<Rightarrow> string \<Rightarrow> string \<Rightarrow> tables \<Rightarrow> (int \<times> int) list" where
  "select_peer_file ip port h t =
     [(p_ID p, f_ID f). p \<leftarrow> select_peer ip port t, f \<leftarrow> select_file_by_hash h t]"

definition add_peer_to_swarm :: "string \<Rightarrow> string \<Rightarrow> string \<Rightarrow> bool \<Rightarrow> tables \<Rightarrow> unit sql_result \<times> tables" where
  "add_peer_to_swarm ip port h fk t = insert_swarms (select_peer_file ip port h t) fk t"

definition Q_AddPeerToSwarm :: "string \<Rightarrow> string \<Rightarrow> string \<Rightarrow> sqldb \<Rightarrow> unit sql_result \<times> sqldb" where
  "Q_AddPeerToSwarm ip port h = run_stmt (add_peer_to_swarm ip port h)"

text \<open>
  The three-way join has no ORDER BY, so the order of its rows is the engine's; the
  model scans peers, then swarms, then files, and no fact below depends on the order.
\<close>

definition select_peers_by_hash :: "string \<Rightarrow> tables \<Rightarrow> peer_row list" where
  "select_peers_by_hash h t =
     [p. p \<leftarrow> peers t, s \<leftarrow> swarms t, f \<leftarrow> files t,
         p_ID p = s_PeerID s \<and> s_FileID s = f_ID f \<and> f_Hash f = h]"

definition Q_GetPeersByFileHash :: "string \<Rightarrow> sqldb \<Rightarrow> peer_row list sql_result \<times> sqldb" where
  "Q_GetPeersByFileHash h = run_query (\<lambda>t. Inr (select_peers_by_hash h t))"

end
