(* ===== verification/DatabaseInv.thy ===== *)
theory DatabaseInv
  imports Database
begin

text \<open>
  The constraints of internal/db/schema.sql as an invariant of the tables, kept by every
  statement of internal/db/queries.sql.go; referential integrity, kept when every
  statement runs with foreign keys enforced; what the joins select; and the fate of the
  id of a deleted peer.
\<close>

section \<open>The schema's constraints\<close>

definition ids_ok :: "int list \<Rightarrow> int \<Rightarrow> bool" where
  "ids_ok ids seq \<longleftrightarrow> 0 \<le> seq \<and> sorted_wrt (<) ids \<and> (\<forall>i \<in> set ids. 0 < i \<and> i \<le> seq)"

definition swarm_key :: "swarm_row \<Rightarrow> int \<times> int" where
  "swarm_key s = (s_PeerID s, s_FileID s)"

definition peer_key :: "peer_row \<Rightarrow> string \<times> string" where
  "peer_key p = (p_IpAddress p, p_Port p)"

definition wf_tables :: "tables \<Rightarrow> bool" where
  "wf_tables t \<longleftrightarrow>
     ids_ok (map f_ID (files t)) (seq_files t) \<and>
     ids_ok (map c_ID (chunks t)) (seq_chunks t) \<and>
     ids_ok (map p_ID (peers t)) (seq_peers t) \<and>
     ids_ok (map s_ID (swarms t)) (seq_swarms t) \<and>
     distinct (map f_Hash (files t)) \<and>
     distinct (map peer_key (peers t)) \<and>
     distinct (map swarm_key (swarms t))"

definition refs_ok :: "tables \<Rightarrow> bool" where
  "refs_ok t \<longleftrightarrow>
     c_FileID ` set (chunks t) \<subseteq> f_ID ` set (files t) \<and>
     s_PeerID ` set (swarms t) \<subseteq> p_ID ` set (peers t) \<and>
     s_FileID ` set (swarms t) \<subseteq> f_ID ` set (files t)"

lemma ids_ok_snoc [intro]: "ids_ok ids seq \<Longrightarrow> ids_ok (ids @ [seq + 1]) (seq + 1)"
  by (force simp: ids_ok_def sorted_wrt_append)

lemma ids_ok_filter [intro]: "ids_ok (map f xs) seq \<Longrightarrow> ids_ok (map f (filter p xs)) seq"
  by (auto simp: ids_ok_def sorted_wrt_map sorted_wrt_filter)

lemma ids_ok_distinct: "ids_ok ids seq \<Longrightarrow> distinct ids"
  by (auto simp: ids_ok_def strict_sorted_iff)

lemma next_id_Inr [simp]: "next_id seq = Inr i \<longleftrightarrow> seq < max_int64 \<and> i = seq + 1"
  by (auto simp: next_id_def)

lemma wf_empty [simp]: "wf_tables empty_tables"
  by (simp add: wf_tables_def empty_tables_def ids_ok_def)

lemma refs_empty [simp]: "refs_ok empty_tables"
  by (simp add: refs_ok_def empty_tables_def)

lemma wf_hash_unique:
  "wf_tables t \<Longrightarrow> f \<in> set (files t) \<Longrightarrow> g \<in> set (files t) \<Longrightarrow> f_Hash f = f_Hash g \<Longrightarrow> f = g"
  by (auto simp: wf_tables_def dest: distinct_map_unique)

lemma wf_file_id_unique:
  "wf_tables t \<Longrightarrow> f \<in> set (files t) \<Longrightarrow> g \<in> set (files t) \<Longrightarrow> f_ID f = f_ID g \<Longrightarrow> f = g"
  by (auto simp: wf_tables_def dest!: ids_ok_distinct dest: distinct_map_unique)

lemma wf_peer_id_unique:
  "wf_tables t \<Longrightarrow> p \<in> set (peers t) \<Longrightarrow> q \<in> set (peers t) \<Longrightarrow> p_ID p = p_ID q \<Longrightarrow> p = q"
  by (auto simp: wf_tables_def dest!: ids_ok_distinct dest: distinct_map_unique)

section \<open>Statements keep the constraints\<close>

lemma insert_file_wf: "wf_tables t \<Longrightarrow> wf_tables (snd (insert_file a fk t))"
  by (auto simp: insert_file_def wf_tables_def Let_def split: sum.split)

lemma insert_file_refs: "refs_ok t \<Longrightarrow> refs_ok (snd (insert_file a fk t))"
  by (auto simp: insert_file_def refs_ok_def Let_def split: sum.split)

lemma insert_chunk_wf: "wf_tables t \<Longrightarrow> wf_tables (snd (insert_chunk a fk t))"
  by (auto simp: insert_chunk_def wf_tables_def Let_def split: sum.split)

lemma insert_chunk_refs: "refs_ok t \<Longrightarrow> refs_ok (snd (insert_chunk a True t))"
  by (auto simp: insert_chunk_def refs_ok_def Let_def split: sum.split)

lemma map_map_unchanged: "(\<And>x. f (g x) = f x) \<Longrightarrow> map f (map g xs) = map f xs"
  by simp

lemma update_available_wf: "wf_tables t \<Longrightarrow> wf_tables (snd (update_available h i fk t))"
  by (auto simp: update_available_def wf_tables_def comp_def if_distrib split: sum.split cong: if_cong)

lemma update_available_refs: "refs_ok t \<Longrightarrow> refs_ok (snd (update_available h i fk t))"
  by (auto simp: update_available_def refs_ok_def image_subset_iff split: sum.split) metis

lemma insert_peer_wf: "wf_tables t \<Longrightarrow> wf_tables (snd (insert_peer ip port fk t))"
  by (auto simp: insert_peer_def wf_tables_def Let_def peer_key_def split: sum.split)

lemma insert_peer_refs: "refs_ok t \<Longrightarrow> refs_ok (snd (insert_peer ip port fk t))"
  by (auto simp: insert_peer_def refs_ok_def Let_def split: sum.split)

lemma delete_peers_wf: "wf_tables t \<Longrightarrow> wf_tables (snd (delete_peers pr fk t))"
  by (auto simp: delete_peers_def wf_tables_def Let_def)

lemma delete_peers_refs: "refs_ok t \<Longrightarrow> refs_ok (snd (delete_peers pr True t))"
  by (auto simp: delete_peers_def refs_ok_def Let_def image_subset_iff) blast

lemma insert_swarm_wf: "wf_tables t \<Longrightarrow> wf_tables (snd (insert_swarm p f fk t))"
  by (auto simp: insert_swarm_def wf_tables_def Let_def swarm_key_def split: sum.split)

lemma insert_swarm_refs: "refs_ok t \<Longrightarrow> refs_ok (snd (insert_swarm p f True t))"
  by (auto simp: insert_swarm_def refs_ok_def Let_def split: sum.split)

lemma insert_swarms_wf: "wf_tables t \<Longrightarrow> wf_tables (snd (insert_swarms ps fk t))"
proof (induction ps fk t rule: insert_swarms.induct)
  case (2 p f ps fk t)
  then show ?case
    using insert_swarm_wf [of t p f fk] by (fastforce split: prod.split sum.split)
qed simp

lemma insert_swarms_refs: "refs_ok t \<Longrightarrow> refs_ok (snd (insert_swarms ps True t))"
proof (induction ps True t rule: insert_swarms.induct)
  case (2 p f ps t)
  then show ?case
    using insert_swarm_refs [of t p f] by (fastforce split: prod.split sum.split)
qed simp

lemma add_peer_to_swarm_wf: "wf_tables t \<Longrightarrow> wf_tables (snd (add_peer_to_swarm ip port h fk t))"
  by (simp add: add_peer_to_swarm_def insert_swarms_wf)

lemma delete_swarms_wf: "wf_tables t \<Longrightarrow> wf_tables (t\<lparr>swarms := []\<rparr>)"
  by (auto simp: wf_tables_def ids_ok_def)

lemma delete_swarms_refs: "refs_ok t \<Longrightarrow> refs_ok (t\<lparr>swarms := []\<rparr>)"
  by (auto simp: refs_ok_def)

lemmas stmt_wf = insert_file_wf insert_chunk_wf update_available_wf insert_peer_wf
  delete_peers_wf insert_swarm_wf add_peer_to_swarm_wf delete_swarms_wf

lemmas stmt_refs = insert_file_refs insert_chunk_refs update_available_refs insert_peer_refs
  delete_peers_refs insert_swarm_refs delete_swarms_refs

section \<open>The database as a transition system\<close>

text \<open>One rule per statement; the flag says whether its connection enforces foreign keys.\<close>

inductive db_step :: "bool \<Rightarrow> tables \<Rightarrow> tables \<Rightarrow> bool" where
  step_file: "db_step fk t (snd (insert_file a fk t))"
| step_chunk: "db_step fk t (snd (insert_chunk c fk t))"
| step_mark: "db_step fk t (snd (update_available h i fk t))"
| step_peer: "db_step fk t (snd (insert_peer ip port fk t))"
| step_delete: "db_step fk t (snd (delete_peers pr fk t))"
| step_swarm: "db_step fk t (snd (insert_swarm p f fk t))"
| step_swarms: "db_step fk t (snd (add_peer_to_swarm ip port h fk t))"
| step_drop: "db_step fk t (t\<lparr>swarms := []\<rparr>)"

definition any_step :: "tables \<Rightarrow> tables \<Rightarrow> bool" where
  "any_step t t' \<longleftrightarrow> db_step True t t' \<or> db_step False t t'"

lemma db_step_wf: "wf_tables t \<Longrightarrow> db_step fk t t' \<Longrightarrow> wf_tables t'"
  by (erule db_step.cases) (auto intro: stmt_wf)

lemma db_step_refs: "refs_ok t \<Longrightarrow> db_step True t t' \<Longrightarrow> refs_ok t'"
  by (erule db_step.cases) (auto intro: stmt_refs simp: add_peer_to_swarm_def insert_swarms_refs)

interpretation schema: invariant_system "\<lambda>t. t = empty_tables" any_step wf_tables
  by unfold_locales (auto simp: any_step_def dest: db_step_wf)

interpretation integrity: invariant_system "\<lambda>t. t = empty_tables" "db_step True" refs_ok
  by unfold_locales (auto dest: db_step_refs)

section \<open>What the queries select\<close>

lemma first_row_Inr: "first_row xs = Inr x \<Longrightarrow> x \<in> set xs"
  by (cases xs) auto

lemma first_row_Inl: "first_row xs = Inl e \<longleftrightarrow> xs = [] \<and> e = ErrNoRows"
  by (cases xs) auto

lemma set_join_chunks_files:
  "set (join_chunks_files h t) =
     {c \<in> set (chunks t). \<exists>f \<in> set (files t). c_FileID c = f_ID f \<and> f_Hash f = h}"
  by (auto simp: join_chunks_files_def)

lemma set_select_peers_by_hash:
  "set (select_peers_by_hash h t) =
     {p \<in> set (peers t). \<exists>s \<in> set (swarms t). \<exists>f \<in> set (files t).
        s_PeerID s = p_ID p \<and> s_FileID s = f_ID f \<and> f_Hash f = h}"
  by (force simp: select_peers_by_hash_def)

text \<open>In well-formed tables a hash names at most one file, so the join is a selection.\<close>

lemma select_file_unique:
  "wf_tables t \<Longrightarrow> f \<in> set (files t) \<Longrightarrow> select_file_by_hash (f_Hash f) t = [f]"
proof -
  assume wf: "wf_tables t" and f: "f \<in> set (files t)"
  have d: "distinct (map f_Hash (files t))" using wf by (simp add: wf_tables_def)
  from f obtain xs ys where s: "files t = xs @ f # ys" by (auto simp: in_set_conv_decomp)
  have "filter (\<lambda>g. f_Hash g = f_Hash f) xs = []" and "filter (\<lambda>g. f_Hash g = f_Hash f) ys = []"
    using d by (auto simp: s filter_empty_conv image_iff)
  then show ?thesis by (simp add: select_file_by_hash_def s)
qed

lemma filter_singleton_id:
  "distinct xs \<Longrightarrow> a \<in> set xs \<Longrightarrow> filter (\<lambda>x. x = a) xs = [a]"
  by (induction xs) (auto simp: filter_empty_conv)

lemma concat_map_if: "concat (map (\<lambda>x. if P x then [x] else []) xs) = filter P xs"
  by (induction xs) auto

lemma join_chunks_files_known:
  assumes wf: "wf_tables t" and f: "f \<in> set (files t)"
  shows "join_chunks_files (f_Hash f) t = filter (\<lambda>c. c_FileID c = f_ID f) (chunks t)"
proof -
  have d: "distinct (files t)" using wf by (auto simp: wf_tables_def distinct_map)
  have sel: "map (\<lambda>_. c) (filter (\<lambda>g. c_FileID c = f_ID g \<and> f_Hash g = f_Hash f) (files t))
      = (if c_FileID c = f_ID f then [c] else [])" for c
  proof -
    have "filter (\<lambda>g. c_FileID c = f_ID g \<and> f_Hash g = f_Hash f) (files t)
        = filter (\<lambda>g. c_FileID c = f_ID f \<and> g = f) (files t)"
      by (rule filter_cong) (auto dest: wf_hash_unique [OF wf _ f])
    then show ?thesis using filter_singleton_id [OF d f] by auto
  qed
  show ?thesis by (simp only: join_chunks_files_def sel concat_map_if)
qed

section \<open>Ids of deleted peers are not reused\<close>

lemma insert_swarm_keeps [simp]:
  "peers (snd (insert_swarm p f fk t)) = peers t"
  "seq_peers (snd (insert_swarm p f fk t)) = seq_peers t"
  "files (snd (insert_swarm p f fk t)) = files t"
  "chunks (snd (insert_swarm p f fk t)) = chunks t"
  by (auto simp: insert_swarm_def Let_def split: sum.split)

lemma insert_swarms_frame:
  "peers (snd (insert_swarms ps fk t)) = peers t \<and>
   seq_peers (snd (insert_swarms ps fk t)) = seq_peers t \<and>
   files (snd (insert_swarms ps fk t)) = files t \<and>
   chunks (snd (insert_swarms ps fk t)) = chunks t"
proof (induction ps arbitrary: t)
  case (Cons pf ps)
  obtain p f where pf: "pf = (p, f)" by (cases pf)
  obtain r t1 where one: "insert_swarm p f fk t = (r, t1)" by (cases "insert_swarm p f fk t")
  obtain r' t2 where rest: "insert_swarms ps fk t1 = (r', t2)" by (cases "insert_swarms ps fk t1")
  show ?case
    using insert_swarm_keeps [of p f fk t] Cons.IH [of t1] by (simp add: pf one rest split: sum.split)
qed simp

lemma insert_swarms_keeps [simp]:
  "peers (snd (insert_swarms ps fk t)) = peers t"
  "seq_peers (snd (insert_swarms ps fk t)) = seq_peers t"
  "files (snd (insert_swarms ps fk t)) = files t"
  "chunks (snd (insert_swarms ps fk t)) = chunks t"
  by (simp_all add: insert_swarms_frame)

definition retired :: "int \<Rightarrow> tables \<Rightarrow> bool" where
  "retired i t \<longleftrightarrow> i \<le> seq_peers t \<and> i \<notin> p_ID ` set (peers t)"

lemma db_step_retired: "retired i t \<Longrightarrow> db_step fk t t' \<Longrightarrow> retired i t'"
  by (erule db_step.cases)
     (auto simp: retired_def insert_file_def insert_chunk_def update_available_def insert_peer_def
        delete_peers_def add_peer_to_swarm_def Let_def split: sum.split)

section \<open>The peers of a swarm\<close>

lemma concat_map_single:
  "concat (map (\<lambda>x. if x = a then ys else []) xs) = concat (replicate (count_list xs a) ys)"
  by (induction xs) auto

lemma count_distinct: "distinct xs \<Longrightarrow> count_list xs a = (if a \<in> set xs then 1 else 0)"
  by (induction xs) (auto simp: count_list_0_iff)

lemma select_peers_known:
  assumes wf: "wf_tables t" and f: "f \<in> set (files t)"
  shows "select_peers_by_hash (f_Hash f) t =
    filter (\<lambda>p. (p_ID p, f_ID f) \<in> swarm_key ` set (swarms t)) (peers t)"
proof -
  have df: "distinct (files t)" and ds: "distinct (map swarm_key (swarms t))"
    using wf by (auto simp: wf_tables_def distinct_map)
  have fs: "concat (map (\<lambda>g. if p_ID p = s_PeerID s \<and> s_FileID s = f_ID g \<and> f_Hash g = f_Hash f then [p] else [])
        (files t)) = (if swarm_key s = (p_ID p, f_ID f) then [p] else [])" for p s
  proof -
    have "map (\<lambda>g. if p_ID p = s_PeerID s \<and> s_FileID s = f_ID g \<and> f_Hash g = f_Hash f then [p] else []) (files t)
        = map (\<lambda>g. if g = f then (if swarm_key s = (p_ID p, f_ID f) then [p] else []) else []) (files t)"
      by (rule map_cong) (auto simp: swarm_key_def dest: wf_hash_unique [OF wf _ f])
    then show ?thesis using f by (simp only: concat_map_single count_distinct [OF df]) simp
  qed
  have ss: "concat (map (\<lambda>s. if swarm_key s = k then [p] else []) (swarms t)) =
      (if k \<in> swarm_key ` set (swarms t) then [p] else [])" for p k
  proof -
    have "concat (map (\<lambda>x. if x = k then [p] else []) (map swarm_key (swarms t))) =
        (if k \<in> set (map swarm_key (swarms t)) then [p] else [])"
      by (simp only: concat_map_single count_distinct [OF ds]) simp
    then show ?thesis by (simp only: map_map comp_def set_map)
  qed
  show ?thesis
    unfolding select_peers_by_hash_def
    by (simp add: fs ss concat_map_if)
qed

lemma select_peers_unknown:
  "\<forall>f \<in> set (files t). f_Hash f \<noteq> h \<Longrightarrow> select_peers_by_hash h t = []"
proof -
  assume "\<forall>f \<in> set (files t). f_Hash f \<noteq> h"
  then have "set (select_peers_by_hash h t) = {}" by (auto simp: set_select_peers_by_hash)
  then show ?thesis by simp
qed

lemma distinct_peer_list: "wf_tables t \<Longrightarrow> distinct (map p_ID (select_peers_by_hash h t))"
proof (cases "\<exists>f \<in> set (files t). f_Hash f = h")
  case True
  assume wf: "wf_tables t"
  then have "distinct (map p_ID (peers t))" by (auto simp: wf_tables_def dest: ids_ok_distinct)
  then show ?thesis using True select_peers_known [OF wf] by fastforce
next
  case False
  then show ?thesis by (simp add: select_peers_unknown)
qed

lemma insert_swarms_adds:
  "insert_swarms ps fk t = (Inr u, t') \<Longrightarrow>
   swarm_key ` set (swarms t) \<subseteq> swarm_key ` set (swarms t') \<and> set ps \<subseteq> swarm_key ` set (swarms t')"
proof (induction ps arbitrary: t)
  case (Cons k ps)
  obtain a b where k: "k = (a, b)" by (cases k)
  obtain r t1 where one: "insert_swarm a b fk t = (r, t1)" by (cases "insert_swarm a b fk t")
  then obtain row where r: "r = Inr row" using Cons.prems k by (cases r) auto
  have keys: "swarm_key ` set (swarms t1) = insert (a, b) (swarm_key ` set (swarms t))"
    using one r by (auto simp: insert_swarm_def Let_def swarm_key_def split: if_splits sum.splits)
  have "insert_swarms ps fk t1 = (Inr u, t')"
    using Cons.prems k one r by (auto split: sum.splits prod.splits)
  then have "swarm_key ` set (swarms t1) \<subseteq> swarm_key ` set (swarms t')"
    "set ps \<subseteq> swarm_key ` set (swarms t')"
    using Cons.IH by blast+
  then show ?case using keys k by auto
qed simp

lemma add_peer_lists:
  assumes p: "p \<in> set (peers t)" "f \<in> set (files t)"
    and add: "add_peer_to_swarm (p_IpAddress p) (p_Port p) (f_Hash f) fk t = (Inr u, t')"
  shows "p \<in> set (select_peers_by_hash (f_Hash f) t')"
proof -
  let ?ps = "select_peer_file (p_IpAddress p) (p_Port p) (f_Hash f) t"
  have m: "(p_ID p, f_ID f) \<in> set ?ps"
    using p by (auto simp: select_peer_file_def select_peer_def select_file_by_hash_def)
  have "set ?ps \<subseteq> swarm_key ` set (swarms t')"
    using insert_swarms_adds add unfolding add_peer_to_swarm_def by blast
  then have "(p_ID p, f_ID f) \<in> swarm_key ` set (swarms t')" using m by blast
  moreover have "peers t' = peers t" "files t' = files t"
    using insert_swarms_frame [of ?ps fk t] add unfolding add_peer_to_swarm_def by (metis snd_conv)+
  ultimately show ?thesis
    using p by (force simp: set_select_peers_by_hash swarm_key_def)
qed

section \<open>Properties of the database\<close>

text \<open>A tracker database with two peers in the swarm of one file.\<close>

definition sample_file_params :: CreateFileParams where
  "sample_file_params = \<lparr>cfp_Name = ''a.txt'', cfp_Size = 5, cfp_MaxChunkSize = 32768,
     cfp_TotalChunks = 1, cfp_Hash = ''h'', cfp_CreatedAt = 0\<rparr>"

definition sample_tables :: tables where
  "sample_tables =
     (let t1 = snd (insert_file sample_file_params True empty_tables);
          t2 = snd (insert_peer ''10.0.0.1'' ''4000'' True t1);
          t3 = snd (add_peer_to_swarm ''10.0.0.1'' ''4000'' ''h'' True t2)
      in snd (insert_peer ''10.0.0.2'' ''5000'' True t3))"

lemma sample_tables_reachable: "(db_step True)\<^sup>*\<^sup>* empty_tables sample_tables"
  unfolding sample_tables_def Let_def
  by (rule rtranclp.rtrancl_into_rtrancl [rotated], rule step_peer,
      rule rtranclp.rtrancl_into_rtrancl [rotated], rule step_swarms,
      rule rtranclp.rtrancl_into_rtrancl [rotated], rule step_peer,
      rule rtranclp.rtrancl_into_rtrancl [rotated], rule step_file, rule rtranclp.rtrancl_refl)

lemma any_steps: "(db_step fk)\<^sup>*\<^sup>* t t' \<Longrightarrow> any_step\<^sup>*\<^sup>* t t'"
  by (erule rtranclp_mono [THEN predicate2D, rotated]) (cases fk; auto simp: any_step_def)



text \<open>While every statement runs with foreign keys enforced, every chunk row belongs to a
  stored file, and every swarm row to a stored peer and a stored file.\<close>

theorem references_resolve: "(db_step True)\<^sup>*\<^sup>* empty_tables t \<Longrightarrow> refs_ok t"
  using integrity.reachable_inv by blast

theorem references_resolve_witness: "refs_ok sample_tables \<and> swarms sample_tables \<noteq> []"
  by (rule conjI [OF references_resolve [OF sample_tables_reachable]]) code_simp

text \<open>The id of a deleted peer is never listed again: once no stored peer has an id that was
  given out before, no later peer list names it, even when foreign keys are not enforced and the
  deleted peer's swarm rows stay behind.\<close>

theorem deleted_peer_never_listed:
  assumes "retired i t" "any_step\<^sup>*\<^sup>* t t'"
  shows "i \<notin> p_ID ` set (select_peers_by_hash h t')"
proof -
  have "retired i t'" using assms(2,1)
    by (induction rule: rtranclp_induct) (auto simp: any_step_def dest: db_step_retired)
  then show ?thesis by (auto simp: retired_def set_select_peers_by_hash)
qed

definition sample_left :: tables where
  "sample_left = snd (delete_peers (\<lambda>p. p_IpAddress p = ''10.0.0.1'' \<and> p_Port p = ''4000'') False sample_tables)"

theorem deleted_peer_never_listed_witness:
  "1 \<notin> p_ID ` set (select_peers_by_hash ''h'' (snd (insert_peer ''10.0.0.1'' ''4000'' False sample_left)))
   \<and> swarms sample_left \<noteq> []"
proof
  have "any_step\<^sup>*\<^sup>* sample_left (snd (insert_peer ''10.0.0.1'' ''4000'' False sample_left))"
    by (rule any_steps [where fk = False]) (rule r_into_rtranclp, rule step_peer)
  moreover have "retired 1 sample_left" unfolding retired_def by code_simp
  ultimately show "1 \<notin> p_ID ` set (select_peers_by_hash ''h'' (snd (insert_peer ''10.0.0.1'' ''4000'' False sample_left)))"
    using deleted_peer_never_listed [of 1 sample_left] by blast
  show "swarms sample_left \<noteq> []" by code_simp
qed

text \<open>The peer list of a file is exactly the stored peers that are in its swarm, each once.\<close>

theorem peer_list_is_the_swarm:
  assumes "wf_tables t" "f \<in> set (files t)"
  shows "set (select_peers_by_hash (f_Hash f) t) =
      {p \<in> set (peers t). \<exists>s \<in> set (swarms t). s_PeerID s = p_ID p \<and> s_FileID s = f_ID f} \<and>
    distinct (map p_ID (select_peers_by_hash (f_Hash f) t))"
  using distinct_peer_list [OF assms(1), of "f_Hash f"]
  by (auto simp: select_peers_known [OF assms] swarm_key_def image_iff) metis+

theorem peer_list_is_the_swarm_witness:
  "map p_ID (select_peers_by_hash ''h'' sample_tables) = [1] \<and>
   distinct (map p_ID (select_peers_by_hash (f_Hash (hd (files sample_tables))) sample_tables))"
proof -
  have wf: "wf_tables sample_tables"
    by (rule schema.reachable_inv [OF refl any_steps [OF sample_tables_reachable]])
  have "hd (files sample_tables) \<in> set (files sample_tables)" by code_simp
  note peer_list_is_the_swarm [OF wf this]
  moreover have "map p_ID (select_peers_by_hash ''h'' sample_tables) = [1]" by code_simp
  ultimately show ?thesis by blast
qed

text \<open>A peer added to the swarm of a stored file is in that file's peer list.\<close>

theorem added_peer_is_listed:
  assumes "p \<in> set (peers t)" "f \<in> set (files t)"
    and "add_peer_to_swarm (p_IpAddress p) (p_Port p) (f_Hash f) fk t = (Inr u, t')"
  shows "p \<in> set (select_peers_by_hash (f_Hash f) t')"
  using add_peer_lists [OF assms] .

theorem added_peer_is_listed_witness:
  "\<lparr>p_ID = 2, p_IpAddress = ''10.0.0.2'', p_Port = ''5000''\<rparr> \<in> set (select_peers_by_hash
     (f_Hash (hd (files sample_tables))) (snd (add_peer_to_swarm ''10.0.0.2'' ''5000'' ''h'' True sample_tables)))"
  by (rule added_peer_is_listed [of _ sample_tables _ True "()"]) code_simp+

end
