(* ===== verification/Strings.thy ===== *)
theory Strings
  imports Prelude
begin

text \<open>
  The parts of the Go packages strings, strconv, fmt and net that the program computes
  with: splitting at a one-byte separator, decimal integers in both directions with the
  parser's error results, lower-case hex, and the split of a network address into host
  and port.
\<close>

section \<open>strings.Split\<close>

fun split_on :: "char \<Rightarrow> string \<Rightarrow> string list" where
  "split_on sep [] = [[]]"
| "split_on sep (c # cs) =
     (if c = sep then [] # split_on sep cs
      else (case split_on sep cs of [] \<Rightarrow> [[c]] | f # fs \<Rightarrow> (c # f) # fs))"

fun join_with :: "string \<Rightarrow> string list \<Rightarrow> string" where
  "join_with sep [] = []"
| "join_with sep [f] = f"
| "join_with sep (f # g # fs) = f @ sep @ join_with sep (g # fs)"

lemma split_on_nonempty [simp]: "split_on sep s \<noteq> []"
  by (induction s) (auto split: list.split)

lemma split_on_fresh [simp]: "sep \<notin> set s \<Longrightarrow> split_on sep s = [s]"
  by (induction s) auto

lemma split_on_append [simp]: "sep \<notin> set s \<Longrightarrow> split_on sep (s @ sep # t) = s # split_on sep t"
  by (induction s) auto

lemma hd_split_on: "hd (split_on sep s) = takeWhile (\<lambda>c. c \<noteq> sep) s"
  by (induction s) (auto split: list.splits)

lemma split_on_sep_free: "f \<in> set (split_on sep s) \<Longrightarrow> sep \<notin> set f"
  by (induction s arbitrary: f) (auto split: if_splits list.splits)

lemma join_split: "join_with [sep] (split_on sep s) = s"
proof (induction s)
  case (Cons c cs)
  obtain f fs where "split_on sep cs = f # fs" by (cases "split_on sep cs") auto
  then show ?case using Cons by (cases fs) auto
qed simp

section \<open>strconv\<close>

fun digits :: "nat \<Rightarrow> string" where
  "digits n = (if n < 10 then [char_of (48 + n)] else digits (n div 10) @ [char_of (48 + n mod 10)])"

declare digits.simps [simp del]

definition FormatInt :: "int \<Rightarrow> string" where
  "FormatInt x = (if x < 0 then CHR ''-'' # digits (nat (- x)) else digits (nat x))"

datatype num_error = ErrSyntax | ErrRange

definition is_digit :: "char \<Rightarrow> bool" where
  "is_digit c \<longleftrightarrow> 48 \<le> (of_char c :: nat) \<and> of_char c \<le> (57 :: nat)"

definition digit_val :: "char \<Rightarrow> nat" where
  "digit_val c = of_char c - 48"

fun parse_uint :: "nat \<Rightarrow> string \<Rightarrow> num_error + nat" where
  "parse_uint n [] = Inr n"
| "parse_uint n (c # cs) =
     (if \<not> is_digit c then Inl ErrSyntax
      else if 10 * n + digit_val c \<ge> 2 ^ 64 then Inl ErrRange
      else parse_uint (10 * n + digit_val c) cs)"

text \<open>The value comes with the error, as in Go: 0 on bad syntax, the bound when out of range.\<close>

definition Atoi :: "string \<Rightarrow> int \<times> num_error option" where
  "Atoi s =
     (let neg = (take 1 s = ''-'');
          ds = (if take 1 s = ''-'' \<or> take 1 s = ''+'' then drop 1 s else s)
      in if ds = [] then (0, Some ErrSyntax)
         else (case parse_uint 0 ds of
                 Inl ErrSyntax \<Rightarrow> (0, Some ErrSyntax)
               | Inl ErrRange \<Rightarrow> (if neg then - (2 ^ 63) else 2 ^ 63 - 1, Some ErrRange)
               | Inr u \<Rightarrow>
                   if \<not> neg \<and> u \<ge> 2 ^ 63 then (2 ^ 63 - 1, Some ErrRange)
                   else if neg \<and> u > 2 ^ 63 then (- (2 ^ 63), Some ErrRange)
                   else (if neg then - int u else int u, None)))"

lemma digit_char [simp]:
  "n < 10 \<Longrightarrow> is_digit (char_of (48 + n))"
  "n < 10 \<Longrightarrow> digit_val (char_of (48 + n)) = n"
  by (simp_all add: is_digit_def digit_val_def of_char_of)

lemma digits_nonempty [simp]: "digits n \<noteq> []"
  by (subst digits.simps) simp

lemma digits_are_digits: "c \<in> set (digits n) \<Longrightarrow> is_digit c"
proof (induction n rule: digits.induct)
  case (1 n)
  then show ?case by (cases "n < 10") (auto simp: digits.simps [of n])
qed

lemma parse_uint_append:
  "parse_uint n (xs @ ys) = (case parse_uint n xs of Inl e \<Rightarrow> Inl e | Inr m \<Rightarrow> parse_uint m ys)"
  by (induction n xs rule: parse_uint.induct) auto

lemma parse_uint_digits: "n < 2 ^ 64 \<Longrightarrow> parse_uint 0 (digits n) = Inr n"
proof (induction n rule: digits.induct)
  case (1 n)
  show ?case
  proof (cases "n < 10")
    case True
    then show ?thesis by (simp add: digits.simps [of n])
  next
    case False
    then have ih: "parse_uint 0 (digits (n div 10)) = Inr (n div 10)" using 1 by simp
    have "10 * (n div 10) + n mod 10 = n" by simp
    then show ?thesis using False ih "1.prems"
      by (simp add: digits.simps [of n] parse_uint_append del: mult_div_mod_eq)
  qed
qed

lemma digit_not_sign: "is_digit c \<Longrightarrow> c \<noteq> CHR ''-'' \<and> c \<noteq> CHR ''+''"
  by (auto simp: is_digit_def)

lemma take1_digits: "take 1 (digits n) \<noteq> ''-'' \<and> take 1 (digits n) \<noteq> ''+''"
proof -
  obtain c cs where d: "digits n = c # cs" by (cases "digits n") auto
  then have "is_digit c" using digits_are_digits [of c n] by simp
  then show ?thesis using d digit_not_sign by auto
qed

lemma Atoi_FormatInt:
  assumes "- (2 ^ 63) \<le> x" "x < 2 ^ 63"
  shows "Atoi (FormatInt x) = (x, None)"
proof (cases "x < 0")
  case True
  then have "nat (- x) \<le> 2 ^ 63" using assms by simp
  then have "parse_uint 0 (digits (nat (- x))) = Inr (nat (- x))"
    by (intro parse_uint_digits) simp
  then show ?thesis using True \<open>nat (- x) \<le> 2 ^ 63\<close>
    by (simp add: Atoi_def FormatInt_def)
next
  case False
  then have "nat x < 2 ^ 63" using assms by simp
  then have "parse_uint 0 (digits (nat x)) = Inr (nat x)"
    by (intro parse_uint_digits) simp
  then show ?thesis using False \<open>nat x < 2 ^ 63\<close> take1_digits [of "nat x"]
    by (simp add: Atoi_def FormatInt_def)
qed

lemma Atoi_range:
  assumes "Atoi s = (n, None)"
  shows "- (2 ^ 63) \<le> n" "n < 2 ^ 63"
  using assms by (auto simp: Atoi_def Let_def split: if_splits sum.splits num_error.splits)

lemma digits_inj: "digits m = digits n \<Longrightarrow> m < 2 ^ 64 \<Longrightarrow> n < 2 ^ 64 \<Longrightarrow> m = n"
  using parse_uint_digits by (metis sum.inject(2))

lemma FormatInt_inj:
  "FormatInt x = FormatInt y \<Longrightarrow> - (2 ^ 63) \<le> x \<Longrightarrow> x < 2 ^ 63 \<Longrightarrow> - (2 ^ 63) \<le> y \<Longrightarrow> y < 2 ^ 63 \<Longrightarrow> x = y"
  using Atoi_FormatInt by (metis prod.inject)

lemma FormatInt_chars: "c \<in> set (FormatInt x) \<Longrightarrow> is_digit c \<or> c = CHR ''-''"
  by (auto simp: FormatInt_def digits_are_digits split: if_splits)

section \<open>Hex\<close>

definition hex_digit :: "nat \<Rightarrow> char" where
  "hex_digit n = (if n < 10 then char_of (48 + n) else char_of (87 + n))"

fun hex :: "bytes \<Rightarrow> string" where
  "hex [] = []"
| "hex (b # bs) = hex_digit (of_char b div 16) # hex_digit (of_char b mod 16) # hex bs"

lemma length_hex [simp]: "length (hex bs) = 2 * length bs"
  by (induction bs) auto

definition is_hex :: "char \<Rightarrow> bool" where
  "is_hex c \<longleftrightarrow> is_digit c \<or> (97 \<le> (of_char c :: nat) \<and> of_char c \<le> (102 :: nat))"

lemma hex_digit_is_hex: "n < 16 \<Longrightarrow> is_hex (hex_digit n)"
  by (simp add: is_hex_def is_digit_def hex_digit_def of_char_of)

lemma hex_chars: "c \<in> set (hex bs) \<Longrightarrow> is_hex c"
proof (induction bs)
  case (Cons b bs)
  have "(of_char b :: nat) < 256" by simp
  then have "(of_char b :: nat) div 16 < 16" "(of_char b :: nat) mod 16 < 16" by linarith+
  then show ?case using Cons hex_digit_is_hex by auto
qed simp

section \<open>net.SplitHostPort\<close>

fun index_of :: "char \<Rightarrow> string \<Rightarrow> nat option" where
  "index_of c [] = None"
| "index_of c (x # xs) = (if x = c then Some 0 else map_option Suc (index_of c xs))"

definition last_index_of :: "char \<Rightarrow> string \<Rightarrow> nat option" where
  "last_index_of c s = map_option (\<lambda>k. length s - 1 - k) (index_of c (rev s))"

definition SplitHostPort :: "string \<Rightarrow> (string \<times> string) option" where
  "SplitHostPort s =
     (case last_index_of (CHR '':'') s of
        None \<Rightarrow> None
      | Some i \<Rightarrow>
          let parts =
            (if take 1 s = ''['' then
               (case index_of (CHR '']'') s of
                  None \<Rightarrow> None
                | Some e \<Rightarrow> if e + 1 = i then Some (take (e - 1) (drop 1 s), 1, e + 1) else None)
             else if CHR '':'' \<in> set (take i s) then None
             else Some (take i s, 0, 0))
          in (case parts of
                None \<Rightarrow> None
              | Some (host, j, k) \<Rightarrow>
                  if CHR ''['' \<in> set (drop j s) \<or> CHR '']'' \<in> set (drop k s) then None
                  else Some (host, drop (i + 1) s)))"

lemma index_of_fresh: "c \<notin> set xs \<Longrightarrow> index_of c (xs @ c # ys) = Some (length xs)"
  by (induction xs) auto

lemma last_index_of_fresh: "c \<notin> set ys \<Longrightarrow> last_index_of c (xs @ c # ys) = Some (length xs)"
  using index_of_fresh [of c "rev ys" "rev xs"] by (simp add: last_index_of_def)

definition plain :: "string \<Rightarrow> bool" where
  "plain s \<longleftrightarrow> CHR '':'' \<notin> set s \<and> CHR ''['' \<notin> set s \<and> CHR '']'' \<notin> set s"

lemma SplitHostPort_ipv4:
  assumes "plain host" "plain port"
  shows "SplitHostPort (host @ '':'' @ port) = Some (host, port)"
proof -
  have "take 1 (host @ CHR '':'' # port) \<noteq> ''[''"
    using assms(1) by (cases host) (auto simp: plain_def)
  then show ?thesis using assms by (simp add: SplitHostPort_def last_index_of_fresh plain_def)
qed

lemma SplitHostPort_ipv6:
  assumes "CHR ''['' \<notin> set host" "CHR '']'' \<notin> set host" "plain port"
  shows "SplitHostPort (''['' @ host @ '']:'' @ port) = Some (host, port)"
proof -
  let ?s = "CHR ''['' # host @ CHR '']'' # CHR '':'' # port"
  have "last_index_of (CHR '':'') ((CHR ''['' # host @ [CHR '']'']) @ CHR '':'' # port) =
      Some (length (CHR ''['' # host @ [CHR '']'']))"
    by (rule last_index_of_fresh) (use assms(3) in \<open>simp add: plain_def\<close>)
  then have l: "last_index_of (CHR '':'') ?s = Some (length host + 2)" by simp
  show ?thesis using assms by (simp add: SplitHostPort_def l plain_def index_of_fresh)
qed

end
