(* ===== verification/Store.thy ===== *)
theory Store
  imports DatabaseInv Strings "HOL-Library.Multiset"
begin

text \<open>
  internal/store/store.go: the file, chunk and peer stores over the generated queries,
  and the two repository interfaces of internal/node/node.go (FileRepository and
  ChunkRepository) as locales, interpreted on these stores.
\<close>

section \<open>FileStore\<close>

definition FileStore_CreateFile ::
  "int \<Rightarrow> string \<Rightarrow> int \<Rightarrow> int \<Rightarrow> int \<Rightarrow> string \<Rightarrow> sqldb \<Rightarrow> (file_row \<times> bool) sql_result \<times> sqldb" where
  "FileStore_CreateFile now name sz maxChunkSize totalChunks hash c =
     (case Q_GetFileByHash hash c of
        (Inr existing, c1) \<Rightarrow> (Inr (existing, False), c1)
      | (Inl e, c1) \<Rightarrow>
          if e \<noteq> ErrNoRows then (Inl e, c1)
          else (case Q_CreateFile
                  \<lparr>cfp_Name = name, cfp_Size = sz, cfp_MaxChunkSize = maxChunkSize,
                   cfp_TotalChunks = totalChunks, cfp_Hash = hash, cfp_CreatedAt = now\<rparr> c1 of
                  (Inl e', c2) \<Rightarrow> (Inl e', c2)
                | (Inr f, c2) \<Rightarrow> (Inr (f, True), c2)))"

definition FileStore_GetFiles :: "sqldb \<Rightarrow> file_row list sql_result \<times> sqldb" where
  "FileStore_GetFiles = Q_GetAllFiles"

definition FileStore_GetFileByHash :: "string \<Rightarrow> sqldb \<Rightarrow> file_row sql_result \<times> sqldb" where
  "FileStore_GetFileByHash hash = Q_GetFileByHash hash"

definition FileStore_GetFileNameByHash :: "string \<Rightarrow> sqldb \<Rightarrow> string sql_result \<times> sqldb" where
  "FileStore_GetFileNameByHash hash = Q_GetFileNameByHash hash"

section \<open>ChunkStore\<close>

definition ChunkStore_CreateChunk ::
  "int \<Rightarrow> int \<Rightarrow> int \<Rightarrow> string \<Rightarrow> bool \<Rightarrow> sqldb \<Rightarrow> chunk_row sql_result \<times> sqldb" where
  "ChunkStore_CreateChunk fileID index sz hash isAvailable =
     (let available = (if isAvailable then 1 else 0)
      in Q_CreateChunk \<lparr>ccp_FileID = fileID, ccp_ChunkIndex = index, ccp_ChunkSize = sz,
                        ccp_ChunkHash = hash, ccp_IsAvailable = available\<rparr>)"

definition ChunkStore_GetChunk :: "string \<Rightarrow> int \<Rightarrow> sqldb \<Rightarrow> chunk_row sql_result \<times> sqldb" where
  "ChunkStore_GetChunk fileHash chunkIndex = Q_GetChunk fileHash chunkIndex"

definition ChunkStore_GetChunks :: "string \<Rightarrow> sqldb \<Rightarrow> chunk_row list sql_result \<times> sqldb" where
  "ChunkStore_GetChunks fileHash = Q_GetChunksByFileHash fileHash"

definition ChunkStore_MarkChunkAvailable :: "string \<Rightarrow> int \<Rightarrow> sqldb \<Rightarrow> unit sql_result \<times> sqldb" where
  "ChunkStore_MarkChunkAvailable fileHash chunkIndex = Q_MarkChunkAvailable fileHash chunkIndex"

section \<open>PeerStore\<close>

definition PeerStore_CreatePeer :: "string \<Rightarrow> string \<Rightarrow> sqldb \<Rightarrow> string sql_result \<times> sqldb" where
  "PeerStore_CreatePeer ip port c =
     (case Q_CreatePeer ip port c of
        (Inl e, c') \<Rightarrow> (Inl e, c')
      | (Inr p, c') \<Rightarrow> (Inr (FormatInt (p_ID p)), c'))"

definition PeerStore_DeletePeer :: "string \<Rightarrow> string \<Rightarrow> sqldb \<Rightarrow> unit sql_result \<times> sqldb" where
  "PeerStore_DeletePeer ip port = Q_DeletePeerByIPPort ip port"

definition PeerStore_AddPeerToSwarm ::
  "string \<Rightarrow> string \<Rightarrow> string \<Rightarrow> sqldb \<Rightarrow> unit sql_result \<times> sqldb" where
  "PeerStore_AddPeerToSwarm ip port fileHash = Q_AddPeerToSwarm ip port fileHash"

definition PeerStore_DropAllPeers :: "sqldb \<Rightarrow> unit sql_result \<times> sqldb" where
  "PeerStore_DropAllPeers c =
     (case Q_DeleteAllSwarms c of
        (Inl e, c') \<Rightarrow> (Inl e, c')
      | (Inr u, c') \<Rightarrow> Q_DeleteAllPeers c')"

definition PeerStore_GetPeersByFileHash :: "string \<Rightarrow> sqldb \<Rightarrow> peer_row list sql_result \<times> sqldb" where
  "PeerStore_GetPeersByFileHash fileHash = Q_GetPeersByFileHash fileHash"

section \<open>Statements through the driver\<close>

definition wf_db :: "sqldb \<Rightarrow> bool" where
  "wf_db c \<longleftrightarrow> wf_tables (tables_of c)"

lemma wf_db_snd: "wf_db (snd x) \<Longrightarrow> x = (r, c) \<Longrightarrow> wf_db c"
  by simp

lemma next_slot_tables [simp]: "next_slot c = (x, c') \<Longrightarrow> tables_of c' = tables_of c"
  by (auto simp: next_slot_def split: list.splits)

lemma run_stmt_cases:
  obtains (fault) c' where "run_stmt stmt c = (Inl DriverError, c')" "tables_of c' = tables_of c"
  | (ran) fk c' where "run_stmt stmt c = (fst (stmt fk (tables_of c)), c')"
      "tables_of c' = snd (stmt fk (tables_of c))"
proof (cases "next_slot c")
  case (Pair x c')
  show thesis
  proof (cases x)
    case DriverFault
    then show thesis using fault [of c'] Pair by (simp add: run_stmt_def)
  next
    case (OnConn fk)
    then show thesis
      using ran [of fk "c'\<lparr>tables_of := snd (stmt fk (tables_of c))\<rparr>"] Pair
      by (simp add: run_stmt_def split: prod.split)
  qed
qed

lemma run_stmt_wf:
  assumes "\<And>fk t. wf_tables t \<Longrightarrow> wf_tables (snd (stmt fk t))" and "wf_db c"
  shows "wf_db (snd (run_stmt stmt c))"
  using assms by (cases rule: run_stmt_cases [of stmt c]) (auto simp: wf_db_def)

lemma run_query_cases:
  obtains (fault) c' where "run_query q c = (Inl DriverError, c')" "tables_of c' = tables_of c"
  | (ran) c' where "run_query q c = (q (tables_of c), c')" "tables_of c' = tables_of c"
  unfolding run_query_def by (rule run_stmt_cases [of "\<lambda>fk t. (q t, t)" c]) auto

lemma run_query_tables: "run_query q c = (r, c') \<Longrightarrow> tables_of c' = tables_of c"
  by (cases rule: run_query_cases [of q c]) auto

text \<open>With an empty schedule every statement runs, with foreign keys enforced.\<close>

lemma run_stmt_calm:
  "sched c = [] \<Longrightarrow> run_stmt stmt c =
     (fst (stmt True (tables_of c)), c\<lparr>tables_of := snd (stmt True (tables_of c))\<rparr>)"
  by (simp add: run_stmt_def next_slot_def split: prod.split)

lemma run_query_calm: "sched c = [] \<Longrightarrow> run_query q c = (q (tables_of c), c)"
  by (simp add: run_query_def run_stmt_calm)

lemmas store_defs =
  FileStore_CreateFile_def FileStore_GetFiles_def FileStore_GetFileByHash_def
  FileStore_GetFileNameByHash_def ChunkStore_CreateChunk_def ChunkStore_GetChunk_def
  ChunkStore_GetChunks_def ChunkStore_MarkChunkAvailable_def PeerStore_CreatePeer_def
  PeerStore_DeletePeer_def PeerStore_AddPeerToSwarm_def PeerStore_DropAllPeers_def
  PeerStore_GetPeersByFileHash_def

lemmas query_defs =
  Q_CreateFile_def Q_GetAllFiles_def Q_GetFileByHash_def Q_GetFileByID_def Q_GetFileNameByHash_def
  Q_CreateChunk_def Q_GetChunk_def Q_GetChunksByFileHash_def Q_GetChunksByFileID_def
  Q_MarkChunkAvailable_def Q_CreatePeer_def Q_GetPeerByIPPort_def Q_DeletePeerByIPPort_def
  Q_DeleteAllPeers_def Q_DeleteAllSwarms_def Q_CreateSwarm_def Q_AddPeerToSwarm_def
  Q_GetPeersByFileHash_def

subsection \<open>Every query keeps the schema's constraints\<close>

lemma run_query_wf: "wf_db c \<Longrightarrow> wf_db (snd (run_query q c))"
  unfolding run_query_def by (rule run_stmt_wf) simp_all

lemma Q_CreateFile_wf: "wf_db c \<Longrightarrow> wf_db (snd (Q_CreateFile a c))"
  unfolding Q_CreateFile_def by (rule run_stmt_wf) (auto intro: stmt_wf)

lemma Q_CreateChunk_wf: "wf_db c \<Longrightarrow> wf_db (snd (Q_CreateChunk a c))"
  unfolding Q_CreateChunk_def by (rule run_stmt_wf) (auto intro: stmt_wf)

lemma Q_MarkChunkAvailable_wf: "wf_db c \<Longrightarrow> wf_db (snd (Q_MarkChunkAvailable h i c))"
  unfolding Q_MarkChunkAvailable_def by (rule run_stmt_wf) (auto intro: stmt_wf)

lemma Q_CreatePeer_wf: "wf_db c \<Longrightarrow> wf_db (snd (Q_CreatePeer ip port c))"
  unfolding Q_CreatePeer_def by (rule run_stmt_wf) (auto intro: stmt_wf)

lemma Q_DeletePeerByIPPort_wf: "wf_db c \<Longrightarrow> wf_db (snd (Q_DeletePeerByIPPort ip port c))"
  unfolding Q_DeletePeerByIPPort_def by (rule run_stmt_wf) (auto intro: stmt_wf)

lemma Q_DeleteAllPeers_wf: "wf_db c \<Longrightarrow> wf_db (snd (Q_DeleteAllPeers c))"
  unfolding Q_DeleteAllPeers_def by (rule run_stmt_wf) (auto intro: stmt_wf)

lemma Q_DeleteAllSwarms_wf: "wf_db c \<Longrightarrow> wf_db (snd (Q_DeleteAllSwarms c))"
  unfolding Q_DeleteAllSwarms_def by (rule run_stmt_wf) (auto intro: stmt_wf)

lemma Q_AddPeerToSwarm_wf: "wf_db c \<Longrightarrow> wf_db (snd (Q_AddPeerToSwarm ip port h c))"
  unfolding Q_AddPeerToSwarm_def by (rule run_stmt_wf) (auto intro: stmt_wf)

lemmas query_wf = run_query_wf Q_CreateFile_wf Q_CreateChunk_wf Q_MarkChunkAvailable_wf
  Q_CreatePeer_wf Q_DeletePeerByIPPort_wf Q_DeleteAllPeers_wf Q_DeleteAllSwarms_wf Q_AddPeerToSwarm_wf

section \<open>The FileRepository contract\<close>

text \<open>
  \<open>file_of d h\<close> is the file registered under a hash. The laws say what each operation
  reports of it and does to it, whatever the driver does in between.
\<close>

locale file_repository =
  fixes create :: "int \<Rightarrow> string \<Rightarrow> int \<Rightarrow> int \<Rightarrow> int \<Rightarrow> string \<Rightarrow> 'd \<Rightarrow> (file_row \<times> bool) sql_result \<times> 'd"
    and get_by_hash :: "string \<Rightarrow> 'd \<Rightarrow> file_row sql_result \<times> 'd"
    and get_name :: "string \<Rightarrow> 'd \<Rightarrow> string sql_result \<times> 'd"
    and file_of :: "'d \<Rightarrow> string \<Rightarrow> file_row option"
    and inv :: "'d \<Rightarrow> bool"
  assumes create_ok: "inv d \<Longrightarrow> create now n s m k h d = (Inr (f, new), d') \<Longrightarrow>
      inv d' \<and> file_of d' = (file_of d)(h \<mapsto> f) \<and> (new \<longleftrightarrow> file_of d h = None) \<and>
      (\<not> new \<longrightarrow> file_of d h = Some f) \<and>
      (new \<longrightarrow> f_Name f = n \<and> f_Size f = s \<and> f_MaxChunkSize f = m \<and> f_TotalChunks f = k \<and> f_Hash f = h)"
    and create_err: "inv d \<Longrightarrow> create now n s m k h d = (Inl e, d') \<Longrightarrow> inv d' \<and> file_of d' = file_of d"
    and get_ok: "inv d \<Longrightarrow> get_by_hash h d = (Inr f, d') \<Longrightarrow>
      inv d' \<and> file_of d' = file_of d \<and> file_of d h = Some f"
    and get_err: "inv d \<Longrightarrow> get_by_hash h d = (Inl e, d') \<Longrightarrow>
      inv d' \<and> file_of d' = file_of d \<and> (e = ErrNoRows \<longrightarrow> file_of d h = None)"
    and name_ok: "inv d \<Longrightarrow> get_name h d = (Inr x, d') \<Longrightarrow>
      inv d' \<and> file_of d' = file_of d \<and> map_option f_Name (file_of d h) = Some x"
begin

lemma get_after_create:
  assumes "inv d" "create now n s m k h d = (Inr (f, new), d1)" "get_by_hash h d1 = (Inr g, d2)"
  shows "g = f"
proof -
  note c = create_ok [OF assms(1,2)]
  then have "file_of d1 h = Some g" using get_ok assms(3) by blast
  then show ?thesis using c by simp
qed

lemma create_twice:
  assumes "inv d" "create now n s m k h d = (Inr (f, new), d1)"
    and "create now' n' s' m' k' h d1 = (Inr (g, new'), d2)"
  shows "g = f \<and> \<not> new' \<and> file_of d2 = file_of d1"
proof -
  note c1 = create_ok [OF assms(1,2)]
  then have "inv d1" by simp
  note c2 = create_ok [OF this assms(3)]
  show ?thesis using c1 c2 by (auto simp: fun_upd_idem)
qed

lemma create_keeps_others:
  assumes "inv d" "create now n s m k h d = (r, d1)" "h' \<noteq> h"
  shows "file_of d1 h' = file_of d h'"
proof (cases r)
  case (Inl e)
  then show ?thesis using create_err [OF assms(1)] assms(2) by simp
next
  case (Inr p)
  then obtain f new where "r = Inr (f, new)" by (cases p) auto
  then show ?thesis using create_ok [OF assms(1)] assms(2,3) by simp
qed

lemma name_after_create:
  assumes "inv d" "create now n s m k h d = (Inr (f, new), d1)" "get_name h d1 = (Inr x, d2)"
  shows "x = f_Name f"
proof -
  note c = create_ok [OF assms(1,2)]
  then have "map_option f_Name (file_of d1 h) = Some x" using name_ok assms(3) by blast
  then show ?thesis using c by simp
qed

end

definition stored_file :: "sqldb \<Rightarrow> string \<Rightarrow> file_row option" where
  "stored_file c h = (case select_file_by_hash h (tables_of c) of [] \<Rightarrow> None | f # _ \<Rightarrow> Some f)"

lemma stored_file_Some:
  "wf_db c \<Longrightarrow> stored_file c h = Some f \<longleftrightarrow> f \<in> set (files (tables_of c)) \<and> f_Hash f = h"
proof
  assume "stored_file c h = Some f"
  then have "f \<in> set (select_file_by_hash h (tables_of c))"
    by (auto simp: stored_file_def split: list.splits)
  then show "f \<in> set (files (tables_of c)) \<and> f_Hash f = h" by (simp add: select_file_by_hash_def)
next
  assume "wf_db c" "f \<in> set (files (tables_of c)) \<and> f_Hash f = h"
  then show "stored_file c h = Some f"
    using select_file_unique by (fastforce simp: stored_file_def wf_db_def)
qed

lemma stored_file_None:
  "stored_file c h = None \<longleftrightarrow> (\<forall>f \<in> set (files (tables_of c)). f_Hash f \<noteq> h)"
  by (auto simp: stored_file_def select_file_by_hash_def filter_empty_conv filter_eq_Cons_iff
      split: list.splits)

lemma stored_file_cong: "files (tables_of c') = files (tables_of c) \<Longrightarrow> stored_file c' = stored_file c"
  by (simp add: stored_file_def select_file_by_hash_def fun_eq_iff)

lemma GetFileByHash_result:
  assumes "Q_GetFileByHash h c = (r, c')"
  shows "tables_of c' = tables_of c \<and>
    (r = Inl DriverError \<or> r = (case stored_file c h of None \<Rightarrow> Inl ErrNoRows | Some f \<Rightarrow> Inr f))"
  using assms unfolding Q_GetFileByHash_def
  by (cases rule: run_query_cases [of "\<lambda>t. first_row (select_file_by_hash h t)" c])
     (auto simp: stored_file_def split: list.splits)

lemma GetFileNameByHash_result:
  assumes "Q_GetFileNameByHash h c = (r, c')"
  shows "tables_of c' = tables_of c \<and>
    (r = Inl DriverError \<or> r = (case stored_file c h of None \<Rightarrow> Inl ErrNoRows | Some f \<Rightarrow> Inr (f_Name f)))"
  using assms unfolding Q_GetFileNameByHash_def
  by (cases rule: run_query_cases [of "\<lambda>t. first_row (map f_Name (select_file_by_hash h t))" c])
     (auto simp: stored_file_def split: list.splits)

lemma insert_file_result:
  assumes "insert_file a fk t = (r, t')"
  shows "(\<exists>e. r = Inl e \<and> t' = t) \<or>
    (\<exists>f. r = Inr f \<and> files t' = files t @ [f] \<and> chunks t' = chunks t \<and> peers t' = peers t \<and>
      swarms t' = swarms t \<and> f_Hash f = cfp_Hash a \<and> f_Name f = cfp_Name a \<and> f_Size f = cfp_Size a \<and>
      f_MaxChunkSize f = cfp_MaxChunkSize a \<and> f_TotalChunks f = cfp_TotalChunks a \<and>
      (\<forall>g \<in> set (files t). f_Hash g \<noteq> cfp_Hash a))"
  using assms by (auto simp: insert_file_def Let_def split: if_splits sum.splits)

lemma Q_CreateFile_result:
  assumes "Q_CreateFile a c = (r, c')"
  shows "(\<exists>e. r = Inl e \<and> tables_of c' = tables_of c) \<or>
    (\<exists>f. r = Inr f \<and> files (tables_of c') = files (tables_of c) @ [f] \<and>
      chunks (tables_of c') = chunks (tables_of c) \<and> peers (tables_of c') = peers (tables_of c) \<and>
      swarms (tables_of c') = swarms (tables_of c) \<and> f_Hash f = cfp_Hash a \<and> f_Name f = cfp_Name a \<and>
      f_Size f = cfp_Size a \<and> f_MaxChunkSize f = cfp_MaxChunkSize a \<and> f_TotalChunks f = cfp_TotalChunks a)"
proof (cases rule: run_stmt_cases [of "insert_file a" c])
  case (fault d)
  then show ?thesis using assms by (auto simp: Q_CreateFile_def)
next
  case (ran fk d)
  obtain r1 t1 where i: "insert_file a fk (tables_of c) = (r1, t1)"
    by (cases "insert_file a fk (tables_of c)")
  show ?thesis using ran assms insert_file_result [OF i] i by (auto simp: Q_CreateFile_def)
qed

lemma CreateFile_result:
  assumes "FileStore_CreateFile now n s m k h c = (r, c')" and wf: "wf_db c"
  shows "wf_db c' \<and>
    (case r of
       Inl e \<Rightarrow> tables_of c' = tables_of c
     | Inr (f, new) \<Rightarrow>
         chunks (tables_of c') = chunks (tables_of c) \<and> peers (tables_of c') = peers (tables_of c) \<and>
         swarms (tables_of c') = swarms (tables_of c) \<and> f_Hash f = h \<and>
         (if new then files (tables_of c') = files (tables_of c) @ [f] \<and> stored_file c h = None \<and>
            f_Name f = n \<and> f_Size f = s \<and> f_MaxChunkSize f = m \<and> f_TotalChunks f = k
          else tables_of c' = tables_of c \<and> stored_file c h = Some f))"
proof -
  obtain g c1 where g: "Q_GetFileByHash h c = (g, c1)" by (cases "Q_GetFileByHash h c")
  note G = GetFileByHash_result [OF g]
  let ?a = "\<lparr>cfp_Name = n, cfp_Size = s, cfp_MaxChunkSize = m, cfp_TotalChunks = k,
             cfp_Hash = h, cfp_CreatedAt = now\<rparr>"
  have wf1: "wf_db c1" using G wf by (simp add: wf_db_def)
  show ?thesis
  proof (cases "g = Inl ErrNoRows")
    case False
    then show ?thesis
      using assms G wf wf1 stored_file_Some [OF wf, of h]
      by (auto simp: FileStore_CreateFile_def g split: sum.splits option.splits)
  next
    case True
    then have none: "stored_file c h = None" using G by (auto split: option.splits)
    obtain i c2 where i: "Q_CreateFile ?a c1 = (i, c2)" by (cases "Q_CreateFile ?a c1")
    have wf2: "wf_db c2"
      using Q_CreateFile_wf [OF wf1, of ?a] i by simp
    have t1: "tables_of c1 = tables_of c" using G by simp
    have run: "FileStore_CreateFile now n s m k h c =
        (case i of Inl e \<Rightarrow> (Inl e, c2) | Inr f \<Rightarrow> (Inr (f, True), c2))"
      by (simp add: FileStore_CreateFile_def g True i split: sum.split)
    from Q_CreateFile_result [OF i] show ?thesis
    proof (elim disjE exE conjE)
      fix e assume "i = Inl e" "tables_of c2 = tables_of c1"
      then show ?thesis using assms(1) run wf2 t1 by auto
    next
      fix f assume "i = Inr f" "files (tables_of c2) = files (tables_of c1) @ [f]"
        "chunks (tables_of c2) = chunks (tables_of c1)" "peers (tables_of c2) = peers (tables_of c1)"
        "swarms (tables_of c2) = swarms (tables_of c1)" "f_Hash f = cfp_Hash ?a"
        "f_Name f = cfp_Name ?a" "f_Size f = cfp_Size ?a" "f_MaxChunkSize f = cfp_MaxChunkSize ?a"
        "f_TotalChunks f = cfp_TotalChunks ?a"
      then show ?thesis using assms(1) run wf2 t1 none by auto
    qed
  qed
qed

interpretation file_store: file_repository FileStore_CreateFile FileStore_GetFileByHash
  FileStore_GetFileNameByHash stored_file wf_db
proof unfold_locales
  fix d now n s m k h f new d'
  assume wf: "wf_db d" and c: "FileStore_CreateFile now n s m k h d = (Inr (f, new), d')"
  have "stored_file d' = (stored_file d)(h \<mapsto> f)"
  proof (cases new)
    case False
    then show ?thesis using CreateFile_result [OF c wf] stored_file_cong [of d' d] by (auto simp: fun_upd_idem)
  next
    case True
    then have "files (tables_of d') = files (tables_of d) @ [f]" "f_Hash f = h" "stored_file d h = None"
      using CreateFile_result [OF c wf] by auto
    then show ?thesis
      by (auto simp: stored_file_def select_file_by_hash_def fun_eq_iff filter_empty_conv split: list.splits)
  qed
  then show "wf_db d' \<and> stored_file d' = (stored_file d)(h \<mapsto> f) \<and> (new \<longleftrightarrow> stored_file d h = None) \<and>
      (\<not> new \<longrightarrow> stored_file d h = Some f) \<and>
      (new \<longrightarrow> f_Name f = n \<and> f_Size f = s \<and> f_MaxChunkSize f = m \<and> f_TotalChunks f = k \<and> f_Hash f = h)"
    using CreateFile_result [OF c wf] by (auto split: if_splits)
next
  fix d now n s m k h e d'
  assume wf: "wf_db d" and c: "FileStore_CreateFile now n s m k h d = (Inl e, d')"
  show "wf_db d' \<and> stored_file d' = stored_file d"
    using CreateFile_result [OF c wf] stored_file_cong [of d' d] by auto
next
  fix d h f d'
  assume "wf_db d" "FileStore_GetFileByHash h d = (Inr f, d')"
  then show "wf_db d' \<and> stored_file d' = stored_file d \<and> stored_file d h = Some f"
    using GetFileByHash_result [of h d] stored_file_cong [of d' d]
    by (auto simp: FileStore_GetFileByHash_def wf_db_def split: option.splits)
next
  fix d h e d'
  assume "wf_db d" "FileStore_GetFileByHash h d = (Inl e, d')"
  then show "wf_db d' \<and> stored_file d' = stored_file d \<and> (e = ErrNoRows \<longrightarrow> stored_file d h = None)"
    using GetFileByHash_result [of h d] stored_file_cong [of d' d]
    by (auto simp: FileStore_GetFileByHash_def wf_db_def split: option.splits)
next
  fix d h x d'
  assume "wf_db d" "FileStore_GetFileNameByHash h d = (Inr x, d')"
  then show "wf_db d' \<and> stored_file d' = stored_file d \<and> map_option f_Name (stored_file d h) = Some x"
    using GetFileNameByHash_result [of h d] stored_file_cong [of d' d]
    by (auto simp: FileStore_GetFileNameByHash_def wf_db_def split: option.splits)
qed

section \<open>The ChunkRepository contract\<close>

text \<open>
  \<open>chunks_of d h\<close> lists the chunk rows of the file registered under a hash, by index;
  \<open>id_of d h\<close> is that file's id.
\<close>

abbreviation set_available :: "int \<Rightarrow> chunk_row \<Rightarrow> chunk_row" where
  "set_available i c \<equiv> (if c_ChunkIndex c = i then c\<lparr>c_IsAvailable := 1\<rparr> else c)"

definition missing :: "chunk_row list \<Rightarrow> nat" where
  "missing cs = length (filter (\<lambda>c. c_IsAvailable c \<noteq> 1) cs)"

lemma missing_Nil [simp]: "missing [] = 0"
  by (simp add: missing_def)

lemma missing_Cons [simp]: "missing (c # cs) = (if c_IsAvailable c \<noteq> 1 then 1 else 0) + missing cs"
  by (simp add: missing_def)

lemma missing_mark_le: "missing (map (set_available i) cs) \<le> missing cs"
  by (induction cs) auto

lemma missing_mark_less:
  "c \<in> set cs \<Longrightarrow> c_ChunkIndex c = i \<Longrightarrow> c_IsAvailable c \<noteq> 1 \<Longrightarrow>
   missing (map (set_available i) cs) < missing cs"
proof (induction cs)
  case (Cons d cs)
  then show ?case using missing_mark_le [of i cs] by auto
qed simp

locale chunk_repository =
  fixes create_chunk :: "int \<Rightarrow> int \<Rightarrow> int \<Rightarrow> string \<Rightarrow> bool \<Rightarrow> 'd \<Rightarrow> chunk_row sql_result \<times> 'd"
    and get_chunk :: "string \<Rightarrow> int \<Rightarrow> 'd \<Rightarrow> chunk_row sql_result \<times> 'd"
    and get_chunks :: "string \<Rightarrow> 'd \<Rightarrow> chunk_row list sql_result \<times> 'd"
    and mark_available :: "string \<Rightarrow> int \<Rightarrow> 'd \<Rightarrow> unit sql_result \<times> 'd"
    and chunks_of :: "'d \<Rightarrow> string \<Rightarrow> chunk_row list"
    and id_of :: "'d \<Rightarrow> string \<Rightarrow> int option"
    and inv :: "'d \<Rightarrow> bool"
  assumes ordered: "sorted (map c_ChunkIndex (chunks_of d h))"
    and create_chunk_ok: "inv d \<Longrightarrow> create_chunk fid i s hs av d = (Inr c, d') \<Longrightarrow>
      inv d' \<and> id_of d' = id_of d \<and> c_ChunkIndex c = i \<and> c_ChunkSize c = s \<and> c_ChunkHash c = hs \<and>
      c_IsAvailable c = (if av then 1 else 0) \<and>
      (\<forall>h. mset (chunks_of d' h) =
        mset (chunks_of d h) + (if id_of d h = Some fid then {#c#} else {#}))"
    and create_chunk_err: "inv d \<Longrightarrow> create_chunk fid i s hs av d = (Inl e, d') \<Longrightarrow>
      inv d' \<and> id_of d' = id_of d \<and> chunks_of d' = chunks_of d"
    and get_chunk_ok: "inv d \<Longrightarrow> get_chunk h i d = (Inr c, d') \<Longrightarrow>
      inv d' \<and> chunks_of d' = chunks_of d \<and> c \<in> set (chunks_of d h) \<and> c_ChunkIndex c = i"
    and get_chunk_err: "inv d \<Longrightarrow> get_chunk h i d = (Inl e, d') \<Longrightarrow>
      inv d' \<and> chunks_of d' = chunks_of d \<and>
      (e = ErrNoRows \<longrightarrow> (\<forall>c \<in> set (chunks_of d h). c_ChunkIndex c \<noteq> i))"
    and get_chunks_ok: "inv d \<Longrightarrow> get_chunks h d = (Inr cs, d') \<Longrightarrow>
      inv d' \<and> chunks_of d' = chunks_of d \<and> cs = chunks_of d h"
    and get_chunks_err: "inv d \<Longrightarrow> get_chunks h d = (Inl e, d') \<Longrightarrow> inv d' \<and> chunks_of d' = chunks_of d"
    and mark_ok: "inv d \<Longrightarrow> mark_available h i d = (Inr u, d') \<Longrightarrow>
      inv d' \<and> chunks_of d' = (chunks_of d)(h := map (set_available i) (chunks_of d h))"
    and mark_err: "inv d \<Longrightarrow> mark_available h i d = (Inl e, d') \<Longrightarrow> inv d' \<and> chunks_of d' = chunks_of d"
begin

text \<open>Marking never loses progress on any file, and makes some on the marked chunk's.\<close>

lemma mark_progress:
  assumes "inv d" "mark_available h i d = (r, d')"
  shows "missing (chunks_of d' h') \<le> missing (chunks_of d h')"
  using mark_ok [OF assms(1), of h i] mark_err [OF assms(1), of h i] assms(2) missing_mark_le
  by (cases r) auto

lemma mark_decreases:
  assumes "inv d" "mark_available h i d = (Inr u, d')"
    and "c \<in> set (chunks_of d h)" "c_ChunkIndex c = i" "c_IsAvailable c \<noteq> 1"
  shows "missing (chunks_of d' h) < missing (chunks_of d h)"
  using mark_ok [OF assms(1,2)] missing_mark_less [OF assms(3-5)] by simp

lemma get_after_mark:
  assumes "inv d" "mark_available h i d = (Inr u, d1)" "get_chunk h i d1 = (Inr c, d2)"
  shows "c_IsAvailable c = 1"
proof -
  note m = mark_ok [OF assms(1,2)]
  then have "inv d1" by simp
  note g = get_chunk_ok [OF this assms(3)]
  have "c \<in> set_available i ` set (chunks_of d h)" using m g by (simp only: fun_upd_same set_map)
  then obtain k where k: "c = set_available i k" by blast
  moreover have "c_ChunkIndex c = i" using g by simp
  ultimately show ?thesis by (simp split: if_splits)
qed

lemma mark_twice:
  assumes "inv d" "mark_available h i d = (Inr u, d1)" "mark_available h i d1 = (Inr v, d2)"
  shows "chunks_of d2 = chunks_of d1"
proof -
  note m = mark_ok [OF assms(1,2)]
  then have "inv d1" by simp
  note m2 = mark_ok [OF this assms(3)]
  show ?thesis using m m2 by (auto simp: fun_eq_iff)
qed

end

definition stored_chunks :: "sqldb \<Rightarrow> string \<Rightarrow> chunk_row list" where
  "stored_chunks c h = select_chunks_by_hash h (tables_of c)"

definition stored_file_id :: "sqldb \<Rightarrow> string \<Rightarrow> int option" where
  "stored_file_id c h = map_option f_ID (stored_file c h)"

lemma insort_map: "insort_key k (g x) (map g ys) = map g (insort_key (k \<circ> g) x ys)"
  by (induction ys) auto

lemma sort_map: "sort_key k (map g xs) = map g (sort_key (k \<circ> g) xs)"
  by (induction xs) (simp_all add: insort_map comp_def)

lemma filter_map_keep: "(\<And>x. P (g x) = P x) \<Longrightarrow> filter P (map g xs) = map g (filter P xs)"
  by (simp add: filter_map comp_def)

lemma map_id_on: "(\<And>x. x \<in> set xs \<Longrightarrow> g x = x) \<Longrightarrow> map g xs = xs"
  by (induction xs) auto

lemma chunks_unknown: "stored_file c h = None \<Longrightarrow> stored_chunks c h = []"
proof -
  assume none: "stored_file c h = None"
  have "set (join_chunks_files h (tables_of c)) = {}"
    using none by (auto simp: stored_file_None set_join_chunks_files)
  then show ?thesis by (simp add: stored_chunks_def select_chunks_by_hash_def)
qed

lemma chunks_known:
  assumes "wf_db c" "stored_file c h = Some f"
  shows "stored_chunks c h =
    sort_key c_ChunkIndex (filter (\<lambda>k. c_FileID k = f_ID f) (chunks (tables_of c)))"
  using assms stored_file_Some [OF assms(1), of h f] join_chunks_files_known [of "tables_of c" f]
  by (auto simp: stored_chunks_def select_chunks_by_hash_def wf_db_def)

text \<open>Two views of the same rows: the chunks of a file depend on its id only.\<close>

lemma stored_chunks_alt:
  "wf_db c \<Longrightarrow> stored_chunks c h =
     (case stored_file_id c h of None \<Rightarrow> []
      | Some i \<Rightarrow> sort_key c_ChunkIndex (filter (\<lambda>k. c_FileID k = i) (chunks (tables_of c))))"
  using chunks_unknown [of c h] chunks_known [of c h]
  by (auto simp: stored_file_id_def split: option.split)

lemma stored_id_cong: "files (tables_of c') = files (tables_of c) \<Longrightarrow> stored_file_id c' = stored_file_id c"
  using stored_file_cong [of c' c] by (simp add: stored_file_id_def fun_eq_iff)

lemma stored_chunks_cong:
  "files (tables_of c') = files (tables_of c) \<Longrightarrow> chunks (tables_of c') = chunks (tables_of c) \<Longrightarrow>
   stored_chunks c' = stored_chunks c"
  by (simp add: stored_chunks_def select_chunks_by_hash_def join_chunks_files_def fun_eq_iff)

lemma stored_id_inj:
  "wf_db c \<Longrightarrow> stored_file_id c h = Some i \<Longrightarrow> stored_file_id c h' = Some i \<Longrightarrow> h = h'"
  by (auto simp: stored_file_id_def stored_file_Some wf_db_def dest: wf_file_id_unique)

text \<open>The tables after the two statements that write chunks.\<close>

lemma insert_chunk_tables:
  assumes "insert_chunk a fk t = (Inr c, t')"
  shows "files t' = files t \<and> chunks t' = chunks t @ [c] \<and> c_FileID c = ccp_FileID a \<and>
    c_ChunkIndex c = ccp_ChunkIndex a \<and> c_ChunkSize c = ccp_ChunkSize a \<and>
    c_ChunkHash c = ccp_ChunkHash a \<and> c_IsAvailable c = ccp_IsAvailable a"
  using assms by (auto simp: insert_chunk_def Let_def split: if_splits sum.splits)

lemma insert_chunk_err: "insert_chunk a fk t = (Inl e, t') \<Longrightarrow> t' = t"
  by (auto simp: insert_chunk_def Let_def split: if_splits sum.splits)

lemma Q_CreateChunk_result:
  assumes "Q_CreateChunk a c = (r, c')"
  shows "case r of Inl e \<Rightarrow> tables_of c' = tables_of c
    | Inr k \<Rightarrow> files (tables_of c') = files (tables_of c) \<and> chunks (tables_of c') = chunks (tables_of c) @ [k] \<and>
        c_FileID k = ccp_FileID a \<and> c_ChunkIndex k = ccp_ChunkIndex a \<and> c_ChunkSize k = ccp_ChunkSize a \<and>
        c_ChunkHash k = ccp_ChunkHash a \<and> c_IsAvailable k = ccp_IsAvailable a"
proof (cases rule: run_stmt_cases [of "insert_chunk a" c])
  case (fault d)
  then show ?thesis using assms by (auto simp: Q_CreateChunk_def)
next
  case (ran fk d)
  obtain r1 t1 where i: "insert_chunk a fk (tables_of c) = (r1, t1)"
    by (cases "insert_chunk a fk (tables_of c)")
  have rd: "r = r1" "c' = d" "tables_of c' = t1" using ran assms i by (auto simp: Q_CreateChunk_def)
  show ?thesis
  proof (cases r1)
    case (Inl e)
    then show ?thesis using rd insert_chunk_err [of a fk "tables_of c" e t1] i by simp
  next
    case (Inr k)
    then show ?thesis using rd insert_chunk_tables [of a fk "tables_of c" k t1] i by simp
  qed
qed

definition mark_row :: "string \<Rightarrow> int \<Rightarrow> sqldb \<Rightarrow> chunk_row \<Rightarrow> chunk_row" where
  "mark_row h i c k =
     (if stored_file_id c h = Some (c_FileID k) \<and> c_ChunkIndex k = i then k\<lparr>c_IsAvailable := 1\<rparr> else k)"

lemma Q_Mark_result:
  assumes "Q_MarkChunkAvailable h i c = (r, c')"
  shows "files (tables_of c') = files (tables_of c) \<and>
    (case r of Inl e \<Rightarrow> tables_of c' = tables_of c
     | Inr u \<Rightarrow> chunks (tables_of c') = map (mark_row h i c) (chunks (tables_of c)))"
proof (cases rule: run_stmt_cases [of "update_available h i" c])
  case (fault d)
  then show ?thesis using assms by (auto simp: Q_MarkChunkAvailable_def)
next
  case (ran fk d)
  then have "r = fst (update_available h i fk (tables_of c))"
    "tables_of c' = snd (update_available h i fk (tables_of c))"
    using assms by (auto simp: Q_MarkChunkAvailable_def)
  then show ?thesis
    by (cases "select_file_by_hash h (tables_of c)")
       (auto simp: update_available_def mark_row_def stored_file_id_def stored_file_def
        intro!: map_cong map_id_on [symmetric])
qed

lemma mark_row_keeps [simp]:
  "c_FileID (mark_row h i c k) = c_FileID k" "c_ChunkIndex (mark_row h i c k) = c_ChunkIndex k"
  by (simp_all add: mark_row_def)

lemma stored_chunks_marked:
  assumes wf: "wf_db c" "wf_db c'" and fs: "files (tables_of c') = files (tables_of c)"
    and cs: "chunks (tables_of c') = map (mark_row h i c) (chunks (tables_of c))"
  shows "stored_chunks c' = (stored_chunks c)(h := map (set_available i) (stored_chunks c h))"
proof
  fix h'
  show "stored_chunks c' h' = ((stored_chunks c)(h := map (set_available i) (stored_chunks c h))) h'"
  proof (cases "stored_file_id c h'")
    case None
    then show ?thesis
      using stored_id_cong [OF fs] by (auto simp: stored_chunks_alt wf)
  next
    case (Some j)
    let ?own = "sort_key c_ChunkIndex (filter (\<lambda>k. c_FileID k = j) (chunks (tables_of c)))"
    have "stored_chunks c' h' = map (mark_row h i c) ?own"
      using Some stored_id_cong [OF fs]
      by (simp add: stored_chunks_alt [OF wf(2)] cs filter_map_keep sort_map comp_def)
    also have "\<dots> = (if h' = h then map (set_available i) ?own else ?own)"
      using Some stored_id_inj [OF wf(1) Some, of h]
      by (auto simp: mark_row_def intro!: map_id_on)
    finally show ?thesis using Some by (auto simp: stored_chunks_alt [OF wf(1)])
  qed
qed

interpretation chunk_store: chunk_repository ChunkStore_CreateChunk ChunkStore_GetChunk
  ChunkStore_GetChunks ChunkStore_MarkChunkAvailable stored_chunks stored_file_id wf_db
proof unfold_locales
  show "sorted (map c_ChunkIndex (stored_chunks d h))" for d h
    by (simp add: stored_chunks_def select_chunks_by_hash_def)
next
  fix d fid i s hs av c d'
  assume wf: "wf_db d" and q: "ChunkStore_CreateChunk fid i s hs av d = (Inr c, d')"
  note q' = q [unfolded ChunkStore_CreateChunk_def Let_def]
  have r: "files (tables_of d') = files (tables_of d)" "chunks (tables_of d') = chunks (tables_of d) @ [c]"
    "c_FileID c = fid" "c_ChunkIndex c = i" "c_ChunkSize c = s" "c_ChunkHash c = hs"
    "c_IsAvailable c = (if av then 1 else 0)"
    using Q_CreateChunk_result [OF q'] by simp_all
  have wf': "wf_db d'"
    using Q_CreateChunk_wf [OF wf] q' by (rule wf_db_snd)
  have ids: "stored_file_id d' = stored_file_id d" using r(1) by (rule stored_id_cong)
  have ms: "mset (stored_chunks d' h) =
      mset (stored_chunks d h) + (if stored_file_id d h = Some fid then {#c#} else {#})" for h
    by (cases "stored_file_id d h")
       (simp_all add: stored_chunks_alt [OF wf] stored_chunks_alt [OF wf'] ids r(2,3))
  show "wf_db d' \<and> stored_file_id d' = stored_file_id d \<and> c_ChunkIndex c = i \<and> c_ChunkSize c = s \<and>
      c_ChunkHash c = hs \<and> c_IsAvailable c = (if av then 1 else 0) \<and>
      (\<forall>h. mset (stored_chunks d' h) =
        mset (stored_chunks d h) + (if stored_file_id d h = Some fid then {#c#} else {#}))"
    by (intro conjI allI wf' ids r(4-7) ms)
next
  fix d fid i s hs av e d'
  assume wf: "wf_db d" and q: "ChunkStore_CreateChunk fid i s hs av d = (Inl e, d')"
  note q' = q [unfolded ChunkStore_CreateChunk_def Let_def]
  have "tables_of d' = tables_of d" using Q_CreateChunk_result [OF q'] by simp
  then show "wf_db d' \<and> stored_file_id d' = stored_file_id d \<and> stored_chunks d' = stored_chunks d"
    using wf stored_id_cong [of d' d] stored_chunks_cong [of d' d] by (simp add: wf_db_def)
next
  fix d h i c d'
  assume wf: "wf_db d" and q: "ChunkStore_GetChunk h i d = (Inr c, d')"
  then have "tables_of d' = tables_of d \<and> c \<in> set (join_chunks_files h (tables_of d)) \<and> c_ChunkIndex c = i"
    unfolding ChunkStore_GetChunk_def Q_GetChunk_def
    by (cases rule: run_query_cases
          [of "\<lambda>t. first_row (filter (\<lambda>c. c_ChunkIndex c = i) (join_chunks_files h t))" d])
       (auto dest: first_row_Inr)
  then show "wf_db d' \<and> stored_chunks d' = stored_chunks d \<and> c \<in> set (stored_chunks d h) \<and> c_ChunkIndex c = i"
    using wf stored_chunks_cong [of d' d]
    by (simp add: wf_db_def stored_chunks_def select_chunks_by_hash_def)
next
  fix d h i e d'
  assume wf: "wf_db d" and q: "ChunkStore_GetChunk h i d = (Inl e, d')"
  then have "tables_of d' = tables_of d \<and>
      (e = ErrNoRows \<longrightarrow> (\<forall>c \<in> set (join_chunks_files h (tables_of d)). c_ChunkIndex c \<noteq> i))"
    unfolding ChunkStore_GetChunk_def Q_GetChunk_def
    by (cases rule: run_query_cases
          [of "\<lambda>t. first_row (filter (\<lambda>c. c_ChunkIndex c = i) (join_chunks_files h t))" d])
       (auto simp: first_row_Inl filter_empty_conv)
  then show "wf_db d' \<and> stored_chunks d' = stored_chunks d \<and>
      (e = ErrNoRows \<longrightarrow> (\<forall>c \<in> set (stored_chunks d h). c_ChunkIndex c \<noteq> i))"
    using wf stored_chunks_cong [of d' d]
    by (simp add: wf_db_def stored_chunks_def select_chunks_by_hash_def)
next
  fix d h cs d'
  assume wf: "wf_db d" and q: "ChunkStore_GetChunks h d = (Inr cs, d')"
  then have "tables_of d' = tables_of d \<and> cs = stored_chunks d h"
    unfolding ChunkStore_GetChunks_def Q_GetChunksByFileHash_def
    by (cases rule: run_query_cases [of "\<lambda>t. Inr (select_chunks_by_hash h t)" d])
       (auto simp: stored_chunks_def)
  then show "wf_db d' \<and> stored_chunks d' = stored_chunks d \<and> cs = stored_chunks d h"
    using wf stored_chunks_cong [of d' d] by (simp add: wf_db_def)
next
  fix d h e d'
  assume wf: "wf_db d" and q: "ChunkStore_GetChunks h d = (Inl e, d')"
  then have "tables_of d' = tables_of d"
    unfolding ChunkStore_GetChunks_def Q_GetChunksByFileHash_def by (simp add: run_query_tables)
  then show "wf_db d' \<and> stored_chunks d' = stored_chunks d"
    using wf stored_chunks_cong [of d' d] by (simp add: wf_db_def)
next
  fix d h i u d'
  assume wf: "wf_db d" and q: "ChunkStore_MarkChunkAvailable h i d = (Inr u, d')"
  note q' = q [unfolded ChunkStore_MarkChunkAvailable_def]
  have wf': "wf_db d'" using Q_MarkChunkAvailable_wf [OF wf, of h i] q' by simp
  then show "wf_db d' \<and> stored_chunks d' = (stored_chunks d)(h := map (set_available i) (stored_chunks d h))"
    using Q_Mark_result [OF q'] stored_chunks_marked [OF wf wf'] by simp
next
  fix d h i e d'
  assume wf: "wf_db d" and q: "ChunkStore_MarkChunkAvailable h i d = (Inl e, d')"
  then have "tables_of d' = tables_of d"
    using Q_Mark_result [of h i d "Inl e" d'] by (simp add: ChunkStore_MarkChunkAvailable_def)
  then show "wf_db d' \<and> stored_chunks d' = stored_chunks d"
    using wf stored_chunks_cong [of d' d] by (simp add: wf_db_def)
qed

section \<open>Properties of the stores\<close>

definition sample_db :: sqldb where
  "sample_db = \<lparr>tables_of = sample_tables, sched = []\<rparr>"

lemma sample_tables_wf: "wf_tables sample_tables"
  by (rule schema.reachable_inv [OF refl any_steps [OF sample_tables_reachable]])

lemma sample_db_wf: "wf_db sample_db"
  by (simp add: wf_db_def sample_db_def sample_tables_wf)

text \<open>Creating a file is idempotent: a second creation under the same hash, with any other
  data, returns the stored row, reports that it was not created, and leaves every file as it was.\<close>

theorem create_file_idempotent:
  assumes "wf_db c" "FileStore_CreateFile now n s m k h c = (Inr (f, new), c1)"
    and "FileStore_CreateFile now' n' s' m' k' h c1 = (Inr (g, new'), c2)"
  shows "g = f \<and> \<not> new' \<and> stored_file c2 = stored_file c1"
  using file_store.create_twice [OF assms] by simp

theorem create_file_idempotent_witness:
  "\<exists>f c1 c2. FileStore_CreateFile 0 ''b'' 7 4 2 ''k'' sample_db = (Inr (f, True), c1) \<and>
     FileStore_CreateFile 1 ''other'' 9 4 3 ''k'' c1 = (Inr (f, False), c2) \<and> stored_file c2 = stored_file c1"
proof -
  define c1 where "c1 = snd (FileStore_CreateFile 0 ''b'' 7 4 2 ''k'' sample_db)"
  define f where "f = \<lparr>f_ID = 2, f_Name = ''b'', f_Size = 7, f_MaxChunkSize = 4, f_TotalChunks = 2,
    f_Hash = ''k'', f_CreatedAt = 0\<rparr>"
  define c2 where "c2 = snd (FileStore_CreateFile 1 ''other'' 9 4 3 ''k'' c1)"
  have "FileStore_CreateFile 0 ''b'' 7 4 2 ''k'' sample_db = (Inr (f, True), c1)"
    unfolding c1_def f_def by code_simp
  moreover from this have "FileStore_CreateFile 1 ''other'' 9 4 3 ''k'' c1 = (Inr (f, False), c2)"
    unfolding c2_def c1_def f_def by code_simp
  ultimately show ?thesis using create_file_idempotent [OF sample_db_wf] by blast
qed

text \<open>C7: a creation changes no other file, whatever the driver does to it.\<close>

theorem create_file_keeps_others:
  assumes "wf_db c" "FileStore_CreateFile now n s m k h c = (r, c1)" "h' \<noteq> h"
  shows "stored_file c1 h' = stored_file c h'"
  using file_store.create_keeps_others [OF assms] .

theorem create_file_keeps_others_witness:
  "stored_file (snd (FileStore_CreateFile 0 ''b'' 7 4 2 ''k'' sample_db)) ''h'' = stored_file sample_db ''h''
   \<and> stored_file sample_db ''h'' \<noteq> None"
  by (rule conjI [OF create_file_keeps_others [OF sample_db_wf surjective_pairing]]) code_simp+

text \<open>Marking a chunk of a file available makes every chunk row with that index available,
  changes no other row of that file and no row of another file, and fails without effect.\<close>

theorem mark_chunk_effect:
  assumes "wf_db c" "ChunkStore_MarkChunkAvailable h i c = (r, c')"
  shows "stored_chunks c' =
    (case r of Inl e \<Rightarrow> stored_chunks c
     | Inr u \<Rightarrow> (stored_chunks c)(h := map (set_available i) (stored_chunks c h)))"
  using chunk_store.mark_ok [OF assms(1), of h i] chunk_store.mark_err [OF assms(1), of h i] assms(2)
  by (cases r) auto

definition sample_chunks_db :: sqldb where
  "sample_chunks_db =
     snd (ChunkStore_CreateChunk 1 1 3 ''c1'' False
       (snd (ChunkStore_CreateChunk 1 0 2 ''c0'' False sample_db)))"

lemma sample_chunks_db_wf: "wf_db sample_chunks_db"
  unfolding sample_chunks_db_def ChunkStore_CreateChunk_def Let_def
  by (intro Q_CreateChunk_wf sample_db_wf)

theorem mark_chunk_effect_witness:
  "map c_IsAvailable (stored_chunks (snd (ChunkStore_MarkChunkAvailable ''h'' 1 sample_chunks_db)) ''h'') = [0, 1]"
proof -
  have "fst (ChunkStore_MarkChunkAvailable ''h'' 1 sample_chunks_db) = Inr ()" by code_simp
  moreover have "map c_IsAvailable (map (set_available 1) (stored_chunks sample_chunks_db ''h'')) = [0, 1]"
    by code_simp
  ultimately show ?thesis
    using mark_chunk_effect [OF sample_chunks_db_wf surjective_pairing, of "''h''" 1]
    by (simp add: fun_upd_same)
qed

end
