(* ===== verification/Tracker.thy ===== *)
theory Tracker
  imports Router Store
begin

text \<open>
  internal/tracker/tracker.go: the tracker's state (its tables, the routers of the daemons by
  id, the channels by address), the life of one connection from Accept to timeout or goodbye,
  and every handler. A connection is a number in the order of acceptance; the goroutines that
  serve the connections interleave handler by handler. Time is counted in seconds.
\<close>

section \<open>State\<close>

record Channels =
  AnnounceCh :: "AnnounceMessage list"
  GoodbyeCh :: "GoodbyeMessage list"
  HeartbeatCh :: "HeartbeatMessage list"
  PeerListRequestCh :: "PeerListRequest list"
  SignalingCh :: "SignalingMessage list"

definition empty_channels :: Channels where
  "empty_channels =
     \<lparr>AnnounceCh = [], GoodbyeCh = [], HeartbeatCh = [], PeerListRequestCh = [], SignalingCh = []\<rparr>"

text \<open>What handleDaemonMsgs keeps in local variables once it serves a daemon.\<close>

record session =
  se_daemonID :: string
  se_daemonIP :: string
  se_daemonPort :: string
  se_channels :: nat
  se_deadline :: nat

datatype phase = Accepted | Serving session | Finished

record conn =
  cn_addr :: string
  cn_channels :: Channels
  cn_phase :: phase
  cn_out :: "NetworkMessage list"

record tracker =
  t_conns :: "conn list"
  t_Channels :: "(string, nat) gomap"
  t_DaemonRouters :: "(string, nat) gomap"
  t_db :: sqldb
  t_now :: nat
  t_wfaults :: "bool list"

definition ClientTimeout :: nat where
  "ClientTimeout = 10"

definition NewTracker :: "sqldb \<Rightarrow> bool list \<Rightarrow> tracker" where
  "NewTracker db faults =
     \<lparr>t_conns = [], t_Channels = [], t_DaemonRouters = [], t_db = db, t_now = 0, t_wfaults = faults\<rparr>"

definition upd_conn :: "nat \<Rightarrow> (conn \<Rightarrow> conn) \<Rightarrow> tracker \<Rightarrow> tracker" where
  "upd_conn cid f t = t\<lparr>t_conns := (t_conns t)[cid := f (t_conns t ! cid)]\<rparr>"

definition set_phase :: "nat \<Rightarrow> phase \<Rightarrow> tracker \<Rightarrow> tracker" where
  "set_phase cid p = upd_conn cid (\<lambda>c. c\<lparr>cn_phase := p\<rparr>)"

text \<open>A router's WriteMessage: it fails when the schedule says so, else the message is sent.\<close>

definition tr_WriteMessage :: "nat \<Rightarrow> NetworkMessage \<Rightarrow> tracker \<Rightarrow> bool \<times> tracker" where
  "tr_WriteMessage cid msg t =
     (case t_wfaults t of
        True # fs \<Rightarrow> (False, t\<lparr>t_wfaults := fs\<rparr>)
      | False # fs \<Rightarrow> (True, upd_conn cid (\<lambda>c. c\<lparr>cn_out := cn_out c @ [msg]\<rparr>) (t\<lparr>t_wfaults := fs\<rparr>))
      | [] \<Rightarrow> (True, upd_conn cid (\<lambda>c. c\<lparr>cn_out := cn_out c @ [msg]\<rparr>) t))"

section \<open>Accepting and routing\<close>

text \<open>Tracker.Start, for one accepted connection: fresh channels registered under its address.\<close>

definition accept :: "string \<Rightarrow> tracker \<Rightarrow> tracker" where
  "accept addr t =
     (let cid = length (t_conns t);
          c = \<lparr>cn_addr = addr, cn_channels = empty_channels, cn_phase = Accepted, cn_out = []\<rparr>
      in t\<lparr>t_conns := t_conns t @ [c], t_Channels := mput addr cid (t_Channels t)\<rparr>)"

text \<open>The routes Tracker.Start adds to the connection's router.\<close>

definition tracker_routes :: routes where
  "tracker_routes =
     AddRoute (Chan ''signalingCh'' KSignaling) (asserts KSignaling)
     (AddRoute (Chan ''peerListRequestCh'' KPeerListRequest) (asserts KPeerListRequest)
     (AddRoute (Chan ''announceCh'' KAnnounce) (asserts KAnnounce)
     (AddRoute (Chan ''goodbyeCh'' KGoodbye) (asserts KGoodbye)
     (AddRoute (Chan ''heartbeatCh'' KHeartbeat) (asserts KHeartbeat) []))))"

text \<open>A message the router sends to the channel of its kind; others match no route.\<close>

fun enqueue :: "message_type \<Rightarrow> Channels \<Rightarrow> Channels" where
  "enqueue (NetworkMessage_Announce m) ch = ch\<lparr>AnnounceCh := AnnounceCh ch @ [m]\<rparr>"
| "enqueue (NetworkMessage_Goodbye m) ch = ch\<lparr>GoodbyeCh := GoodbyeCh ch @ [m]\<rparr>"
| "enqueue (NetworkMessage_Heartbeat m) ch = ch\<lparr>HeartbeatCh := HeartbeatCh ch @ [m]\<rparr>"
| "enqueue (NetworkMessage_PeerListRequest m) ch = ch\<lparr>PeerListRequestCh := PeerListRequestCh ch @ [m]\<rparr>"
| "enqueue (NetworkMessage_Signaling m) ch = ch\<lparr>SignalingCh := SignalingCh ch @ [m]\<rparr>"
| "enqueue m ch = ch"

definition receive :: "nat \<Rightarrow> message_type \<Rightarrow> tracker \<Rightarrow> tracker" where
  "receive cid m = upd_conn cid (\<lambda>c. c\<lparr>cn_channels := enqueue m (cn_channels c)\<rparr>)"

section \<open>Handlers\<close>

text \<open>handleAnnounce: the loop over the announced files.\<close>

fun announce_files :: "int \<Rightarrow> string \<Rightarrow> string \<Rightarrow> FileInfo list \<Rightarrow> sqldb \<Rightarrow> sqldb" where
  "announce_files now daemonIP daemonPort [] db = db"
| "announce_files now daemonIP daemonPort (file # fs) db =
     (let totalChunks = FileInfo_GetTotalChunks (Some file);
          maxChunkSize = FileInfo_GetChunkSize (Some file)
      in (case FileStore_CreateFile now (FileInfo_GetFileName (Some file)) (FileInfo_GetFileSize (Some file))
                 maxChunkSize totalChunks (FileInfo_GetFileHash (Some file)) db of
            (Inl e, db1) \<Rightarrow> announce_files now daemonIP daemonPort fs db1
          | (Inr (row, created), db1) \<Rightarrow>
              (case PeerStore_AddPeerToSwarm daemonIP daemonPort (FileInfo_GetFileHash (Some file)) db1 of
                 (r, db2) \<Rightarrow> announce_files now daemonIP daemonPort fs db2)))"

definition handleAnnounce :: "string \<Rightarrow> string \<Rightarrow> AnnounceMessage \<Rightarrow> tracker \<Rightarrow> tracker" where
  "handleAnnounce daemonIP daemonPort announce t =
     t\<lparr>t_db := announce_files (int (t_now t)) daemonIP daemonPort
                 (AnnounceMessage_GetFiles (Some announce)) (t_db t)\<rparr>"

definition other_peers :: "string \<Rightarrow> string \<Rightarrow> peer_row list \<Rightarrow> PeerInfo list" where
  "other_peers daemonIP daemonPort dbPeers =
     map (\<lambda>p. \<lparr>pi_Id = FormatInt (p_ID p)\<rparr>)
       (filter (\<lambda>p. \<not> (p_IpAddress p = daemonIP \<and> p_Port p = daemonPort)) dbPeers)"

definition handlePeerListRequest ::
  "nat \<Rightarrow> string \<Rightarrow> string \<Rightarrow> PeerListRequest \<Rightarrow> tracker \<Rightarrow> tracker" where
  "handlePeerListRequest cid daemonIP daemonPort request t =
     (let fileHash = PeerListRequest_GetFileHash (Some request)
      in (case PeerStore_GetPeersByFileHash fileHash (t_db t) of
            (Inl e, db) \<Rightarrow> t\<lparr>t_db := db\<rparr>
          | (Inr dbPeers, db) \<Rightarrow>
              snd (tr_WriteMessage cid
                \<lparr>MessageType = Some (NetworkMessage_PeerListResponse
                  \<lparr>plp_FileHash = fileHash, plp_TotalChunks = 0, plp_ChunkSize = 0,
                   plp_Peers = other_peers daemonIP daemonPort dbPeers\<rparr>)\<rparr>
                (t\<lparr>t_db := db\<rparr>))))"

definition forwardSignal :: "session \<Rightarrow> SignalingMessage \<Rightarrow> tracker \<Rightarrow> tracker" where
  "forwardSignal se msg t =
     (let targetPeerID = SignalingMessage_GetTargetPeerId (Some msg);
          forwardMsg = \<lparr>MessageType = Some (NetworkMessage_Signaling
            \<lparr>sg_SourcePeerId = se_daemonID se, sg_TargetPeerId = targetPeerID,
             sg_Message = SignalingMessage_GetMessage (Some msg)\<rparr>)\<rparr>
      in (case mget (t_DaemonRouters t) targetPeerID of
            Some target \<Rightarrow> snd (tr_WriteMessage target forwardMsg t)
          | None \<Rightarrow> t))"

text \<open>handleDaemonMsgs up to its loop.\<close>

definition handshake :: "nat \<Rightarrow> tracker \<Rightarrow> tracker" where
  "handshake cid t =
     (let daemonAddr = cn_addr (t_conns t ! cid)
      in (case SplitHostPort daemonAddr of
            None \<Rightarrow> set_phase cid Finished t
          | Some (daemonIP, daemonPort) \<Rightarrow>
              (case PeerStore_CreatePeer daemonIP daemonPort (t_db t) of
                 (Inl e, db) \<Rightarrow> set_phase cid Finished (t\<lparr>t_db := db\<rparr>)
               | (Inr daemonID, db) \<Rightarrow>
                   (case tr_WriteMessage cid \<lparr>MessageType = Some (NetworkMessage_Id \<lparr>idm_Id = daemonID\<rparr>)\<rparr>
                           (t\<lparr>t_db := db\<rparr>) of
                      (False, t1) \<Rightarrow> set_phase cid Finished t1
                    | (True, t1) \<Rightarrow>
                        let t2 = t1\<lparr>t_DaemonRouters := mput daemonID cid (t_DaemonRouters t1)\<rparr>
                        in (case mget (t_Channels t2) daemonAddr of
                              None \<Rightarrow> set_phase cid Finished t2
                            | Some channels \<Rightarrow>
                                set_phase cid (Serving
                                  \<lparr>se_daemonID = daemonID, se_daemonIP = daemonIP, se_daemonPort = daemonPort,
                                   se_channels = channels, se_deadline = t_now t2 + ClientTimeout\<rparr>) t2)))))"

text \<open>The cases of the select in the loop of handleDaemonMsgs.\<close>

definition on_timeout :: "nat \<Rightarrow> session \<Rightarrow> tracker \<Rightarrow> tracker" where
  "on_timeout cid se t =
     (let t1 = t\<lparr>t_DaemonRouters := mdel (se_daemonID se) (t_DaemonRouters t)\<rparr>;
          db = snd (PeerStore_DeletePeer (se_daemonIP se) (se_daemonPort se) (t_db t1))
      in set_phase cid Finished (t1\<lparr>t_db := db\<rparr>))"

definition on_heartbeat :: "nat \<Rightarrow> session \<Rightarrow> tracker \<Rightarrow> tracker" where
  "on_heartbeat cid se t = set_phase cid (Serving (se\<lparr>se_deadline := t_now t + ClientTimeout\<rparr>)) t"

definition on_goodbye :: "nat \<Rightarrow> session \<Rightarrow> tracker \<Rightarrow> tracker" where
  "on_goodbye cid se t =
     (let db = snd (PeerStore_DeletePeer (se_daemonIP se) (se_daemonPort se) (t_db t))
      in set_phase cid Finished (t\<lparr>t_db := db\<rparr>))"

text \<open>Tracker.Stop\<close>

definition Stop :: "tracker \<Rightarrow> tracker" where
  "Stop t = t\<lparr>t_db := snd (PeerStore_DropAllPeers (t_db t))\<rparr>"

section \<open>The tracker as a transition system\<close>

definition serving :: "tracker \<Rightarrow> nat \<Rightarrow> session \<Rightarrow> bool" where
  "serving t cid se \<longleftrightarrow> cid < length (t_conns t) \<and> cn_phase (t_conns t ! cid) = Serving se"

abbreviation channels_of :: "tracker \<Rightarrow> session \<Rightarrow> Channels" where
  "channels_of t se \<equiv> cn_channels (t_conns t ! se_channels se)"

definition take_from :: "session \<Rightarrow> (Channels \<Rightarrow> Channels) \<Rightarrow> tracker \<Rightarrow> tracker" where
  "take_from se f = upd_conn (se_channels se) (\<lambda>c. c\<lparr>cn_channels := f (cn_channels c)\<rparr>)"

inductive tracker_step :: "tracker \<Rightarrow> tracker \<Rightarrow> bool" where
  accept: "tracker_step t (accept addr t)"
| receive: "cid < length (t_conns t) \<Longrightarrow> tracker_step t (receive cid m t)"
| clock: "tracker_step t (t\<lparr>t_now := t_now t + 1\<rparr>)"
| handshake: "cid < length (t_conns t) \<Longrightarrow> cn_phase (t_conns t ! cid) = Accepted \<Longrightarrow>
    tracker_step t (handshake cid t)"
| timeout: "serving t cid se \<Longrightarrow> se_deadline se \<le> t_now t \<Longrightarrow> tracker_step t (on_timeout cid se t)"
| signal: "serving t cid se \<Longrightarrow> SignalingCh (channels_of t se) = m # ms \<Longrightarrow>
    tracker_step t (forwardSignal se m (take_from se (\<lambda>ch. ch\<lparr>SignalingCh := ms\<rparr>) t))"
| heartbeat: "serving t cid se \<Longrightarrow> HeartbeatCh (channels_of t se) = m # ms \<Longrightarrow>
    tracker_step t (on_heartbeat cid se (take_from se (\<lambda>ch. ch\<lparr>HeartbeatCh := ms\<rparr>) t))"
| goodbye: "serving t cid se \<Longrightarrow> GoodbyeCh (channels_of t se) = m # ms \<Longrightarrow>
    tracker_step t (on_goodbye cid se (take_from se (\<lambda>ch. ch\<lparr>GoodbyeCh := ms\<rparr>) t))"
| announce: "serving t cid se \<Longrightarrow> AnnounceCh (channels_of t se) = m # ms \<Longrightarrow>
    tracker_step t (handleAnnounce (se_daemonIP se) (se_daemonPort se) m
      (take_from se (\<lambda>ch. ch\<lparr>AnnounceCh := ms\<rparr>) t))"
| peer_list: "serving t cid se \<Longrightarrow> PeerListRequestCh (channels_of t se) = m # ms \<Longrightarrow>
    tracker_step t (handlePeerListRequest cid (se_daemonIP se) (se_daemonPort se) m
      (take_from se (\<lambda>ch. ch\<lparr>PeerListRequestCh := ms\<rparr>) t))"

end
