(* ===== verification/TrackerInv.thy ===== *)
theory TrackerInv
  imports Tracker
begin

text \<open>
  The tracker's safety invariant: which connection has which id, what the tables hold for the
  daemons being served, and what is ever written to a daemon; kept by every step of the
  transition system of theory Tracker.
\<close>

section \<open>Frames\<close>

lemma length_upd_conn [simp]: "length (t_conns (upd_conn cid f t)) = length (t_conns t)"
  by (simp add: upd_conn_def)

lemma nth_upd_conn [simp]:
  "c < length (t_conns t) \<Longrightarrow>
   t_conns (upd_conn cid f t) ! c = (if c = cid then f (t_conns t ! c) else t_conns t ! c)"
  by (simp add: upd_conn_def nth_list_update)

lemma upd_conn_frame [simp]:
  "t_Channels (upd_conn cid f t) = t_Channels t"
  "t_DaemonRouters (upd_conn cid f t) = t_DaemonRouters t"
  "t_db (upd_conn cid f t) = t_db t"
  "t_now (upd_conn cid f t) = t_now t"
  "t_wfaults (upd_conn cid f t) = t_wfaults t"
  by (simp_all add: upd_conn_def)

lemma tr_WriteMessage_cases:
  obtains (failed) fs where "tr_WriteMessage cid msg t = (False, t\<lparr>t_wfaults := fs\<rparr>)"
  | (sent) fs where "tr_WriteMessage cid msg t =
      (True, upd_conn cid (\<lambda>c. c\<lparr>cn_out := cn_out c @ [msg]\<rparr>) (t\<lparr>t_wfaults := fs\<rparr>))"
proof (cases "t_wfaults t")
  case Nil
  have eq: "t\<lparr>t_wfaults := t_wfaults t\<rparr> = t" by simp
  show thesis using sent [of "t_wfaults t", unfolded eq] Nil by (simp add: tr_WriteMessage_def)
next
  case (Cons b fs)
  then show thesis using failed [of fs] sent [of fs] by (cases b) (simp_all add: tr_WriteMessage_def)
qed

section \<open>What the statements do to the peers\<close>

definition peers_of :: "sqldb \<Rightarrow> peer_row list" where
  "peers_of db = peers (tables_of db)"

definition last_id :: "sqldb \<Rightarrow> int" where
  "last_id db = seq_peers (tables_of db)"

lemma insert_file_peers: "peers (snd (insert_file a fk t)) = peers t \<and> seq_peers (snd (insert_file a fk t)) = seq_peers t"
  by (auto simp: insert_file_def Let_def split: sum.split)

lemma run_stmt_peers:
  assumes "\<And>fk t. peers (snd (stmt fk t)) = peers t \<and> seq_peers (snd (stmt fk t)) = seq_peers t"
  shows "peers_of (snd (run_stmt stmt c)) = peers_of c \<and> last_id (snd (run_stmt stmt c)) = last_id c"
  by (cases rule: run_stmt_cases [of stmt c]) (simp_all add: peers_of_def last_id_def assms)

lemma run_query_peers: "peers_of (snd (run_query q c)) = peers_of c \<and> last_id (snd (run_query q c)) = last_id c"
  unfolding run_query_def by (rule run_stmt_peers) simp

lemma CreateFile_peers:
  "peers_of (snd (FileStore_CreateFile now n s m k h c)) = peers_of c \<and>
   last_id (snd (FileStore_CreateFile now n s m k h c)) = last_id c"
proof -
  obtain r c1 where g: "Q_GetFileByHash h c = (r, c1)" by (cases "Q_GetFileByHash h c")
  have c1: "peers_of c1 = peers_of c" "last_id c1 = last_id c"
    using run_query_peers [of "\<lambda>t. first_row (select_file_by_hash h t)" c] g by (simp_all add: Q_GetFileByHash_def)
  have "peers_of (snd (Q_CreateFile a c1)) = peers_of c1 \<and> last_id (snd (Q_CreateFile a c1)) = last_id c1" for a
    unfolding Q_CreateFile_def by (rule run_stmt_peers) (rule insert_file_peers)
  then have "Q_CreateFile a c1 = (r', c2) \<Longrightarrow> peers_of c2 = peers_of c \<and> last_id c2 = last_id c" for a r' c2
    using c1 by (metis snd_eqD)
  then show ?thesis using c1 by (auto simp: FileStore_CreateFile_def g split: sum.split prod.split)
qed

lemma AddPeerToSwarm_peers:
  "peers_of (snd (PeerStore_AddPeerToSwarm ip port h c)) = peers_of c \<and>
   last_id (snd (PeerStore_AddPeerToSwarm ip port h c)) = last_id c"
  unfolding PeerStore_AddPeerToSwarm_def Q_AddPeerToSwarm_def
  by (rule run_stmt_peers) (simp add: add_peer_to_swarm_def)

lemma CreateFile_wf: "wf_db c \<Longrightarrow> wf_db (snd (FileStore_CreateFile now n s m k h c))"
  using CreateFile_result [of now n s m k h c "fst (FileStore_CreateFile now n s m k h c)"
      "snd (FileStore_CreateFile now n s m k h c)"] by simp

lemma announce_files_db:
  "wf_db db \<Longrightarrow> wf_db (announce_files now ip port fs db) \<and>
   peers_of (announce_files now ip port fs db) = peers_of db \<and>
   last_id (announce_files now ip port fs db) = last_id db"
proof (induction fs arbitrary: db)
  case (Cons f fs)
  let ?c = "FileStore_CreateFile now (fi_FileName f) (fi_FileSize f) (fi_ChunkSize f) (fi_TotalChunks f) (fi_FileHash f) db"
  let ?a = "\<lambda>d. PeerStore_AddPeerToSwarm ip port (fi_FileHash f) d"
  have c: "wf_db (snd ?c)" "peers_of (snd ?c) = peers_of db" "last_id (snd ?c) = last_id db"
    using CreateFile_wf [OF Cons.prems] CreateFile_peers by auto
  have a: "wf_db (snd (?a (snd ?c)))" "peers_of (snd (?a (snd ?c))) = peers_of db"
    "last_id (snd (?a (snd ?c))) = last_id db"
    using Q_AddPeerToSwarm_wf [OF c(1)] AddPeerToSwarm_peers c by (simp_all add: PeerStore_AddPeerToSwarm_def)
  show ?case
    using Cons.IH [OF c(1)] Cons.IH [OF a(1)] c a by (simp add: split_beta Let_def split: sum.split)
qed simp

lemma CreatePeer_result:
  assumes "PeerStore_CreatePeer ip port c = (r, c')" and wf: "wf_db c"
  shows "wf_db c' \<and> (case r of
      Inl e \<Rightarrow> peers_of c' = peers_of c \<and> last_id c' = last_id c
    | Inr new_id \<Rightarrow> new_id = FormatInt (last_id c + 1) \<and> last_id c' = last_id c + 1 \<and> last_id c' \<le> max_int64 \<and>
        peers_of c' = peers_of c @ [\<lparr>p_ID = last_id c + 1, p_IpAddress = ip, p_Port = port\<rparr>])"
proof -
  have w: "wf_db c'"
    using Q_CreatePeer_wf [OF wf, of ip port] assms(1)
    by (auto simp: PeerStore_CreatePeer_def split: prod.splits sum.splits)
  show ?thesis
  proof (cases rule: run_stmt_cases [of "insert_peer ip port" c])
    case (fault d)
    then show ?thesis
      using assms(1) w by (auto simp: PeerStore_CreatePeer_def Q_CreatePeer_def peers_of_def last_id_def)
  next
    case (ran fk d)
    obtain r1 t1 where i: "insert_peer ip port fk (tables_of c) = (r1, t1)"
      by (cases "insert_peer ip port fk (tables_of c)")
    have d: "tables_of d = t1" "c' = d" "r = map_sum id (\<lambda>p. FormatInt (p_ID p)) r1"
      using ran i assms(1) by (auto simp: PeerStore_CreatePeer_def Q_CreatePeer_def split: sum.splits)
    have "case r1 of Inl e \<Rightarrow> t1 = tables_of c
      | Inr p \<Rightarrow> p = \<lparr>p_ID = seq_peers (tables_of c) + 1, p_IpAddress = ip, p_Port = port\<rparr> \<and>
          peers t1 = peers (tables_of c) @ [p] \<and> seq_peers t1 = seq_peers (tables_of c) + 1 \<and>
          seq_peers t1 \<le> max_int64"
      using i by (auto simp: insert_peer_def Let_def split: if_splits sum.splits)
    then show ?thesis using d w by (auto simp: peers_of_def last_id_def split: sum.splits)
  qed
qed

lemma DeletePeer_result:
  assumes "wf_db c"
  shows "wf_db (snd (PeerStore_DeletePeer ip port c)) \<and>
    last_id (snd (PeerStore_DeletePeer ip port c)) = last_id c \<and>
    (peers_of (snd (PeerStore_DeletePeer ip port c)) = peers_of c \<or>
     peers_of (snd (PeerStore_DeletePeer ip port c)) = filter (\<lambda>p. peer_key p \<noteq> (ip, port)) (peers_of c))"
  using Q_DeletePeerByIPPort_wf [OF assms, of ip port]
  by (cases rule: run_stmt_cases [of "delete_peers (\<lambda>p. p_IpAddress p = ip \<and> p_Port p = port)" c])
     (auto simp: PeerStore_DeletePeer_def Q_DeletePeerByIPPort_def peers_of_def last_id_def delete_peers_def
        Let_def peer_key_def)

section \<open>The invariant\<close>

definition id_message :: "string \<Rightarrow> NetworkMessage" where
  "id_message pid = \<lparr>MessageType = Some (NetworkMessage_Id \<lparr>idm_Id = pid\<rparr>)\<rparr>"

text \<open>The id the tracker sent on a connection.\<close>

definition assigned :: "tracker \<Rightarrow> nat \<Rightarrow> string \<Rightarrow> bool" where
  "assigned t cid pid \<longleftrightarrow> cid < length (t_conns t) \<and> id_message pid \<in> set (cn_out (t_conns t ! cid))"

text \<open>
  All the tracker writes to a daemon: its id, signals that name an id the tracker has given
  out as their source, and peer lists that do not contain the daemon itself.
\<close>

definition out_ok :: "tracker \<Rightarrow> nat \<Rightarrow> NetworkMessage \<Rightarrow> bool" where
  "out_ok t cid msg =
     (case MessageType msg of
        Some (NetworkMessage_Id m) \<Rightarrow> True
      | Some (NetworkMessage_Signaling m) \<Rightarrow> \<exists>c. assigned t c (sg_SourcePeerId m)
      | Some (NetworkMessage_PeerListResponse m) \<Rightarrow> \<forall>p \<in> set (plp_Peers m). \<not> assigned t cid (pi_Id p)
      | _ \<Rightarrow> False)"

definition has_row :: "tracker \<Rightarrow> session \<Rightarrow> bool" where
  "has_row t se \<longleftrightarrow>
     (\<exists>p \<in> set (peers_of (t_db t)). FormatInt (p_ID p) = se_daemonID se \<and>
        peer_key p = (se_daemonIP se, se_daemonPort se))"

definition session_ok :: "tracker \<Rightarrow> nat \<Rightarrow> session \<Rightarrow> bool" where
  "session_ok t cid se \<longleftrightarrow>
     assigned t cid (se_daemonID se) \<and>
     SplitHostPort (cn_addr (t_conns t ! cid)) = Some (se_daemonIP se, se_daemonPort se) \<and>
     se_channels se < length (t_conns t) \<and> se_deadline se \<le> t_now t + ClientTimeout \<and> has_row t se"

definition conn_ok :: "tracker \<Rightarrow> nat \<Rightarrow> bool" where
  "conn_ok t cid \<longleftrightarrow>
     (\<forall>msg \<in> set (cn_out (t_conns t ! cid)). out_ok t cid msg) \<and>
     (cn_phase (t_conns t ! cid) = Accepted \<longrightarrow> cn_out (t_conns t ! cid) = [])"

definition tracker_inv :: "tracker \<Rightarrow> bool" where
  "tracker_inv t \<longleftrightarrow>
     wf_db (t_db t) \<and> last_id (t_db t) \<le> max_int64 \<and>
     (\<forall>pid cid. mget (t_DaemonRouters t) pid = Some cid \<longrightarrow> assigned t cid pid) \<and>
     (\<forall>addr cid. mget (t_Channels t) addr = Some cid \<longrightarrow> cid < length (t_conns t)) \<and>
     (\<forall>cid pid. assigned t cid pid \<longrightarrow> (\<exists>i. pid = FormatInt i \<and> 0 < i \<and> i \<le> last_id (t_db t))) \<and>
     (\<forall>c d pid. assigned t c pid \<longrightarrow> assigned t d pid \<longrightarrow> c = d) \<and>
     (\<forall>c pid qid. assigned t c pid \<longrightarrow> assigned t c qid \<longrightarrow> pid = qid) \<and>
     (\<forall>cid se. serving t cid se \<longrightarrow> session_ok t cid se) \<and>
     (\<forall>cid < length (t_conns t). conn_ok t cid)"

section \<open>Every step keeps it\<close>

lemma out_ok_cong: "assigned t' = assigned t \<Longrightarrow> out_ok t' = out_ok t"
  by (intro ext) (simp add: out_ok_def split: option.split message_type.split)

text \<open>Steps that write nothing: sessions may end or renew their deadline, routers may go.\<close>

lemma inv_shrink:
  assumes inv: "tracker_inv t"
    and len: "length (t_conns t') = length (t_conns t)"
    and conns: "\<And>c. c < length (t_conns t) \<Longrightarrow> cn_addr (t_conns t' ! c) = cn_addr (t_conns t ! c) \<and>
      cn_out (t_conns t' ! c) = cn_out (t_conns t ! c) \<and>
      (cn_phase (t_conns t' ! c) = Accepted \<longrightarrow> cn_phase (t_conns t ! c) = Accepted)"
    and sess: "\<And>c se'. serving t' c se' \<Longrightarrow> \<exists>se. serving t c se \<and> se_daemonID se' = se_daemonID se \<and>
      se_daemonIP se' = se_daemonIP se \<and> se_daemonPort se' = se_daemonPort se \<and>
      se_channels se' = se_channels se \<and> se_deadline se' \<le> t_now t' + ClientTimeout \<and> has_row t' se'"
    and routers: "\<And>i c. mget (t_DaemonRouters t') i = Some c \<Longrightarrow> mget (t_DaemonRouters t) i = Some c"
    and chans: "t_Channels t' = t_Channels t"
    and db: "wf_db (t_db t')" "last_id (t_db t') = last_id (t_db t)"
  shows "tracker_inv t'"
proof -
  have as: "assigned t' = assigned t" using len conns by (auto simp: assigned_def fun_eq_iff)
  have "session_ok t' c se'" if "serving t' c se'" for c se'
  proof -
    obtain se where se: "serving t c se" "se_daemonID se' = se_daemonID se"
      "se_daemonIP se' = se_daemonIP se" "se_daemonPort se' = se_daemonPort se"
      "se_channels se' = se_channels se" "se_deadline se' \<le> t_now t' + ClientTimeout" "has_row t' se'"
      using sess [OF \<open>serving t' c se'\<close>] by blast
    have "session_ok t c se" using inv se(1) by (simp add: tracker_inv_def)
    moreover have "c < length (t_conns t)" using se(1) by (simp add: serving_def)
    ultimately show ?thesis using se conns [of c] as len by (simp add: session_ok_def)
  qed
  moreover have "conn_ok t' c" if "c < length (t_conns t')" for c
    using that inv len conns [of c] out_ok_cong [OF as] by (auto simp: tracker_inv_def conn_ok_def)
  moreover have "\<forall>i c. mget (t_DaemonRouters t') i = Some c \<longrightarrow> assigned t' c i"
    using inv routers as by (auto simp: tracker_inv_def)
  ultimately show ?thesis using inv db as len chans by (simp add: tracker_inv_def)
qed

lemma has_row_cong: "peers_of (t_db t') = peers_of (t_db t) \<Longrightarrow> has_row t' = has_row t"
  by (simp add: has_row_def fun_eq_iff)

lemma serving_has_row: "tracker_inv t \<Longrightarrow> serving t c se \<Longrightarrow> has_row t se \<and> se_deadline se \<le> t_now t + ClientTimeout"
  by (simp add: tracker_inv_def session_ok_def)

text \<open>Steps that change no phase, no router and no peer.\<close>

lemma inv_quiet:
  assumes inv: "tracker_inv t" and len: "length (t_conns t') = length (t_conns t)"
    and conns: "\<And>c. c < length (t_conns t) \<Longrightarrow> cn_addr (t_conns t' ! c) = cn_addr (t_conns t ! c) \<and>
      cn_out (t_conns t' ! c) = cn_out (t_conns t ! c) \<and> cn_phase (t_conns t' ! c) = cn_phase (t_conns t ! c)"
    and rest: "t_DaemonRouters t' = t_DaemonRouters t" "t_Channels t' = t_Channels t" "t_now t \<le> t_now t'"
      "wf_db (t_db t')" "last_id (t_db t') = last_id (t_db t)" "peers_of (t_db t') = peers_of (t_db t)"
  shows "tracker_inv t'"
proof (rule inv_shrink [OF inv len])
  fix c se' assume "serving t' c se'"
  then have s: "serving t c se'" using conns [of c] len by (simp add: serving_def)
  then show "\<exists>se. serving t c se \<and> se_daemonID se' = se_daemonID se \<and>
      se_daemonIP se' = se_daemonIP se \<and> se_daemonPort se' = se_daemonPort se \<and>
      se_channels se' = se_channels se \<and> se_deadline se' \<le> t_now t' + ClientTimeout \<and> has_row t' se'"
    using serving_has_row [OF inv s] has_row_cong [OF rest(6)] rest(3) by auto
qed (use conns rest in auto)

lemma tracker_inv_wf: "tracker_inv t \<Longrightarrow> wf_db (t_db t)"
  by (simp add: tracker_inv_def)

lemma inv_take: "tracker_inv t \<Longrightarrow> tracker_inv (take_from se f t)"
  by (rule inv_quiet) (auto simp: take_from_def tracker_inv_wf)

lemma inv_receive: "tracker_inv t \<Longrightarrow> tracker_inv (receive cid m t)"
  by (rule inv_quiet) (auto simp: receive_def tracker_inv_wf)

lemma inv_clock: "tracker_inv t \<Longrightarrow> tracker_inv (t\<lparr>t_now := t_now t + 1\<rparr>)"
  by (rule inv_quiet) (auto simp: tracker_inv_wf)

lemma inv_faults: "tracker_inv t \<Longrightarrow> tracker_inv (t\<lparr>t_wfaults := fs\<rparr>)"
  by (rule inv_quiet) (auto simp: tracker_inv_wf)

lemma inv_announce: "tracker_inv t \<Longrightarrow> tracker_inv (handleAnnounce ip port m t)"
proof -
  assume inv: "tracker_inv t"
  then have "wf_db (t_db t)" by (simp add: tracker_inv_def)
  from announce_files_db [OF this] show ?thesis
    by (intro inv_quiet [OF inv]) (simp_all add: handleAnnounce_def)
qed

lemma serving_take [simp]: "serving (take_from se' f t) cid se \<longleftrightarrow> serving t cid se"
  by (auto simp: serving_def take_from_def split: if_splits)

lemma set_phase_frame [simp]:
  "length (t_conns (set_phase cid p t)) = length (t_conns t)"
  "t_Channels (set_phase cid p t) = t_Channels t"
  "t_DaemonRouters (set_phase cid p t) = t_DaemonRouters t"
  "t_db (set_phase cid p t) = t_db t"
  "t_now (set_phase cid p t) = t_now t"
  by (simp_all add: set_phase_def)

lemma serving_set_phase:
  "serving (set_phase cid p t) c se \<longleftrightarrow> (if c = cid then c < length (t_conns t) \<and> p = Serving se else serving t c se)"
  by (auto simp: serving_def set_phase_def)

lemma serving_upd [simp]:
  "serving (t\<lparr>t_DaemonRouters := R\<rparr>) = serving t" "serving (t\<lparr>t_db := d\<rparr>) = serving t"
  by (simp_all add: serving_def fun_eq_iff)

lemma inv_heartbeat:
  assumes inv: "tracker_inv t" and s: "serving t cid se"
  shows "tracker_inv (on_heartbeat cid se t)"
proof (rule inv_shrink [OF inv])
  have r: "has_row (on_heartbeat cid se t) = has_row t"
    by (rule has_row_cong) (simp add: on_heartbeat_def)
  fix c se' assume "serving (on_heartbeat cid se t) c se'"
  have tn: "t_now (on_heartbeat cid se t) = t_now t" by (simp add: on_heartbeat_def)
  from \<open>serving (on_heartbeat cid se t) c se'\<close>
  consider "c \<noteq> cid" "serving t c se'" | "c = cid" "se' = se\<lparr>se_deadline := t_now t + ClientTimeout\<rparr>"
    by (auto simp: on_heartbeat_def serving_set_phase split: if_splits)
  then show "\<exists>s0. serving t c s0 \<and> se_daemonID se' = se_daemonID s0 \<and>
      se_daemonIP se' = se_daemonIP s0 \<and> se_daemonPort se' = se_daemonPort s0 \<and>
      se_channels se' = se_channels s0 \<and> se_deadline se' \<le> t_now (on_heartbeat cid se t) + ClientTimeout \<and>
      has_row (on_heartbeat cid se t) se'"
  proof cases
    case 1
    then show ?thesis
      using serving_has_row [OF inv 1(2)] by (intro exI [of _ se']) (simp add: r tn)
  next
    case 2
    then show ?thesis
      using s serving_has_row [OF inv s] unfolding r tn by (intro exI [of _ se]) (simp add: r tn has_row_def)
  qed
qed (use tracker_inv_wf [OF inv] in \<open>auto simp: on_heartbeat_def set_phase_def\<close>)

text \<open>Two daemons served at the same time have different addresses.\<close>

lemma serving_addr_unique:
  assumes inv: "tracker_inv t" and s: "serving t c se" "serving t d se'"
    and eq: "se_daemonIP se = se_daemonIP se'" "se_daemonPort se = se_daemonPort se'"
  shows "c = d"
proof -
  have ok: "session_ok t c se" "session_ok t d se'" using inv s by (simp_all add: tracker_inv_def)
  obtain p where p: "p \<in> set (peers_of (t_db t))" "FormatInt (p_ID p) = se_daemonID se"
    "peer_key p = (se_daemonIP se, se_daemonPort se)" using ok(1) by (auto simp: session_ok_def has_row_def)
  obtain q where q: "q \<in> set (peers_of (t_db t))" "FormatInt (p_ID q) = se_daemonID se'"
    "peer_key q = (se_daemonIP se', se_daemonPort se')" using ok(2) by (auto simp: session_ok_def has_row_def)
  have "distinct (map peer_key (peers_of (t_db t)))"
    using inv by (simp add: tracker_inv_def wf_db_def wf_tables_def peers_of_def)
  then have "p = q" using p q eq by (auto dest: distinct_map_unique)
  then have "se_daemonID se = se_daemonID se'" using p q by simp
  then have "assigned t c (se_daemonID se)" "assigned t d (se_daemonID se)"
    using ok by (simp_all add: session_ok_def)
  then show ?thesis using inv unfolding tracker_inv_def by blast
qed

text \<open>The end of a session: its own peer row may go, every other one stays.\<close>

lemma inv_leave:
  assumes inv: "tracker_inv t" and s: "serving t cid se"
    and rs: "\<And>i c. mget R i = Some c \<Longrightarrow> mget (t_DaemonRouters t) i = Some c"
  shows "tracker_inv (set_phase cid Finished (t\<lparr>t_DaemonRouters := R,
    t_db := snd (PeerStore_DeletePeer (se_daemonIP se) (se_daemonPort se) (t_db t))\<rparr>))" (is "tracker_inv ?t")
proof (rule inv_shrink [OF inv])
  have wf: "wf_db (t_db t)" using inv by (simp add: tracker_inv_def)
  note D = DeletePeer_result [OF wf, of "se_daemonIP se" "se_daemonPort se"]
  show "wf_db (t_db ?t)" "last_id (t_db ?t) = last_id (t_db t)" using D by (simp_all add: set_phase_def)
  fix c se' assume "serving ?t c se'"
  then have o: "serving t c se'" "c \<noteq> cid"
    by (auto simp: serving_set_phase split: if_splits)
  have "(se_daemonIP se', se_daemonPort se') \<noteq> (se_daemonIP se, se_daemonPort se)"
    using serving_addr_unique [OF inv o(1) s] o(2) by auto
  moreover have "has_row t se'" using serving_has_row [OF inv o(1)] by simp
  ultimately have "has_row ?t se'" using D unfolding has_row_def set_phase_def by auto
  then show "\<exists>s0. serving t c s0 \<and> se_daemonID se' = se_daemonID s0 \<and>
      se_daemonIP se' = se_daemonIP s0 \<and> se_daemonPort se' = se_daemonPort s0 \<and>
      se_channels se' = se_channels s0 \<and> se_deadline se' \<le> t_now ?t + ClientTimeout \<and> has_row ?t se'"
    using o(1) serving_has_row [OF inv o(1)] by (auto simp: set_phase_def)
qed (use rs in \<open>auto simp: set_phase_def\<close>)

lemma inv_timeout: "tracker_inv t \<Longrightarrow> serving t cid se \<Longrightarrow> tracker_inv (on_timeout cid se t)"
proof -
  assume "tracker_inv t" "serving t cid se"
  from inv_leave [OF this, of "mdel (se_daemonID se) (t_DaemonRouters t)"] show ?thesis
    by (simp add: on_timeout_def) (metis option.distinct(1))
qed

lemma inv_goodbye: "tracker_inv t \<Longrightarrow> serving t cid se \<Longrightarrow> tracker_inv (on_goodbye cid se t)"
proof -
  assume "tracker_inv t" "serving t cid se"
  from inv_leave [OF this, of "t_DaemonRouters t"] show ?thesis by (simp add: on_goodbye_def)
qed

text \<open>Writing a message that is no id to a daemon that is past its handshake.\<close>

lemma inv_send:
  assumes inv: "tracker_inv t" and cid: "cid < length (t_conns t)" "cn_phase (t_conns t ! cid) \<noteq> Accepted"
    and msg: "out_ok t cid msg" "\<And>i. msg \<noteq> id_message i"
  shows "tracker_inv (upd_conn cid (\<lambda>c. c\<lparr>cn_out := cn_out c @ [msg]\<rparr>) t)" (is "tracker_inv ?t")
proof -
  have as: "assigned ?t = assigned t"
  proof (intro ext)
    fix c i show "assigned ?t c i = assigned t c i"
      using msg(2) [of i] by (auto simp: assigned_def split: if_splits)
  qed
  have hr: "has_row ?t = has_row t" by (rule has_row_cong) simp
  have sv: "serving ?t = serving t" by (auto simp: serving_def fun_eq_iff split: if_splits)
  have "conn_ok ?t c" if "c < length (t_conns t)" for c
    using that inv cid msg(1) out_ok_cong [OF as] by (auto simp: tracker_inv_def conn_ok_def)
  moreover have "session_ok ?t c se" if "serving t c se" for c se
  proof -
    have "c < length (t_conns t)" "session_ok t c se" using inv that by (auto simp: serving_def tracker_inv_def)
    then show ?thesis using as hr by (auto simp: session_ok_def)
  qed
  ultimately show ?thesis using inv as by (simp add: tracker_inv_def sv)
qed

lemma inv_WriteMessage:
  assumes "tracker_inv t" "cid < length (t_conns t)" "cn_phase (t_conns t ! cid) \<noteq> Accepted"
    and "out_ok t cid msg" "\<And>i. msg \<noteq> id_message i"
  shows "tracker_inv (snd (tr_WriteMessage cid msg t))"
proof (cases rule: tr_WriteMessage_cases [of cid msg t])
  case (failed fs)
  then show ?thesis using inv_faults [OF assms(1)] by simp
next
  case (sent fs)
  have "out_ok (t\<lparr>t_wfaults := fs\<rparr>) = out_ok t"
    by (rule out_ok_cong) (simp add: assigned_def fun_eq_iff)
  then show ?thesis using inv_send [OF inv_faults [OF assms(1)], of cid fs msg] assms sent by simp
qed

lemma assigned_not_accepted:
  "tracker_inv t \<Longrightarrow> assigned t c i \<Longrightarrow> c < length (t_conns t) \<and> cn_phase (t_conns t ! c) \<noteq> Accepted"
  by (force simp: tracker_inv_def assigned_def conn_ok_def)

lemma inv_signal:
  assumes inv: "tracker_inv t" and s: "serving t cid se"
  shows "tracker_inv (forwardSignal se m t)"
proof (cases "mget (t_DaemonRouters t) (SignalingMessage_GetTargetPeerId (Some m))")
  case None
  then show ?thesis using inv by (simp add: forwardSignal_def)
next
  case (Some target)
  then have "assigned t target (SignalingMessage_GetTargetPeerId (Some m))"
    using inv unfolding tracker_inv_def by blast
  from assigned_not_accepted [OF inv this]
  have t: "target < length (t_conns t)" "cn_phase (t_conns t ! target) \<noteq> Accepted" by simp_all
  have src: "assigned t cid (se_daemonID se)" using inv s by (simp add: tracker_inv_def session_ok_def)
  let ?m = "\<lparr>MessageType = Some (NetworkMessage_Signaling
      \<lparr>sg_SourcePeerId = se_daemonID se, sg_TargetPeerId = SignalingMessage_GetTargetPeerId (Some m),
       sg_Message = SignalingMessage_GetMessage (Some m)\<rparr>)\<rparr>"
  have "tracker_inv (snd (tr_WriteMessage target ?m t))"
    by (rule inv_WriteMessage [OF inv t]) (use src in \<open>auto simp: out_ok_def id_message_def\<close>)
  then show ?thesis using Some by (simp add: forwardSignal_def Let_def)
qed

lemma GetPeers_result:
  assumes "PeerStore_GetPeersByFileHash h c = (r, c')"
  shows "tables_of c' = tables_of c \<and> (r = Inl DriverError \<or> r = Inr (select_peers_by_hash h (tables_of c)))"
  using assms unfolding PeerStore_GetPeersByFileHash_def Q_GetPeersByFileHash_def
  by (cases rule: run_query_cases [of "\<lambda>t. Inr (select_peers_by_hash h t)" c]) auto

lemma inv_db_same: "tracker_inv t \<Longrightarrow> tables_of d = tables_of (t_db t) \<Longrightarrow> tracker_inv (t\<lparr>t_db := d\<rparr>)"
  by (rule inv_quiet) (auto simp: tracker_inv_wf wf_db_def peers_of_def last_id_def dest: tracker_inv_wf)

text \<open>The row of a served daemon is the only one with its address.\<close>

lemma other_peers_exclude_self:
  assumes inv: "tracker_inv t" and s: "serving t cid se" and p: "p \<in> set (peers_of (t_db t))"
    and other: "peer_key p \<noteq> (se_daemonIP se, se_daemonPort se)"
  shows "FormatInt (p_ID p) \<noteq> se_daemonID se"
proof
  assume eq: "FormatInt (p_ID p) = se_daemonID se"
  have wf: "wf_tables (tables_of (t_db t))" "last_id (t_db t) \<le> max_int64"
    using inv by (simp_all add: tracker_inv_def wf_db_def)
  obtain q where q: "q \<in> set (peers_of (t_db t))" "FormatInt (p_ID q) = se_daemonID se"
    "peer_key q = (se_daemonIP se, se_daemonPort se)"
    using serving_has_row [OF inv s] by (auto simp: has_row_def)
  have bound: "0 < p_ID r \<and> p_ID r < 2 ^ 63" if "r \<in> set (peers_of (t_db t))" for r
  proof -
    have "ids_ok (map p_ID (peers_of (t_db t))) (last_id (t_db t))"
      using wf(1) by (simp add: wf_tables_def peers_of_def last_id_def)
    then have "0 < p_ID r \<and> p_ID r \<le> last_id (t_db t)" using that by (auto simp: ids_ok_def)
    then show ?thesis using wf(2) by (simp add: max_int64_def)
  qed
  have "p_ID p = p_ID q"
    using eq q(2) bound [OF p] bound [OF q(1)] by (intro FormatInt_inj) auto
  then have "p = q" using wf(1) p q(1) by (auto simp: peers_of_def dest: wf_peer_id_unique)
  then show False using q(3) other by simp
qed

lemma inv_peer_list:
  assumes inv: "tracker_inv t" and s: "serving t cid se"
  shows "tracker_inv (handlePeerListRequest cid (se_daemonIP se) (se_daemonPort se) m t)"
proof -
  let ?h = "plr_FileHash m"
  obtain r d where g: "PeerStore_GetPeersByFileHash ?h (t_db t) = (r, d)"
    by (cases "PeerStore_GetPeersByFileHash ?h (t_db t)")
  note G = GetPeers_result [OF g]
  have inv': "tracker_inv (t\<lparr>t_db := d\<rparr>)" using inv_db_same [OF inv] G by simp
  show ?thesis
  proof (cases r)
    case (Inl e)
    then show ?thesis using inv' g by (simp add: handlePeerListRequest_def)
  next
    case (Inr ps)
    then have ps: "ps = select_peers_by_hash ?h (tables_of (t_db t))" using G by simp
    let ?o = "other_peers (se_daemonIP se) (se_daemonPort se) ps"
    let ?msg = "\<lparr>MessageType = Some (NetworkMessage_PeerListResponse
        \<lparr>plp_FileHash = ?h, plp_TotalChunks = 0, plp_ChunkSize = 0, plp_Peers = ?o\<rparr>)\<rparr>"
    have own: "assigned t cid (se_daemonID se)" using inv s by (simp add: tracker_inv_def session_ok_def)
    have "\<not> assigned t cid (pi_Id p)" if "p \<in> set ?o" for p
    proof -
      obtain q where q: "q \<in> set ps" "peer_key q \<noteq> (se_daemonIP se, se_daemonPort se)" "pi_Id p = FormatInt (p_ID q)"
        using \<open>p \<in> set ?o\<close> by (auto simp: other_peers_def peer_key_def)
      have "q \<in> set (peers_of (t_db t))" using q(1) by (simp add: ps set_select_peers_by_hash peers_of_def)
      then have "FormatInt (p_ID q) \<noteq> se_daemonID se" using other_peers_exclude_self [OF inv s] q(2) by simp
      then show ?thesis using inv own q(3) unfolding tracker_inv_def by metis
    qed
    then have "out_ok (t\<lparr>t_db := d\<rparr>) cid ?msg" by (simp add: out_ok_def assigned_def)
    then have "tracker_inv (snd (tr_WriteMessage cid ?msg (t\<lparr>t_db := d\<rparr>)))"
      using s by (intro inv_WriteMessage [OF inv']) (auto simp: serving_def id_message_def)
    then show ?thesis using g Inr by (simp add: handlePeerListRequest_def Let_def)
  qed
qed

lemma nth_accept:
  "c \<le> length (t_conns t) \<Longrightarrow> t_conns (accept addr t) ! c =
    (if c < length (t_conns t) then t_conns t ! c
     else \<lparr>cn_addr = addr, cn_channels = empty_channels, cn_phase = Accepted, cn_out = []\<rparr>)"
  by (auto simp: accept_def Let_def nth_append)

lemma accept_frame [simp]:
  "length (t_conns (accept addr t)) = Suc (length (t_conns t))"
  "t_DaemonRouters (accept addr t) = t_DaemonRouters t"
  "t_Channels (accept addr t) = mput addr (length (t_conns t)) (t_Channels t)"
  "t_db (accept addr t) = t_db t" "t_now (accept addr t) = t_now t"
  by (simp_all add: accept_def Let_def)

lemma inv_accept:
  assumes inv: "tracker_inv t"
  shows "tracker_inv (accept addr t)"
proof -
  let ?t = "accept addr t"
  have as: "assigned ?t = assigned t"
    by (auto simp: assigned_def fun_eq_iff nth_accept less_Suc_eq_le split: if_splits)
  have sv: "serving ?t = serving t"
    by (auto simp: serving_def fun_eq_iff nth_accept less_Suc_eq_le split: if_splits)
  have hr: "has_row ?t = has_row t" by (rule has_row_cong) simp
  have "conn_ok ?t c" if "c < length (t_conns ?t)" for c
    using that inv out_ok_cong [OF as] by (auto simp: conn_ok_def nth_accept less_Suc_eq_le tracker_inv_def)
  moreover have "session_ok ?t c se" if "serving t c se" for c se
  proof -
    have "c < length (t_conns t)" "session_ok t c se" using inv that by (auto simp: serving_def tracker_inv_def)
    then show ?thesis using as hr by (simp add: session_ok_def nth_accept)
  qed
  ultimately show ?thesis using inv as by (auto simp: tracker_inv_def sv less_Suc_eq)
qed

text \<open>The handshake gives a fresh id to a connection that had none.\<close>

lemma FormatInt_fresh:
  assumes "tracker_inv t" "last_id (t_db t) + 1 \<le> max_int64"
  shows "\<not> assigned t c (FormatInt (last_id (t_db t) + 1))"
proof
  assume "assigned t c (FormatInt (last_id (t_db t) + 1))"
  then obtain i where i: "FormatInt (last_id (t_db t) + 1) = FormatInt i" "0 < i" "i \<le> last_id (t_db t)"
    using assms(1) unfolding tracker_inv_def by blast
  then have "last_id (t_db t) + 1 = i"
    using assms(2) by (intro FormatInt_inj) (auto simp: max_int64_def)
  then show False using i(3) by simp
qed

lemma id_message_inj [simp]: "id_message a = id_message b \<longleftrightarrow> a = b"
  by (simp add: id_message_def)

lemma out_ok_id [simp]: "out_ok t c (id_message i)"
  by (simp add: out_ok_def id_message_def)

lemma accepted_has_no_id:
  "tracker_inv t \<Longrightarrow> cn_phase (t_conns t ! cid) = Accepted \<Longrightarrow> \<not> assigned t cid i"
  using assigned_not_accepted by blast

lemma inv_db_new_peer:
  assumes inv: "tracker_inv t"
    and d: "wf_db d" "last_id d = last_id (t_db t) + 1" "last_id d \<le> max_int64"
      "peers_of d = peers_of (t_db t) @ [p]"
  shows "tracker_inv (t\<lparr>t_db := d\<rparr>)"
proof -
  let ?t = "t\<lparr>t_db := d\<rparr>"
  have as: "assigned ?t = assigned t" by (simp add: assigned_def fun_eq_iff)
  have "session_ok ?t c se" if "serving t c se" for c se
  proof -
    have "session_ok t c se" using inv that by (simp add: tracker_inv_def)
    then show ?thesis using as d(4) by (auto simp: session_ok_def has_row_def)
  qed
  moreover have "conn_ok ?t c" if "c < length (t_conns t)" for c
    using that inv out_ok_cong [OF as] by (simp add: tracker_inv_def conn_ok_def)
  moreover have "\<exists>j. i = FormatInt j \<and> 0 < j \<and> j \<le> last_id d" if a: "assigned t c i" for c i
  proof -
    obtain j where "i = FormatInt j" "0 < j" "j \<le> last_id (t_db t)"
      using inv a unfolding tracker_inv_def by blast
    then show ?thesis using d(2) by (intro exI [of _ j]) simp
  qed
  ultimately show ?thesis using inv d as by (simp add: tracker_inv_def)
qed

lemma inv_finish: "tracker_inv t \<Longrightarrow> tracker_inv (set_phase cid Finished t)"
proof -
  assume inv: "tracker_inv t"
  show ?thesis
  proof (rule inv_shrink [OF inv])
    fix c se' assume "serving (set_phase cid Finished t) c se'"
    then have s: "serving t c se'" by (simp add: serving_set_phase split: if_splits)
    then show "\<exists>s0. serving t c s0 \<and> se_daemonID se' = se_daemonID s0 \<and>
      se_daemonIP se' = se_daemonIP s0 \<and> se_daemonPort se' = se_daemonPort s0 \<and>
      se_channels se' = se_channels s0 \<and> se_deadline se' \<le> t_now (set_phase cid Finished t) + ClientTimeout \<and>
      has_row (set_phase cid Finished t) se'"
      using serving_has_row [OF inv s] has_row_cong [of "set_phase cid Finished t" t] by auto
  qed (use tracker_inv_wf [OF inv] in \<open>auto simp: set_phase_def\<close>)
qed

text \<open>The id message, the router entry and the start of the session.\<close>

lemma inv_admit:
  assumes inv: "tracker_inv t" and c: "cid < length (t_conns t)" "cn_phase (t_conns t ! cid) = Accepted"
    and fresh: "\<And>c. \<not> assigned t c nid" and nid: "nid = FormatInt k" "0 < k" "k \<le> last_id (t_db t)"
    and se: "se_daemonID se = nid" "has_row t se" "se_channels se < length (t_conns t)"
      "SplitHostPort (cn_addr (t_conns t ! cid)) = Some (se_daemonIP se, se_daemonPort se)"
      "se_deadline se \<le> t_now t + ClientTimeout"
    and p: "p = Finished \<or> p = Serving se"
  shows "tracker_inv (set_phase cid p ((upd_conn cid (\<lambda>c. c\<lparr>cn_out := cn_out c @ [id_message nid]\<rparr>) t)
    \<lparr>t_DaemonRouters := mput nid cid (t_DaemonRouters t)\<rparr>))" (is "tracker_inv ?t")
proof -
  have len: "length (t_conns ?t) = length (t_conns t)" by simp
  have nth: "t_conns ?t ! d = (if d = cid then (t_conns t ! cid)\<lparr>cn_out := [id_message nid], cn_phase := p\<rparr>
      else t_conns t ! d)" if "d < length (t_conns t)" for d
  proof -
    have "cn_out (t_conns t ! cid) = []" using inv c by (simp add: tracker_inv_def conn_ok_def)
    then show ?thesis using that by (simp add: set_phase_def upd_conn_def nth_list_update)
  qed
  have none: "\<not> assigned t cid i" for i using accepted_has_no_id [OF inv c(2)] .
  have as: "assigned ?t d i \<longleftrightarrow> assigned t d i \<or> d = cid \<and> i = nid" for d i
    using c(1) none [of i] by (auto simp: assigned_def nth split: if_splits)
  have sv: "serving ?t d s \<longleftrightarrow> (if d = cid then p = Serving s else serving t d s)" for d s
    using c(1) by (auto simp: serving_def nth)
  have hr: "has_row ?t = has_row t" by (rule has_row_cong) simp
  have ok: "session_ok ?t d s" if "serving ?t d s" for d s
  proof (cases "d = cid")
    case True
    then have "s = se" using that p sv by auto
    then show ?thesis using True se c(1) by (simp add: session_ok_def as hr nth)
  next
    case False
    then have "serving t d s" using that sv by simp
    then have "session_ok t d s" "d < length (t_conns t)" using inv by (auto simp: tracker_inv_def serving_def)
    then show ?thesis using False by (simp add: session_ok_def as hr nth)
  qed
  have out: "out_ok ?t d m" if "out_ok t d m" "d \<noteq> cid" for d m
    using that by (auto simp: out_ok_def as split: option.splits message_type.splits)
  have conn: "conn_ok ?t d" if "d < length (t_conns t)" for d
  proof (cases "d = cid")
    case True
    then show ?thesis using that p by (auto simp: conn_ok_def nth)
  next
    case False
    then show ?thesis using that inv out by (auto simp: tracker_inv_def conn_ok_def nth)
  qed
  have one: "c1 = c2" if "assigned ?t c1 i" "assigned ?t c2 i" for c1 c2 i
    using that inv fresh unfolding as tracker_inv_def by blast
  have fn: "i = j" if "assigned ?t d i" "assigned ?t d j" for d i j
    using that inv none unfolding as tracker_inv_def by blast
  have fmt: "\<exists>j. i = FormatInt j \<and> 0 < j \<and> j \<le> last_id (t_db ?t)" if "assigned ?t d i" for d i
    using that inv nid unfolding as tracker_inv_def by auto
  have rts: "assigned ?t d i" if "mget (t_DaemonRouters ?t) i = Some d" for i d
    using that inv unfolding as tracker_inv_def by (auto split: if_splits)
  have base: "wf_db (t_db ?t)" "last_id (t_db ?t) \<le> max_int64"
    "\<And>a c. mget (t_Channels ?t) a = Some c \<Longrightarrow> c < length (t_conns ?t)"
    using inv by (simp_all add: tracker_inv_def)
  have conn': "conn_ok ?t d" if "d < length (t_conns ?t)" for d
    using conn that unfolding len by blast
  show ?thesis
    unfolding tracker_inv_def
    by (intro conjI allI impI) (fact base rts fmt ok conn' | erule (1) one fn base(3))+
qed

lemma upd_conn_faults: "upd_conn cid f (t\<lparr>t_wfaults := fs\<rparr>) = (upd_conn cid f t)\<lparr>t_wfaults := fs\<rparr>"
  by (simp add: upd_conn_def)

lemma inv_handshake:
  assumes inv: "tracker_inv t" and c: "cid < length (t_conns t)" "cn_phase (t_conns t ! cid) = Accepted"
  shows "tracker_inv (handshake cid t)"
proof (cases "SplitHostPort (cn_addr (t_conns t ! cid))")
  case None
  then show ?thesis using inv_finish [OF inv] by (simp add: handshake_def)
next
  case (Some a)
  obtain ip port where a: "a = (ip, port)" by (cases a)
  obtain r d where cp: "PeerStore_CreatePeer ip port (t_db t) = (r, d)"
    by (cases "PeerStore_CreatePeer ip port (t_db t)")
  note D = CreatePeer_result [OF cp tracker_inv_wf [OF inv]]
  show ?thesis
  proof (cases r)
    case (Inl e)
    then have "tracker_inv (t\<lparr>t_db := d\<rparr>)" using D by (intro inv_quiet [OF inv]) simp_all
    then show ?thesis using Some a cp Inl inv_finish by (simp add: handshake_def Let_def)
  next
    case (Inr nid)
    then have D': "wf_db d" "nid = FormatInt (last_id (t_db t) + 1)" "last_id d = last_id (t_db t) + 1"
      "last_id d \<le> max_int64"
      "peers_of d = peers_of (t_db t) @ [\<lparr>p_ID = last_id (t_db t) + 1, p_IpAddress = ip, p_Port = port\<rparr>]"
      using D by simp_all
    let ?t = "t\<lparr>t_db := d\<rparr>"
    have inv1: "tracker_inv ?t" by (rule inv_db_new_peer [OF inv D'(1,3-5)])
    have seq: "0 \<le> last_id (t_db t)"
      using tracker_inv_wf [OF inv] by (simp add: wf_db_def wf_tables_def ids_ok_def last_id_def)
    have fresh: "\<not> assigned ?t e nid" for e
      using FormatInt_fresh [OF inv, of e] D'(2-4) by (simp add: assigned_def)
    show ?thesis
    proof (cases rule: tr_WriteMessage_cases [of cid "id_message nid" ?t])
      case (failed fs)
      then show ?thesis
        using Some a cp Inr inv_finish [OF inv_faults [OF inv1]]
        by (simp add: handshake_def Let_def id_message_def)
    next
      case (sent fs)
      let ?u = "?t\<lparr>t_wfaults := fs\<rparr>"
      have inv2: "tracker_inv ?u" by (rule inv_faults [OF inv1])
      have fresh2: "\<not> assigned ?u e nid" for e using fresh [of e] by (simp add: assigned_def)
      let ?admit = "\<lambda>p. set_phase cid p ((upd_conn cid (\<lambda>c. c\<lparr>cn_out := cn_out c @ [id_message nid]\<rparr>) ?u)
        \<lparr>t_DaemonRouters := mput nid cid (t_DaemonRouters ?u)\<rparr>)"
      let ?se = "\<lambda>k. \<lparr>se_daemonID = nid, se_daemonIP = ip, se_daemonPort = port, se_channels = k,
        se_deadline = t_now t + ClientTimeout\<rparr>"
      have row: "has_row ?u (?se k)" for k
        using D'(2,5) by (auto simp: has_row_def peer_key_def)
      have adm: "tracker_inv (?admit p)"
        if p: "p = Finished \<or> p = Serving (?se k)" and k: "k < length (t_conns t)" for p k
        by (rule inv_admit [OF inv2 _ _ fresh2, of cid "last_id (t_db t) + 1" "?se k"])
           (use c D' seq row p k Some a in simp_all)
      show ?thesis
      proof (cases "mget (t_Channels t) (cn_addr (t_conns t ! cid))")
        case None
        then show ?thesis
          using adm [of Finished cid] c Some a cp Inr sent
          by (simp add: handshake_def Let_def id_message_def)
      next
        case (Some k)
        then have "k < length (t_conns t)" using inv by (simp add: tracker_inv_def)
        then show ?thesis
          using adm [of "Serving (?se k)" k] Some \<open>SplitHostPort _ = _\<close> a cp Inr sent
          by (simp add: handshake_def Let_def id_message_def)
      qed
    qed
  qed
qed

lemma tracker_inv_step:
  assumes inv: "tracker_inv t" and step: "tracker_step t t'"
  shows "tracker_inv t'"
  using step
proof cases
  case (signal cid se m ms)
  then show ?thesis using inv by (auto intro!: inv_signal [of _ cid] inv_take)
next
  case (heartbeat cid se m ms)
  then show ?thesis using inv by (auto intro!: inv_heartbeat inv_take)
next
  case (goodbye cid se m ms)
  then show ?thesis using inv by (auto intro!: inv_goodbye inv_take)
next
  case (peer_list cid se m ms)
  then show ?thesis using inv by (auto intro!: inv_peer_list inv_take)
next
  case (handshake cid)
  then show ?thesis using inv by (auto intro!: inv_handshake)
next
  case (timeout cid se)
  then show ?thesis using inv by (auto intro!: inv_timeout)
next
  case clock
  then show ?thesis using inv_clock [OF inv] by simp
qed (use inv in \<open>auto intro!: inv_accept inv_receive inv_announce inv_take\<close>)

text \<open>A tracker starts on whatever its database file holds.\<close>

definition tracker_start :: "tracker \<Rightarrow> bool" where
  "tracker_start t \<longleftrightarrow>
     (\<exists>db faults. wf_db db \<and> last_id db \<le> max_int64 \<and> t = NewTracker db faults)"

lemma tracker_inv_start: "tracker_start t \<Longrightarrow> tracker_inv t"
  by (auto simp: tracker_start_def NewTracker_def tracker_inv_def assigned_def serving_def)

interpretation tracker_system: invariant_system tracker_start tracker_step tracker_inv
  by unfold_locales (auto intro: tracker_inv_start tracker_inv_step)

section \<open>Announcing\<close>

definition lists_peer :: "peer_row \<Rightarrow> string \<Rightarrow> sqldb \<Rightarrow> bool" where
  "lists_peer p h db \<longleftrightarrow> p \<in> set (select_peers_by_hash h (tables_of db))"

definition room_for :: "nat \<Rightarrow> sqldb \<Rightarrow> bool" where
  "room_for n db \<longleftrightarrow>
     seq_files (tables_of db) + int n \<le> max_int64 \<and> seq_swarms (tables_of db) + int n \<le> max_int64"

lemma create_file_calm:
  assumes wf: "wf_db db" and calm: "sched db = []" and room: "seq_files (tables_of db) < max_int64"
  obtains f new db' where "FileStore_CreateFile now n s m k h db = (Inr (f, new), db')"
    "wf_db db'" "sched db' = []" "stored_file db' h = Some f" "f_Hash f = h"
    "files (tables_of db') = files (tables_of db) \<or> files (tables_of db') = files (tables_of db) @ [f]"
    "swarms (tables_of db') = swarms (tables_of db)" "peers (tables_of db') = peers (tables_of db)"
    "seq_swarms (tables_of db') = seq_swarms (tables_of db)"
    "seq_files (tables_of db') \<le> seq_files (tables_of db) + 1"
proof (cases "select_file_by_hash h (tables_of db)")
  case (Cons f fs)
  then have s: "stored_file db h = Some f" "f_Hash f = h"
    using stored_file_Some [OF wf, of h f] by (auto simp: stored_file_def)
  have "FileStore_CreateFile now n s m k h db = (Inr (f, False), db)"
    using Cons calm by (simp add: FileStore_CreateFile_def Q_GetFileByHash_def run_query_calm)
  then show thesis using that wf calm s by auto
next
  case Nil
  define a where "a = \<lparr>cfp_Name = n, cfp_Size = s, cfp_MaxChunkSize = m, cfp_TotalChunks = k,
    cfp_Hash = h, cfp_CreatedAt = now\<rparr>"
  let ?t = "tables_of db" and ?i = "seq_files (tables_of db) + 1"
  define f where "f = \<lparr>f_ID = ?i, f_Name = n, f_Size = s, f_MaxChunkSize = m, f_TotalChunks = k,
    f_Hash = h, f_CreatedAt = now\<rparr>"
  have none: "\<forall>g \<in> set (files ?t). f_Hash g \<noteq> h" using Nil by (simp add: select_file_by_hash_def filter_empty_conv)
  have ins: "insert_file a True ?t = (Inr f, ?t\<lparr>files := files ?t @ [f], seq_files := ?i\<rparr>)"
    using none room by (auto simp: insert_file_def a_def f_def next_id_def Let_def)
  let ?db = "db\<lparr>tables_of := ?t\<lparr>files := files ?t @ [f], seq_files := ?i\<rparr>\<rparr>"
  have run: "FileStore_CreateFile now n s m k h db = (Inr (f, True), ?db)"
    using Nil calm ins
    by (simp add: FileStore_CreateFile_def Q_GetFileByHash_def run_query_calm Q_CreateFile_def run_stmt_calm
        flip: a_def)
  have wf': "wf_db ?db" using CreateFile_wf [OF wf, of now n s m k h] run by simp
  have fh: "f_Hash f = h" by (simp add: f_def)
  have st: "stored_file ?db h = Some f" using stored_file_Some [OF wf', of h f] fh by simp
  have sc: "sched ?db = []" using calm by simp
  show thesis by (rule that [OF run wf' sc st fh]) simp_all
qed

lemma select_peers_mono:
  assumes "set (files t) \<subseteq> set (files t')" "set (swarms t) \<subseteq> set (swarms t')" "peers t' = peers t"
  shows "set (select_peers_by_hash h t) \<subseteq> set (select_peers_by_hash h t')"
proof
  fix p assume "p \<in> set (select_peers_by_hash h t)"
  then obtain s f where "p \<in> set (peers t)" "s \<in> set (swarms t)" "f \<in> set (files t)"
    "s_PeerID s = p_ID p" "s_FileID s = f_ID f" "f_Hash f = h"
    by (auto simp: set_select_peers_by_hash)
  then show "p \<in> set (select_peers_by_hash h t')"
    unfolding set_select_peers_by_hash using assms by (intro CollectI conjI bexI [of _ s] bexI [of _ f]) auto
qed

lemma select_peer_row:
  assumes wt: "wf_tables t" and p: "p \<in> set (peers t)"
  shows "select_peer (p_IpAddress p) (p_Port p) t = [p]"
proof -
  have d: "distinct (map peer_key (peers t))" using wt by (simp add: wf_tables_def)
  then have dp: "distinct (peers t)" by (simp add: distinct_map)
  have "select_peer (p_IpAddress p) (p_Port p) t = filter (\<lambda>q. q = p) (peers t)"
    unfolding select_peer_def
    by (rule filter_cong) (use distinct_map_unique [OF d _ p] in \<open>auto simp: peer_key_def\<close>)
  then show ?thesis using filter_singleton_id [OF dp p] by simp
qed

lemma add_peer_calm:
  assumes wf: "wf_db db" and calm: "sched db = []" and room: "seq_swarms (tables_of db) < max_int64"
    and p: "p \<in> set (peers (tables_of db))" and f: "stored_file db h = Some f"
  obtains r db' where "PeerStore_AddPeerToSwarm (p_IpAddress p) (p_Port p) h db = (r, db')"
    "wf_db db'" "sched db' = []" "lists_peer p h db'" "\<And>g. lists_peer q g db \<Longrightarrow> lists_peer q g db'"
    "peers (tables_of db') = peers (tables_of db)" "seq_files (tables_of db') = seq_files (tables_of db)"
    "seq_swarms (tables_of db') \<le> seq_swarms (tables_of db) + 1"
proof -
  let ?t = "tables_of db" and ?r = "PeerStore_AddPeerToSwarm (p_IpAddress p) (p_Port p) h db"
  have wt: "wf_tables ?t" using wf by (simp add: wf_db_def)
  have fh: "f \<in> set (files ?t)" "f_Hash f = h" using f stored_file_Some [OF wf] by auto
  have sp: "select_peer (p_IpAddress p) (p_Port p) ?t = [p]" by (rule select_peer_row [OF wt p])
  have sf: "select_file_by_hash h ?t = [f]" using select_file_unique [OF wt fh(1)] fh(2) by simp
  have run: "?r = (fst (insert_swarms [(p_ID p, f_ID f)] True ?t),
      db\<lparr>tables_of := snd (insert_swarms [(p_ID p, f_ID f)] True ?t)\<rparr>)"
    using calm by (simp add: PeerStore_AddPeerToSwarm_def Q_AddPeerToSwarm_def run_stmt_calm
        add_peer_to_swarm_def select_peer_file_def sp sf)
  let ?k = "(p_ID p, f_ID f)" and ?t' = "snd (insert_swarms [(p_ID p, f_ID f)] True ?t)"
  have ref: "p_ID p \<in> p_ID ` set (peers ?t)" "f_ID f \<in> f_ID ` set (files ?t)" using p fh(1) by auto
  have sw: "set (swarms ?t) \<subseteq> set (swarms ?t') \<and> ?k \<in> swarm_key ` set (swarms ?t') \<and>
      seq_swarms ?t' \<le> seq_swarms ?t + 1 \<and> seq_files ?t' = seq_files ?t"
  proof (cases "\<exists>s \<in> set (swarms ?t). s_PeerID s = p_ID p \<and> s_FileID s = f_ID f")
    case True
    then show ?thesis by (force simp: insert_swarm_def swarm_key_def)
  next
    case False
    then have "insert_swarm (p_ID p) (f_ID f) True ?t =
        (let row = \<lparr>s_ID = seq_swarms ?t + 1, s_PeerID = p_ID p, s_FileID = f_ID f\<rparr>
         in (Inr row, ?t\<lparr>swarms := swarms ?t @ [row], seq_swarms := seq_swarms ?t + 1\<rparr>))"
      using ref room by (auto simp: insert_swarm_def next_id_def Let_def)
    then show ?thesis by (auto simp: Let_def swarm_key_def)
  qed
  have fr: "peers ?t' = peers ?t" "files ?t' = files ?t" by (simp_all only: insert_swarms_keeps)
  have wf': "wf_db (snd ?r)"
    using Q_AddPeerToSwarm_wf [OF wf] by (simp add: PeerStore_AddPeerToSwarm_def)
  have mem: "p \<in> set (select_peers_by_hash h ?t')"
    using sw fr p fh unfolding set_select_peers_by_hash swarm_key_def by force
  have mono: "q \<in> set (select_peers_by_hash g ?t')" if "q \<in> set (select_peers_by_hash g ?t)" for g
    using select_peers_mono [of ?t ?t' g] sw fr that by auto
  show thesis
    by (rule that [of "fst ?r" "snd ?r"])
       (use run wf' calm mem mono sw fr in \<open>simp_all add: lists_peer_def\<close>)
qed

lemma announce_files_calm:
  assumes "wf_db db" "sched db = []" "room_for (length fs) db" "p \<in> set (peers (tables_of db))"
  shows "(\<forall>f \<in> set fs. lists_peer p (fi_FileHash f) (announce_files now (p_IpAddress p) (p_Port p) fs db)) \<and>
    (\<forall>h. lists_peer p h db \<longrightarrow> lists_peer p h (announce_files now (p_IpAddress p) (p_Port p) fs db))"
  using assms
proof (induction fs arbitrary: db)
  case (Cons f fs)
  let ?h = "fi_FileHash f"
  have room: "seq_files (tables_of db) < max_int64" "seq_swarms (tables_of db) < max_int64"
    using Cons.prems(3) by (auto simp: room_for_def)
  obtain row new d1 where c: "FileStore_CreateFile now (fi_FileName f) (fi_FileSize f) (fi_ChunkSize f)
      (fi_TotalChunks f) ?h db = (Inr (row, new), d1)" "wf_db d1" "sched d1 = []" "stored_file d1 ?h = Some row"
    "files (tables_of d1) = files (tables_of db) \<or> files (tables_of d1) = files (tables_of db) @ [row]"
    "swarms (tables_of d1) = swarms (tables_of db)" "peers (tables_of d1) = peers (tables_of db)"
    "seq_swarms (tables_of d1) = seq_swarms (tables_of db)"
    "seq_files (tables_of d1) \<le> seq_files (tables_of db) + 1"
    using create_file_calm [OF Cons.prems(1,2) room(1)] by metis
  obtain r d2 where a: "PeerStore_AddPeerToSwarm (p_IpAddress p) (p_Port p) ?h d1 = (r, d2)"
    "wf_db d2" "sched d2 = []" "lists_peer p ?h d2" "\<And>g. lists_peer p g d1 \<Longrightarrow> lists_peer p g d2"
    "peers (tables_of d2) = peers (tables_of d1)" "seq_files (tables_of d2) = seq_files (tables_of d1)"
    "seq_swarms (tables_of d2) \<le> seq_swarms (tables_of d1) + 1"
    using add_peer_calm [OF c(2,3), of p ?h row p] room(2) c(4,7,8) Cons.prems(4) by metis
  have run: "announce_files now (p_IpAddress p) (p_Port p) (f # fs) db =
      announce_files now (p_IpAddress p) (p_Port p) fs d2"
    using c(1) a(1) by (simp add: Let_def)
  have m1: "lists_peer p g db \<Longrightarrow> lists_peer p g d1" for g
  proof -
    have "set (files (tables_of db)) \<subseteq> set (files (tables_of d1))" using c(5) by auto
    then show "lists_peer p g db \<Longrightarrow> lists_peer p g d1"
      using select_peers_mono [of "tables_of db" "tables_of d1" g] c(6,7) by (auto simp: lists_peer_def)
  qed
  have "room_for (length fs) d2" using Cons.prems(3) c(8,9) a(7,8) by (auto simp: room_for_def)
  then have IH: "\<forall>f \<in> set fs. lists_peer p (fi_FileHash f) (announce_files now (p_IpAddress p) (p_Port p) fs d2)"
    "\<And>h. lists_peer p h d2 \<Longrightarrow> lists_peer p h (announce_files now (p_IpAddress p) (p_Port p) fs d2)"
    using Cons.IH [OF a(2,3)] a(6) c(7) Cons.prems(4) by auto
  show ?case unfolding run using IH a(4,5) m1 by auto
qed simp

section \<open>Properties of the tracker\<close>

text \<open>A run of the tracker: one daemon connects, completes its handshake, and two signals wait for it.\<close>

definition sample_tracker :: tracker where
  "sample_tracker = handshake 0 (accept ''10.0.0.9:4000'' (NewTracker sample_db []))"

lemma sample_start: "tracker_start (NewTracker sample_db [])"
  unfolding tracker_start_def
proof (intro exI conjI)
  show "wf_db sample_db" by (rule sample_db_wf)
  show "last_id sample_db \<le> max_int64" by code_simp
qed simp

lemma sample_tracker_reachable: "tracker_step\<^sup>*\<^sup>* (NewTracker sample_db []) sample_tracker"
proof -
  let ?t = "accept ''10.0.0.9:4000'' (NewTracker sample_db [])"
  have "tracker_step (NewTracker sample_db []) ?t" by (rule tracker_step.accept)
  moreover have "tracker_step ?t sample_tracker"
    unfolding sample_tracker_def by (rule tracker_step.handshake) (simp_all add: NewTracker_def accept_def)
  ultimately show ?thesis by (meson converse_rtranclp_into_rtranclp rtranclp.rtrancl_refl)
qed

lemma sample_tracker_id: "assigned sample_tracker 0 ''3''"
  unfolding assigned_def id_message_def by code_simp

text \<open>In every reachable state an id names one connection: no id was sent on two connections,
  no connection was sent two ids, and the router entry of an id is the connection it was sent on.\<close>

theorem tracker_ids_are_unique:
  assumes "tracker_start s" "tracker_step\<^sup>*\<^sup>* s t"
  shows "(assigned t c i \<and> assigned t d i \<longrightarrow> c = d) \<and> (assigned t c i \<and> assigned t c j \<longrightarrow> i = j) \<and>
    (mget (t_DaemonRouters t) i = Some c \<longrightarrow> assigned t c i)"
proof -
  have inv: "tracker_inv t" by (rule tracker_system.reachable_inv [OF assms])
  have "assigned t c i \<Longrightarrow> assigned t d i \<Longrightarrow> c = d" using inv unfolding tracker_inv_def by blast
  moreover have "assigned t c i \<Longrightarrow> assigned t c j \<Longrightarrow> i = j" using inv unfolding tracker_inv_def by blast
  moreover have "mget (t_DaemonRouters t) i = Some c \<Longrightarrow> assigned t c i"
    using inv unfolding tracker_inv_def by blast
  ultimately show ?thesis by blast
qed

theorem tracker_ids_are_unique_witness:
  "{c. assigned sample_tracker c ''3''} = {0}"
  using tracker_ids_are_unique [OF sample_start sample_tracker_reachable, of 0 "''3''"] sample_tracker_id by blast

text \<open>C21: everything the tracker ever writes to a daemon is the daemon's id, a signal whose source
  is an id the tracker has given out, whatever the sender claimed, or a peer list that does not
  name the daemon itself.\<close>

theorem tracker_output_is_honest:
  assumes "tracker_start s" "tracker_step\<^sup>*\<^sup>* s t"
    and "c < length (t_conns t)" "msg \<in> set (cn_out (t_conns t ! c))"
  shows "case MessageType msg of
      Some (NetworkMessage_Id m) \<Rightarrow> assigned t c (idm_Id m)
    | Some (NetworkMessage_Signaling m) \<Rightarrow> \<exists>d. assigned t d (sg_SourcePeerId m)
    | Some (NetworkMessage_PeerListResponse m) \<Rightarrow> \<forall>p \<in> set (plp_Peers m). \<not> assigned t c (pi_Id p)
    | _ \<Rightarrow> False"
proof -
  have "tracker_inv t" by (rule tracker_system.reachable_inv [OF assms(1,2)])
  then have "out_ok t c msg" using assms(3,4) by (simp add: tracker_inv_def conn_ok_def)
  moreover have "assigned t c (idm_Id m)" if "MessageType msg = Some (NetworkMessage_Id m)" for m
  proof -
    have "msg = id_message (idm_Id m)" using that by (cases msg; cases m) (simp add: id_message_def)
    then show ?thesis using assms(3,4) by (simp add: assigned_def)
  qed
  ultimately show ?thesis by (auto simp: out_ok_def split: option.splits message_type.splits)
qed

theorem tracker_output_is_honest_witness:
  "assigned sample_tracker 0 (idm_Id \<lparr>idm_Id = ''3''\<rparr>)"
proof -
  have "id_message ''3'' \<in> set (cn_out (t_conns sample_tracker ! 0))" "0 < length (t_conns sample_tracker)"
    using sample_tracker_id by (simp_all add: assigned_def)
  from tracker_output_is_honest [OF sample_start sample_tracker_reachable this(2,1)]
  show ?thesis by (simp add: id_message_def)
qed

text \<open>A daemon that is being served has its row in the peers table, under the id and the address
  it was given at the handshake, and no other daemon being served has that address.\<close>

theorem served_daemon_is_stored:
  assumes "tracker_start s" "tracker_step\<^sup>*\<^sup>* s t" "serving t c se"
  shows "(\<exists>p \<in> set (peers (tables_of (t_db t))). FormatInt (p_ID p) = se_daemonID se \<and>
      p_IpAddress p = se_daemonIP se \<and> p_Port p = se_daemonPort se) \<and>
    SplitHostPort (cn_addr (t_conns t ! c)) = Some (se_daemonIP se, se_daemonPort se) \<and>
    (\<forall>d se'. serving t d se' \<longrightarrow> (se_daemonIP se', se_daemonPort se') = (se_daemonIP se, se_daemonPort se) \<longrightarrow> d = c)"
proof -
  have inv: "tracker_inv t" by (rule tracker_system.reachable_inv [OF assms(1,2)])
  then have "session_ok t c se" using assms(3) by (simp add: tracker_inv_def)
  then show ?thesis
    using serving_addr_unique [OF inv _ assms(3)]
    by (auto simp: session_ok_def has_row_def peer_key_def peers_of_def)
qed

theorem served_daemon_is_stored_witness:
  "\<exists>se. serving sample_tracker 0 se \<and>
     SplitHostPort (cn_addr (t_conns sample_tracker ! 0)) = Some (se_daemonIP se, se_daemonPort se)"
proof -
  let ?se = "\<lparr>se_daemonID = ''3'', se_daemonIP = ''10.0.0.9'', se_daemonPort = ''4000'', se_channels = 0, se_deadline = 10\<rparr>"
  have "serving sample_tracker 0 ?se" unfolding serving_def by code_simp
  with served_daemon_is_stored [OF sample_start sample_tracker_reachable this] show ?thesis by blast
qed

text \<open>A daemon is dropped for silence only when ten seconds have passed since the tracker last
  handled a heartbeat of it or finished its handshake: handling a heartbeat moves the deadline to
  ten seconds from now, and no deadline is ever farther away than that.\<close>

theorem heartbeat_keeps_alive:
  assumes "tracker_start s" "tracker_step\<^sup>*\<^sup>* s t" "serving t c se"
  shows "se_deadline se \<le> t_now t + 10 \<and>
    serving (on_heartbeat c se t) c (se\<lparr>se_deadline := t_now t + 10\<rparr>)"
proof
  have "session_ok t c se"
    using tracker_system.reachable_inv [OF assms(1,2)] assms(3) by (simp add: tracker_inv_def)
  then show "se_deadline se \<le> t_now t + 10" by (simp add: session_ok_def ClientTimeout_def)
  show "serving (on_heartbeat c se t) c (se\<lparr>se_deadline := t_now t + 10\<rparr>)"
    using assms(3) by (simp add: on_heartbeat_def serving_set_phase ClientTimeout_def) (simp add: serving_def)
qed

theorem heartbeat_keeps_alive_witness:
  "\<exists>se. serving sample_tracker 0 se \<and> se_deadline se \<le> t_now sample_tracker + 10"
proof -
  let ?se = "\<lparr>se_daemonID = ''3'', se_daemonIP = ''10.0.0.9'', se_daemonPort = ''4000'', se_channels = 0, se_deadline = 10\<rparr>"
  have "serving sample_tracker 0 ?se" unfolding serving_def by code_simp
  with heartbeat_keeps_alive [OF sample_start sample_tracker_reachable this] show ?thesis by blast
qed

text \<open>While the driver does not fail, an announcement by a daemon that is stored puts that daemon
  in the swarm of every file it announces, whether or not the file was known before, and takes it out
  of no swarm.\<close>

theorem announcement_joins_every_swarm:
  assumes "wf_db (t_db t)" "sched (t_db t) = []" "room_for (length (am_Files m)) (t_db t)"
    and "p \<in> set (peers (tables_of (t_db t)))"
  shows "(\<forall>f \<in> set (am_Files m).
      lists_peer p (fi_FileHash f) (t_db (handleAnnounce (p_IpAddress p) (p_Port p) m t))) \<and>
    (\<forall>h. lists_peer p h (t_db t) \<longrightarrow> lists_peer p h (t_db (handleAnnounce (p_IpAddress p) (p_Port p) m t)))"
  using announce_files_calm [OF assms] by (simp add: handleAnnounce_def)

definition sample_announce :: AnnounceMessage where
  "sample_announce = \<lparr>am_Files =
     [\<lparr>fi_FileName = [], fi_FileHash = ''h'', fi_FileSize = 5, fi_TotalChunks = 1, fi_ChunkSize = 32768\<rparr>,
      \<lparr>fi_FileName = [], fi_FileHash = ''new'', fi_FileSize = 9, fi_TotalChunks = 1, fi_ChunkSize = 32768\<rparr>]\<rparr>"

theorem announcement_joins_every_swarm_witness:
  "lists_peer \<lparr>p_ID = 2, p_IpAddress = ''10.0.0.2'', p_Port = ''5000''\<rparr> ''new''
     (t_db (handleAnnounce ''10.0.0.2'' ''5000'' sample_announce (NewTracker sample_db [])))"
proof -
  let ?p = "\<lparr>p_ID = 2, p_IpAddress = ''10.0.0.2'', p_Port = ''5000''\<rparr>" and ?t = "NewTracker sample_db []"
  have db: "t_db ?t = sample_db" by (simp add: NewTracker_def)
  have "sched sample_db = []" by (simp add: sample_db_def)
  moreover have "room_for (length (am_Files sample_announce)) sample_db" unfolding room_for_def by code_simp
  moreover have "?p \<in> set (peers (tables_of sample_db))" by code_simp
  ultimately show ?thesis
    using announcement_joins_every_swarm [of ?t sample_announce ?p] sample_db_wf
    by (simp add: db sample_announce_def)
qed

lemma peer_list_written:
  assumes "serving t c se" "sched (t_db t) = []" "t_wfaults t = []"
  shows "\<exists>answer. cn_out (t_conns (handlePeerListRequest c (se_daemonIP se) (se_daemonPort se) m t) ! c) =
      cn_out (t_conns t ! c) @ [\<lparr>MessageType = Some (NetworkMessage_PeerListResponse answer)\<rparr>] \<and>
    plp_FileHash answer = plr_FileHash m \<and>
    pi_Id ` set (plp_Peers answer) = {FormatInt (p_ID p) | p. lists_peer p (plr_FileHash m) (t_db t) \<and>
      \<not> (p_IpAddress p = se_daemonIP se \<and> p_Port p = se_daemonPort se)}"
proof -
  let ?ps = "select_peers_by_hash (plr_FileHash m) (tables_of (t_db t))"
  let ?o = "other_peers (se_daemonIP se) (se_daemonPort se) ?ps"
  let ?answer = "\<lparr>plp_FileHash = plr_FileHash m, plp_TotalChunks = 0, plp_ChunkSize = 0, plp_Peers = ?o\<rparr>"
  have "PeerStore_GetPeersByFileHash (plr_FileHash m) (t_db t) = (Inr ?ps, t_db t)"
    using assms(2) by (simp add: PeerStore_GetPeersByFileHash_def Q_GetPeersByFileHash_def run_query_calm)
  then have "cn_out (t_conns (handlePeerListRequest c (se_daemonIP se) (se_daemonPort se) m t) ! c) =
      cn_out (t_conns t ! c) @ [\<lparr>MessageType = Some (NetworkMessage_PeerListResponse ?answer)\<rparr>]"
    using assms(1,3) by (simp add: handlePeerListRequest_def Let_def tr_WriteMessage_def serving_def)
  moreover have "pi_Id ` set ?o = {FormatInt (p_ID p) | p. lists_peer p (plr_FileHash m) (t_db t) \<and>
      \<not> (p_IpAddress p = se_daemonIP se \<and> p_Port p = se_daemonPort se)}"
    by (auto simp: other_peers_def lists_peer_def image_iff)
  ultimately show ?thesis by (intro exI [of _ ?answer]) simp
qed

text \<open>The answer to a peer list request of a daemon being served is one message on its own
  connection, with the requested hash and the ids of exactly the other members of the file's swarm.\<close>

theorem peer_list_answer:
  assumes "serving t c se" "sched (t_db t) = []" "t_wfaults t = []"
  shows "\<exists>answer. cn_out (t_conns (handlePeerListRequest c (se_daemonIP se) (se_daemonPort se) m t) ! c) =
      cn_out (t_conns t ! c) @ [\<lparr>MessageType = Some (NetworkMessage_PeerListResponse answer)\<rparr>] \<and>
    plp_FileHash answer = plr_FileHash m \<and>
    pi_Id ` set (plp_Peers answer) = {FormatInt (p_ID p) | p. lists_peer p (plr_FileHash m) (t_db t) \<and>
      \<not> (p_IpAddress p = se_daemonIP se \<and> p_Port p = se_daemonPort se)}"
  by (rule peer_list_written [OF assms])

lemma sample_serving:
  "serving sample_tracker 0 \<lparr>se_daemonID = ''3'', se_daemonIP = ''10.0.0.9'', se_daemonPort = ''4000'',
     se_channels = 0, se_deadline = 10\<rparr>"
  unfolding serving_def by code_simp

theorem peer_list_answer_witness:
  "\<exists>answer. cn_out (t_conns (handlePeerListRequest 0 ''10.0.0.9'' ''4000'' \<lparr>plr_FileHash = ''h''\<rparr> sample_tracker) ! 0) =
     [id_message ''3'', \<lparr>MessageType = Some (NetworkMessage_PeerListResponse answer)\<rparr>]"
proof -
  have "sched (t_db sample_tracker) = []" "t_wfaults sample_tracker = []" by code_simp+
  moreover have "cn_out (t_conns sample_tracker ! 0) = [id_message ''3'']" unfolding id_message_def by code_simp
  ultimately show ?thesis
    using peer_list_answer [OF sample_serving, of "\<lparr>plr_FileHash = ''h''\<rparr>"] by auto
qed

text \<open>A signal goes to the connection on which the tracker sent the target's id and to no other,
  carrying the sender's own id as its source; to an unknown target it goes nowhere.\<close>

theorem signal_is_forwarded:
  assumes "tracker_start s" "tracker_step\<^sup>*\<^sup>* s t" "serving t c se" "t_wfaults t = []" "d < length (t_conns t)"
  shows "cn_out (t_conns (forwardSignal se m t) ! d) = cn_out (t_conns t ! d) @
    (if mget (t_DaemonRouters t) (sg_TargetPeerId m) = Some d
     then [\<lparr>MessageType = Some (NetworkMessage_Signaling
             \<lparr>sg_SourcePeerId = se_daemonID se, sg_TargetPeerId = sg_TargetPeerId m, sg_Message = sg_Message m\<rparr>)\<rparr>]
     else []) \<and>
    (mget (t_DaemonRouters t) (sg_TargetPeerId m) = Some d \<longrightarrow> assigned t d (sg_TargetPeerId m))"
proof -
  have inv: "tracker_inv t" by (rule tracker_system.reachable_inv [OF assms(1,2)])
  then have "mget (t_DaemonRouters t) (sg_TargetPeerId m) = Some d \<longrightarrow> assigned t d (sg_TargetPeerId m)"
    unfolding tracker_inv_def by blast
  then show ?thesis
    using assms(4,5) by (auto simp: forwardSignal_def Let_def tr_WriteMessage_def split: option.split)
qed

theorem signal_is_forwarded_witness:
  "cn_out (t_conns (forwardSignal
      \<lparr>se_daemonID = ''3'', se_daemonIP = ''10.0.0.9'', se_daemonPort = ''4000'', se_channels = 0, se_deadline = 10\<rparr>
      \<lparr>sg_SourcePeerId = ''99'', sg_TargetPeerId = ''3'', sg_Message = None\<rparr> sample_tracker) ! 0) =
    [id_message ''3'', \<lparr>MessageType = Some (NetworkMessage_Signaling
       \<lparr>sg_SourcePeerId = ''3'', sg_TargetPeerId = ''3'', sg_Message = None\<rparr>)\<rparr>]"
proof -
  have "t_wfaults sample_tracker = []" "0 < length (t_conns sample_tracker)" by code_simp+
  moreover have "cn_out (t_conns sample_tracker ! 0) = [id_message ''3'']" unfolding id_message_def by code_simp
  moreover have "mget (t_DaemonRouters sample_tracker) ''3'' = Some 0" by code_simp
  ultimately show ?thesis
    using signal_is_forwarded [OF sample_start sample_tracker_reachable sample_serving,
      of 0 "\<lparr>sg_SourcePeerId = ''99'', sg_TargetPeerId = ''3'', sg_Message = None\<rparr>"] by simp
qed

text \<open>C25: a daemon that times out loses its router entry and, when the driver does not fail, its row:
  no peer list names it any more. A daemon that says goodbye loses its row but keeps its router entry,
  so signals to its id are still written to its connection.\<close>

theorem departure:
  assumes "tracker_start s" "tracker_step\<^sup>*\<^sup>* s t" "serving t c se" "sched (t_db t) = []"
    and "t' = on_timeout c se t \<or> t' = on_goodbye c se t"
  shows "(\<forall>p h. lists_peer p h (t_db t') \<longrightarrow> FormatInt (p_ID p) \<noteq> se_daemonID se) \<and>
    \<not> serving t' c se' \<and>
    t_DaemonRouters (on_timeout c se t) = mdel (se_daemonID se) (t_DaemonRouters t) \<and>
    t_DaemonRouters (on_goodbye c se t) = t_DaemonRouters t"
proof -
  have inv: "tracker_inv t" by (rule tracker_system.reachable_inv [OF assms(1,2)])
  have "t_db t' = snd (PeerStore_DeletePeer (se_daemonIP se) (se_daemonPort se) (t_db t))"
    using assms(5) by (auto simp: on_timeout_def on_goodbye_def Let_def)
  then have "peers (tables_of (t_db t')) =
      filter (\<lambda>p. peer_key p \<noteq> (se_daemonIP se, se_daemonPort se)) (peers_of (t_db t))"
    using assms(4) by (simp add: PeerStore_DeletePeer_def Q_DeletePeerByIPPort_def run_stmt_calm delete_peers_def
        Let_def peers_of_def peer_key_def)
  then have "FormatInt (p_ID p) \<noteq> se_daemonID se" if "lists_peer p h (t_db t')" for p h
    using that other_peers_exclude_self [OF inv assms(3)]
    by (auto simp: lists_peer_def set_select_peers_by_hash)
  moreover have "\<not> serving t' c se'"
    using assms(5) by (auto simp: on_timeout_def on_goodbye_def Let_def serving_set_phase)
  ultimately show ?thesis by (simp add: on_timeout_def on_goodbye_def Let_def)
qed

theorem departure_witness:
  "mget (t_DaemonRouters (on_goodbye 0
     \<lparr>se_daemonID = ''3'', se_daemonIP = ''10.0.0.9'', se_daemonPort = ''4000'', se_channels = 0, se_deadline = 10\<rparr>
     sample_tracker)) ''3'' = Some 0"
proof -
  have "sched (t_db sample_tracker) = []" by code_simp
  moreover have "mget (t_DaemonRouters sample_tracker) ''3'' = Some 0" by code_simp
  ultimately show ?thesis
    using departure [OF sample_start sample_tracker_reachable sample_serving _ disjI1 [OF refl]] by simp
qed

end
