(* ===== verification/FileSys.thy ===== *)
theory FileSys
  imports Strings
begin

text \<open>
  Files as the program uses them through the package os: their contents by path, reads
  and writes at an offset with the short-read and hole-filling rules of ReadAt and
  WriteAt, creation and preallocation; and the helpers of internal/node/file.go on names,
  sizes and hashes. SHA-256 is a parameter.
\<close>

type_synonym filesys = "string \<Rightarrow> bytes option"

datatype io_error = NotExist | UnexpectedEOF | NegativeOffset | IOFault

type_synonym 'a io = "io_error + 'a"

section \<open>Contents\<close>

abbreviation zero_byte :: byte where
  "zero_byte \<equiv> CHR 0x00"

text \<open>WriteAt fills the gap up to a later offset with zero bytes; writing nothing changes nothing.\<close>

definition write_at :: "bytes \<Rightarrow> nat \<Rightarrow> bytes \<Rightarrow> bytes" where
  "write_at xs off ys =
     (if ys = [] then xs
      else take off (xs @ replicate (off - length xs) zero_byte) @ ys @ drop (off + length ys) xs)"

definition WriteAt :: "bytes \<Rightarrow> bytes \<Rightarrow> int \<Rightarrow> bytes io" where
  "WriteAt content data off =
     (if off < 0 then Inl NegativeOffset else Inr (write_at content (nat off) data))"

text \<open>ReadAt of \<open>n\<close> bytes fails with EOF when the file ends before them.\<close>

definition ReadAt :: "bytes \<Rightarrow> nat \<Rightarrow> int \<Rightarrow> bytes io" where
  "ReadAt content n off =
     (if off < 0 then Inl NegativeOffset
      else if n > 0 \<and> length content < nat off + n then Inl UnexpectedEOF
      else Inr (take n (drop (nat off) content)))"

lemma length_write_at:
  "length (write_at xs off ys) = (if ys = [] then length xs else max (length xs) (off + length ys))"
  by (auto simp: write_at_def)

lemma nth_write_at_in:
  "off \<le> k \<Longrightarrow> k < off + length ys \<Longrightarrow> write_at xs off ys ! k = ys ! (k - off)"
proof -
  assume k: "off \<le> k" "k < off + length ys"
  have "min (length xs) off + (off - length xs) = off" by simp
  then show ?thesis using k by (auto simp: write_at_def nth_append min.commute)
qed

lemma nth_write_at_out:
  "k < length xs \<Longrightarrow> k < off \<or> off + length ys \<le> k \<Longrightarrow> write_at xs off ys ! k = xs ! k"
  by (auto simp: write_at_def nth_append min_def)

section \<open>internal/node/file.go\<close>

definition HashFile :: "(bytes \<Rightarrow> bytes) \<Rightarrow> bytes io \<Rightarrow> string io" where
  "HashFile sha256 r = (case r of Inl e \<Rightarrow> Inl e | Inr content \<Rightarrow> Inr (hex (sha256 content)))"

definition CalculateTotalChunks :: "int \<Rightarrow> int \<Rightarrow> int" where
  "CalculateTotalChunks fileSize chunkSize =
     (if chunkSize \<le> 0 then 0 else go_div (int64 (fileSize + chunkSize - 1)) chunkSize)"

definition ExtractFileName :: "string \<Rightarrow> string" where
  "ExtractFileName path =
     (let parts = split_on (CHR ''/'') path
      in if parts = [] then path else parts ! (length parts - 1))"

definition BuildDownloadPath :: "string \<Rightarrow> string \<Rightarrow> string" where
  "BuildDownloadPath ipcIndex fileName = ''downloads/daemon-'' @ ipcIndex @ ''/'' @ fileName"

definition BuildTCPAddress :: "string \<Rightarrow> string" where
  "BuildTCPAddress index = ''127.0.0.1:707'' @ index"

text \<open>utils.GenerateHash\<close>

definition GenerateHash :: "(bytes \<Rightarrow> bytes) \<Rightarrow> bytes \<Rightarrow> string" where
  "GenerateHash sha256 data = hex (sha256 data)"

lemma ExtractFileName_no_slash: "CHR ''/'' \<notin> set (ExtractFileName path)"
  using split_on_sep_free [of "last (split_on (CHR ''/'') path)" "CHR ''/''" path]
  by (simp add: ExtractFileName_def Let_def last_conv_nth)

text \<open>The number of chunks covers the file and wastes none, when the sum does not overflow.\<close>

lemma CalculateTotalChunks_div:
  assumes "0 \<le> s" "0 < m" "s + m - 1 < 2 ^ 63"
  shows "CalculateTotalChunks s m = (s + m - 1) div m"
  using assms by (simp add: CalculateTotalChunks_def int64_id go_div_nonneg)

lemma CalculateTotalChunks_cover:
  assumes "0 \<le> s" "0 < m" "s + m - 1 < 2 ^ 63"
  shows "s \<le> CalculateTotalChunks s m * m \<and> CalculateTotalChunks s m * m < s + m"
proof -
  let ?q = "(s + m - 1) div m"
  have "?q * m = s + m - 1 - (s + m - 1) mod m" by (simp add: minus_mod_eq_div_mult)
  moreover have "0 \<le> (s + m - 1) mod m" "(s + m - 1) mod m < m" using assms(2) by simp_all
  ultimately have "s \<le> ?q * m \<and> ?q * m < s + m" by linarith
  then show ?thesis by (simp add: CalculateTotalChunks_div [OF assms])
qed

section \<open>CreatePreallocatedFile\<close>

text \<open>Seek to the last byte and write one zero: the file has the given size, all zeros.\<close>

definition preallocate :: "int \<Rightarrow> bytes" where
  "preallocate sz = (if sz > 0 then write_at [] (nat (sz - 1)) [zero_byte] else [])"

lemma preallocate_zeros: "preallocate sz = replicate (nat sz) zero_byte"
proof (cases "sz > 0")
  case True
  then have "nat sz = Suc (nat (sz - 1))" by simp
  then show ?thesis using True by (simp add: preallocate_def write_at_def replicate_append_same)
qed (simp add: preallocate_def)

section \<open>Calls into the operating system\<close>

text \<open>
  A file call either fails, leaving the files as they are, or acts. Which calls fail is
  the environment's choice, the schedule; when it is used up every call acts.
\<close>

record osys =
  fs_of :: filesys
  io_sched :: "bool list"

definition next_fault :: "osys \<Rightarrow> bool \<times> osys" where
  "next_fault s = (case io_sched s of [] \<Rightarrow> (False, s) | b # bs \<Rightarrow> (b, s\<lparr>io_sched := bs\<rparr>))"

definition os_call :: "(filesys \<Rightarrow> 'a io \<times> filesys) \<Rightarrow> osys \<Rightarrow> 'a io \<times> osys" where
  "os_call f s =
     (case next_fault s of
        (True, s') \<Rightarrow> (Inl IOFault, s')
      | (False, s') \<Rightarrow> (case f (fs_of s') of (r, fs) \<Rightarrow> (r, s'\<lparr>fs_of := fs\<rparr>)))"

definition os_Open :: "string \<Rightarrow> osys \<Rightarrow> bytes io \<times> osys" where
  "os_Open path =
     os_call (\<lambda>fs. (case fs path of None \<Rightarrow> Inl NotExist | Some c \<Rightarrow> Inr c, fs))"

definition os_Create :: "string \<Rightarrow> osys \<Rightarrow> unit io \<times> osys" where
  "os_Create path = os_call (\<lambda>fs. (Inr (), fs(path \<mapsto> [])))"

text \<open>A sequential write to a file that was just created goes to its end.\<close>

definition os_Append :: "string \<Rightarrow> bytes \<Rightarrow> osys \<Rightarrow> unit io \<times> osys" where
  "os_Append path data =
     os_call (\<lambda>fs. (case fs path of None \<Rightarrow> (Inl NotExist, fs)
                    | Some c \<Rightarrow> (Inr (), fs(path \<mapsto> c @ data))))"

text \<open>Make a directory: no file content changes.\<close>

definition os_MkdirAll :: "string \<Rightarrow> osys \<Rightarrow> unit io \<times> osys" where
  "os_MkdirAll path = os_call (\<lambda>fs. (Inr (), fs))"

definition os_SetContent :: "string \<Rightarrow> bytes \<Rightarrow> osys \<Rightarrow> unit io \<times> osys" where
  "os_SetContent path data = os_call (\<lambda>fs. (Inr (), fs(path \<mapsto> data)))"

text \<open>internal/node/download.go: create, then seek and write one byte when the size is positive.\<close>

definition CreatePreallocatedFile :: "string \<Rightarrow> int \<Rightarrow> osys \<Rightarrow> unit io \<times> osys" where
  "CreatePreallocatedFile path sz s =
     (case os_Create path s of
        (Inl e, s1) \<Rightarrow> (Inl e, s1)
      | (Inr u, s1) \<Rightarrow>
          if sz > 0
          then (case os_call (\<lambda>fs. (Inr (), fs)) s1 of
                  (Inl e, s2) \<Rightarrow> (Inl e, s2)
                | (Inr v, s2) \<Rightarrow> os_SetContent path (write_at [] (nat (sz - 1)) [zero_byte]) s2)
          else (Inr (), s1))"

lemma os_call_result:
  assumes "os_call f s = (r, s')"
  shows "r = Inl IOFault \<and> fs_of s' = fs_of s \<or>
    r = fst (f (fs_of s)) \<and> fs_of s' = snd (f (fs_of s))"
proof (cases "next_fault s")
  case (Pair b s1)
  then have "fs_of s1 = fs_of s" by (auto simp: next_fault_def split: list.splits)
  then show ?thesis using assms Pair by (auto simp: os_call_def split: bool.splits prod.splits)
qed

lemma os_Open_result:
  "os_Open path s = (r, s') \<Longrightarrow> fs_of s' = fs_of s \<and>
     (r = Inl IOFault \<or> r = (case fs_of s path of None \<Rightarrow> Inl NotExist | Some c \<Rightarrow> Inr c))"
  unfolding os_Open_def by (drule os_call_result) auto

lemma os_Create_result:
  "os_Create path s = (r, s') \<Longrightarrow>
     r = Inl IOFault \<and> fs_of s' = fs_of s \<or> r = Inr () \<and> fs_of s' = (fs_of s)(path \<mapsto> [])"
  unfolding os_Create_def by (drule os_call_result) auto

lemma os_Append_ok:
  "os_Append path d s = (Inr u, s') \<Longrightarrow> \<exists>c. fs_of s path = Some c \<and> fs_of s' = (fs_of s)(path \<mapsto> c @ d)"
  unfolding os_Append_def by (drule os_call_result) (auto split: option.splits)

lemma os_SetContent_result:
  "os_SetContent path d s = (r, s') \<Longrightarrow>
     r = Inl IOFault \<and> fs_of s' = fs_of s \<or> r = Inr () \<and> fs_of s' = (fs_of s)(path \<mapsto> d)"
  unfolding os_SetContent_def by (drule os_call_result) auto

lemma os_MkdirAll_result: "os_MkdirAll path s = (r, s') \<Longrightarrow> fs_of s' = fs_of s"
  unfolding os_MkdirAll_def by (drule os_call_result) auto

lemma CreatePreallocatedFile_ok:
  assumes "CreatePreallocatedFile path sz s = (Inr u, s')"
  shows "fs_of s' = (fs_of s)(path \<mapsto> replicate (nat sz) zero_byte)"
proof -
  obtain r1 s1 where c: "os_Create path s = (r1, s1)" by (cases "os_Create path s")
  then have r1: "r1 = Inr ()" using assms by (cases r1) (auto simp: CreatePreallocatedFile_def)
  then have s1: "fs_of s1 = (fs_of s)(path \<mapsto> [])" using os_Create_result [OF c] by simp
  show ?thesis
  proof (cases "sz > 0")
    case False
    then show ?thesis using assms c r1 s1 by (simp add: CreatePreallocatedFile_def)
  next
    case True
    obtain r2 s2 where k: "os_call (\<lambda>fs. (Inr () :: unit io, fs)) s1 = (r2, s2)"
      by (cases "os_call (\<lambda>fs. (Inr () :: unit io, fs)) s1")
    have s2: "fs_of s2 = fs_of s1" using os_call_result [OF k] by auto
    have w: "os_SetContent path (write_at [] (nat (sz - 1)) [zero_byte]) s2 = (Inr u, s')"
      using assms True c r1 k by (auto simp: CreatePreallocatedFile_def split: sum.splits)
    show ?thesis using os_SetContent_result [OF w] s1 s2 True preallocate_zeros [of sz]
      by (simp add: preallocate_def)
  qed
qed

end
