(* ===== verification/Chunks.thy ===== *)
theory Chunks
  imports FileSys Store
begin

text \<open>
  The pure part of internal/node/chunk.go: chunk maps, the search for a missing chunk,
  the completion test, and reading and writing one chunk of a file; with the facts that
  make a download correct: chunks tile the file, a chunk read is the tile, and writing
  every tile, in any order, rebuilds the file.
\<close>

section \<open>Chunk maps\<close>

fun set_available_chunks :: "int \<Rightarrow> chunk_row list \<Rightarrow> int list \<Rightarrow> int list res" where
  "set_available_chunks tot [] result = Inr result"
| "set_available_chunks tot (c # cs) result =
     (if c_IsAvailable c = 1 \<and> c_ChunkIndex c < tot
      then (case slice_set result (c_ChunkIndex c) 1 of
              Inl e \<Rightarrow> Inl e
            | Inr result' \<Rightarrow> set_available_chunks tot cs result')
      else set_available_chunks tot cs result)"

definition BuildChunkMap :: "int \<Rightarrow> chunk_row list \<Rightarrow> int list res" where
  "BuildChunkMap totalChunks cs =
     (case make_slice totalChunks 0 of
        Inl e \<Rightarrow> Inl e
      | Inr result \<Rightarrow> set_available_chunks totalChunks cs result)"

fun find_missing_from :: "int \<Rightarrow> chunk_row list \<Rightarrow> int" where
  "find_missing_from i [] = -1"
| "find_missing_from i (c # cs) =
     (if c_IsAvailable c \<noteq> 1 then int32 i else find_missing_from (i + 1) cs)"

definition FindMissingChunkIndex :: "chunk_row list \<Rightarrow> int" where
  "FindMissingChunkIndex cs = find_missing_from 0 cs"

fun IsDownloadComplete :: "chunk_row list \<Rightarrow> bool" where
  "IsDownloadComplete [] = True"
| "IsDownloadComplete (c # cs) = (if c_IsAvailable c \<noteq> 1 then False else IsDownloadComplete cs)"

section \<open>One chunk of a file\<close>

definition ReadChunkData :: "bytes \<Rightarrow> int \<Rightarrow> int \<Rightarrow> int \<Rightarrow> bytes io res" where
  "ReadChunkData r chunkIndex chunkSize maxChunkSize =
     (let offset = int64 (chunkIndex * maxChunkSize)
      in (case make_slice chunkSize zero_byte of
            Inl e \<Rightarrow> Inl e
          | Inr data \<Rightarrow> Inr (ReadAt r (length data) offset)))"

definition WriteChunkData :: "bytes \<Rightarrow> int \<Rightarrow> int \<Rightarrow> bytes \<Rightarrow> bytes io" where
  "WriteChunkData w chunkIndex maxChunkSize data =
     (let offset = int64 (chunkIndex * maxChunkSize) in WriteAt w data offset)"

section \<open>Facts about chunk maps\<close>

lemma set_available_chunks_ok:
  assumes "\<forall>c \<in> set cs. c_IsAvailable c = 1 \<longrightarrow> 0 \<le> c_ChunkIndex c" "length result = nat tot"
  shows "\<exists>m. set_available_chunks tot cs result = Inr m \<and> length m = nat tot \<and>
    (\<forall>i < nat tot. m ! i =
       (if \<exists>c \<in> set cs. c_IsAvailable c = 1 \<and> c_ChunkIndex c = int i then 1 else result ! i))"
  using assms
proof (induction cs arbitrary: result)
  case (Cons c cs)
  show ?case
  proof (cases "c_IsAvailable c = 1 \<and> c_ChunkIndex c < tot")
    case True
    let ?r = "result[nat (c_ChunkIndex c) := 1]"
    have s: "slice_set result (c_ChunkIndex c) 1 = Inr ?r" using True Cons.prems by (auto simp: slice_set_ok)
    obtain m where m: "set_available_chunks tot cs ?r = Inr m" "length m = nat tot"
      "\<forall>i < nat tot. m ! i =
         (if \<exists>c \<in> set cs. c_IsAvailable c = 1 \<and> c_ChunkIndex c = int i then 1 else ?r ! i)"
      using Cons.IH [of ?r] Cons.prems by auto
    have "\<forall>i < nat tot. m ! i =
        (if \<exists>k \<in> set (c # cs). c_IsAvailable k = 1 \<and> c_ChunkIndex k = int i then 1 else result ! i)"
      using m(3) True Cons.prems by (auto simp: nth_list_update)
    then show ?thesis using True s m(1,2) by simp
  next
    case False
    obtain m where m: "set_available_chunks tot cs result = Inr m" "length m = nat tot"
      "\<forall>i < nat tot. m ! i =
         (if \<exists>c \<in> set cs. c_IsAvailable c = 1 \<and> c_ChunkIndex c = int i then 1 else result ! i)"
      using Cons.IH [of result] Cons.prems by auto
    have "\<forall>i < nat tot. m ! i =
        (if \<exists>k \<in> set (c # cs). c_IsAvailable k = 1 \<and> c_ChunkIndex k = int i then 1 else result ! i)"
      using m(3) False by auto
    moreover have "set_available_chunks tot (c # cs) result = Inr m" using False m(1) by auto
    ultimately show ?thesis using m(2) by blast
  qed
qed simp

lemma BuildChunkMap_ok:
  assumes "0 \<le> tot" "\<forall>c \<in> set cs. c_IsAvailable c = 1 \<longrightarrow> 0 \<le> c_ChunkIndex c"
  shows "\<exists>m. BuildChunkMap tot cs = Inr m \<and> int (length m) = tot \<and>
    (\<forall>i < length m. m ! i = (if \<exists>c \<in> set cs. c_IsAvailable c = 1 \<and> c_ChunkIndex c = int i then 1 else 0))"
proof -
  have "make_slice tot (0 :: int) = Inr (replicate (nat tot) 0)" using assms(1) by (simp add: make_slice_ok)
  then show ?thesis
    using set_available_chunks_ok [OF assms(2), of "replicate (nat tot) 0" tot] assms(1)
    by (auto simp: BuildChunkMap_def)
qed

lemma find_missing_from_pos:
  assumes "find_missing_from i cs = k" "k \<noteq> -1" "0 \<le> i" "i + int (length cs) \<le> 2 ^ 31"
  shows "i \<le> k \<and> k < i + int (length cs) \<and> c_IsAvailable (cs ! nat (k - i)) \<noteq> 1 \<and>
    (\<forall>j < nat (k - i). c_IsAvailable (cs ! j) = 1)"
  using assms
proof (induction i cs rule: find_missing_from.induct)
  case (2 i c cs)
  show ?case
  proof (cases "c_IsAvailable c \<noteq> 1")
    case True
    then show ?thesis using 2 by (simp add: int32_id)
  next
    case False
    then have "i + 1 \<le> k \<and> k < i + 1 + int (length cs) \<and> c_IsAvailable (cs ! nat (k - (i + 1))) \<noteq> 1 \<and>
        (\<forall>j < nat (k - (i + 1)). c_IsAvailable (cs ! j) = 1)"
      using 2 by simp
    moreover from this have "nat (k - i) = Suc (nat (k - (i + 1)))" by (elim conjE) arith
    ultimately show ?thesis using False by (auto simp: less_Suc_eq_0_disj)
  qed
qed simp

lemma find_missing_from_none:
  assumes "0 \<le> i" "i + int (length cs) \<le> 2 ^ 31"
  shows "find_missing_from i cs = -1 \<longleftrightarrow> (\<forall>c \<in> set cs. c_IsAvailable c = 1)"
  using assms by (induction i cs rule: find_missing_from.induct) (auto simp: int32_id)

lemma IsDownloadComplete_iff: "IsDownloadComplete cs \<longleftrightarrow> (\<forall>c \<in> set cs. c_IsAvailable c = 1)"
  by (induction cs) auto

lemma IsDownloadComplete_missing: "IsDownloadComplete cs \<longleftrightarrow> missing cs = 0"
  by (induction cs) auto

section \<open>Chunks tile the file\<close>

function split_chunks :: "nat \<Rightarrow> bytes \<Rightarrow> bytes list" where
  "split_chunks m xs = (if m = 0 \<or> xs = [] then [] else take m xs # split_chunks m (drop m xs))"
  by pat_completeness auto
termination by (relation "measure (\<lambda>(m, xs). length xs)") auto

declare split_chunks.simps [simp del]

lemma split_chunks_Nil [simp]: "split_chunks m [] = []"
  by (simp add: split_chunks.simps)

lemma split_chunks_step: "0 < m \<Longrightarrow> xs \<noteq> [] \<Longrightarrow> split_chunks m xs = take m xs # split_chunks m (drop m xs)"
  by (subst split_chunks.simps) simp

lemma concat_split_chunks: "0 < m \<Longrightarrow> concat (split_chunks m xs) = xs"
proof (induction m xs rule: split_chunks.induct)
  case (1 m xs)
  then show ?case by (cases "xs = []") (simp_all add: split_chunks_step)
qed

lemma ceil_step:
  assumes "0 < m" "0 < (n :: nat)"
  shows "(n + m - 1) div m = Suc ((n - m + m - 1) div m)"
proof (cases "n \<le> m")
  case True
  have eq: "n + m - 1 = (n - 1) + m" using assms(2) by linarith
  have "(n + m - 1) div m = (n - 1) div m + 1"
    unfolding eq using assms(1) by (intro div_add_self2) simp
  also have "\<dots> = Suc 0" using assms True by simp
  finally show ?thesis using assms(1) True by simp
next
  case False
  then have eq: "n + m - 1 = n - m + m - 1 + m" by linarith
  have "(n + m - 1) div m = (n - m + m - 1) div m + 1"
    unfolding eq using assms(1) by (intro div_add_self2) simp
  then show ?thesis by simp
qed

lemma length_split_chunks: "0 < m \<Longrightarrow> length (split_chunks m xs) = (length xs + m - 1) div m"
proof (induction m xs rule: split_chunks.induct)
  case (1 m xs)
  show ?case
  proof (cases "xs = []")
    case False
    then have "length (split_chunks m (drop m xs)) = (length (drop m xs) + m - 1) div m"
      using 1 by simp
    moreover have "(length xs + m - 1) div m = Suc ((length xs - m + m - 1) div m)"
      using ceil_step [of m "length xs"] 1(2) False by simp
    ultimately show ?thesis using False 1(2) by (simp add: split_chunks_step)
  qed (use 1 in simp)
qed

lemma nth_split_chunks:
  "0 < m \<Longrightarrow> i < length (split_chunks m xs) \<Longrightarrow> split_chunks m xs ! i = take m (drop (i * m) xs)"
proof (induction m xs arbitrary: i rule: split_chunks.induct)
  case (1 m xs)
  show ?case
  proof (cases "xs = []")
    case False
    then show ?thesis using 1
      by (cases i) (simp_all add: split_chunks_step add.commute)
  qed (use 1 in simp)
qed

lemma chunk_start: "0 < m \<Longrightarrow> i < length (split_chunks m xs) \<longleftrightarrow> i * m < length xs"
proof -
  assume m: "0 < m"
  have "i < (length xs + m - 1) div m \<longleftrightarrow> Suc i * m \<le> length xs + m - 1"
    using m by (simp add: less_eq_div_iff_mult_less_eq flip: Suc_le_eq)
  then show ?thesis using m by (auto simp: length_split_chunks)
qed

lemma split_chunks_total:
  assumes "0 < m" "int (length xs) + int m - 1 < 2 ^ 63"
  shows "int (length (split_chunks m xs)) = CalculateTotalChunks (int (length xs)) (int m)"
  using assms by (simp add: CalculateTotalChunks_div length_split_chunks zdiv_int of_nat_diff)

section \<open>Reading and writing a tile\<close>

lemma int64_offset:
  assumes "i * m < n" "int n < 2 ^ 63"
  shows "int64 (int i * int m) = int (i * m)"
proof -
  have "int64 (int (i * m)) = int (i * m)" by (rule int64_id) (use assms in linarith)+
  then show ?thesis by simp
qed

lemma ReadChunkData_tile:
  assumes "0 < m" "i < length (split_chunks m xs)" "int (length xs) < 2 ^ 63"
  shows "ReadChunkData xs (int i) (int (length (split_chunks m xs ! i))) (int m)
    = Inr (Inr (split_chunks m xs ! i))"
proof -
  have lt: "i * m < length xs" using chunk_start assms by blast
  then have o: "int64 (int i * int m) = int (i * m)" using int64_offset assms(3) by blast
  have "nat (int (i * m)) = i * m" by (rule nat_int)
  moreover have "take (min (length xs - i * m) m) (drop (i * m) xs) = take m (drop (i * m) xs)"
    by (cases "m \<le> length xs - i * m") (simp_all add: min_def)
  ultimately show ?thesis using lt assms nth_split_chunks [OF assms(1,2)]
    by (auto simp: ReadChunkData_def ReadAt_def o make_slice_def Let_def simp del: of_nat_mult)
qed

text \<open>What has been written so far agrees with the file, and nothing extends past its end.\<close>

definition agrees_on :: "nat \<Rightarrow> bytes \<Rightarrow> nat set \<Rightarrow> bytes \<Rightarrow> bool" where
  "agrees_on m xs S content \<longleftrightarrow>
     length content \<le> length xs \<and>
     (\<forall>i \<in> S. \<forall>k. i * m \<le> k \<longrightarrow> k < (i + 1) * m \<longrightarrow> k < length xs \<longrightarrow>
        k < length content \<and> content ! k = xs ! k)"

definition tile :: "nat \<Rightarrow> bytes \<Rightarrow> nat \<Rightarrow> bytes" where
  "tile m xs i = take m (drop (i * m) xs)"

lemma write_tile_agrees:
  assumes m: "0 < m" and ag: "agrees_on m xs S content" and i: "i * m < length xs"
  shows "agrees_on m xs (insert i S) (write_at content (i * m) (tile m xs i))"
proof -
  let ?t = "tile m xs i" and ?w = "write_at content (i * m) (tile m xs i)"
  have t: "?t \<noteq> []" "length ?t = min m (length xs - i * m)" using m i by (auto simp: tile_def)
  have le: "length ?w \<le> length xs" using ag t i by (auto simp: length_write_at agrees_on_def)
  have "k < length ?w \<and> ?w ! k = xs ! k"
    if j: "j \<in> insert i S" "j * m \<le> k" "k < (j + 1) * m" "k < length xs" for j k
  proof (cases "i * m \<le> k \<and> k < i * m + length ?t")
    case True
    then have "?w ! k = ?t ! (k - i * m)" by (simp add: nth_write_at_in)
    also have "\<dots> = drop (i * m) xs ! (k - i * m)" using True t(2) unfolding tile_def
      by (intro nth_take) linarith
    also have "\<dots> = xs ! k" using True i by simp
    finally show ?thesis using True t(1) by (simp add: length_write_at less_max_iff_disj)
  next
    case False
    then have "j \<noteq> i" using j(2-4) t(2) by (auto simp: algebra_simps)
    then have c: "k < length content" "content ! k = xs ! k"
      using ag j unfolding agrees_on_def by blast+
    then show ?thesis using False by (auto simp: nth_write_at_out length_write_at not_le)
  qed
  then show ?thesis using le unfolding agrees_on_def by blast
qed

fun write_tiles :: "nat \<Rightarrow> bytes \<Rightarrow> nat list \<Rightarrow> bytes \<Rightarrow> bytes" where
  "write_tiles m xs [] content = content"
| "write_tiles m xs (i # ks) content = write_tiles m xs ks (write_at content (i * m) (tile m xs i))"

lemma write_tiles_agrees:
  "0 < m \<Longrightarrow> agrees_on m xs S content \<Longrightarrow> \<forall>i \<in> set ks. i * m < length xs \<Longrightarrow>
   agrees_on m xs (S \<union> set ks) (write_tiles m xs ks content)"
proof (induction ks arbitrary: S content)
  case (Cons i ks)
  then show ?case using write_tile_agrees [of m xs S content i] by fastforce
qed simp

lemma agrees_on_all:
  assumes "0 < m" "agrees_on m xs S content" "\<forall>i. i * m < length xs \<longrightarrow> i \<in> S"
  shows "content = xs"
proof -
  have at: "k < length content \<and> content ! k = xs ! k" if k: "k < length xs" for k
  proof -
    have "k div m * m \<le> k" "k < (k div m + 1) * m"
      using assms(1) dividend_less_div_times [of m k] by simp_all
    moreover from this have "k div m \<in> S" using assms(3) k by (meson le_less_trans)
    ultimately show ?thesis using assms(2) k unfolding agrees_on_def by blast
  qed
  have "length content = length xs"
    using at assms(2) unfolding agrees_on_def by (metis le_neq_implies_less nat_neq_iff)
  then show ?thesis using at by (simp add: nth_equalityI)
qed

lemma reassemble:
  assumes "0 < m" "length start \<le> length xs" "set ks = {i. i * m < length xs}"
  shows "write_tiles m xs ks start = xs"
proof -
  have "agrees_on m xs {} start" using assms(2) by (simp add: agrees_on_def)
  then have "agrees_on m xs (set ks) (write_tiles m xs ks start)"
    using write_tiles_agrees [of m xs "{}" start ks] assms by simp
  then show ?thesis by (rule agrees_on_all [OF assms(1)]) (simp add: assms(3))
qed

lemma WriteChunkData_tile:
  assumes "i * m < length xs" "int (length xs) < 2 ^ 63"
  shows "WriteChunkData content (int i) (int m) (tile m xs i) = Inr (write_at content (i * m) (tile m xs i))"
proof -
  note o = int64_offset [OF assms]
  have "nat (int (i * m)) = i * m" by (rule nat_int)
  then show ?thesis by (simp add: WriteChunkData_def WriteAt_def o Let_def del: of_nat_mult)
qed

section \<open>Properties of chunks\<close>

text \<open>For a total that is not negative and available rows with non-negative indices, the chunk map
  has one entry per chunk, 1 exactly where some row of that index is available; it never panics.\<close>

theorem chunk_map_correct:
  assumes "0 \<le> tot" "\<forall>c \<in> set cs. c_IsAvailable c = 1 \<longrightarrow> 0 \<le> c_ChunkIndex c"
  shows "\<exists>m. BuildChunkMap tot cs = Inr m \<and> int (length m) = tot \<and>
    (\<forall>i < length m. m ! i = (if \<exists>c \<in> set cs. c_IsAvailable c = 1 \<and> c_ChunkIndex c = int i then 1 else 0))"
  using BuildChunkMap_ok [OF assms] .

definition sample_row :: "int \<Rightarrow> int \<Rightarrow> chunk_row" where
  "sample_row i a = \<lparr>c_ID = i + 1, c_FileID = 1, c_ChunkIndex = i, c_ChunkSize = 4, c_ChunkHash = ''x'', c_IsAvailable = a\<rparr>"

theorem chunk_map_correct_witness:
  "BuildChunkMap 3 [sample_row 0 1, sample_row 2 1, sample_row 7 1] = Inr [1, 0, 1] \<and>
   (\<exists>m. BuildChunkMap 3 [sample_row 0 1, sample_row 2 1, sample_row 7 1] = Inr m \<and> int (length m) = 3)"
proof
  show "BuildChunkMap 3 [sample_row 0 1, sample_row 2 1, sample_row 7 1] = Inr [1, 0, 1]" by code_simp
  show "\<exists>m. BuildChunkMap 3 [sample_row 0 1, sample_row 2 1, sample_row 7 1] = Inr m \<and> int (length m) = 3"
    using chunk_map_correct [of 3 "[sample_row 0 1, sample_row 2 1, sample_row 7 1]"] by (force simp: sample_row_def)
qed

text \<open>The search for a missing chunk answers -1 exactly when the download is complete, and
  otherwise the position of the first row that is not available.\<close>

theorem find_missing_correct:
  assumes "length cs \<le> 2 ^ 31"
  shows "(FindMissingChunkIndex cs = -1 \<longleftrightarrow> IsDownloadComplete cs) \<and>
    (\<not> IsDownloadComplete cs \<longrightarrow>
       (\<exists>k < length cs. FindMissingChunkIndex cs = int k \<and> c_IsAvailable (cs ! k) \<noteq> 1 \<and>
          (\<forall>j < k. c_IsAvailable (cs ! j) = 1)))"
proof -
  let ?k = "find_missing_from 0 cs"
  have b: "0 + int (length cs) \<le> 2 ^ 31" using assms by simp
  have none: "?k = -1 \<longleftrightarrow> IsDownloadComplete cs"
    using find_missing_from_none [OF _ b] by (simp add: IsDownloadComplete_iff)
  moreover have "\<exists>k < length cs. ?k = int k \<and> c_IsAvailable (cs ! k) \<noteq> 1 \<and> (\<forall>j < k. c_IsAvailable (cs ! j) = 1)"
    if "\<not> IsDownloadComplete cs"
    using find_missing_from_pos [OF refl _ _ b] none that
    by (intro exI [of _ "nat ?k"]) auto
  ultimately show ?thesis by (simp add: FindMissingChunkIndex_def)
qed

theorem find_missing_correct_witness:
  "FindMissingChunkIndex [sample_row 0 1, sample_row 1 0, sample_row 2 0] = 1 \<and>
   (FindMissingChunkIndex [sample_row 0 1, sample_row 1 1] = -1 \<longleftrightarrow> IsDownloadComplete [sample_row 0 1, sample_row 1 1])"
proof
  show "FindMissingChunkIndex [sample_row 0 1, sample_row 1 0, sample_row 2 0] = 1" by code_simp
  show "FindMissingChunkIndex [sample_row 0 1, sample_row 1 1] = -1 \<longleftrightarrow> IsDownloadComplete [sample_row 0 1, sample_row 1 1]"
    using find_missing_correct [of "[sample_row 0 1, sample_row 1 1]"] by simp
qed

text \<open>When the rows of a file carry the indices 0, 1, 2, ... in order, as registration and a
  complete .p2p file create them, the answer is the index of a chunk that is really missing.\<close>

theorem find_missing_index:
  assumes "map c_ChunkIndex cs = map int [0..<length cs]" "length cs \<le> 2 ^ 31"
    and "FindMissingChunkIndex cs \<noteq> -1"
  shows "\<exists>c \<in> set cs. c_ChunkIndex c = FindMissingChunkIndex cs \<and> c_IsAvailable c \<noteq> 1"
proof -
  let ?k = "FindMissingChunkIndex cs"
  have k: "0 \<le> ?k" "?k < int (length cs)" "c_IsAvailable (cs ! nat ?k) \<noteq> 1"
    using find_missing_from_pos [of 0 cs ?k] assms by (simp_all add: FindMissingChunkIndex_def)
  then have lt: "nat ?k < length cs" by simp
  then have "c_ChunkIndex (cs ! nat ?k) = map c_ChunkIndex cs ! nat ?k" by simp
  also have "\<dots> = int (nat ?k)" using lt by (simp only: assms(1)) simp
  finally show ?thesis using k lt by (intro bexI [of _ "cs ! nat ?k"]) auto
qed

theorem find_missing_index_witness:
  "\<exists>c \<in> set [sample_row 0 1, sample_row 1 0]. c_ChunkIndex c = FindMissingChunkIndex [sample_row 0 1, sample_row 1 0] \<and> c_IsAvailable c \<noteq> 1"
  by (rule find_missing_index) (simp_all add: sample_row_def FindMissingChunkIndex_def int32_id)

text \<open>Reading the chunks of a file one by one, each at its index with its own size, gives
  consecutive pieces whose concatenation is the file, and their number is the total the program
  computes from the file's size.\<close>

theorem chunks_read_back_the_file:
  assumes "0 < m" "int (length xs) + int m - 1 < 2 ^ 63"
  shows "\<exists>ps. (\<forall>i < length ps. ReadChunkData xs (int i) (int (length (ps ! i))) (int m) = Inr (Inr (ps ! i))) \<and>
    concat ps = xs \<and> int (length ps) = CalculateTotalChunks (int (length xs)) (int m) \<and>
    (\<forall>p \<in> set ps. length p \<le> m)"
proof (intro exI conjI)
  let ?ps = "split_chunks m xs"
  show "\<forall>i < length ?ps. ReadChunkData xs (int i) (int (length (?ps ! i))) (int m) = Inr (Inr (?ps ! i))"
    using ReadChunkData_tile [OF assms(1)] assms by simp
  show "concat ?ps = xs" by (rule concat_split_chunks [OF assms(1)])
  show "int (length ?ps) = CalculateTotalChunks (int (length xs)) (int m)" by (rule split_chunks_total [OF assms])
  show "\<forall>p \<in> set ?ps. length p \<le> m"
    using nth_split_chunks [OF assms(1)] by (auto simp: in_set_conv_nth)
qed

theorem chunks_read_back_the_file_witness:
  "\<exists>ps. concat ps = ''abcdefghij'' \<and> int (length ps) = CalculateTotalChunks 10 4 \<and>
     (\<forall>i < length ps. ReadChunkData ''abcdefghij'' (int i) (int (length (ps ! i))) 4 = Inr (Inr (ps ! i)))"
  using chunks_read_back_the_file [of 4 "''abcdefghij''"] by auto

fun write_chunks :: "int \<Rightarrow> (int \<times> bytes) list \<Rightarrow> bytes \<Rightarrow> bytes io" where
  "write_chunks m [] content = Inr content"
| "write_chunks m ((i, d) # ws) content =
     (case WriteChunkData content i m d of Inl e \<Rightarrow> Inl e | Inr content' \<Rightarrow> write_chunks m ws content')"

lemma write_chunks_tiles:
  "\<forall>i \<in> set ks. i * m < length xs \<Longrightarrow> int (length xs) < 2 ^ 63 \<Longrightarrow>
   write_chunks (int m) (map (\<lambda>i. (int i, tile m xs i)) ks) content = Inr (write_tiles m xs ks content)"
  by (induction ks arbitrary: content) (simp_all add: WriteChunkData_tile)

text \<open>C33: writing every chunk of a file at its offset, in any order and with repetitions, over
  content that is no longer than the file (such as the preallocated zeros) rebuilds the file.\<close>

theorem any_order_rebuilds_the_file:
  assumes "0 < m" "int (length xs) < 2 ^ 63" "length start \<le> length xs"
    and "set ks = {i. i * m < length xs}"
  shows "write_chunks (int m) (map (\<lambda>i. (int i, take m (drop (i * m) xs))) ks) start = Inr xs"
  using write_chunks_tiles [of ks m xs start] reassemble [OF assms(1,3,4)] assms(2,4)
  by (simp add: tile_def [abs_def])

theorem any_order_rebuilds_the_file_witness:
  "write_chunks 4 (map (\<lambda>i. (int i, take 4 (drop (i * 4) ''abcdefghij''))) [2, 0, 2, 1]) (preallocate 1) = Inr ''abcdefghij''"
proof -
  have "i < 3" if "i * 4 < (10 :: nat)" for i using that by simp
  then have "set [2, 0, 2, 1] = {i. i * 4 < length ''abcdefghij''}" by (auto; fastforce)
  then show ?thesis
    using any_order_rebuilds_the_file [of 4 "''abcdefghij''" "preallocate 1" "[2, 0, 2, 1]"]
    by (simp add: preallocate_zeros)
qed

end
