(* ===== verification/P2PFile.thy ===== *)
theory P2PFile
  imports FileSys
begin

text \<open>
  internal/parser/parser.go: the .p2p metadata file, written line by line and read back
  with bufio.Scanner and strings.Split.
\<close>

record ParserChunk =
  pc_ChunkHash :: string
  pc_ChunkIndex :: string
  pc_ChunkSize :: string

record ParserFile =
  pf_FileName :: string
  pf_FileHash :: string
  pf_FileSize :: string
  pf_MaxChunkSize :: string
  pf_TotalChunks :: string
  pf_Chunks :: "ParserChunk list"

abbreviation newline :: char where
  "newline \<equiv> CHR 0x0A"

abbreviation carriage_return :: char where
  "carriage_return \<equiv> CHR 0x0D"

section \<open>Writing\<close>

definition header_lines :: "ParserFile \<Rightarrow> string list" where
  "header_lines pf =
     [''fileName:'' @ pf_FileName pf,
      ''fileHash:'' @ pf_FileHash pf,
      ''fileSize:'' @ pf_FileSize pf,
      ''maxChunkSize:'' @ pf_MaxChunkSize pf,
      ''totalChunks:'' @ pf_TotalChunks pf]"

definition chunk_line :: "ParserChunk \<Rightarrow> string" where
  "chunk_line c = pc_ChunkIndex c @ '':'' @ pc_ChunkHash c @ ''|'' @ pc_ChunkSize c"

definition p2p_lines :: "ParserFile \<Rightarrow> string list" where
  "p2p_lines pf = header_lines pf @ map chunk_line (pf_Chunks pf)"

fun write_lines :: "string \<Rightarrow> string list \<Rightarrow> osys \<Rightarrow> unit io \<times> osys" where
  "write_lines path [] s = (Inr (), s)"
| "write_lines path (l # ls) s =
     (case os_Append path (l @ [newline]) s of
        (Inl e, s') \<Rightarrow> (Inl e, s')
      | (Inr u, s') \<Rightarrow> write_lines path ls s')"

definition GenerateP2PFile :: "ParserFile \<Rightarrow> string \<Rightarrow> osys \<Rightarrow> unit io \<times> osys" where
  "GenerateP2PFile pf path s =
     (case os_Create path s of
        (Inl e, s1) \<Rightarrow> (Inl e, s1)
      | (Inr u, s1) \<Rightarrow> write_lines path (p2p_lines pf) s1)"

section \<open>bufio.Scanner with ScanLines\<close>

text \<open>
  A line ends at a newline or at the end of the file; one trailing carriage return is
  dropped; a line that does not fit the 64 KiB buffer ends the scan, and the program does
  not ask the scanner for the error.
\<close>

definition drop_cr :: "string \<Rightarrow> string" where
  "drop_cr l = (if l \<noteq> [] \<and> last l = carriage_return then butlast l else l)"

definition max_token :: nat where
  "max_token = 64 * 1024"

definition raw_lines :: "string \<Rightarrow> string list" where
  "raw_lines s = (let ls = split_on newline s in if last ls = [] then butlast ls else ls)"

definition scan_lines :: "string \<Rightarrow> string list" where
  "scan_lines s = map drop_cr (takeWhile (\<lambda>l. length l < max_token) (raw_lines s))"

section \<open>Parsing\<close>

definition field :: "char \<Rightarrow> int \<Rightarrow> string \<Rightarrow> string res" where
  "field sep i line = slice_get (split_on sep line) i"

definition parse_chunk_line :: "string \<Rightarrow> ParserChunk res" where
  "parse_chunk_line line =
     (case field (CHR '':'') 0 line of Inl e \<Rightarrow> Inl e
      | Inr chunkIndex \<Rightarrow>
     (case field (CHR '':'') 1 line of Inl e \<Rightarrow> Inl e
      | Inr chunkData \<Rightarrow>
     (case field (CHR ''|'') 0 chunkData of Inl e \<Rightarrow> Inl e
      | Inr chunkHash \<Rightarrow>
     (case field (CHR ''|'') 1 chunkData of Inl e \<Rightarrow> Inl e
      | Inr chunkSize \<Rightarrow>
          Inr \<lparr>pc_ChunkHash = chunkHash, pc_ChunkIndex = chunkIndex, pc_ChunkSize = chunkSize\<rparr>))))"

definition parse_line :: "nat \<Rightarrow> string \<Rightarrow> ParserFile \<Rightarrow> ParserFile res" where
  "parse_line scanIndex line pf =
     (if scanIndex = 0 then map_sum id (\<lambda>v. pf\<lparr>pf_FileName := v\<rparr>) (field (CHR '':'') 1 line)
      else if scanIndex = 1 then map_sum id (\<lambda>v. pf\<lparr>pf_FileHash := v\<rparr>) (field (CHR '':'') 1 line)
      else if scanIndex = 2 then map_sum id (\<lambda>v. pf\<lparr>pf_FileSize := v\<rparr>) (field (CHR '':'') 1 line)
      else if scanIndex = 3 then map_sum id (\<lambda>v. pf\<lparr>pf_MaxChunkSize := v\<rparr>) (field (CHR '':'') 1 line)
      else if scanIndex = 4 then map_sum id (\<lambda>v. pf\<lparr>pf_TotalChunks := v\<rparr>) (field (CHR '':'') 1 line)
      else map_sum id (\<lambda>c. pf\<lparr>pf_Chunks := pf_Chunks pf @ [c]\<rparr>) (parse_chunk_line line))"

fun parse_lines :: "nat \<Rightarrow> string list \<Rightarrow> ParserFile \<Rightarrow> ParserFile res" where
  "parse_lines scanIndex [] pf = Inr pf"
| "parse_lines scanIndex (line # ls) pf =
     (case parse_line scanIndex line pf of
        Inl e \<Rightarrow> Inl e
      | Inr pf' \<Rightarrow> parse_lines (scanIndex + 1) ls pf')"

definition empty_parser_file :: ParserFile where
  "empty_parser_file = \<lparr>pf_FileName = [], pf_FileHash = [], pf_FileSize = [],
     pf_MaxChunkSize = [], pf_TotalChunks = [], pf_Chunks = []\<rparr>"

definition parse_p2p :: "string \<Rightarrow> ParserFile res" where
  "parse_p2p content = parse_lines 0 (scan_lines content) empty_parser_file"

definition ParseP2PFile :: "string \<Rightarrow> osys \<Rightarrow> ParserFile io res \<times> osys" where
  "ParseP2PFile path s =
     (case os_Open path s of
        (Inl e, s') \<Rightarrow> (Inr (Inl e), s')
      | (Inr content, s') \<Rightarrow> (map_sum id Inr (parse_p2p content), s'))"

section \<open>What is read back\<close>

definition p2p_text :: "string list \<Rightarrow> string" where
  "p2p_text ls = concat (map (\<lambda>l. l @ [newline]) ls)"

lemma write_lines_ok:
  "write_lines path ls s = (Inr u, s') \<Longrightarrow> fs_of s path = Some c \<Longrightarrow>
   fs_of s' = (fs_of s)(path \<mapsto> c @ p2p_text ls)"
proof (induction ls arbitrary: s c)
  case Nil
  then show ?case by (auto simp: p2p_text_def)
next
  case (Cons l ls)
  obtain r s1 where a: "os_Append path (l @ [newline]) s = (r, s1)"
    by (cases "os_Append path (l @ [newline]) s")
  then obtain v where r: "r = Inr v" and rest: "write_lines path ls s1 = (Inr u, s')"
    using Cons.prems(1) by (auto split: sum.splits)
  have s1: "fs_of s1 = (fs_of s)(path \<mapsto> c @ l @ [newline])"
    using os_Append_ok [OF a [unfolded r]] Cons.prems(2) by auto
  then have "fs_of s1 path = Some (c @ l @ [newline])" by simp
  then have "fs_of s' = (fs_of s1)(path \<mapsto> (c @ l @ [newline]) @ p2p_text ls)" by (rule Cons.IH [OF rest])
  then show ?case by (simp only: s1 fun_upd_upd) (simp add: p2p_text_def)
qed

lemma GenerateP2PFile_ok:
  assumes "GenerateP2PFile pf path s = (Inr u, s')"
  shows "fs_of s' = (fs_of s)(path \<mapsto> p2p_text (p2p_lines pf))"
proof -
  obtain r s1 where c: "os_Create path s = (r, s1)" by (cases "os_Create path s")
  then obtain v where r: "r = Inr v" and w: "write_lines path (p2p_lines pf) s1 = (Inr u, s')"
    using assms by (auto simp: GenerateP2PFile_def split: sum.splits)
  have "fs_of s1 = (fs_of s)(path \<mapsto> [])" using os_Create_result [OF c] r by simp
  then show ?thesis using write_lines_ok [OF w, of "[]"] by simp
qed

definition printable :: "string \<Rightarrow> bool" where
  "printable l \<longleftrightarrow> newline \<notin> set l \<and> carriage_return \<notin> set l"

lemma drop_cr_printable [simp]: "printable l \<Longrightarrow> drop_cr l = l"
  by (auto simp: drop_cr_def printable_def dest: last_in_set)

lemma split_text:
  "\<forall>l \<in> set ls. newline \<notin> set l \<Longrightarrow> split_on newline (p2p_text ls) = ls @ [[]]"
  by (induction ls) (auto simp: p2p_text_def)

lemma scan_text:
  assumes "\<forall>l \<in> set ls. printable l \<and> length l < max_token"
  shows "scan_lines (p2p_text ls) = ls"
proof -
  have "raw_lines (p2p_text ls) = ls"
    using assms split_text [of ls] by (simp add: raw_lines_def printable_def)
  moreover have "map drop_cr ls = ls" using assms by (simp add: map_idI)
  moreover have "takeWhile (\<lambda>l. length l < max_token) ls = ls"
    using assms by (auto simp: takeWhile_eq_all_conv)
  ultimately show ?thesis by (simp only: scan_lines_def)
qed

text \<open>A scan that meets an over-long line returns the lines before it.\<close>

lemma scan_text_long:
  assumes "\<forall>l \<in> set ls. printable l \<and> length l < max_token"
    and "newline \<notin> set long" "max_token \<le> length long" "\<forall>l \<in> set ls'. newline \<notin> set l"
  shows "scan_lines (p2p_text (ls @ long # ls')) = ls"
proof -
  have "\<forall>l \<in> set (ls @ long # ls'). newline \<notin> set l"
    using assms by (auto simp: printable_def)
  then have "raw_lines (p2p_text (ls @ long # ls')) = ls @ long # ls'"
    by (simp add: raw_lines_def split_text butlast_append)
  moreover have "takeWhile (\<lambda>l. length l < max_token) (ls @ long # ls') = ls"
    using assms by (simp add: takeWhile_append)
  moreover have "map drop_cr ls = ls" using assms by (simp add: map_idI)
  ultimately show ?thesis by (simp add: scan_lines_def)
qed

lemma field_1_key:
  assumes "CHR '':'' \<notin> set key"
  shows "field (CHR '':'') 1 (key @ CHR '':'' # v) = Inr (takeWhile (\<lambda>c. c \<noteq> CHR '':'') v)"
proof -
  obtain f fs where s: "split_on (CHR '':'') v = f # fs" by (cases "split_on (CHR '':'') v") auto
  then have "f = takeWhile (\<lambda>c. c \<noteq> CHR '':'') v" using hd_split_on [of "CHR '':''" v] by simp
  then show ?thesis using assms by (simp add: field_def slice_get_def s)
qed

definition upto_colon :: "string \<Rightarrow> string" where
  "upto_colon v = takeWhile (\<lambda>c. c \<noteq> CHR '':'') v"

lemma upto_colon_id [simp]: "CHR '':'' \<notin> set v \<Longrightarrow> upto_colon v = v"
  by (auto simp: upto_colon_def takeWhile_eq_all_conv)

definition clean_chunk :: "ParserChunk \<Rightarrow> bool" where
  "clean_chunk c \<longleftrightarrow>
     CHR '':'' \<notin> set (pc_ChunkIndex c) \<and>
     CHR '':'' \<notin> set (pc_ChunkHash c) \<and> CHR ''|'' \<notin> set (pc_ChunkHash c) \<and>
     CHR '':'' \<notin> set (pc_ChunkSize c) \<and> CHR ''|'' \<notin> set (pc_ChunkSize c)"

lemma parse_chunk_line_ok: "clean_chunk c \<Longrightarrow> parse_chunk_line (chunk_line c) = Inr c"
  by (simp add: clean_chunk_def parse_chunk_line_def chunk_line_def field_def slice_get_def)

lemma parse_chunk_lines:
  "\<forall>c \<in> set cs. clean_chunk c \<Longrightarrow> 5 \<le> i \<Longrightarrow>
   parse_lines i (map chunk_line cs) pf = Inr (pf\<lparr>pf_Chunks := pf_Chunks pf @ cs\<rparr>)"
  by (induction cs arbitrary: i pf) (simp_all add: parse_line_def parse_chunk_line_ok)

definition clean_lines :: "ParserFile \<Rightarrow> bool" where
  "clean_lines pf \<longleftrightarrow> (\<forall>l \<in> set (p2p_lines pf). printable l \<and> length l < max_token)"

definition cut_header :: "ParserFile \<Rightarrow> ParserFile" where
  "cut_header pf =
     \<lparr>pf_FileName = upto_colon (pf_FileName pf), pf_FileHash = upto_colon (pf_FileHash pf),
      pf_FileSize = upto_colon (pf_FileSize pf), pf_MaxChunkSize = upto_colon (pf_MaxChunkSize pf),
      pf_TotalChunks = upto_colon (pf_TotalChunks pf), pf_Chunks = pf_Chunks pf\<rparr>"

text \<open>What a written file parses to: its own fields, cut at their first colon.\<close>

lemma field_header:
  "field (CHR '':'') 1 (''fileName:'' @ v) = Inr (upto_colon v)"
  "field (CHR '':'') 1 (''fileHash:'' @ v) = Inr (upto_colon v)"
  "field (CHR '':'') 1 (''fileSize:'' @ v) = Inr (upto_colon v)"
  "field (CHR '':'') 1 (''maxChunkSize:'' @ v) = Inr (upto_colon v)"
  "field (CHR '':'') 1 (''totalChunks:'' @ v) = Inr (upto_colon v)"
  using field_1_key [of "''fileName''" v] field_1_key [of "''fileHash''" v]
    field_1_key [of "''fileSize''" v] field_1_key [of "''maxChunkSize''" v]
    field_1_key [of "''totalChunks''" v]
  by (simp_all add: upto_colon_def)

lemmas field_header_norm = field_header [unfolded append.simps]

lemma parse_written:
  assumes "clean_lines pf" "\<forall>c \<in> set (pf_Chunks pf). clean_chunk c"
  shows "parse_p2p (p2p_text (p2p_lines pf)) = Inr (cut_header pf)"
proof -
  have "scan_lines (p2p_text (p2p_lines pf)) = p2p_lines pf"
    using assms(1) by (simp add: scan_text clean_lines_def)
  then show ?thesis
    using assms(2)
    by (simp add: parse_p2p_def p2p_lines_def header_lines_def parse_line_def field_header_norm
        parse_chunk_lines empty_parser_file_def cut_header_def)
qed

section \<open>When the parser panics\<close>

definition well_formed_line :: "nat \<Rightarrow> string \<Rightarrow> bool" where
  "well_formed_line i line \<longleftrightarrow>
     CHR '':'' \<in> set line \<and>
     (5 \<le> i \<longrightarrow> CHR ''|'' \<in> set (split_on (CHR '':'') line ! 1))"

lemma length_split_on_gt1: "1 < length (split_on sep s) \<longleftrightarrow> sep \<in> set s"
proof (induction s)
  case (Cons c cs)
  then show ?case by (cases "split_on sep cs") (auto simp: neq_Nil_conv split: list.splits)
qed simp

lemma field_Inl_iff:
  "(\<exists>e. field sep 1 line = Inl e) \<longleftrightarrow> sep \<notin> set line"
  "field sep 0 line = Inr (hd (split_on sep line))"
  "sep \<in> set line \<Longrightarrow> field sep 1 line = Inr (split_on sep line ! 1)"
  using length_split_on_gt1 [of sep line] split_on_nonempty [of sep line]
  by (auto simp: field_def slice_get_def hd_conv_nth)

lemma parse_line_panics: "(\<exists>e. parse_line i line pf = Inl e) \<longleftrightarrow> \<not> well_formed_line i line"
proof (cases "CHR '':'' \<in> set line")
  case False
  then obtain e where "field (CHR '':'') 1 line = Inl e" using field_Inl_iff(1) by blast
  then show ?thesis using False
    by (simp add: parse_line_def parse_chunk_line_def well_formed_line_def field_Inl_iff(2))
next
  case True
  let ?d = "split_on (CHR '':'') line ! 1"
  note f = field_Inl_iff(3) [OF True]
  show ?thesis
  proof (cases "CHR ''|'' \<in> set ?d")
    case pipe: True
    then show ?thesis using True
      by (auto simp: parse_line_def parse_chunk_line_def well_formed_line_def f field_Inl_iff(2,3))
  next
    case no_pipe: False
    then obtain e where "field (CHR ''|'') 1 ?d = Inl e" using field_Inl_iff(1) by blast
    then show ?thesis using True no_pipe
      by (auto simp: parse_line_def parse_chunk_line_def well_formed_line_def f field_Inl_iff(2))
  qed
qed

lemma parse_lines_panics:
  "(\<exists>e. parse_lines i ls pf = Inl e) \<longleftrightarrow> (\<exists>j < length ls. \<not> well_formed_line (i + j) (ls ! j))"
proof (induction ls arbitrary: i pf)
  case (Cons l ls)
  show ?case
  proof (cases "parse_line i l pf")
    case (Inl e)
    then have "\<not> well_formed_line i l" using parse_line_panics by blast
    then show ?thesis using Inl by force
  next
    case (Inr pf')
    then have "well_formed_line i l" using parse_line_panics [of i l pf] by auto
    then show ?thesis using Inr Cons.IH [of "i + 1" pf'] by (auto simp: Ex_less_Suc2)
  qed
qed simp

section \<open>Properties of the .p2p file\<close>

text \<open>C34: parsing what GenerateP2PFile wrote gives back the record, with each header field cut at
  its first colon; chunk lines come back unchanged.\<close>

theorem p2p_round_trip:
  assumes "clean_lines pf" "\<forall>c \<in> set (pf_Chunks pf). clean_chunk c"
    and "GenerateP2PFile pf path s = (Inr u, s1)" "io_sched s1 = []"
  shows "fst (ParseP2PFile path s1) = Inr (Inr (cut_header pf))"
  using GenerateP2PFile_ok [OF assms(3)] parse_written [OF assms(1,2)] assms(4)
  by (simp add: ParseP2PFile_def os_Open_def os_call_def next_fault_def)

definition sample_pf :: ParserFile where
  "sample_pf = \<lparr>pf_FileName = ''a:b'', pf_FileHash = ''9f'', pf_FileSize = ''5'', pf_MaxChunkSize = ''4'',
     pf_TotalChunks = ''2'', pf_Chunks =
       [\<lparr>pc_ChunkHash = ''aa'', pc_ChunkIndex = ''0'', pc_ChunkSize = ''4''\<rparr>,
        \<lparr>pc_ChunkHash = ''bb'', pc_ChunkIndex = ''1'', pc_ChunkSize = ''1''\<rparr>]\<rparr>"

theorem p2p_round_trip_witness:
  "\<exists>s1. GenerateP2PFile sample_pf ''a.p2p'' \<lparr>fs_of = Map.empty, io_sched = []\<rparr> = (Inr (), s1) \<and>
     fst (ParseP2PFile ''a.p2p'' s1) = Inr (Inr (sample_pf\<lparr>pf_FileName := ''a''\<rparr>))"
proof -
  let ?s = "\<lparr>fs_of = Map.empty, io_sched = []\<rparr> :: osys"
  have w: "GenerateP2PFile sample_pf ''a.p2p'' ?s = (Inr (), snd (GenerateP2PFile sample_pf ''a.p2p'' ?s))"
    "io_sched (snd (GenerateP2PFile sample_pf ''a.p2p'' ?s)) = []"
    by (simp_all add: GenerateP2PFile_def os_Create_def os_call_def next_fault_def p2p_lines_def
        header_lines_def sample_pf_def os_Append_def)
  have "clean_lines sample_pf" "\<forall>c \<in> set (pf_Chunks sample_pf). clean_chunk c"
    by (simp_all add: clean_lines_def p2p_lines_def header_lines_def sample_pf_def chunk_line_def printable_def
        max_token_def clean_chunk_def)
  from p2p_round_trip [OF this w] w show ?thesis
    by (auto simp: sample_pf_def cut_header_def upto_colon_def)
qed

text \<open>C35: the parser panics exactly when some scanned line has no colon, or is a chunk line whose
  second colon-separated field has no bar.\<close>

theorem parser_panics_iff:
  "(\<exists>e. parse_p2p content = Inl e) \<longleftrightarrow>
   (\<exists>i < length (scan_lines content). \<not> well_formed_line i (scan_lines content ! i))"
  using parse_lines_panics [of 0 "scan_lines content" empty_parser_file] by (simp add: parse_p2p_def)

end
