(* ===== verification/Node.thy ===== *)
theory Node
  imports Chunks P2PFile Router
begin

text \<open>
  internal/node/node.go: the state of a daemon and the world it acts on (its database, its
  files, the connections to the tracker, to the CLI and to other daemons), the primitive
  actions of its handlers, and the startup sequence. A handler is a computation of the
  monad of theory Prelude over \<open>world\<close>; it runs without interference (the goroutines of
  a daemon interleave handler by handler). Every outside call takes its outcome from a
  schedule in the world, so a theorem about all worlds is about all outcomes.
\<close>

section \<open>State\<close>

definition maxChunkSize :: int where
  "maxChunkSize = 32 * 1024"

definition heartbeatInterval :: nat where
  "heartbeatInterval = 5"

definition chan_capacity :: nat where
  "chan_capacity = 100"

record FileDownload =
  fd_FileHash :: string
  fd_TotalChunks :: int
  fd_ActivePeers :: "(string, bool) gomap"

record Node =
  n_id :: string
  n_cliRouter :: "nat option"
  n_ipcSocketIndex :: string
  n_pendingPeerListRequests :: "(string, PeerListResponse list) gomap"
  n_channels :: "(string, nat) gomap"
  n_peerConnections :: "(string, nat) gomap"
  n_peerDataChannels :: "(string, nat) gomap"
  n_peerChunkMap :: "(string, (string, int list) gomap) gomap"
  n_activeDownloads :: "(string, FileDownload) gomap"

text \<open>
  The objects of the WebRTC library the node has created, with what its callbacks captured:
  the peer's id, the file hash and whether this side initiated.
\<close>

record rtc_object =
  rtc_peer :: string
  rtc_hash :: string
  rtc_initiator :: bool

text \<open>The calls made on a peer connection that change the library's state.\<close>

datatype rtc_call =
    SetRemoteOffer string
  | SetRemoteAnswer string
  | SetLocalDescription string
  | AddICECandidate string string "16 word"

text \<open>
  The world of one daemon. \<open>w_fails\<close> schedules which sends and library calls fail (none once
  it is used up), \<open>w_sdps\<close> what the library answers to CreateOffer and CreateAnswer, \<open>w_rands\<close> the
  numbers rand.Intn draws before reduction.
\<close>

record world =
  w_node :: Node
  w_db :: sqldb
  w_os :: osys
  w_tracker :: "NetworkMessage list"
  w_cli :: "(nat \<times> NetworkMessage) list"
  w_sent :: "(nat \<times> NetworkMessage) list"
  w_pcs :: "rtc_object list"
  w_dcs :: "rtc_object list"
  w_rtc :: "(nat \<times> rtc_call) list"
  w_fails :: "bool list"
  w_sdps :: "string list"
  w_rands :: "nat list"
  w_now :: int

type_synonym 'a act = "(world, 'a) go"

section \<open>Primitive actions\<close>

definition get_node :: "(Node \<Rightarrow> 'a) \<Rightarrow> 'a act" where
  "get_node f = go_gets (\<lambda>w. f (w_node w))"

definition upd_node :: "(Node \<Rightarrow> Node) \<Rightarrow> unit act" where
  "upd_node f = go_modify (\<lambda>w. w\<lparr>w_node := f (w_node w)\<rparr>)"

definition db_do :: "(sqldb \<Rightarrow> 'a \<times> sqldb) \<Rightarrow> 'a act" where
  "db_do q w = (case q (w_db w) of (r, d) \<Rightarrow> (Inr r, w\<lparr>w_db := d\<rparr>))"

definition os_do :: "(osys \<Rightarrow> 'a \<times> osys) \<Rightarrow> 'a act" where
  "os_do q w = (case q (w_os w) of (r, s) \<Rightarrow> (Inr r, w\<lparr>w_os := s\<rparr>))"

text \<open>A parser call that may panic as well as fail.\<close>

definition os_try :: "(osys \<Rightarrow> 'a res \<times> osys) \<Rightarrow> 'a act" where
  "os_try q w = (case q (w_os w) of (r, s) \<Rightarrow> (r, w\<lparr>w_os := s\<rparr>))"

text \<open>Whether the next outside call succeeds.\<close>

definition succeeds :: "bool act" where
  "succeeds w = (case w_fails w of [] \<Rightarrow> (Inr True, w) | b # bs \<Rightarrow> (Inr (\<not> b), w\<lparr>w_fails := bs\<rparr>))"

text \<open>The tracker router's WriteMessage; marshalling failures count as failures of the call.\<close>

definition send_tracker :: "NetworkMessage \<Rightarrow> bool act" where
  "send_tracker msg = go_bind succeeds (\<lambda>ok.
     if ok then go_then (go_modify (\<lambda>w. w\<lparr>w_tracker := w_tracker w @ [msg]\<rparr>)) (go_return True)
     else go_return False)"

definition send_cli :: "nat \<Rightarrow> NetworkMessage \<Rightarrow> bool act" where
  "send_cli r msg = go_bind succeeds (\<lambda>ok.
     if ok then go_then (go_modify (\<lambda>w. w\<lparr>w_cli := w_cli w @ [(r, msg)]\<rparr>)) (go_return True)
     else go_return False)"

text \<open>Marshal and DataChannel.Send.\<close>

definition send_dc :: "nat \<Rightarrow> NetworkMessage \<Rightarrow> bool act" where
  "send_dc dc msg = go_bind succeeds (\<lambda>ok.
     if ok then go_then (go_modify (\<lambda>w. w\<lparr>w_sent := w_sent w @ [(dc, msg)]\<rparr>)) (go_return True)
     else go_return False)"

definition rand_Intn :: "nat \<Rightarrow> nat act" where
  "rand_Intn n w =
     (case w_rands w of [] \<Rightarrow> (Inr 0, w) | r # rs \<Rightarrow> (Inr (r mod n), w\<lparr>w_rands := rs\<rparr>))"

section \<open>Routes\<close>

text \<open>The routes New adds to the router of the tracker connection.\<close>

definition node_routes :: routes where
  "node_routes =
     AddRoute (Chan ''signalingMsgCh'' KSignaling) (asserts KSignaling)
     (AddRoute (Chan ''idMessageCh'' KId) (asserts KId)
     (AddRoute (Chan ''peerListResponseCh'' KPeerListResponse) (asserts KPeerListResponse) []))"

section \<open>messageCLI\<close>

definition messageCLI :: "string \<Rightarrow> unit act" where
  "messageCLI msg = go_bind (get_node n_cliRouter) (\<lambda>cliRouter.
     case cliRouter of
       None \<Rightarrow> go_return ()
     | Some r \<Rightarrow> go_then (send_cli r (BuildLogMessage msg)) (go_return ()))"

section \<open>New and init\<close>

definition new_node :: "string \<Rightarrow> Node" where
  "new_node ipcSocketIndex =
     \<lparr>n_id = [], n_cliRouter = None, n_ipcSocketIndex = ipcSocketIndex, n_pendingPeerListRequests = [],
      n_channels = [], n_peerConnections = [], n_peerDataChannels = [], n_peerChunkMap = [],
      n_activeDownloads = []\<rparr>"

text \<open>\<open>m[id][hash] = v\<close> on a map of maps: a nil inner map panics.\<close>

definition set_chunk_map :: "string \<Rightarrow> string \<Rightarrow> int list \<Rightarrow> unit act" where
  "set_chunk_map peerID fileHash cs = go_bind (get_node n_peerChunkMap) (\<lambda>m.
     case mget m peerID of
       None \<Rightarrow> go_stop NilMapWrite
     | Some peerFiles \<Rightarrow> upd_node (\<lambda>n. n\<lparr>n_peerChunkMap := mput peerID (mput fileHash cs peerFiles) m\<rparr>))"

text \<open>Allocate the node's own entry when it is absent.\<close>

definition ensure_own_map :: "unit act" where
  "ensure_own_map = go_bind (get_node n_id) (\<lambda>i. go_bind (get_node n_peerChunkMap) (\<lambda>m.
     if mget m i = None then upd_node (\<lambda>n. n\<lparr>n_peerChunkMap := mput i [] m\<rparr>) else go_return ()))"

text \<open>The chunk map init builds: unlike BuildChunkMap it does not guard the index.\<close>

fun init_chunk_map :: "chunk_row list \<Rightarrow> int list \<Rightarrow> int list res" where
  "init_chunk_map [] chunkMap = Inr chunkMap"
| "init_chunk_map (c # cs) chunkMap =
     (if c_IsAvailable c = 1
      then (case slice_set chunkMap (c_ChunkIndex c) 1 of
              Inl e \<Rightarrow> Inl e
            | Inr m \<Rightarrow> init_chunk_map cs m)
      else init_chunk_map cs chunkMap)"

definition init_file :: "file_row \<Rightarrow> unit act" where
  "init_file file = go_bind (db_do (ChunkStore_GetChunks (f_Hash file))) (\<lambda>r.
     case r of
       Inl e \<Rightarrow> go_stop FatalExit
     | Inr chunkList \<Rightarrow>
         go_bind (go_lift (make_slice (f_TotalChunks file) 0)) (\<lambda>zeros.
         go_bind (go_lift (init_chunk_map chunkList zeros)) (\<lambda>chunkMap.
         go_then ensure_own_map
         (go_bind (get_node n_id) (\<lambda>i. set_chunk_map i (f_Hash file) chunkMap)))))"

definition file_info :: "file_row \<Rightarrow> FileInfo" where
  "file_info file = \<lparr>fi_FileName = [], fi_FileHash = f_Hash file, fi_FileSize = f_Size file,
     fi_TotalChunks = int32 (f_TotalChunks file), fi_ChunkSize = int32 (f_MaxChunkSize file)\<rparr>"

definition node_init :: "unit act" where
  "node_init = go_bind (db_do FileStore_GetFiles) (\<lambda>r.
     case r of
       Inl e \<Rightarrow> go_stop FatalExit
     | Inr fileList \<Rightarrow>
         go_then (go_forM fileList init_file)
         (go_then (send_tracker \<lparr>MessageType = Some (NetworkMessage_Announce \<lparr>am_Files = map file_info fileList\<rparr>)\<rparr>)
         (go_bind (get_node n_id) (\<lambda>i.
            upd_node (\<lambda>n. n\<lparr>n_peerChunkMap := mput i [] (n_peerChunkMap n)\<rparr>)))))"

text \<open>One beat of sendHeartBeatsToTracker.\<close>

definition heartbeat_tick :: "unit act" where
  "heartbeat_tick = go_bind (go_gets w_now) (\<lambda>now.
     go_then (send_tracker (BuildHeartbeatMessage now)) (go_return ()))"

end
