(* ===== verification/NodeTransfer.thy ===== *)
theory NodeTransfer
  imports Node
begin

text \<open>
  The transfer of chunks between daemons: the handlers of internal/node/chunk.go, the
  introductions of internal/node/peer.go and the download manager of
  internal/node/manager.go.
\<close>

section \<open>chunk.go\<close>

definition GetChunkMap :: "string \<Rightarrow> int list act" where
  "GetChunkMap fileHash = go_bind (db_do (FileStore_GetFileByHash fileHash)) (\<lambda>r.
     case r of
       Inl e \<Rightarrow> go_return []
     | Inr file \<Rightarrow> go_bind (db_do (ChunkStore_GetChunks fileHash)) (\<lambda>r'.
         case r' of
           Inl e \<Rightarrow> go_return []
         | Inr cs \<Rightarrow> go_lift (BuildChunkMap (f_TotalChunks file) cs)))"

definition readChunkFromFile :: "string \<Rightarrow> int \<Rightarrow> int \<Rightarrow> int \<Rightarrow> bytes option act" where
  "readChunkFromFile fileHash chunkIndex chunkSize maxChunkSz =
     go_bind (db_do (FileStore_GetFileNameByHash fileHash)) (\<lambda>r.
     case r of
       Inl e \<Rightarrow> go_return None
     | Inr fileName \<Rightarrow> go_bind (get_node n_ipcSocketIndex) (\<lambda>idx.
         go_bind (os_do (os_Open (BuildDownloadPath idx fileName))) (\<lambda>f.
         case f of
           Inl e \<Rightarrow> go_return None
         | Inr content \<Rightarrow>
             go_bind (go_lift (ReadChunkData content chunkIndex chunkSize maxChunkSz)) (\<lambda>d.
             case d of Inl e \<Rightarrow> go_return None | Inr data \<Rightarrow> go_return (Some data)))))"

definition handleChunkRequest :: "string \<Rightarrow> ChunkRequest \<Rightarrow> unit act" where
  "handleChunkRequest peerID msg =
     go_bind (db_do (ChunkStore_GetChunk (cr_FileHash msg) (cr_ChunkIndex msg))) (\<lambda>r.
     case r of
       Inl e \<Rightarrow> go_return ()
     | Inr chunk \<Rightarrow>
         if c_IsAvailable chunk \<noteq> 1 then go_return ()
         else go_bind (readChunkFromFile (cr_FileHash msg) (c_ChunkIndex chunk) (c_ChunkSize chunk) maxChunkSize)
           (\<lambda>d. case d of
              None \<Rightarrow> go_return ()
            | Some chunkData \<Rightarrow> go_bind (get_node n_peerDataChannels) (\<lambda>dcs.
                case mget dcs peerID of
                  None \<Rightarrow> go_return ()
                | Some dc \<Rightarrow>
                    go_then (send_dc dc (BuildChunkResponseMessage (cr_FileHash msg) (cr_ChunkIndex msg) chunkData))
                      (go_return ()))))"

text \<open>os.OpenFile with O_RDWR, then WriteChunkData on it.\<close>

definition os_WriteChunk :: "string \<Rightarrow> int \<Rightarrow> int \<Rightarrow> bytes \<Rightarrow> osys \<Rightarrow> unit io \<times> osys" where
  "os_WriteChunk path chunkIndex maxChunkSz data = os_call (\<lambda>fs.
     case fs path of
       None \<Rightarrow> (Inl NotExist, fs)
     | Some content \<Rightarrow>
         (case WriteChunkData content chunkIndex maxChunkSz data of
            Inl e \<Rightarrow> (Inl e, fs)
          | Inr content' \<Rightarrow> (Inr (), fs(path \<mapsto> content'))))"

text \<open>
  \<open>n.peerChunkMap[n.id][hash][i] = 1\<close>: absent maps read as nil, and an index outside the
  slice panics.
\<close>

definition mark_own_chunk :: "string \<Rightarrow> int \<Rightarrow> unit act" where
  "mark_own_chunk fileHash i = go_bind (get_node n_id) (\<lambda>me. go_bind (get_node n_peerChunkMap) (\<lambda>m.
     let own = (case mget m me of None \<Rightarrow> [] | Some fs \<Rightarrow> fs);
         cs = (case mget own fileHash of None \<Rightarrow> [] | Some c \<Rightarrow> c)
     in go_bind (go_lift (slice_set cs i 1)) (\<lambda>cs'.
        upd_node (\<lambda>n. n\<lparr>n_peerChunkMap := mput me (mput fileHash cs' own) m\<rparr>))))"

definition handleChunkResponse :: "string \<Rightarrow> ChunkResponse \<Rightarrow> unit act" where
  "handleChunkResponse peerID msg =
     go_then (messageCLI (''Got chunk '' @ FormatInt (cs_ChunkIndex msg) @ '' from peer '' @ peerID))
     (go_then (messageCLI ''progress'')
     (go_bind (db_do (FileStore_GetFileNameByHash (cs_FileHash msg))) (\<lambda>r.
      case r of
        Inl e \<Rightarrow> go_return ()
      | Inr fileName \<Rightarrow> go_bind (get_node n_ipcSocketIndex) (\<lambda>idx.
          let filePath = BuildDownloadPath idx fileName
          in go_bind (os_do (os_Open filePath)) (\<lambda>f.
             case f of
               Inl e \<Rightarrow> go_return ()
             | Inr content \<Rightarrow>
                 go_bind (os_do (os_WriteChunk filePath (cs_ChunkIndex msg) maxChunkSize (cs_ChunkData msg))) (\<lambda>wr.
                 case wr of
                   Inl e \<Rightarrow> go_return ()
                 | Inr u \<Rightarrow>
                     go_then (mark_own_chunk (cs_FileHash msg) (cs_ChunkIndex msg))
                     (go_then (db_do (ChunkStore_MarkChunkAvailable (cs_FileHash msg) (cs_ChunkIndex msg)))
                       (go_return ()))))))))"

section \<open>peer.go\<close>

fun FindEligiblePeers :: "(string, (string, int list) gomap) gomap \<Rightarrow> string \<Rightarrow> int \<Rightarrow> string list res" where
  "FindEligiblePeers [] fileHash chunkIndex = Inr []"
| "FindEligiblePeers ((peerID, peerFiles) # rest) fileHash chunkIndex =
     (case (case mget peerFiles fileHash of
              None \<Rightarrow> Inr False
            | Some cs \<Rightarrow>
                if chunkIndex < int32 (int (length cs))
                then map_sum id (\<lambda>v. v = 1) (slice_get cs chunkIndex)
                else Inr False) of
        Inl e \<Rightarrow> Inl e
      | Inr has \<Rightarrow>
          (case FindEligiblePeers rest fileHash chunkIndex of
             Inl e \<Rightarrow> Inl e
           | Inr eligible \<Rightarrow> Inr (if has then peerID # eligible else eligible)))"

definition SelectRandomPeer :: "string list \<Rightarrow> string act" where
  "SelectRandomPeer ps =
     (if ps = [] then go_return []
      else go_bind (rand_Intn (length ps)) (\<lambda>i. go_lift (slice_get ps (int i))))"

definition sendIntroduction :: "string \<Rightarrow> string \<Rightarrow> bool act" where
  "sendIntroduction peerID fileHash = go_bind (GetChunkMap fileHash) (\<lambda>chunksMap.
     go_bind (get_node n_peerDataChannels) (\<lambda>dcs.
     case mget dcs peerID of
       None \<Rightarrow> go_return False
     | Some dc \<Rightarrow> send_dc dc (BuildIntroductionMessage fileHash chunksMap)))"

section \<open>manager.go\<close>

definition addPeerToDownload :: "string \<Rightarrow> string \<Rightarrow> unit act" where
  "addPeerToDownload peerID fileHash = upd_node (\<lambda>n.
     case mget (n_activeDownloads n) fileHash of
       None \<Rightarrow> n
     | Some dl \<Rightarrow> n\<lparr>n_activeDownloads := mput fileHash
         (dl\<lparr>fd_ActivePeers := mput peerID True (fd_ActivePeers dl)\<rparr>) (n_activeDownloads n)\<rparr>)"

definition removePeerFromDownloads :: "string \<Rightarrow> unit act" where
  "removePeerFromDownloads peerID = upd_node (\<lambda>n. n\<lparr>n_activeDownloads :=
     map (\<lambda>(h, dl). (h, dl\<lparr>fd_ActivePeers := mdel peerID (fd_ActivePeers dl)\<rparr>)) (n_activeDownloads n)\<rparr>)"

definition handleIntroduction :: "string \<Rightarrow> IntroductionMessage \<Rightarrow> unit act" where
  "handleIntroduction peerID msg =
     go_then (messageCLI (''Connected to peer '' @ peerID))
     (go_bind (get_node n_peerChunkMap) (\<lambda>m.
      go_then
        (if mget (case mget m peerID of None \<Rightarrow> [] | Some fs \<Rightarrow> fs) (im_FileHash msg) = None
         then go_then (sendIntroduction peerID (im_FileHash msg))
              (go_then (upd_node (\<lambda>n. n\<lparr>n_peerChunkMap := mput peerID [] (n_peerChunkMap n)\<rparr>))
                (set_chunk_map peerID (IntroductionMessage_GetFileHash (Some msg))
                  (IntroductionMessage_GetChunksMap (Some msg))))
         else set_chunk_map peerID (IntroductionMessage_GetFileHash (Some msg))
                (IntroductionMessage_GetChunksMap (Some msg)))
        (addPeerToDownload peerID (IntroductionMessage_GetFileHash (Some msg)))))"

definition startFileDownload :: "string \<Rightarrow> int \<Rightarrow> unit act" where
  "startFileDownload fileHash totalChunks = upd_node (\<lambda>n.
     if mget (n_activeDownloads n) fileHash \<noteq> None then n
     else n\<lparr>n_activeDownloads := mput fileHash
       \<lparr>fd_FileHash = fileHash, fd_TotalChunks = totalChunks, fd_ActivePeers = []\<rparr> (n_activeDownloads n)\<rparr>)"

text \<open>The send loop: at most \<open>n\<close> more attempts on the channel the map holds at each attempt.\<close>

fun send_with_retries :: "nat \<Rightarrow> string \<Rightarrow> NetworkMessage \<Rightarrow> bool act" where
  "send_with_retries 0 peerID msg = go_return False"
| "send_with_retries (Suc n) peerID msg = go_bind (get_node n_peerDataChannels) (\<lambda>dcs.
     case mget dcs peerID of
       None \<Rightarrow> go_stop NilDereference
     | Some dc \<Rightarrow> go_bind (send_dc dc msg) (\<lambda>ok.
         if ok then go_return True else send_with_retries n peerID msg))"

definition maxRetries :: nat where
  "maxRetries = 3"

definition requestOneMissingChunk :: "string \<Rightarrow> unit act" where
  "requestOneMissingChunk fileHash = go_bind (db_do (ChunkStore_GetChunks fileHash)) (\<lambda>r.
     case r of
       Inl e \<Rightarrow> go_return ()
     | Inr localChunks \<Rightarrow>
         let missingChunkIndex = FindMissingChunkIndex localChunks
         in if missingChunkIndex = -1 then go_return ()
            else go_bind (get_node n_peerChunkMap) (\<lambda>m.
                 go_bind (go_lift (FindEligiblePeers m fileHash missingChunkIndex)) (\<lambda>eligible.
                 if eligible = [] then go_return ()
                 else go_bind (SelectRandomPeer eligible) (\<lambda>selected.
                   go_bind (get_node n_peerDataChannels) (\<lambda>dcs.
                   if mget dcs selected = None then go_return ()
                   else go_then (send_with_retries maxRetries selected
                          (BuildChunkRequestMessage fileHash missingChunkIndex)) (go_return ()))))))"

text \<open>
  One tick of downloadManager, for the download in the map under the hash; the result says
  whether the manager returned. The manager's own pointer and the map entry are the same
  object, because only the manager deletes the entry, when it returns.
\<close>

definition download_tick :: "string \<Rightarrow> bool act" where
  "download_tick fileHash = go_bind (db_do (ChunkStore_GetChunks fileHash)) (\<lambda>r.
     case r of
       Inl e \<Rightarrow> go_return False
     | Inr cs \<Rightarrow>
         if IsDownloadComplete cs
         then go_then (upd_node (\<lambda>n. n\<lparr>n_activeDownloads := mdel fileHash (n_activeDownloads n)\<rparr>))
              (go_then (messageCLI ''done'') (go_return True))
         else go_bind (get_node (\<lambda>n. mget (n_activeDownloads n) fileHash)) (\<lambda>dl.
              go_then (case dl of
                         None \<Rightarrow> go_return ()
                       | Some d \<Rightarrow> if fd_ActivePeers d \<noteq> [] then requestOneMissingChunk fileHash else go_return ())
                (go_return False)))"

end
