(* ===== verification/NodeRtc.thy ===== *)
theory NodeRtc
  imports NodeTransfer
begin

text \<open>
  Connections of a daemon: internal/node/webrtc.go (peer connections, data channels and
  their callbacks), internal/node/tracker.go (signals, peer lists and the id the tracker
  sends) and internal/node/ipc.go (CLI connections). The WebRTC library is outside the
  repository: its objects are numbers, its calls succeed or fail by the schedule of the
  world, and each callback is an event that may happen to an object that exists.
\<close>

section \<open>webrtc.go\<close>

definition rtc_do :: "nat \<Rightarrow> rtc_call \<Rightarrow> bool act" where
  "rtc_do pc call = go_bind succeeds (\<lambda>ok.
     if ok then go_then (go_modify (\<lambda>w. w\<lparr>w_rtc := w_rtc w @ [(pc, call)]\<rparr>)) (go_return True)
     else go_return False)"

text \<open>CreateOffer and CreateAnswer: an error, or the description the library makes.\<close>

definition create_sdp :: "string option act" where
  "create_sdp = go_bind succeeds (\<lambda>ok.
     if ok then (\<lambda>w. case w_sdps w of
                   [] \<Rightarrow> (Inr (Some []), w)
                 | s # ss \<Rightarrow> (Inr (Some s), w\<lparr>w_sdps := ss\<rparr>))
     else go_return None)"

definition setupDataChannel :: "string \<Rightarrow> string \<Rightarrow> bool \<Rightarrow> unit act" where
  "setupDataChannel peerId fileHash isInitiator = go_bind (go_gets (\<lambda>w. length (w_dcs w))) (\<lambda>dc.
     go_then (go_modify (\<lambda>w. w\<lparr>w_dcs := w_dcs w @
       [\<lparr>rtc_peer = peerId, rtc_hash = fileHash, rtc_initiator = isInitiator\<rparr>]\<rparr>))
     (upd_node (\<lambda>n. n\<lparr>n_peerDataChannels := mput peerId dc (n_peerDataChannels n)\<rparr>)))"

text \<open>True is the nil error.\<close>

definition handleWebRTCConnection :: "string \<Rightarrow> string \<Rightarrow> bool \<Rightarrow> bool act" where
  "handleWebRTCConnection peerId fileHash isInitiator = go_bind succeeds (\<lambda>ok.
     if \<not> ok then go_return False
     else go_bind (go_gets (\<lambda>w. length (w_pcs w))) (\<lambda>pc.
       go_then (go_modify (\<lambda>w. w\<lparr>w_pcs := w_pcs w @
         [\<lparr>rtc_peer = peerId, rtc_hash = fileHash, rtc_initiator = isInitiator\<rparr>]\<rparr>))
       (go_then (upd_node (\<lambda>n. n\<lparr>n_peerConnections := mput peerId pc (n_peerConnections n)\<rparr>))
       (if isInitiator
        then go_bind succeeds (\<lambda>ok'.
          if \<not> ok' then go_return False
          else go_then (setupDataChannel peerId fileHash isInitiator) (go_return True))
        else go_return True))))"

datatype PeerConnectionState =
    StateNew | StateConnecting | StateConnected | StateDisconnected | StateFailed | StateClosed

text \<open>The callbacks, with the variables they captured taken from the object.\<close>

definition OnConnectionStateChange :: "rtc_object \<Rightarrow> PeerConnectionState \<Rightarrow> unit act" where
  "OnConnectionStateChange pc s =
     (if s = StateDisconnected
      then go_then (upd_node (\<lambda>n. n\<lparr>n_peerConnections := mdel (rtc_peer pc) (n_peerConnections n)\<rparr>))
        (removePeerFromDownloads (rtc_peer pc))
      else go_return ())"

definition OnDataChannel :: "rtc_object \<Rightarrow> unit act" where
  "OnDataChannel pc = setupDataChannel (rtc_peer pc) (rtc_hash pc) (rtc_initiator pc)"

definition OnOpen :: "rtc_object \<Rightarrow> unit act" where
  "OnOpen dc =
     (if rtc_initiator dc
      then go_bind (db_do (FileStore_GetFileByHash (rtc_hash dc))) (\<lambda>r.
        case r of
          Inl e \<Rightarrow> go_return ()
        | Inr file \<Rightarrow> go_then (sendIntroduction (rtc_peer dc) (f_Hash file)) (go_return ()))
      else go_return ())"

definition OnClose :: "rtc_object \<Rightarrow> unit act" where
  "OnClose dc =
     go_then (upd_node (\<lambda>n. n\<lparr>n_peerDataChannels := mdel (rtc_peer dc) (n_peerDataChannels n)\<rparr>))
       (removePeerFromDownloads (rtc_peer dc))"

definition OnICECandidate :: "rtc_object \<Rightarrow> ICECandidateInit option \<Rightarrow> unit act" where
  "OnICECandidate pc ice =
     (case ice of
        None \<Rightarrow> go_return ()
      | Some json \<Rightarrow> go_bind (go_lift (BuildICECandidateMessage (rtc_peer pc) json)) (\<lambda>msg.
          go_then (send_tracker msg) (go_return ())))"

text \<open>\<open>None\<close> is a payload that does not decode.\<close>

definition webrtcMessageHandler :: "NetworkMessage option \<Rightarrow> string \<Rightarrow> unit act" where
  "webrtcMessageHandler decoded peerId =
     (case decoded of
        None \<Rightarrow> go_return ()
      | Some netMsg \<Rightarrow>
          (case MessageType netMsg of
             Some (NetworkMessage_Introduction m) \<Rightarrow> handleIntroduction peerId m
           | Some (NetworkMessage_ChunkRequest m) \<Rightarrow> handleChunkRequest peerId m
           | Some (NetworkMessage_ChunkResponse m) \<Rightarrow> handleChunkResponse peerId m
           | _ \<Rightarrow> go_return ()))"

section \<open>tracker.go\<close>

definition handleOffer :: "nat \<Rightarrow> string \<Rightarrow> Offer option \<Rightarrow> unit act" where
  "handleOffer pc peerID offer = go_bind (rtc_do pc (SetRemoteOffer (Offer_GetSdp offer))) (\<lambda>ok.
     if \<not> ok then go_return ()
     else go_bind create_sdp (\<lambda>r.
       case r of
         None \<Rightarrow> go_return ()
       | Some sdp \<Rightarrow> go_bind (rtc_do pc (SetLocalDescription sdp)) (\<lambda>ok'.
           if \<not> ok' then go_return ()
           else go_then (send_tracker (BuildSignalingAnswerMessage peerID sdp)) (go_return ()))))"

definition dispatch_signal :: "nat \<Rightarrow> string \<Rightarrow> SignalingMessage \<Rightarrow> unit act" where
  "dispatch_signal pc peerID s =
     (if SignalingMessage_GetOffer (Some s) \<noteq> None
      then handleOffer pc peerID (SignalingMessage_GetOffer (Some s))
      else if SignalingMessage_GetAnswer (Some s) \<noteq> None
      then go_then (rtc_do pc (SetRemoteAnswer (Answer_GetSdp (SignalingMessage_GetAnswer (Some s))))) (go_return ())
      else (case SignalingMessage_GetIceCandidate (Some s) of
              None \<Rightarrow> go_return ()
            | Some ice \<Rightarrow>
                go_then (rtc_do pc (AddICECandidate (IceCandidate_GetCandidate (Some ice)) (ic_SdpMid ice)
                  (ucast (IceCandidate_GetSdpMlineIndex (Some ice))))) (go_return ())))"

definition on_signaling :: "SignalingMessage \<Rightarrow> unit act" where
  "on_signaling s =
     (let peerID = SignalingMessage_GetSourcePeerId (Some s)
      in go_bind (get_node n_peerConnections) (\<lambda>pcs.
         case mget pcs peerID of
           Some pc \<Rightarrow> dispatch_signal pc peerID s
         | None \<Rightarrow>
             if SignalingMessage_GetOffer (Some s) \<noteq> None
             then go_bind (handleWebRTCConnection peerID [] False) (\<lambda>ok.
               if \<not> ok then go_return ()
               else go_bind (get_node n_peerConnections) (\<lambda>pcs'.
                 case mget pcs' peerID of
                   None \<Rightarrow> go_stop NilDereference
                 | Some pc \<Rightarrow> dispatch_signal pc peerID s))
             else go_return ()))"

text \<open>
  A response for a hash nobody waits for is sent on a nil channel, which blocks for ever;
  the other sends wait for room, which is the enabling condition of the event.
\<close>

definition on_peer_list :: "PeerListResponse \<Rightarrow> unit act" where
  "on_peer_list resp = go_bind (get_node n_pendingPeerListRequests) (\<lambda>pending.
     case mget pending (PeerListResponse_GetFileHash (Some resp)) of
       None \<Rightarrow> go_stop BlockedForever
     | Some q \<Rightarrow> upd_node (\<lambda>n. n\<lparr>n_pendingPeerListRequests :=
         mput (PeerListResponse_GetFileHash (Some resp)) (q @ [resp]) pending\<rparr>))"

definition on_id :: "IDMessage \<Rightarrow> unit act" where
  "on_id m = upd_node (\<lambda>n. n\<lparr>n_id := IDMessage_GetId (Some m)\<rparr>)"

section \<open>ipc.go\<close>

definition cli_routes :: routes where
  "cli_routes =
     AddRoute (Chan ''cliSignalDownloadCh'' KSignalDownload) (asserts KSignalDownload)
     (AddRoute (Chan ''cliSignalRegisterCh'' KSignalRegister) (asserts KSignalRegister) [])"

definition accept_cli :: "string \<Rightarrow> nat \<Rightarrow> unit act" where
  "accept_cli addr router =
     upd_node (\<lambda>n. n\<lparr>n_channels := mput addr router (n_channels n), n_cliRouter := Some router\<rparr>)"

end
