(* ===== verification/NodeFiles.thy ===== *)
theory NodeFiles
  imports NodeRtc
begin

text \<open>
  Registering and downloading a file: internal/node/register.go and
  internal/node/download.go. The download handler waits for the tracker's peer list in the
  middle, so it is two handlers: up to the request, and from the answer on. SHA-256 is the
  parameter \<open>sha\<close>. A file read in the middle of a handler sees the contents at that time.
\<close>

section \<open>register.go\<close>

text \<open>A call on an open file that changes nothing: Stat, Seek, one Read.\<close>

definition os_touch :: "unit io act" where
  "os_touch = os_do (os_call (\<lambda>fs. (Inr (), fs)))"

definition register_chunk :: "(bytes \<Rightarrow> bytes) \<Rightarrow> int \<Rightarrow> bytes \<Rightarrow> ParserChunk" where
  "register_chunk sha i d = \<lparr>pc_ChunkHash = GenerateHash sha d, pc_ChunkIndex = FormatInt i,
     pc_ChunkSize = FormatInt (int (length d))\<rparr>"

text \<open>
  The read loop over the successive buffers: each buffer is hashed and stored as an available
  chunk; a read error or a failed insert ends the handler (\<open>None\<close>).
\<close>

fun register_chunks ::
  "(bytes \<Rightarrow> bytes) \<Rightarrow> int \<Rightarrow> int \<Rightarrow> bytes list \<Rightarrow> ParserFile \<Rightarrow> ParserFile option act" where
  "register_chunks sha fileID i [] pf = go_bind os_touch (\<lambda>r.
     case r of Inl e \<Rightarrow> go_return None | Inr u \<Rightarrow> go_return (Some pf))"
| "register_chunks sha fileID i (d # ds) pf = go_bind os_touch (\<lambda>r.
     case r of
       Inl e \<Rightarrow> go_return None
     | Inr u \<Rightarrow> go_bind (db_do (ChunkStore_CreateChunk fileID i (int (length d)) (GenerateHash sha d) True)) (\<lambda>r'.
         case r' of
           Inl e \<Rightarrow> go_return None
         | Inr c \<Rightarrow> register_chunks sha fileID (i + 1) ds
             (pf\<lparr>pf_Chunks := pf_Chunks pf @ [register_chunk sha i d]\<rparr>)))"

text \<open>io.Copy from the open source file to the file just created.\<close>

definition os_CopyTo :: "string \<Rightarrow> string \<Rightarrow> osys \<Rightarrow> unit io \<times> osys" where
  "os_CopyTo dest src = os_call (\<lambda>fs.
     case (fs dest, fs src) of
       (Some d, Some c) \<Rightarrow> (Inr (), fs(dest \<mapsto> d @ c))
     | _ \<Rightarrow> (Inl NotExist, fs))"

definition download_dir :: "string \<Rightarrow> string" where
  "download_dir idx = ''downloads/daemon-'' @ idx @ ''/''"

text \<open>From the directory on: copy, write the .p2p file, announce.\<close>

definition register_publish :: "string \<Rightarrow> string \<Rightarrow> file_row \<Rightarrow> ParserFile \<Rightarrow> unit act" where
  "register_publish filePath fileName dbFile pf = go_bind (get_node n_ipcSocketIndex) (\<lambda>idx.
     let dest = download_dir idx @ fileName
     in go_bind (os_do (os_MkdirAll (download_dir idx))) (\<lambda>r.
        case r of Inl e \<Rightarrow> go_return () | Inr u \<Rightarrow>
        go_bind (os_do (os_Create dest)) (\<lambda>r.
        case r of Inl e \<Rightarrow> go_return () | Inr u \<Rightarrow>
        go_bind os_touch (\<lambda>r.
        case r of Inl e \<Rightarrow> go_return () | Inr u \<Rightarrow>
        go_bind (os_do (os_CopyTo dest filePath)) (\<lambda>r.
        case r of Inl e \<Rightarrow> go_return () | Inr u \<Rightarrow>
        go_bind (os_do (GenerateP2PFile pf (dest @ ''.p2p''))) (\<lambda>r.
        case r of Inl e \<Rightarrow> go_return () | Inr u \<Rightarrow>
        go_then (send_tracker (BuildAnnounceMessage [file_info dbFile])) (go_return ())))))))"

definition handleRegisterSignal :: "(bytes \<Rightarrow> bytes) \<Rightarrow> SignalRegisterMessage \<Rightarrow> unit act" where
  "handleRegisterSignal sha registerSignal =
     (let filePath = SignalRegisterMessage_GetFilePath (Some registerSignal);
          fileName = ExtractFileName filePath
      in go_bind (os_do (os_Open filePath)) (\<lambda>r.
         case r of Inl e \<Rightarrow> go_return () | Inr content \<Rightarrow>
         go_bind os_touch (\<lambda>r.
         case r of Inl e \<Rightarrow> go_return () | Inr u \<Rightarrow>
         let fileSize = int (length content);
             fileTotalChunks = CalculateTotalChunks fileSize maxChunkSize
         in go_bind os_touch (\<lambda>r.
            case HashFile sha (map_sum id (\<lambda>u. content) r) of Inl e \<Rightarrow> go_return () | Inr fileHash \<Rightarrow>
            go_bind (go_gets w_now) (\<lambda>now.
            go_bind (db_do (FileStore_CreateFile now fileName fileSize maxChunkSize fileTotalChunks fileHash)) (\<lambda>r.
            case r of
              Inl e \<Rightarrow> go_return ()
            | Inr (dbFile, created) \<Rightarrow>
                if \<not> created then go_return ()
                else go_bind os_touch (\<lambda>r.
                  case r of Inl e \<Rightarrow> go_return () | Inr u \<Rightarrow>
                  go_bind (register_chunks sha (f_ID dbFile) 0 (split_chunks (nat maxChunkSize) content)
                    \<lparr>pf_FileName = fileName, pf_FileHash = fileHash, pf_FileSize = FormatInt fileSize,
                     pf_MaxChunkSize = FormatInt maxChunkSize, pf_TotalChunks = FormatInt fileTotalChunks,
                     pf_Chunks = []\<rparr>) (\<lambda>r.
                  case r of
                    None \<Rightarrow> go_return ()
                  | Some pf \<Rightarrow> register_publish filePath fileName dbFile pf)))))))) "

section \<open>download.go\<close>

text \<open>The loop that stores the chunks of the .p2p file; False when an insert failed.\<close>

fun create_missing_chunks :: "int \<Rightarrow> ParserChunk list \<Rightarrow> bool act" where
  "create_missing_chunks fileID [] = go_return True"
| "create_missing_chunks fileID (c # cs) =
     (case Atoi (pc_ChunkIndex c) of
        (chunkIndex, Some e) \<Rightarrow> create_missing_chunks fileID cs
      | (chunkIndex, None) \<Rightarrow>
          (case Atoi (pc_ChunkSize c) of
             (chunkSize, Some e) \<Rightarrow> create_missing_chunks fileID cs
           | (chunkSize, None) \<Rightarrow>
               go_bind (db_do (ChunkStore_CreateChunk fileID chunkIndex chunkSize (pc_ChunkHash c) False)) (\<lambda>r.
               case r of Inl e \<Rightarrow> go_return False | Inr row \<Rightarrow> create_missing_chunks fileID cs)))"

text \<open>Reset the node's own chunk map of the file.\<close>

definition reset_own_chunks :: "string \<Rightarrow> int \<Rightarrow> unit act" where
  "reset_own_chunks fileHash n = go_then ensure_own_map
     (go_bind (go_lift (make_slice n 0)) (\<lambda>zeros.
      go_bind (get_node n_id) (\<lambda>i. set_chunk_map i fileHash zeros)))"

text \<open>
  The database part: \<open>None\<close> when the handler returns, else whether the file was created.
\<close>

definition download_store :: "bool \<Rightarrow> ParserFile \<Rightarrow> int \<Rightarrow> int \<Rightarrow> bool option act" where
  "download_store fileExists pf fileSize fileTotalChunks =
     (if fileExists then go_return (Some False)
      else go_bind (go_gets w_now) (\<lambda>now.
        go_bind (db_do (FileStore_CreateFile now (pf_FileName pf) fileSize maxChunkSize fileTotalChunks (pf_FileHash pf)))
        (\<lambda>r. case r of
           Inl e \<Rightarrow> go_return None
         | Inr (dbFile, created) \<Rightarrow>
             if \<not> created then go_return (Some False)
             else go_bind (create_missing_chunks (f_ID dbFile) (pf_Chunks pf)) (\<lambda>ok.
               go_return (if ok then Some True else None)))))"

text \<open>The channel the handler waits on, and the request; the result is what it waits for.\<close>

definition download_request :: "string \<Rightarrow> int \<Rightarrow> (string \<times> int) option act" where
  "download_request fileHash fileTotalChunks =
     go_then (upd_node (\<lambda>n. if mget (n_pendingPeerListRequests n) fileHash = None
        then n\<lparr>n_pendingPeerListRequests := mput fileHash [] (n_pendingPeerListRequests n)\<rparr> else n))
     (go_then (send_tracker (BuildPeerListRequestMessage fileHash))
       (go_return (Some (fileHash, fileTotalChunks))))"

definition download_files :: "ParserFile \<Rightarrow> int \<Rightarrow> int \<Rightarrow> bool \<Rightarrow> (string \<times> int) option act" where
  "download_files pf fileSize fileTotalChunks createdFile =
     go_then (if createdFile then reset_own_chunks (pf_FileHash pf) fileTotalChunks else go_return ())
     (go_bind (get_node n_ipcSocketIndex) (\<lambda>idx.
      go_bind (os_do (os_MkdirAll (download_dir idx))) (\<lambda>r.
      case r of Inl e \<Rightarrow> go_return None | Inr u \<Rightarrow>
      go_bind (if createdFile
               then os_do (CreatePreallocatedFile (download_dir idx @ pf_FileName pf) (go_div fileSize 8))
               else go_return (Inr ())) (\<lambda>r.
      case r of Inl e \<Rightarrow> go_return None | Inr u \<Rightarrow>
      download_request (pf_FileHash pf) fileTotalChunks))))"

definition handleDownloadSignal :: "SignalDownloadMessage \<Rightarrow> (string \<times> int) option act" where
  "handleDownloadSignal downloadSignal =
     (let filePath = SignalDownloadMessage_GetFilePath (Some downloadSignal)
      in go_bind (os_try (ParseP2PFile filePath)) (\<lambda>r.
         case r of Inl e \<Rightarrow> go_return None | Inr pf \<Rightarrow>
         go_bind (db_do (FileStore_GetFileByHash (pf_FileHash pf))) (\<lambda>g.
         let fileExists = (case g of Inl e \<Rightarrow> False | Inr row \<Rightarrow> True)
         in (case Atoi (pf_FileSize pf) of (fileSize, Some e) \<Rightarrow> go_return None | (fileSize, None) \<Rightarrow>
            (case Atoi (pf_TotalChunks pf) of (fileTotalChunks, Some e) \<Rightarrow> go_return None | (fileTotalChunks, None) \<Rightarrow>
             go_then (messageCLI (''+'' @ FormatInt fileTotalChunks))
             (go_then (reset_own_chunks (pf_FileHash pf) fileTotalChunks)
             (go_bind (download_store fileExists pf fileSize fileTotalChunks) (\<lambda>st.
              case st of None \<Rightarrow> go_return None | Some createdFile \<Rightarrow>
              download_files pf fileSize fileTotalChunks createdFile))))))))"

definition connect_peer :: "string \<Rightarrow> string \<Rightarrow> unit act" where
  "connect_peer fileHash peerID = go_bind (get_node n_peerConnections) (\<lambda>pcs.
     if mget pcs peerID \<noteq> None
     then go_then (sendIntroduction peerID fileHash) (go_return ())
     else go_bind (handleWebRTCConnection peerID fileHash True) (\<lambda>ok.
       if \<not> ok then go_return ()
       else go_bind (get_node n_peerConnections) (\<lambda>pcs'.
         case mget pcs' peerID of
           None \<Rightarrow> go_stop NilDereference
         | Some pc \<Rightarrow> go_bind create_sdp (\<lambda>r.
             case r of
               None \<Rightarrow> go_return ()
             | Some sdp \<Rightarrow> go_bind (rtc_do pc (SetLocalDescription sdp)) (\<lambda>ok'.
                 if \<not> ok' then go_return ()
                 else go_then (send_tracker (BuildSignalingOfferMessage peerID sdp)) (go_return ()))))))"

text \<open>The case of the select that receives the answer.\<close>

definition on_download_answer :: "string \<Rightarrow> int \<Rightarrow> PeerListResponse \<Rightarrow> unit act" where
  "on_download_answer fileHash fileTotalChunks resp =
     (if fileHash \<noteq> PeerListResponse_GetFileHash (Some resp) then go_return ()
      else go_then (go_forM (PeerListResponse_GetPeers (Some resp)) (\<lambda>p.
             connect_peer fileHash (PeerInfo_GetId (Some p))))
           (startFileDownload fileHash fileTotalChunks))"

end
