(* ===== verification/Cli.thy ===== *)
theory Cli
  imports Router Strings
begin

text \<open>
  internal/client: the command line client. It sends one signal to the daemon and, for a
  download, follows the log messages the daemon sends back until the word done. The progress
  bar is fed through two unbuffered channels by a second goroutine, which takes one total and
  then only steps.
\<close>

section \<open>client.go\<close>

record Client =
  cl_DaemonAddr :: string
  cl_IPCSocketIndex :: string
  cl_routes :: routes

text \<open>\<open>dialed\<close>: whether net.Dial succeeds; logger.Fatal exits.\<close>

definition NewClient :: "string \<Rightarrow> bool \<Rightarrow> Client res" where
  "NewClient index dialed =
     (let addr = ''127.0.0.1:707'' @ index
      in if \<not> dialed then Inl FatalExit
         else Inr \<lparr>cl_DaemonAddr = addr, cl_IPCSocketIndex = index,
                   cl_routes = AddRoute (Chan ''logChan'' KLog) (asserts KLog) []\<rparr>)"

definition SendRegisterSignal ::
  "(NetworkMessage \<Rightarrow> bytes option) \<Rightarrow> string \<Rightarrow> wconn \<Rightarrow> (send_error + unit) \<times> wconn" where
  "SendRegisterSignal marshal filePath =
     SendNetMsg marshal \<lparr>MessageType = Some (NetworkMessage_SignalRegister \<lparr>sr_FilePath = filePath\<rparr>)\<rparr>"

definition SendDownloadSignal ::
  "(NetworkMessage \<Rightarrow> bytes option) \<Rightarrow> string \<Rightarrow> wconn \<Rightarrow> (send_error + unit) \<times> wconn" where
  "SendDownloadSignal marshal filePath =
     SendNetMsg marshal \<lparr>MessageType = Some (NetworkMessage_SignalDownload \<lparr>sd_FilePath = filePath\<rparr>)\<rparr>"

text \<open>What the listener does for the log messages in turn, and how it stands after them.\<close>

datatype log_event = SendProgress | SendTotal int | Warn num_error | Info string

datatype log_end = LogsDone | LogsWaiting | LogsPanic stop

fun ListenForDaemonLogs :: "string list \<Rightarrow> log_event list \<times> log_end" where
  "ListenForDaemonLogs [] = ([], LogsWaiting)"
| "ListenForDaemonLogs (msg # logs) =
     (if msg = ''done'' then ([], LogsDone)
      else if msg = ''progress'' then (case ListenForDaemonLogs logs of (evs, e) \<Rightarrow> (SendProgress # evs, e))
      else (case slice_get msg 0 of
          Inl p \<Rightarrow> ([], LogsPanic p)
        | Inr c \<Rightarrow>
            if c = CHR ''+''
            then (case Atoi (drop 1 msg) of (totalChunks, err) \<Rightarrow>
              (case ListenForDaemonLogs logs of (evs, e) \<Rightarrow>
                 ((case err of None \<Rightarrow> [] | Some er \<Rightarrow> [Warn er]) @ SendTotal totalChunks # evs, e)))
            else (case ListenForDaemonLogs logs of (evs, e) \<Rightarrow> (Info msg # evs, e))))"

section \<open>The download command\<close>

text \<open>The bar: no total yet, or the total and the steps added.\<close>

record progress_bar =
  pb_max :: "int option"
  pb_count :: nat

definition new_bar :: progress_bar where
  "new_bar = \<lparr>pb_max = None, pb_count = 0\<rparr>"

text \<open>
  The goroutine that owns the bar receives one total, then steps only. An unbuffered send it does
  not receive blocks the listener for ever: \<open>None\<close>.
\<close>

fun feed_bar :: "log_event \<Rightarrow> progress_bar \<Rightarrow> progress_bar option" where
  "feed_bar (SendTotal n) b = (if pb_max b = None then Some (b\<lparr>pb_max := Some n\<rparr>) else None)"
| "feed_bar SendProgress b = (if pb_max b = None then None else Some (b\<lparr>pb_count := pb_count b + 1\<rparr>))"
| "feed_bar ev b = Some b"

fun feed_all :: "log_event list \<Rightarrow> progress_bar \<Rightarrow> progress_bar \<times> bool" where
  "feed_all [] b = (b, True)"
| "feed_all (ev # evs) b = (case feed_bar ev b of None \<Rightarrow> (b, False) | Some b' \<Rightarrow> feed_all evs b')"

datatype command_end = Finished | Waiting | Blocked | Crashed stop

definition download_logs :: "string list \<Rightarrow> progress_bar \<times> command_end" where
  "download_logs logs = (case ListenForDaemonLogs logs of (evs, e) \<Rightarrow>
     (case feed_all evs new_bar of
        (b, False) \<Rightarrow> (b, Blocked)
      | (b, True) \<Rightarrow> (b, case e of LogsDone \<Rightarrow> Finished | LogsWaiting \<Rightarrow> Waiting | LogsPanic p \<Rightarrow> Crashed p)))"

text \<open>The file name the command reports: without the directories and the last extension.\<close>

definition actualFileName :: "string \<Rightarrow> string" where
  "actualFileName filePath =
     (let parts = split_on (CHR ''/'') filePath; fileName = parts ! (length parts - 1);
          dots = split_on (CHR ''.'') fileName
      in join_with ''.'' (take (length dots - 1) dots))"

text \<open>What the register command reports.\<close>

definition register_report :: "string \<Rightarrow> string \<Rightarrow> string" where
  "register_report registerIndex filePath =
     (let parts = split_on (CHR ''/'') filePath; fileName = parts ! (length parts - 1)
      in ''File available at: downloads/daemon-'' @ registerIndex @ ''/'' @ fileName)"

section \<open>Properties\<close>

text \<open>A log message that the listener can read.\<close>

definition readable_log :: "string \<Rightarrow> bool" where
  "readable_log msg \<longleftrightarrow> msg \<noteq> [] \<and> (hd msg = CHR ''+'' \<longrightarrow> snd (Atoi (tl msg)) = None)"

definition plain_log :: "string \<Rightarrow> bool" where
  "plain_log msg \<longleftrightarrow> msg \<noteq> [] \<and> msg \<noteq> ''done'' \<and> msg \<noteq> ''progress'' \<and> hd msg \<noteq> CHR ''+''"

lemma listen_plain:
  "plain_log msg \<Longrightarrow> ListenForDaemonLogs (msg # logs) =
     (Info msg # fst (ListenForDaemonLogs logs), snd (ListenForDaemonLogs logs))"
  by (cases msg) (auto simp: plain_log_def slice_get_def split: prod.split)

lemma listen_total:
  assumes "- (2 ^ 63) \<le> n" "n < 2 ^ 63"
  shows "ListenForDaemonLogs ((''+'' @ FormatInt n) # logs) =
     (SendTotal n # fst (ListenForDaemonLogs logs), snd (ListenForDaemonLogs logs))"
  using Atoi_FormatInt [OF assms] by (simp add: slice_get_def split: prod.split)

lemma readable_no_panic:
  "\<forall>msg \<in> set logs. readable_log msg \<Longrightarrow>
   (\<forall>p. snd (ListenForDaemonLogs logs) \<noteq> LogsPanic p) \<and> (\<forall>er. Warn er \<notin> set (fst (ListenForDaemonLogs logs)))"
proof (induction logs)
  case (Cons msg logs)
  then obtain c cs where m: "msg = c # cs" by (cases msg) (auto simp: readable_log_def)
  then show ?case using Cons
    by (auto simp: readable_log_def slice_get_def split: prod.splits option.splits)
qed simp

lemma follow_steps:
  assumes "\<forall>msg \<in> set ms. msg = ''progress'' \<or> plain_log msg" "pb_max b \<noteq> None"
  shows "\<exists>evs. ListenForDaemonLogs (ms @ ''done'' # rest) = (evs, LogsDone) \<and>
    feed_all evs b = (b\<lparr>pb_count := pb_count b + count_list ms ''progress''\<rparr>, True)"
  using assms
proof (induction ms arbitrary: b)
  case (Cons msg ms)
  show ?case
  proof (cases "msg = ''progress''")
    case True
    have ms: "\<forall>msg \<in> set ms. msg = ''progress'' \<or> plain_log msg" using Cons.prems(1) by simp
    obtain evs where "ListenForDaemonLogs (ms @ ''done'' # rest) = (evs, LogsDone)"
      "feed_all evs (b\<lparr>pb_count := pb_count b + 1\<rparr>) =
        (b\<lparr>pb_count := pb_count b + 1 + count_list ms ''progress''\<rparr>, True)"
      using Cons.IH [OF ms, of "b\<lparr>pb_count := pb_count b + 1\<rparr>"] Cons.prems(2) by auto
    then show ?thesis using True Cons.prems(2) by simp
  next
    case False
    then have "plain_log msg" using Cons.prems(1) by simp
    moreover obtain evs where "ListenForDaemonLogs (ms @ ''done'' # rest) = (evs, LogsDone)"
      "feed_all evs b = (b\<lparr>pb_count := pb_count b + count_list ms ''progress''\<rparr>, True)"
      using Cons.IH [of b] Cons.prems by auto
    ultimately show ?thesis using False by (simp add: listen_plain del: ListenForDaemonLogs.simps)
  qed
qed simp

text \<open>The download command follows the log of a download to its end: after the total, whatever mix of
  progress marks and other messages follows, it finishes at the word done, with the bar's maximum the
  announced total and one step per progress mark; what comes later is not read.\<close>

theorem download_command_follows_the_log:
  assumes "- (2 ^ 63) \<le> n" "n < 2 ^ 63" "\<forall>msg \<in> set ms. msg = ''progress'' \<or> plain_log msg"
  shows "download_logs ((''+'' @ FormatInt n) # ms @ ''done'' # rest) =
    (\<lparr>pb_max = Some n, pb_count = count_list ms ''progress''\<rparr>, Finished)"
proof -
  obtain evs where "ListenForDaemonLogs (ms @ ''done'' # rest) = (evs, LogsDone)"
    "feed_all evs (new_bar\<lparr>pb_max := Some n\<rparr>) =
      (new_bar\<lparr>pb_max := Some n, pb_count := pb_count (new_bar\<lparr>pb_max := Some n\<rparr>) + count_list ms ''progress''\<rparr>, True)"
    using follow_steps [OF assms(3), of "new_bar\<lparr>pb_max := Some n\<rparr>" rest] by auto
  then show ?thesis unfolding download_logs_def listen_total [OF assms(1,2)] by (simp add: new_bar_def)
qed

theorem download_command_follows_the_log_witness:
  "download_logs [''+2'', ''Connected to peer 3'', ''progress'', ''progress'', ''done'', ''progress''] =
    (\<lparr>pb_max = Some 2, pb_count = 2\<rparr>, Finished)"
proof -
  have "FormatInt 2 = ''2''" by code_simp
  then show ?thesis
    using download_command_follows_the_log [of 2 "[''Connected to peer 3'', ''progress'', ''progress'']" "[''progress'']"]
    by (simp add: plain_log_def)
qed

text \<open>The three ways a log does not get there.\<close>

theorem bad_logs_never_finish:
  "- (2 ^ 63) \<le> n \<and> n < 2 ^ 63 \<Longrightarrow> snd (download_logs ((''+'' @ FormatInt n) # (''+'' @ FormatInt n) # logs)) = Blocked"
  "snd (download_logs (''progress'' # logs)) = Blocked"
  "snd (download_logs ([] # logs)) = Crashed IndexOutOfRange"
proof -
  assume n: "- (2 ^ 63) \<le> n \<and> n < 2 ^ 63"
  show "snd (download_logs ((''+'' @ FormatInt n) # (''+'' @ FormatInt n) # logs)) = Blocked"
    unfolding download_logs_def listen_total [OF conjunct1 [OF n] conjunct2 [OF n]] by (simp add: new_bar_def)
qed (simp_all add: download_logs_def new_bar_def slice_get_def split: prod.split)

section \<open>When the download command ends\<close>

text \<open>The messages the bar sees before the end: at most one total, and it comes first.\<close>

definition for_bar :: "string \<Rightarrow> bool" where
  "for_bar msg \<longleftrightarrow> msg = ''progress'' \<or> (msg \<noteq> [] \<and> hd msg = CHR ''+'')"

fun bar_order :: "string list \<Rightarrow> bool" where
  "bar_order [] = True"
| "bar_order (msg # ms) = (hd msg = CHR ''+'' \<and> set ms \<subseteq> {''progress''})"

definition before_done :: "string list \<Rightarrow> string list" where
  "before_done = takeWhile (\<lambda>msg. msg \<noteq> ''done'')"

lemma listen_end:
  "snd (ListenForDaemonLogs logs) = LogsDone \<longleftrightarrow> ''done'' \<in> set logs \<and> [] \<notin> set (before_done logs)"
  by (induction logs)
     (auto simp: before_done_def slice_get_def split: prod.split option.split)

lemma feed_progress:
  "snd (feed_all (fst (ListenForDaemonLogs (''progress'' # logs))) b) \<longleftrightarrow>
     pb_max b \<noteq> None \<and> snd (feed_all (fst (ListenForDaemonLogs logs)) (b\<lparr>pb_count := pb_count b + 1\<rparr>))"
  by (cases "ListenForDaemonLogs logs") simp

lemma feed_total:
  assumes "hd msg = CHR ''+''" "msg \<noteq> []"
  shows "snd (feed_all (fst (ListenForDaemonLogs (msg # logs))) b) \<longleftrightarrow>
     pb_max b = None \<and> snd (feed_all (fst (ListenForDaemonLogs logs)) (b\<lparr>pb_max := Some (fst (Atoi (tl msg)))\<rparr>))"
proof -
  obtain cs where m: "msg = CHR ''+'' # cs" using assms by (cases msg) auto
  show ?thesis
    by (cases "ListenForDaemonLogs logs"; cases "Atoi cs"; cases "snd (Atoi cs)") (simp_all add: m slice_get_def)
qed

lemma feed_other:
  assumes "plain_log msg"
  shows "snd (feed_all (fst (ListenForDaemonLogs (msg # logs))) b) \<longleftrightarrow> snd (feed_all (fst (ListenForDaemonLogs logs)) b)"
  using listen_plain [OF assms, of logs] by (simp del: ListenForDaemonLogs.simps)

lemma log_cases:
  assumes "msg \<noteq> ''done''" "msg \<noteq> []"
  obtains "msg = ''progress''" | "hd msg = CHR ''+''" "msg \<noteq> ''progress''" | "plain_log msg"
  using assms unfolding plain_log_def by blast

lemma feed_running:
  "pb_max b \<noteq> None \<Longrightarrow> [] \<notin> set (before_done logs) \<Longrightarrow>
   snd (feed_all (fst (ListenForDaemonLogs logs)) b) \<longleftrightarrow>
     set (filter for_bar (before_done logs)) \<subseteq> {''progress''}"
proof (induction logs arbitrary: b)
  case (Cons msg logs)
  show ?case
  proof (cases "msg = ''done''")
    case False
    then have rest: "msg \<noteq> []" "[] \<notin> set (before_done logs)" using Cons.prems(2) by (auto simp: before_done_def)
    have head: "before_done (msg # logs) = msg # before_done logs" using False by (simp add: before_done_def)
    note IH = Cons.IH [OF _ rest(2)]
    show ?thesis
    proof (rule log_cases [OF False rest(1)])
      assume "msg = ''progress''"
      then show ?thesis using IH Cons.prems(1) head
        by (simp add: feed_progress for_bar_def del: ListenForDaemonLogs.simps)
    next
      assume "hd msg = CHR ''+''" "msg \<noteq> ''progress''"
      then show ?thesis using Cons.prems(1) rest(1) head
        by (simp add: feed_total for_bar_def del: ListenForDaemonLogs.simps)
    next
      assume p: "plain_log msg"
      then have "\<not> for_bar msg" by (auto simp: plain_log_def for_bar_def)
      then show ?thesis using IH Cons.prems(1) head by (simp add: feed_other [OF p] del: ListenForDaemonLogs.simps)
    qed
  qed (simp add: before_done_def)
qed (simp add: before_done_def)

lemma feed_new:
  "pb_max b = None \<Longrightarrow> [] \<notin> set (before_done logs) \<Longrightarrow>
   snd (feed_all (fst (ListenForDaemonLogs logs)) b) \<longleftrightarrow> bar_order (filter for_bar (before_done logs))"
proof (induction logs arbitrary: b)
  case (Cons msg logs)
  show ?case
  proof (cases "msg = ''done''")
    case False
    then have rest: "msg \<noteq> []" "[] \<notin> set (before_done logs)" using Cons.prems(2) by (auto simp: before_done_def)
    have head: "before_done (msg # logs) = msg # before_done logs" using False by (simp add: before_done_def)
    show ?thesis
    proof (rule log_cases [OF False rest(1)])
      assume "msg = ''progress''"
      then show ?thesis using Cons.prems(1) head
        by (simp add: feed_progress for_bar_def del: ListenForDaemonLogs.simps)
    next
      assume "hd msg = CHR ''+''" "msg \<noteq> ''progress''"
      then show ?thesis using Cons.prems(1) rest(1) head
          feed_running [OF _ rest(2), of "b\<lparr>pb_max := Some (fst (Atoi (tl msg)))\<rparr>"]
        by (simp add: feed_total for_bar_def del: ListenForDaemonLogs.simps)
    next
      assume p: "plain_log msg"
      then have "\<not> for_bar msg" by (auto simp: plain_log_def for_bar_def)
      then show ?thesis using Cons.IH [OF Cons.prems(1) rest(2)] head
        by (simp add: feed_other [OF p] del: ListenForDaemonLogs.simps)
    qed
  qed (simp add: before_done_def)
qed (simp add: before_done_def)

text \<open>C39: the download command ends normally exactly on these logs: the word done arrives, no message
  before it is empty, and of the messages before it that reach the bar the first is the total and the others
  are progress marks. On every other log it waits, blocks for ever or crashes.\<close>

theorem download_command_ends_iff:
  "snd (download_logs logs) = Finished \<longleftrightarrow>
     ''done'' \<in> set logs \<and> [] \<notin> set (before_done logs) \<and> bar_order (filter for_bar (before_done logs))"
proof -
  obtain evs e where l: "ListenForDaemonLogs logs = (evs, e)" by fastforce
  obtain b ok where f: "feed_all evs new_bar = (b, ok)" by fastforce
  have "snd (download_logs logs) = Finished \<longleftrightarrow> ok \<and> e = LogsDone"
    by (cases ok; cases e) (simp_all add: download_logs_def l f)
  moreover have "pb_max new_bar = None" by (simp add: new_bar_def)
  ultimately show ?thesis
    using listen_end [of logs] feed_new [of new_bar logs] by (auto simp: l f)
qed

end
