(* ===== verification/NodeInv.thy ===== *)
theory NodeInv
  imports NodeFiles Cli
begin

text \<open>
  Frames of the daemon's handlers (what an action leaves unchanged), and the correctness of a
  transfer: what the receiver's database, file and chunk map say about the file being
  downloaded, kept by every event of an honest transfer under any schedule of failures.
\<close>

section \<open>Frames of the primitive actions\<close>

lemma runs_get_node [runs_intros]: "runs P E (get_node f)"
  by (simp add: get_node_def runs_gets)

lemma runs_db_do: "(\<And>w. P w \<Longrightarrow> P (w\<lparr>w_db := snd (q (w_db w))\<rparr>)) \<Longrightarrow> runs P E (db_do q)"
  by (rule runsI) (simp add: db_do_def split_beta)

lemma runs_os_do: "(\<And>w. P w \<Longrightarrow> P (w\<lparr>w_os := snd (q (w_os w))\<rparr>)) \<Longrightarrow> runs P E (os_do q)"
  by (rule runsI) (simp add: os_do_def split_beta)

lemma runs_upd_node: "(\<And>w. P w \<Longrightarrow> P (w\<lparr>w_node := f (w_node w)\<rparr>)) \<Longrightarrow> runs P E (upd_node f)"
  unfolding upd_node_def by (rule runs_modify) simp

text \<open>
  The kinds of messages each receiver reads: the tracker's routes, the CLI's log route, and
  the cases of the data channel handler.
\<close>

definition for_tracker :: "NetworkMessage \<Rightarrow> bool" where
  "for_tracker msg \<longleftrightarrow> (case MessageType msg of
     Some (NetworkMessage_Announce m) \<Rightarrow> True
   | Some (NetworkMessage_PeerListRequest m) \<Rightarrow> True
   | Some (NetworkMessage_Signaling m) \<Rightarrow> True
   | Some (NetworkMessage_Heartbeat m) \<Rightarrow> True
   | _ \<Rightarrow> False)"

definition for_cli :: "NetworkMessage \<Rightarrow> bool" where
  "for_cli msg \<longleftrightarrow> (case MessageType msg of Some (NetworkMessage_Log m) \<Rightarrow> readable_log (lm_Message m) | _ \<Rightarrow> False)"

definition for_peer :: "NetworkMessage \<Rightarrow> bool" where
  "for_peer msg \<longleftrightarrow> (case MessageType msg of
     Some (NetworkMessage_Introduction m) \<Rightarrow> True
   | Some (NetworkMessage_ChunkRequest m) \<Rightarrow> True
   | Some (NetworkMessage_ChunkResponse m) \<Rightarrow> True
   | _ \<Rightarrow> False)"

lemma builders_kind [runs_intros]:
  "for_tracker (BuildAnnounceMessage fs)" "for_tracker (BuildHeartbeatMessage t)"
  "for_tracker (BuildPeerListRequestMessage h)" "for_tracker (BuildSignalingOfferMessage p s)"
  "for_tracker (BuildSignalingAnswerMessage p s)" "readable_log l \<Longrightarrow> for_cli (BuildLogMessage l)"
  "for_peer (BuildIntroductionMessage h m)" "for_peer (BuildChunkRequestMessage h i)"
  "for_peer (BuildChunkResponseMessage h i d)"
  "for_tracker \<lparr>MessageType = Some (NetworkMessage_Announce a)\<rparr>"
  by (simp_all add: for_tracker_def for_cli_def for_peer_def build_defs)

text \<open>The outcome of a send is all that a handler sees of it.\<close>

definition sends_are_frames :: "(world \<Rightarrow> bool) \<Rightarrow> bool" where
  "sends_are_frames P \<longleftrightarrow>
     (\<forall>w bs. P w \<longrightarrow> P (w\<lparr>w_fails := bs\<rparr>)) \<and> (\<forall>w rs. P w \<longrightarrow> P (w\<lparr>w_rands := rs\<rparr>)) \<and>
     (\<forall>w m. P w \<longrightarrow> for_tracker m \<longrightarrow> P (w\<lparr>w_tracker := w_tracker w @ [m]\<rparr>)) \<and>
     (\<forall>w r m. P w \<longrightarrow> for_cli m \<longrightarrow> P (w\<lparr>w_cli := w_cli w @ [(r, m)]\<rparr>)) \<and>
     (\<forall>w dc m. P w \<longrightarrow> for_peer m \<longrightarrow> P (w\<lparr>w_sent := w_sent w @ [(dc, m)]\<rparr>))"

lemma runs_succeeds: "sends_are_frames P \<Longrightarrow> runs P E succeeds"
  by (rule runsI) (simp add: succeeds_def sends_are_frames_def split: list.split)

lemma runs_send_tracker [runs_intros]: "sends_are_frames P \<Longrightarrow> for_tracker msg \<Longrightarrow> runs P E (send_tracker msg)"
  unfolding send_tracker_def
  by (intro runs_intros runs_succeeds runs_modify) (auto simp: sends_are_frames_def)

lemma runs_send_cli [runs_intros]: "sends_are_frames P \<Longrightarrow> for_cli msg \<Longrightarrow> runs P E (send_cli r msg)"
  unfolding send_cli_def
  by (intro runs_intros runs_succeeds runs_modify) (auto simp: sends_are_frames_def)

lemma runs_send_dc [runs_intros]: "sends_are_frames P \<Longrightarrow> for_peer msg \<Longrightarrow> runs P E (send_dc dc msg)"
  unfolding send_dc_def
  by (intro runs_intros runs_succeeds runs_modify) (auto simp: sends_are_frames_def)

lemma runs_rand [runs_intros]: "sends_are_frames P \<Longrightarrow> runs P E (rand_Intn n)"
  by (rule runsI) (simp add: rand_Intn_def sends_are_frames_def split: list.split)

lemma readable_logs [runs_intros]:
  "readable_log ''done''" "readable_log ''progress''" "readable_log (''Got chunk '' @ s)"
  "readable_log (''Connected to peer '' @ s)"
  by (simp_all add: readable_log_def)

lemma readable_total [runs_intros]:
  assumes "Atoi s = (n, None)"
  shows "readable_log (''+'' @ FormatInt n)"
  using Atoi_FormatInt [OF Atoi_range [OF assms]] by (simp add: readable_log_def)

lemma runs_messageCLI [runs_intros]: "sends_are_frames P \<Longrightarrow> readable_log msg \<Longrightarrow> runs P E (messageCLI msg)"
  unfolding messageCLI_def by (intro runs_intros)

text \<open>A query changes no table.\<close>

definition queries_are_frames :: "(world \<Rightarrow> bool) \<Rightarrow> bool" where
  "queries_are_frames P \<longleftrightarrow> (\<forall>w d. P w \<longrightarrow> tables_of d = tables_of (w_db w) \<longrightarrow> P (w\<lparr>w_db := d\<rparr>))"

lemma runs_query:
  assumes "queries_are_frames P" "\<And>c. tables_of (snd (q c)) = tables_of c"
  shows "runs P E (db_do q)"
  by (rule runs_db_do) (use assms in \<open>auto simp: queries_are_frames_def\<close>)

lemma GetFileByHash_tables [simp]: "tables_of (snd (FileStore_GetFileByHash h c)) = tables_of c"
  unfolding FileStore_GetFileByHash_def Q_GetFileByHash_def
  using run_query_tables [OF surjective_pairing] by blast

lemma GetFileNameByHash_tables [simp]: "tables_of (snd (FileStore_GetFileNameByHash h c)) = tables_of c"
  unfolding FileStore_GetFileNameByHash_def Q_GetFileNameByHash_def
  using run_query_tables [OF surjective_pairing] by blast

lemma GetChunks_tables [simp]: "tables_of (snd (ChunkStore_GetChunks h c)) = tables_of c"
  unfolding ChunkStore_GetChunks_def Q_GetChunksByFileHash_def
  using run_query_tables [OF surjective_pairing] by blast

lemma GetChunk_tables [simp]: "tables_of (snd (ChunkStore_GetChunk h i c)) = tables_of c"
  unfolding ChunkStore_GetChunk_def Q_GetChunk_def
  using run_query_tables [OF surjective_pairing] by blast

definition opens_are_frames :: "(world \<Rightarrow> bool) \<Rightarrow> bool" where
  "opens_are_frames P \<longleftrightarrow> (\<forall>w s. P w \<longrightarrow> fs_of s = fs_of (w_os w) \<longrightarrow> P (w\<lparr>w_os := s\<rparr>))"

lemma runs_open [runs_intros]: "opens_are_frames P \<Longrightarrow> runs P E (os_do (os_Open path))"
proof (rule runs_os_do)
  fix w assume "opens_are_frames P" "P w"
  then show "P (w\<lparr>w_os := snd (os_Open path (w_os w))\<rparr>)"
    using os_Open_result [of path "w_os w" "fst (os_Open path (w_os w))" "snd (os_Open path (w_os w))"]
    by (simp add: opens_are_frames_def)
qed

section \<open>Handlers that only read\<close>

text \<open>
  Rows that cannot make a chunk map panic: totals and the indices of available chunks are
  not negative.
\<close>

definition sane_db :: "sqldb \<Rightarrow> bool" where
  "sane_db c \<longleftrightarrow> wf_db c \<and> (\<forall>f \<in> set (files (tables_of c)). 0 \<le> f_TotalChunks f) \<and>
     (\<forall>k \<in> set (chunks (tables_of c)). c_IsAvailable k = 1 \<longrightarrow> 0 \<le> c_ChunkIndex k)"

lemma sane_db_cong: "tables_of c' = tables_of c \<Longrightarrow> sane_db c' = sane_db c"
  by (simp add: sane_db_def wf_db_def)

lemma stored_chunks_subset: "set (stored_chunks c h) \<subseteq> set (chunks (tables_of c))"
  by (auto simp: stored_chunks_def select_chunks_by_hash_def set_join_chunks_files)

lemma GetChunks_result:
  "ChunkStore_GetChunks h c = (Inr cs, c') \<Longrightarrow> cs = stored_chunks c h"
  unfolding ChunkStore_GetChunks_def Q_GetChunksByFileHash_def
  by (cases rule: run_query_cases [of "\<lambda>t. Inr (select_chunks_by_hash h t)" c]) (auto simp: stored_chunks_def)

lemma db_do_result: "db_do q w = (r, w') \<Longrightarrow> \<exists>x d. r = Inr x \<and> q (w_db w) = (x, d) \<and> w' = w\<lparr>w_db := d\<rparr>"
  by (auto simp: db_do_def split: prod.splits)

lemma runs_GetChunkMap [runs_intros]:
  assumes "queries_are_frames P" and sane: "\<And>w. P w \<Longrightarrow> sane_db (w_db w)"
  shows "runs P E (GetChunkMap h)"
  unfolding GetChunkMap_def
proof (rule runs_bind_if)
  show "runs P E (db_do (FileStore_GetFileByHash h))" by (rule runs_query) (simp_all add: assms)
  fix s r s' assume s: "P s" "db_do (FileStore_GetFileByHash h) s = (Inr r, s')"
  show "runs P E (case r of Inl e \<Rightarrow> go_return []
    | Inr f \<Rightarrow> go_bind (db_do (ChunkStore_GetChunks h)) (\<lambda>r'. case r' of Inl e \<Rightarrow> go_return []
        | Inr cs \<Rightarrow> go_lift (BuildChunkMap (f_TotalChunks f) cs)))"
  proof (rule runs_sum)
    show "runs P E (go_return [])" by (rule runs_return)
    fix f assume r: "r = Inr f"
    obtain d where q: "FileStore_GetFileByHash h (w_db s) = (Inr f, d)" using db_do_result [OF s(2)] r by auto
    have "stored_file (w_db s) h = Some f"
      using GetFileByHash_result [OF q [unfolded FileStore_GetFileByHash_def]] by (auto split: option.splits)
    then have tot: "0 \<le> f_TotalChunks f" using sane [OF s(1)] by (simp add: sane_db_def stored_file_Some)
    show "runs P E (go_bind (db_do (ChunkStore_GetChunks h)) (\<lambda>r'. case r' of Inl e \<Rightarrow> go_return []
        | Inr cs \<Rightarrow> go_lift (BuildChunkMap (f_TotalChunks f) cs)))"
    proof (rule runs_bind_if)
      show "runs P E (db_do (ChunkStore_GetChunks h))" by (rule runs_query) (simp_all add: assms)
      fix t r' t' assume t: "P t" "db_do (ChunkStore_GetChunks h) t = (Inr r', t')"
      have "\<exists>m. BuildChunkMap (f_TotalChunks f) cs = Inr m" if "r' = Inr cs" for cs
      proof -
        have "\<exists>d. ChunkStore_GetChunks h (w_db t) = (Inr cs, d)" using db_do_result [OF t(2)] that by auto
        then have "set cs \<subseteq> set (chunks (tables_of (w_db t)))"
          using GetChunks_result stored_chunks_subset by blast
        then show ?thesis using BuildChunkMap_ok [OF tot, of cs] sane [OF t(1)] by (auto simp: sane_db_def)
      qed
      then show "runs P E (case r' of Inl e \<Rightarrow> go_return []
          | Inr cs \<Rightarrow> go_lift (BuildChunkMap (f_TotalChunks f) cs))"
        by (cases r') (force intro: runs_intros runs_lift)+
    qed
  qed
qed

lemma runs_readChunk:
  assumes "queries_are_frames P" "opens_are_frames P" "MakeSliceNegative \<in> E \<or> 0 \<le> n"
  shows "runs P E (readChunkFromFile h i n m)"
  unfolding readChunkFromFile_def
  by (intro runs_intros runs_query runs_lift)
     (use assms in \<open>auto simp: ReadChunkData_def make_slice_def Let_def split: if_splits\<close>)

text \<open>The one panic of a chunk request: a stored row with a negative chunk size.\<close>

definition sizes_ok :: "sqldb \<Rightarrow> bool" where
  "sizes_ok c \<longleftrightarrow> (\<forall>k \<in> set (chunks (tables_of c)). 0 \<le> c_ChunkSize k)"

lemma GetChunk_result:
  "ChunkStore_GetChunk h i c = (Inr k, c') \<Longrightarrow> k \<in> set (chunks (tables_of c)) \<and> c_ChunkIndex k = i"
  unfolding ChunkStore_GetChunk_def Q_GetChunk_def
  by (cases rule: run_query_cases [of "\<lambda>t. first_row (filter (\<lambda>c. c_ChunkIndex c = i) (join_chunks_files h t))" c])
     (auto dest!: first_row_Inr simp: set_join_chunks_files)

lemma runs_handleChunkRequest:
  assumes fr: "sends_are_frames P" "queries_are_frames P" "opens_are_frames P"
    and sizes: "MakeSliceNegative \<in> E \<or> (\<forall>w. P w \<longrightarrow> sizes_ok (w_db w))"
  shows "runs P E (handleChunkRequest p m)"
  unfolding handleChunkRequest_def
proof (rule runs_bind_if)
  show "runs P E (db_do (ChunkStore_GetChunk (cr_FileHash m) (cr_ChunkIndex m)))"
    by (rule runs_query) (simp_all add: fr)
  fix s r s' assume s: "P s" "db_do (ChunkStore_GetChunk (cr_FileHash m) (cr_ChunkIndex m)) s = (Inr r, s')"
  have "MakeSliceNegative \<in> E \<or> 0 \<le> c_ChunkSize k" if r: "r = Inr k" for k
  proof -
    obtain d where "ChunkStore_GetChunk (cr_FileHash m) (cr_ChunkIndex m) (w_db s) = (Inr k, d)"
      using db_do_result [OF s(2)] r by auto
    then have "k \<in> set (chunks (tables_of (w_db s)))" using GetChunk_result by blast
    then show ?thesis using sizes s(1) by (auto simp: sizes_ok_def)
  qed
  then show "runs P E (case r of Inl e \<Rightarrow> go_return ()
    | Inr chunk \<Rightarrow> if c_IsAvailable chunk \<noteq> 1 then go_return ()
        else go_bind (readChunkFromFile (cr_FileHash m) (c_ChunkIndex chunk) (c_ChunkSize chunk) maxChunkSize)
         (\<lambda>d. case d of None \<Rightarrow> go_return ()
          | Some chunkData \<Rightarrow> go_bind (get_node n_peerDataChannels) (\<lambda>dcs. case mget dcs p of
              None \<Rightarrow> go_return ()
            | Some dc \<Rightarrow>
                go_then (send_dc dc (BuildChunkResponseMessage (cr_FileHash m) (cr_ChunkIndex m) chunkData))
                  (go_return ()))))"
    by (intro runs_intros runs_readChunk fr) auto
qed

lemma runs_sendIntroduction [runs_intros]:
  "sends_are_frames P \<Longrightarrow> queries_are_frames P \<Longrightarrow> (\<And>w. P w \<Longrightarrow> sane_db (w_db w)) \<Longrightarrow>
   runs P E (sendIntroduction p h)"
  unfolding sendIntroduction_def by (intro runs_intros)

lemma rand_Intn_result: "rand_Intn n w = (Inr x, w') \<Longrightarrow> 0 < n \<Longrightarrow> x < n"
  by (auto simp: rand_Intn_def split: list.splits)

lemma runs_SelectRandomPeer [runs_intros]: "sends_are_frames P \<Longrightarrow> runs P E (SelectRandomPeer ps)"
  unfolding SelectRandomPeer_def
proof (intro runs_if runs_bind_if runs_rand runs_return runs_lift)
  fix s x s' e assume "ps \<noteq> []" "rand_Intn (length ps) s = (Inr x, s')" "slice_get ps (int x) = Inl e"
  then show "e \<in> E" using rand_Intn_result [of "length ps" s x s'] by (auto simp: slice_get_def)
qed

lemma go_get_node [simp]: "go_bind (get_node f) g w = g (f (w_node w)) w"
  by (simp add: get_node_def go_gets_def go_bind_def)

text \<open>A handler that uses what it read from the node, as long as that does not change.\<close>

lemma runs_get_node_at:
  assumes "\<And>w. P w \<Longrightarrow> runs (\<lambda>w'. P w' \<and> f (w_node w') = f (w_node w)) E (g (f (w_node w)))"
  shows "runs P E (go_bind (get_node f) g)"
  using assms by (fastforce simp: runs_def)

text \<open>The send loop keeps the channel it looks up.\<close>

lemma runs_retries:
  assumes "sends_are_frames P" "\<And>w. P w \<Longrightarrow> mget (n_peerDataChannels (w_node w)) p \<noteq> None" "for_peer msg"
  shows "runs P E (send_with_retries n p msg)"
proof (induction n)
  case (Suc n)
  show ?case
  proof (rule runsI)
    fix w assume w: "P w"
    then obtain dc where dc: "mget (n_peerDataChannels (w_node w)) p = Some dc" using assms(2) by fastforce
    have "runs P E (go_bind (send_dc dc msg) (\<lambda>ok. if ok then go_return True else send_with_retries n p msg))"
      by (intro runs_intros assms(1,3) Suc.IH)
    then show "P (snd (send_with_retries (Suc n) p msg w)) \<and>
        (\<forall>e. fst (send_with_retries (Suc n) p msg w) = Inl e \<longrightarrow> e \<in> E)"
      using w dc by (simp add: runs_def)
  qed
qed (simp add: runs_return)

text \<open>The peers FindEligiblePeers lists are those whose map has a 1 at the index.\<close>

definition offers :: "string \<Rightarrow> int \<Rightarrow> (string, int list) gomap \<Rightarrow> bool" where
  "offers h i fs \<longleftrightarrow> (case mget fs h of None \<Rightarrow> False
     | Some cs \<Rightarrow> i < int32 (int (length cs)) \<and> cs ! nat i = 1)"

lemma int32_le: "0 \<le> x \<Longrightarrow> int32 x \<le> x"
proof -
  assume "0 \<le> x"
  then have "signed_take_bit 31 x \<le> x"
    using signed_take_bit_int_less_eq_self_iff by (meson dual_order.trans neg_le_0_iff_le zero_le_numeral zero_le_power)
  then show ?thesis by (simp add: int32_def)
qed

lemma FindEligiblePeers_offers:
  "0 \<le> i \<Longrightarrow> FindEligiblePeers m h i = Inr (map fst (filter (\<lambda>(p, fs). offers h i fs) m))"
proof (induction m)
  case (Cons a m)
  obtain p fs where a: "a = (p, fs)" by (cases a)
  show ?case
  proof (cases "mget fs h")
    case None
    then show ?thesis using Cons by (simp add: a offers_def)
  next
    case (Some cs)
    have "slice_get cs i = Inr (cs ! nat i)" if "i < int32 (int (length cs))"
      using that Cons.prems int32_le [of "int (length cs)"] by (simp add: slice_get_ok)
    then show ?thesis using Some Cons by (auto simp: a offers_def)
  qed
qed simp

lemma find_missing_nonneg:
  "length cs \<le> 2 ^ 31 \<Longrightarrow> FindMissingChunkIndex cs \<noteq> -1 \<Longrightarrow> 0 \<le> FindMissingChunkIndex cs"
  using find_missing_from_pos [of 0 cs "FindMissingChunkIndex cs"] by (simp add: FindMissingChunkIndex_def)

text \<open>Enough that the file has at most \<open>2 ^ 31\<close> chunk rows: an index then fits an int32.\<close>

lemma runs_request:
  assumes fr: "sends_are_frames P" "queries_are_frames P"
    and small: "IndexOutOfRange \<in> E \<or> (\<forall>w. P w \<longrightarrow> length (stored_chunks (w_db w) h) \<le> 2 ^ 31)"
  shows "runs P E (requestOneMissingChunk h)"
  unfolding requestOneMissingChunk_def Let_def
proof (rule runs_bind_if)
  show "runs P E (db_do (ChunkStore_GetChunks h))" by (rule runs_query) (simp_all add: fr)
  fix s r s' assume s: "P s" "db_do (ChunkStore_GetChunks h) s = (Inr r, s')"
  have send: "runs P E (go_bind (get_node n_peerDataChannels) (\<lambda>dcs. if mget dcs p = None then go_return ()
      else go_then (send_with_retries k p (BuildChunkRequestMessage h i)) (go_return ())))" for p k i
  proof (rule runs_get_node_at)
    fix w assume w: "P w"
    let ?P = "\<lambda>w'. P w' \<and> n_peerDataChannels (w_node w') = n_peerDataChannels (w_node w)"
    show "runs ?P E (if mget (n_peerDataChannels (w_node w)) p = None then go_return ()
        else go_then (send_with_retries k p (BuildChunkRequestMessage h i)) (go_return ()))"
      by (intro runs_intros runs_retries) (use fr(1) in \<open>auto simp: sends_are_frames_def\<close>)
  qed
  have "e \<in> E" if "r = Inr cs" "FindMissingChunkIndex cs \<noteq> -1"
    "FindEligiblePeers m h (FindMissingChunkIndex cs) = Inl e" for cs m e
  proof (cases "length cs \<le> 2 ^ 31")
    case True
    then show ?thesis using that FindEligiblePeers_offers find_missing_nonneg by fastforce
  next
    case False
    have "cs = stored_chunks (w_db s) h" using db_do_result [OF s(2)] that(1) GetChunks_result by blast
    then have "IndexOutOfRange \<in> E" using small False s(1) by blast
    moreover have "FindEligiblePeers m h j = Inl e \<Longrightarrow> e = IndexOutOfRange" for j
      by (induction m h j rule: FindEligiblePeers.induct)
        (auto simp: slice_get_def split: option.splits sum.splits if_splits)
    ultimately show ?thesis using that(3) by blast
  qed
  then show "runs P E (case r of Inl e \<Rightarrow> go_return ()
    | Inr localChunks \<Rightarrow> if FindMissingChunkIndex localChunks = - 1 then go_return ()
        else go_bind (get_node n_peerChunkMap) (\<lambda>m.
          go_bind (go_lift (FindEligiblePeers m h (FindMissingChunkIndex localChunks))) (\<lambda>eligible.
            if eligible = [] then go_return ()
            else go_bind (SelectRandomPeer eligible) (\<lambda>selected.
              go_bind (get_node n_peerDataChannels) (\<lambda>dcs. if mget dcs selected = None then go_return ()
                else go_then (send_with_retries maxRetries selected
                       (BuildChunkRequestMessage h (FindMissingChunkIndex localChunks))) (go_return ()))))))"
    by (intro runs_intros send fr runs_lift) auto
qed

lemma runs_tick:
  assumes fr: "sends_are_frames P" "queries_are_frames P"
    and "\<And>w. P w \<Longrightarrow> P (w\<lparr>w_node := (w_node w)\<lparr>n_activeDownloads := mdel h (n_activeDownloads (w_node w))\<rparr>\<rparr>)"
    and small: "IndexOutOfRange \<in> E \<or> (\<forall>w. P w \<longrightarrow> length (stored_chunks (w_db w) h) \<le> 2 ^ 31)"
  shows "runs P E (download_tick h)"
  unfolding download_tick_def
  by (intro runs_intros runs_query runs_request fr small runs_upd_node) (use assms in simp_all)

section \<open>The state of a transfer\<close>

abbreviation M :: nat where
  "M \<equiv> 32768"

lemma maxChunkSize_M [simp]: "maxChunkSize = int M"
  by (simp add: maxChunkSize_def)

definition tiles :: "bytes \<Rightarrow> nat" where
  "tiles xs = length (split_chunks M xs)"

lemma tiles_iff: "i < tiles xs \<longleftrightarrow> i * M < length xs"
  unfolding tiles_def by (rule chunk_start) simp

definition have_chunks :: "world \<Rightarrow> string \<Rightarrow> nat set" where
  "have_chunks w h = {i. \<exists>c \<in> set (stored_chunks (w_db w) h). c_ChunkIndex c = int i \<and> c_IsAvailable c = 1}"

definition file_path :: "world \<Rightarrow> file_row \<Rightarrow> string" where
  "file_path w f = BuildDownloadPath (n_ipcSocketIndex (w_node w)) (f_Name f)"

text \<open>
  The receiver of a file with contents \<open>xs\<close>: its rows are the chunks of \<open>xs\<close> in order, its file
  agrees with \<open>xs\<close> on every chunk marked available and is not longer, and its own chunk map has
  one entry per chunk.
\<close>

definition stored_ok :: "string \<Rightarrow> bytes \<Rightarrow> world \<Rightarrow> bool" where
  "stored_ok h xs w \<longleftrightarrow>
     sane_db (w_db w) \<and> sizes_ok (w_db w) \<and> int (length xs) \<le> 2 ^ 46 \<and>
     map c_ChunkIndex (stored_chunks (w_db w) h) = map int [0..<tiles xs] \<and>
     (\<exists>f content. stored_file (w_db w) h = Some f \<and> fs_of (w_os w) (file_path w f) = Some content \<and>
        agrees_on M xs (have_chunks w h) content)"

definition own_map_ok :: "string \<Rightarrow> bytes \<Rightarrow> world \<Rightarrow> bool" where
  "own_map_ok h xs w \<longleftrightarrow>
     (\<exists>own cs. mget (n_peerChunkMap (w_node w)) (n_id (w_node w)) = Some own \<and>
        mget own h = Some cs \<and> length cs = tiles xs)"

definition transfer_inv :: "string \<Rightarrow> bytes \<Rightarrow> world \<Rightarrow> bool" where
  "transfer_inv h xs w \<longleftrightarrow> stored_ok h xs w \<and> own_map_ok h xs w"

text \<open>It depends on the tables, the files and the node's id, directory and chunk map only.\<close>

lemma stored_ok_cong:
  assumes "tables_of (w_db w') = tables_of (w_db w)" "fs_of (w_os w') = fs_of (w_os w)"
    and "n_ipcSocketIndex (w_node w') = n_ipcSocketIndex (w_node w)"
  shows "stored_ok h xs w' = stored_ok h xs w"
proof -
  have "stored_chunks (w_db w') = stored_chunks (w_db w)" "stored_file (w_db w') = stored_file (w_db w)"
    using assms(1) by (simp_all add: stored_chunks_def stored_file_def fun_eq_iff)
  then show ?thesis using assms sane_db_cong [OF assms(1)]
    by (simp add: stored_ok_def sizes_ok_def have_chunks_def file_path_def)
qed

lemma transfer_inv_cong:
  assumes "tables_of (w_db w') = tables_of (w_db w)" "fs_of (w_os w') = fs_of (w_os w)"
    and "n_ipcSocketIndex (w_node w') = n_ipcSocketIndex (w_node w)"
    and "n_id (w_node w') = n_id (w_node w)"
    and "mget (n_peerChunkMap (w_node w')) (n_id (w_node w)) = mget (n_peerChunkMap (w_node w)) (n_id (w_node w))"
  shows "transfer_inv h xs w' = transfer_inv h xs w"
  using stored_ok_cong [OF assms(1-3)] assms(4,5) by (simp add: transfer_inv_def own_map_ok_def)

lemma transfer_sends: "sends_are_frames (transfer_inv h xs)"
  unfolding sends_are_frames_def by (auto elim!: transfer_inv_cong [THEN iffD2, rotated -1])

lemma transfer_queries: "queries_are_frames (transfer_inv h xs)"
  unfolding queries_are_frames_def by (auto elim!: transfer_inv_cong [THEN iffD2, rotated -1])

lemma transfer_opens: "opens_are_frames (transfer_inv h xs)"
  unfolding opens_are_frames_def by (auto elim!: transfer_inv_cong [THEN iffD2, rotated -1])

lemmas transfer_frames = transfer_sends transfer_queries transfer_opens

text \<open>A complete transfer has the whole file.\<close>

lemma have_all:
  assumes "map c_ChunkIndex (stored_chunks (w_db w) h) = map int [0..<n]"
    and "IsDownloadComplete (stored_chunks (w_db w) h)" "i < n"
  shows "i \<in> have_chunks w h"
proof -
  have "int i \<in> set (map c_ChunkIndex (stored_chunks (w_db w) h))" using assms(1,3) by simp
  then obtain c where "c \<in> set (stored_chunks (w_db w) h)" "c_ChunkIndex c = int i" by auto
  then show ?thesis using assms(2) by (auto simp: have_chunks_def IsDownloadComplete_iff)
qed

lemma complete_transfer:
  assumes "stored_ok h xs w" "IsDownloadComplete (stored_chunks (w_db w) h)" "stored_file (w_db w) h = Some f"
  shows "fs_of (w_os w) (file_path w f) = Some xs"
proof -
  obtain content where c: "fs_of (w_os w) (file_path w f) = Some content" "agrees_on M xs (have_chunks w h) content"
    "map c_ChunkIndex (stored_chunks (w_db w) h) = map int [0..<tiles xs]"
    using assms(1,3) by (auto simp: stored_ok_def)
  have "\<forall>i. i * M < length xs \<longrightarrow> i \<in> have_chunks w h"
    using have_all [OF c(3) assms(2)] by (simp add: tiles_iff)
  then show ?thesis using agrees_on_all [of M xs, OF _ c(2)] c(1) by simp
qed

section \<open>Receiving a chunk\<close>

lemma go_bind_Inr: "m w = (Inr x, w1) \<Longrightarrow> go_bind m f w = f x w1"
  by (simp add: go_bind_def)

lemma go_then_Inr: "m w = (Inr x, w1) \<Longrightarrow> go_then m k w = k w1"
  by (simp add: go_then_def go_bind_def)

lemmas go_run = go_bind_Inr go_then_Inr

text \<open>Two worlds that differ in what was sent and in the schedule of failures only.\<close>

definition same_data :: "world \<Rightarrow> world \<Rightarrow> bool" where
  "same_data w w' \<longleftrightarrow> w_db w' = w_db w \<and> w_os w' = w_os w \<and> w_node w' = w_node w"

lemma succeeds_result: "\<exists>b w'. succeeds w = (Inr b, w') \<and> same_data w w'"
  by (cases "w_fails w") (auto simp: succeeds_def same_data_def)

lemma send_cli_result: "\<exists>b w'. send_cli r msg w = (Inr b, w') \<and> same_data w w'"
proof -
  obtain b w1 where s: "succeeds w = (Inr b, w1)" "same_data w w1" using succeeds_result by blast
  then show ?thesis by (cases b) (auto simp: send_cli_def go_simps same_data_def)
qed

lemma messageCLI_result: "\<exists>w'. messageCLI s w = (Inr (), w') \<and> same_data w w'"
proof (cases "n_cliRouter (w_node w)")
  case None
  then show ?thesis by (simp add: messageCLI_def get_node_def go_simps same_data_def)
next
  case (Some r)
  obtain b w1 where "send_cli r (BuildLogMessage s) w = (Inr b, w1)" "same_data w w1"
    using send_cli_result by blast
  then show ?thesis using Some by (auto simp: messageCLI_def get_node_def go_simps)
qed

text \<open>The write of one chunk, in the terms of the file's contents.\<close>

lemma os_WriteChunk_result:
  assumes "os_WriteChunk path (int i) (int M) (tile M xs i) s = (r, s')"
    and "fs_of s path = Some content" "i * M < length xs" "int (length xs) < 2 ^ 63"
  shows "r = Inl IOFault \<and> fs_of s' = fs_of s \<or>
    r = Inr () \<and> fs_of s' = (fs_of s)(path \<mapsto> write_at content (i * M) (tile M xs i))"
  using os_call_result [OF assms(1) [unfolded os_WriteChunk_def]] assms(2)
    WriteChunkData_tile [OF assms(3,4), of content] by auto

lemma mark_own_chunk_result:
  assumes "own_map_ok h xs w" "i < tiles xs"
  shows "\<exists>w'. mark_own_chunk h (int i) w = (Inr (), w') \<and> own_map_ok h xs w' \<and> w_db w' = w_db w \<and>
    w_os w' = w_os w \<and> n_ipcSocketIndex (w_node w') = n_ipcSocketIndex (w_node w) \<and>
    n_id (w_node w') = n_id (w_node w)"
proof -
  obtain own cs where o: "mget (n_peerChunkMap (w_node w)) (n_id (w_node w)) = Some own"
    "mget own h = Some cs" "length cs = tiles xs" using assms(1) by (auto simp: own_map_ok_def)
  then have "slice_set cs (int i) 1 = Inr (cs[i := 1])" using assms(2) by (simp add: slice_set_def)
  then show ?thesis
    using o by (auto simp: mark_own_chunk_def get_node_def upd_node_def Let_def go_simps own_map_ok_def)
qed

text \<open>What marking adds to the set of available chunks.\<close>

lemma have_chunks_marked:
  assumes "stored_chunks d h = map (set_available (int i)) (stored_chunks (w_db w) h)" "w_db w' = d"
  shows "have_chunks w' h \<subseteq> insert i (have_chunks w h)"
  using assms by (auto simp: have_chunks_def split: if_splits)

lemma agrees_on_subset: "agrees_on m xs S content \<Longrightarrow> S' \<subseteq> S \<Longrightarrow> agrees_on m xs S' content"
  by (auto simp: agrees_on_def)

lemma mark_sane:
  assumes "sane_db c" "sizes_ok c" "ChunkStore_MarkChunkAvailable h (int i) c = (r, d)"
  shows "sane_db d \<and> sizes_ok d"
proof -
  have "wf_db d"
    using Q_MarkChunkAvailable_wf [of c h "int i"] assms(1,3)
    by (simp add: sane_db_def ChunkStore_MarkChunkAvailable_def)
  then show ?thesis
    using Q_Mark_result [OF assms(3) [unfolded ChunkStore_MarkChunkAvailable_def]] assms(1,2)
    by (cases r) (auto simp: sane_db_def sizes_ok_def mark_row_def)
qed

lemma mark_stored_ok:
  assumes ok: "sane_db (w_db w)" "sizes_ok (w_db w)" "int (length xs) \<le> 2 ^ 46"
      "map c_ChunkIndex (stored_chunks (w_db w) h) = map int [0..<tiles xs]"
      "stored_file (w_db w) h = Some f" "fs_of (w_os w) (file_path w f) = Some content"
      "agrees_on M xs (insert i (have_chunks w h)) content"
    and mark: "ChunkStore_MarkChunkAvailable h (int i) (w_db w) = (r, d)"
  shows "stored_ok h xs (w\<lparr>w_db := d\<rparr>)"
proof -
  have files: "files (tables_of d) = files (tables_of (w_db w))"
    using Q_Mark_result [OF mark [unfolded ChunkStore_MarkChunkAvailable_def]] by simp
  have wf: "wf_db (w_db w)" using ok(1) by (simp add: sane_db_def)
  have rows: "sane_db d \<and> sizes_ok d" by (rule mark_sane [OF ok(1,2) mark])
  have sf: "stored_file d h = Some f" using stored_file_cong [OF files] ok(5) by simp
  have sc: "stored_chunks d h = stored_chunks (w_db w) h \<or>
      stored_chunks d h = map (set_available (int i)) (stored_chunks (w_db w) h)"
    using chunk_store.mark_ok [OF wf, of h "int i"] chunk_store.mark_err [OF wf, of h "int i"] mark
    by (cases r) auto
  then have "have_chunks (w\<lparr>w_db := d\<rparr>) h \<subseteq> insert i (have_chunks w h)"
  proof
    assume "stored_chunks d h = stored_chunks (w_db w) h"
    then show ?thesis by (auto simp: have_chunks_def)
  qed (auto dest: have_chunks_marked [of d h i w "w\<lparr>w_db := d\<rparr>"])
  then have "agrees_on M xs (have_chunks (w\<lparr>w_db := d\<rparr>) h) content" by (rule agrees_on_subset [OF ok(7)])
  moreover have "map c_ChunkIndex (stored_chunks d h) = map int [0..<tiles xs]"
    using sc ok(4) by (auto simp: comp_def if_distrib cong: if_cong)
  ultimately show ?thesis using ok(3,6) rows sf by (simp add: stored_ok_def file_path_def)
qed

lemma same_data_inv: "same_data w w' \<Longrightarrow> transfer_inv h xs w' = transfer_inv h xs w"
  by (rule transfer_inv_cong) (auto simp: same_data_def)

lemma db_do_eq: "q (w_db w) = (r, d) \<Longrightarrow> db_do q w = (Inr r, w\<lparr>w_db := d\<rparr>)"
  by (simp add: db_do_def)

lemma os_do_eq: "q (w_os w) = (r, s) \<Longrightarrow> os_do q w = (Inr r, w\<lparr>w_os := s\<rparr>)"
  by (simp add: os_do_def)

lemma get_node_eq: "get_node f w = (Inr (f (w_node w)), w)"
  by (simp add: get_node_def go_gets_def)

text \<open>After the write: the rows are as before, the file has one more chunk.\<close>

lemma write_stored_ok:
  assumes ok: "stored_ok h xs w" and f: "stored_file (w_db w) h = Some f" and i: "i < tiles xs"
    and fs: "fs_of s = (fs_of (w_os w))(file_path w f \<mapsto> write_at content (i * M) (tile M xs i))"
    and c: "fs_of (w_os w) (file_path w f) = Some content"
  shows "fs_of s (file_path w f) = Some (write_at content (i * M) (tile M xs i)) \<and>
    agrees_on M xs (insert i (have_chunks w h)) (write_at content (i * M) (tile M xs i))"
proof -
  have "agrees_on M xs (have_chunks w h) content" using ok f c by (auto simp: stored_ok_def)
  then show ?thesis using write_tile_agrees [of M xs _ content i] i fs by (simp add: tiles_iff)
qed

text \<open>A message to the CLI is a step no handler sees.\<close>

lemma messageCLI_then: "\<exists>w1. same_data w w1 \<and> (\<forall>k :: unit act. go_then (messageCLI s) k w = k w1)"
proof -
  obtain w1 where "messageCLI s w = (Inr (), w1)" "same_data w w1" using messageCLI_result by blast
  then show ?thesis by (auto simp: go_then_def go_bind_def)
qed

lemma receive_tile:
  assumes inv: "transfer_inv h xs w"
    and m: "cs_FileHash m = h" "cs_ChunkIndex m = int i" "i < tiles xs" "cs_ChunkData m = tile M xs i"
  shows "\<exists>w'. handleChunkResponse p m w = (Inr (), w') \<and> transfer_inv h xs w'"
proof -
  obtain w1 where w1: "same_data w w1"
    "\<And>k :: unit act. go_then (messageCLI (''Got chunk '' @ FormatInt (cs_ChunkIndex m) @ '' from peer '' @ p)) k w = k w1"
    using messageCLI_then by blast
  obtain w2 where w2: "same_data w1 w2" "\<And>k :: unit act. go_then (messageCLI ''progress'') k w1 = k w2"
    using messageCLI_then by blast
  have inv2: "transfer_inv h xs w2" using inv same_data_inv [OF w1(1)] same_data_inv [OF w2(1)] by simp
  obtain r d3 where q: "FileStore_GetFileNameByHash h (w_db w2) = (r, d3)"
    by (cases "FileStore_GetFileNameByHash h (w_db w2)")
  note Q = GetFileNameByHash_result [OF q [unfolded FileStore_GetFileNameByHash_def]]
  let ?w3 = "w2\<lparr>w_db := d3\<rparr>"
  have inv3: "transfer_inv h xs ?w3" using inv2 Q transfer_inv_cong [of ?w3 w2] by simp
  have db3: "db_do (FileStore_GetFileNameByHash h) w2 = (Inr r, ?w3)" by (rule db_do_eq) (simp add: q)
  note run = go_then_def go_bind_def m(1,2,4) db3 get_node_eq Let_def
  have "\<exists>w'. (go_bind (db_do (FileStore_GetFileNameByHash (cs_FileHash m))) (\<lambda>r. case r of
      Inl e \<Rightarrow> go_return ()
    | Inr fileName \<Rightarrow> go_bind (get_node n_ipcSocketIndex) (\<lambda>idx.
        let filePath = BuildDownloadPath idx fileName
        in go_bind (os_do (os_Open filePath)) (\<lambda>f. case f of
             Inl e \<Rightarrow> go_return ()
           | Inr content \<Rightarrow>
               go_bind (os_do (os_WriteChunk filePath (cs_ChunkIndex m) maxChunkSize (cs_ChunkData m))) (\<lambda>wr.
               case wr of
                 Inl e \<Rightarrow> go_return ()
               | Inr u \<Rightarrow> go_then (mark_own_chunk (cs_FileHash m) (cs_ChunkIndex m))
                   (go_then (db_do (ChunkStore_MarkChunkAvailable (cs_FileHash m) (cs_ChunkIndex m)))
                     (go_return ()))))))) w2 = (Inr (), w') \<and> transfer_inv h xs w'"
  proof (cases r)
    case (Inl e)
    then show ?thesis using inv3 by (simp add: run go_return_def)
  next
    case (Inr fileName)
    obtain f content where f: "stored_file (w_db w2) h = Some f" "fs_of (w_os w2) (file_path w2 f) = Some content"
      and ok2: "stored_ok h xs w2" using inv2 by (auto simp: transfer_inv_def stored_ok_def)
    have name: "BuildDownloadPath (n_ipcSocketIndex (w_node w2)) fileName = file_path w2 f"
      using Q f(1) Inr by (auto simp: file_path_def)
    obtain ro s4 where o: "os_Open (file_path w2 f) (w_os w2) = (ro, s4)" by (cases "os_Open (file_path w2 f) (w_os w2)")
    note O = os_Open_result [OF o]
    let ?w4 = "?w3\<lparr>w_os := s4\<rparr>"
    have inv4: "transfer_inv h xs ?w4" using inv3 O transfer_inv_cong [of ?w4 ?w3] by simp
    have open4: "os_do (os_Open (file_path w2 f)) ?w3 = (Inr ro, ?w4)" by (rule os_do_eq) (simp add: o)
    show ?thesis
    proof (cases ro)
      case (Inl e)
      then show ?thesis using inv4 Inr by (simp add: run name open4 go_return_def)
    next
      case opened: (Inr c)
      obtain rw s5 where wr: "os_WriteChunk (file_path w2 f) (int i) (int M) (tile M xs i) s4 = (rw, s5)"
        by (cases "os_WriteChunk (file_path w2 f) (int i) (int M) (tile M xs i) s4")
      have len: "i * M < length xs" "int (length xs) < 2 ^ 63"
        using m(3) ok2 by (auto simp: tiles_iff stored_ok_def)
      have c4: "fs_of s4 (file_path w2 f) = Some content" using O f(2) by simp
      note W = os_WriteChunk_result [OF wr c4 len]
      let ?w5 = "?w4\<lparr>w_os := s5\<rparr>"
      have write5: "os_do (os_WriteChunk (file_path w2 f) (int i) 32768 (tile M xs i)) ?w4 = (Inr rw, ?w5)"
        by (rule os_do_eq) (use wr in simp)
      note run5 = run Inr opened name open4 write5
      show ?thesis
      proof (cases rw)
        case (Inl e)
        then have "fs_of s5 = fs_of s4" using W by simp
        then have "transfer_inv h xs ?w5" using inv4 transfer_inv_cong [of ?w5 ?w4] by simp
        then show ?thesis using Inl by (simp add: run5 go_return_def)
      next
        case written: (Inr u)
        have fs5: "fs_of s5 = (fs_of (w_os ?w4))(file_path ?w4 f \<mapsto> write_at content (i * M) (tile M xs i))"
          using W written by (simp add: file_path_def)
        have ok4: "stored_ok h xs ?w4" using inv4 by (simp add: transfer_inv_def)
        have sf4: "stored_file (w_db ?w4) h = Some f" using Q f(1) by (simp add: stored_file_def)
        have c4': "fs_of (w_os ?w4) (file_path ?w4 f) = Some content" using c4 by (simp add: file_path_def)
        note S = write_stored_ok [OF ok4 sf4 m(3) fs5 c4']
        have own5: "own_map_ok h xs ?w5" using inv4 by (simp add: transfer_inv_def own_map_ok_def)
        obtain w6 where w6: "mark_own_chunk h (int i) ?w5 = (Inr (), w6)" "own_map_ok h xs w6"
          "w_db w6 = w_db ?w5" "w_os w6 = w_os ?w5" "n_ipcSocketIndex (w_node w6) = n_ipcSocketIndex (w_node ?w5)"
          using mark_own_chunk_result [OF own5 m(3)] by blast
        obtain rm d7 where mk: "ChunkStore_MarkChunkAvailable h (int i) (w_db w6) = (rm, d7)"
          by (cases "ChunkStore_MarkChunkAvailable h (int i) (w_db w6)")
        have db7: "db_do (ChunkStore_MarkChunkAvailable h (int i)) w6 = (Inr rm, w6\<lparr>w_db := d7\<rparr>)"
          by (rule db_do_eq) (simp add: mk)
        have "stored_ok h xs (w6\<lparr>w_db := d7\<rparr>)"
          by (rule mark_stored_ok [OF _ _ _ _ _ _ _ mk, of xs f "write_at content (i * M) (tile M xs i)"])
             (use ok4 sf4 S w6 in \<open>simp_all add: stored_ok_def have_chunks_def file_path_def\<close>)
        then have "transfer_inv h xs (w6\<lparr>w_db := d7\<rparr>)" using w6(2) by (simp add: transfer_inv_def own_map_ok_def)
        then show ?thesis
          using written w6(1) by (simp add: run5 db7 go_return_def)
      qed
    qed
  qed
  then show ?thesis unfolding handleChunkResponse_def w1(2) w2(2) .
qed

end
