(* ===== verification/Daemon.thy ===== *)
theory Daemon
  imports NodeInv
begin

text \<open>
  The daemon as a transition system: its handlers as the events of one state, in any order.
  The goroutines are those of internal/node/node.go (Start), internal/node/ipc.go
  (handleCLIMsgs), internal/node/tracker.go (handleTrackerMsgs, sendHeartBeatsToTracker),
  internal/node/manager.go (downloadManager) and the callbacks registered in
  internal/node/webrtc.go.
\<close>

section \<open>State and events\<close>

text \<open>
  Besides its world a daemon has the download handlers that wait in their select, each with
  the hash and total it will start the download with; and whether the goroutine that reads
  the tracker's channels is blocked for ever.
\<close>

record daemon =
  d_world :: world
  d_waiting :: "(string \<times> int) list"
  d_stuck :: bool

datatype node_event =
    Init
  | StateChange rtc_object PeerConnectionState
  | DataChannelArrives rtc_object
  | CandidateFound rtc_object "ICECandidateInit option"
  | ChannelOpens rtc_object
  | ChannelCloses rtc_object
  | PeerMessage rtc_object "NetworkMessage option"
  | Signal SignalingMessage
  | PeerList PeerListResponse
  | Identity IDMessage
  | CliConnects string nat
  | RegisterSignal SignalRegisterMessage
  | DownloadSignal SignalDownloadMessage
  | DownloadAnswer nat
  | DownloadTimeout nat
  | ManagerTick string
  | HeartbeatTick
  | TimePasses int

text \<open>A handler that works on the world, the rest of the daemon unchanged.\<close>

definition on_world :: "'a act \<Rightarrow> (daemon, 'a) go" where
  "on_world m d = (case m (d_world d) of (r, w) \<Rightarrow> (r, d\<lparr>d_world := w\<rparr>))"

definition remove_nth :: "nat \<Rightarrow> 'a list \<Rightarrow> 'a list" where
  "remove_nth i xs = take i xs @ drop (Suc i) xs"

text \<open>The select of waiting handler number \<open>i\<close> receives from its channel.\<close>

definition download_answer :: "nat \<Rightarrow> (daemon, unit) go" where
  "download_answer i = go_bind (go_gets (\<lambda>d. d_waiting d ! i)) (\<lambda>(h, tot).
     go_then (go_modify (\<lambda>d. d\<lparr>d_waiting := remove_nth i (d_waiting d)\<rparr>))
     (go_bind (go_gets (\<lambda>d. mget (n_pendingPeerListRequests (w_node (d_world d))) h)) (\<lambda>q.
      case q of
        Some (resp # rest) \<Rightarrow>
          go_then (on_world (upd_node (\<lambda>n. n\<lparr>n_pendingPeerListRequests :=
              mput h rest (n_pendingPeerListRequests n)\<rparr>)))
            (on_world (on_download_answer h tot resp))
      | _ \<Rightarrow> go_return ())))"

text \<open>A blocked send stops the goroutine of the tracker messages, and only that.\<close>

definition peer_list_event :: "PeerListResponse \<Rightarrow> (daemon, unit) go" where
  "peer_list_event resp d =
     (case on_world (on_peer_list resp) d of
        (Inl BlockedForever, d') \<Rightarrow> (Inr (), d'\<lparr>d_stuck := True\<rparr>)
      | other \<Rightarrow> other)"

text \<open>The commands of the CLI: a download that gets to its select waits there.\<close>

definition handleCLIMsgs ::
  "(bytes \<Rightarrow> bytes) \<Rightarrow> SignalDownloadMessage + SignalRegisterMessage \<Rightarrow> (daemon, unit) go" where
  "handleCLIMsgs sha msg = (case msg of
     Inl downloadSignal \<Rightarrow> go_bind (on_world (handleDownloadSignal downloadSignal)) (\<lambda>r.
       case r of
         None \<Rightarrow> go_return ()
       | Some wt \<Rightarrow> go_modify (\<lambda>d. d\<lparr>d_waiting := d_waiting d @ [wt]\<rparr>))
   | Inr registerSignal \<Rightarrow> on_world (handleRegisterSignal sha registerSignal))"

fun handle_event :: "(bytes \<Rightarrow> bytes) \<Rightarrow> node_event \<Rightarrow> (daemon, unit) go" where
  "handle_event sha Init = on_world node_init"
| "handle_event sha (StateChange pc s) = on_world (OnConnectionStateChange pc s)"
| "handle_event sha (DataChannelArrives pc) = on_world (OnDataChannel pc)"
| "handle_event sha (CandidateFound pc ice) = on_world (OnICECandidate pc ice)"
| "handle_event sha (ChannelOpens dc) = on_world (OnOpen dc)"
| "handle_event sha (ChannelCloses dc) = on_world (OnClose dc)"
| "handle_event sha (PeerMessage dc decoded) = on_world (webrtcMessageHandler decoded (rtc_peer dc))"
| "handle_event sha (Signal s) = on_world (on_signaling s)"
| "handle_event sha (PeerList resp) = peer_list_event resp"
| "handle_event sha (Identity m) = on_world (on_id m)"
| "handle_event sha (CliConnects addr r) = on_world (accept_cli addr r)"
| "handle_event sha (RegisterSignal m) = handleCLIMsgs sha (Inr m)"
| "handle_event sha (DownloadSignal m) = handleCLIMsgs sha (Inl m)"
| "handle_event sha (DownloadAnswer i) = download_answer i"
| "handle_event sha (DownloadTimeout i) = go_modify (\<lambda>d. d\<lparr>d_waiting := remove_nth i (d_waiting d)\<rparr>)"
| "handle_event sha (ManagerTick h) = go_then (on_world (download_tick h)) (go_return ())"
| "handle_event sha HeartbeatTick = on_world heartbeat_tick"
| "handle_event sha (TimePasses t) = on_world (go_modify (\<lambda>w. w\<lparr>w_now := t\<rparr>))"

lemma handleCLIMsgs_simps [simp]:
  "handleCLIMsgs sha (Inr m) = on_world (handleRegisterSignal sha m)"
  "handleCLIMsgs sha (Inl d) = go_bind (on_world (handleDownloadSignal d)) (\<lambda>r. case r of
     None \<Rightarrow> go_return () | Some wt \<Rightarrow> go_modify (\<lambda>d. d\<lparr>d_waiting := d_waiting d @ [wt]\<rparr>))"
  by (simp_all add: handleCLIMsgs_def)

text \<open>The files whose number of chunks does not overflow int64.\<close>

definition countable_size :: "bytes \<Rightarrow> bool" where
  "countable_size content \<longleftrightarrow> int (length content) + maxChunkSize - 1 < 2 ^ 63"

text \<open>
  When an event can happen: callbacks belong to objects that exist, a data channel arrives on
  a connection this side did not initiate, a peer list is passed on when its channel has
  room, a manager runs while its download is active, and a file to register has a countable size
  (it is not within 32 KiB of the largest int64).
\<close>

fun possible :: "node_event \<Rightarrow> daemon \<Rightarrow> bool" where
  "possible Init d = True"
| "possible (StateChange pc s) d = (pc \<in> set (w_pcs (d_world d)))"
| "possible (DataChannelArrives pc) d = (pc \<in> set (w_pcs (d_world d)) \<and> \<not> rtc_initiator pc)"
| "possible (CandidateFound pc ice) d = (pc \<in> set (w_pcs (d_world d)))"
| "possible (ChannelOpens dc) d = (dc \<in> set (w_dcs (d_world d)))"
| "possible (ChannelCloses dc) d = (dc \<in> set (w_dcs (d_world d)))"
| "possible (PeerMessage dc decoded) d = (dc \<in> set (w_dcs (d_world d)))"
| "possible (Signal s) d = (\<not> d_stuck d)"
| "possible (PeerList resp) d = (\<not> d_stuck d \<and>
     (case mget (n_pendingPeerListRequests (w_node (d_world d))) (PeerListResponse_GetFileHash (Some resp)) of
        None \<Rightarrow> True | Some q \<Rightarrow> length q < chan_capacity))"
| "possible (Identity m) d = (\<not> d_stuck d)"
| "possible (CliConnects addr r) d = True"
| "possible (RegisterSignal m) d =
     (case fs_of (w_os (d_world d)) (SignalRegisterMessage_GetFilePath (Some m)) of
        None \<Rightarrow> True | Some content \<Rightarrow> countable_size content)"
| "possible (DownloadSignal m) d = True"
| "possible (DownloadAnswer i) d = (i < length (d_waiting d) \<and>
     (case mget (n_pendingPeerListRequests (w_node (d_world d))) (fst (d_waiting d ! i)) of
        Some (resp # rest) \<Rightarrow> True | _ \<Rightarrow> False))"
| "possible (DownloadTimeout i) d = (i < length (d_waiting d))"
| "possible (ManagerTick h) d = (mget (n_activeDownloads (w_node (d_world d))) h \<noteq> None)"
| "possible HeartbeatTick d = True"
| "possible (TimePasses t) d = (w_now (d_world d) \<le> t)"

text \<open>A stop other than the blocked send ends the process, so it has no successor.\<close>

inductive daemon_step :: "(bytes \<Rightarrow> bytes) \<Rightarrow> daemon \<Rightarrow> daemon \<Rightarrow> bool" for sha where
  event: "possible ev d \<Longrightarrow> handle_event sha ev d = (Inr u, d') \<Longrightarrow> daemon_step sha d d'"

text \<open>A run of given events, to the first that stops the process.\<close>

fun run_events :: "(bytes \<Rightarrow> bytes) \<Rightarrow> node_event list \<Rightarrow> (daemon, unit) go" where
  "run_events sha [] = go_return ()"
| "run_events sha (ev # evs) = go_then (handle_event sha ev) (run_events sha evs)"

text \<open>A daemon at its start, with the database an earlier run left.\<close>

definition start_daemon :: "string \<Rightarrow> daemon \<Rightarrow> bool" where
  "start_daemon idx d \<longleftrightarrow> sane_db (w_db (d_world d)) \<and>
     w_node (d_world d) = new_node idx \<and> w_tracker (d_world d) = [] \<and> w_cli (d_world d) = [] \<and>
     w_sent (d_world d) = [] \<and> w_pcs (d_world d) = [] \<and> w_dcs (d_world d) = [] \<and>
     d_waiting d = [] \<and> \<not> d_stuck d"

end
