(* ===== verification/DaemonInv.thy ===== *)
theory DaemonInv
  imports Daemon
begin

text \<open>
  What the handlers of a daemon keep and why they may stop, stated once for every predicate
  that the primitive changes respect (the frames), and used for two of them: the safety
  invariant of the daemon here, and the state of a file transfer in theory TransferInv.
\<close>

section \<open>Introductions\<close>

lemma set_chunk_map_ok:
  "mget (n_peerChunkMap (w_node w)) p = Some fs \<Longrightarrow>
   set_chunk_map p h cs w =
     (Inr (), w\<lparr>w_node := (w_node w)\<lparr>n_peerChunkMap := mput p (mput h cs fs) (n_peerChunkMap (w_node w))\<rparr>\<rparr>)"
  by (simp add: set_chunk_map_def upd_node_def go_modify_def)

definition intro_frames :: "string \<Rightarrow> (world \<Rightarrow> bool) \<Rightarrow> bool" where
  "intro_frames p P \<longleftrightarrow> sends_are_frames P \<and> queries_are_frames P \<and> (\<forall>w. P w \<longrightarrow> sane_db (w_db w)) \<and>
     (\<forall>w fs. P w \<longrightarrow> P (w\<lparr>w_node := (w_node w)\<lparr>n_peerChunkMap := mput p fs (n_peerChunkMap (w_node w))\<rparr>\<rparr>)) \<and>
     (\<forall>w dl. P w \<longrightarrow> P (w\<lparr>w_node := (w_node w)\<lparr>n_activeDownloads := dl\<rparr>\<rparr>))"

text \<open>The two writes of a first introduction: the peer's map is replaced by an empty one, then set.\<close>

lemma runs_fresh_map:
  assumes "intro_frames p P"
  shows "runs P E (go_then (upd_node (\<lambda>n. n\<lparr>n_peerChunkMap := mput p [] (n_peerChunkMap n)\<rparr>)) (set_chunk_map p h cs))"
proof (rule runsI)
  fix w assume w: "P w"
  let ?w = "w\<lparr>w_node := (w_node w)\<lparr>n_peerChunkMap := mput p [] (n_peerChunkMap (w_node w))\<rparr>\<rparr>"
  have "P (w\<lparr>w_node := (w_node w)\<lparr>n_peerChunkMap := mput p [(h, cs)] (n_peerChunkMap (w_node w))\<rparr>\<rparr>)"
    using assms w by (simp add: intro_frames_def)
  then have "P (snd (set_chunk_map p h cs ?w)) \<and> fst (set_chunk_map p h cs ?w) = Inr ()"
    using set_chunk_map_ok [of ?w p "[]" h cs] by simp
  then show "P (snd (go_then (upd_node (\<lambda>n. n\<lparr>n_peerChunkMap := mput p [] (n_peerChunkMap n)\<rparr>)) (set_chunk_map p h cs) w)) \<and>
    (\<forall>e. fst (go_then (upd_node (\<lambda>n. n\<lparr>n_peerChunkMap := mput p [] (n_peerChunkMap n)\<rparr>)) (set_chunk_map p h cs) w) = Inl e \<longrightarrow> e \<in> E)"
    by (simp add: go_then_def go_bind_def upd_node_def go_modify_def)
qed

lemma runs_known_map:
  assumes "intro_frames p P"
  shows "runs (\<lambda>w. P w \<and> mget (n_peerChunkMap (w_node w)) p \<noteq> None) E (set_chunk_map p h cs)"
  by (rule runsI) (use assms set_chunk_map_ok in \<open>force simp: intro_frames_def\<close>)

lemma runs_addPeer:
  "(\<And>w dl. P w \<Longrightarrow> P (w\<lparr>w_node := (w_node w)\<lparr>n_activeDownloads := dl\<rparr>\<rparr>)) \<Longrightarrow> runs P E (addPeerToDownload p h)"
proof -
  assume P: "\<And>w dl. P w \<Longrightarrow> P (w\<lparr>w_node := (w_node w)\<lparr>n_activeDownloads := dl\<rparr>\<rparr>)"
  have "P w \<Longrightarrow> P (w\<lparr>w_node := w_node w\<rparr>)" for w by simp
  then show ?thesis unfolding addPeerToDownload_def
    by (intro runs_upd_node) (auto split: option.split intro: P)
qed

lemma runs_handleIntroduction:
  assumes fr: "intro_frames p P"
  shows "runs P E (handleIntroduction p m)"
  unfolding handleIntroduction_def
proof (intro runs_then)
  note f = fr [unfolded intro_frames_def]
  show "runs P E (messageCLI (''Connected to peer '' @ p))" by (intro runs_intros) (simp add: f)
  let ?set = "set_chunk_map p (IntroductionMessage_GetFileHash (Some m)) (IntroductionMessage_GetChunksMap (Some m))"
  let ?add = "addPeerToDownload p (IntroductionMessage_GetFileHash (Some m))"
  have add: "runs P E ?add" by (rule runs_addPeer) (simp add: f)
  have first: "runs P E (go_then (go_then (sendIntroduction p (im_FileHash m))
      (go_then (upd_node (\<lambda>n. n\<lparr>n_peerChunkMap := mput p [] (n_peerChunkMap n)\<rparr>)) ?set)) ?add)"
    by (intro runs_intros runs_fresh_map add fr) (simp_all add: f)
  have again: "P (snd (go_then ?set ?add w)) \<and> (\<forall>e. fst (go_then ?set ?add w) = Inl e \<longrightarrow> e \<in> E)"
    if w: "P w" "mget (n_peerChunkMap (w_node w)) p \<noteq> None" for w
  proof -
    let ?P = "\<lambda>w. P w \<and> mget (n_peerChunkMap (w_node w)) p \<noteq> None"
    have "runs ?P E ?add" by (rule runs_addPeer) (simp add: f)
    then have "runs ?P E (go_then ?set ?add)" by (intro runs_then runs_known_map fr)
    then show ?thesis using w by (auto simp: runs_def)
  qed
  show "runs P E (go_bind (get_node n_peerChunkMap) (\<lambda>mp. go_then
     (if mget (case mget mp p of None \<Rightarrow> [] | Some fs \<Rightarrow> fs) (im_FileHash m) = None
      then go_then (sendIntroduction p (im_FileHash m))
        (go_then (upd_node (\<lambda>n. n\<lparr>n_peerChunkMap := mput p [] (n_peerChunkMap n)\<rparr>)) ?set)
      else ?set) ?add))"
  proof (rule runsI)
    fix w assume w: "P w"
    let ?mp = "n_peerChunkMap (w_node w)"
    show "P (snd (go_bind (get_node n_peerChunkMap) (\<lambda>mp. go_then
     (if mget (case mget mp p of None \<Rightarrow> [] | Some fs \<Rightarrow> fs) (im_FileHash m) = None
      then go_then (sendIntroduction p (im_FileHash m))
        (go_then (upd_node (\<lambda>n. n\<lparr>n_peerChunkMap := mput p [] (n_peerChunkMap n)\<rparr>)) ?set)
      else ?set) ?add) w)) \<and> (\<forall>e. fst (go_bind (get_node n_peerChunkMap) (\<lambda>mp. go_then
     (if mget (case mget mp p of None \<Rightarrow> [] | Some fs \<Rightarrow> fs) (im_FileHash m) = None
      then go_then (sendIntroduction p (im_FileHash m))
        (go_then (upd_node (\<lambda>n. n\<lparr>n_peerChunkMap := mput p [] (n_peerChunkMap n)\<rparr>)) ?set)
      else ?set) ?add) w) = Inl e \<longrightarrow> e \<in> E)"
    proof (cases "mget (case mget ?mp p of None \<Rightarrow> [] | Some fs \<Rightarrow> fs) (im_FileHash m) = None")
      case True
      then show ?thesis using first w by (simp add: runs_def)
    next
      case False
      then show ?thesis using again [OF w] by (cases "mget ?mp p") auto
    qed
  qed
qed

section \<open>Connections\<close>

definition add_pc :: "rtc_object \<Rightarrow> world \<Rightarrow> world" where
  "add_pc ob w = w\<lparr>w_pcs := w_pcs w @ [ob],
     w_node := (w_node w)\<lparr>n_peerConnections := mput (rtc_peer ob) (length (w_pcs w)) (n_peerConnections (w_node w))\<rparr>\<rparr>"

definition add_dc :: "rtc_object \<Rightarrow> world \<Rightarrow> world" where
  "add_dc ob w = w\<lparr>w_dcs := w_dcs w @ [ob],
     w_node := (w_node w)\<lparr>n_peerDataChannels := mput (rtc_peer ob) (length (w_dcs w)) (n_peerDataChannels (w_node w))\<rparr>\<rparr>"

text \<open>The changes the connection handlers make, besides sending.\<close>

definition conn_frames :: "(world \<Rightarrow> bool) \<Rightarrow> bool" where
  "conn_frames P \<longleftrightarrow> sends_are_frames P \<and> queries_are_frames P \<and> (\<forall>w. P w \<longrightarrow> sane_db (w_db w)) \<and>
     (\<forall>w ob. P w \<longrightarrow> P (add_pc ob w)) \<and> (\<forall>w ob. P w \<longrightarrow> P (add_dc ob w)) \<and>
     (\<forall>w c. P w \<longrightarrow> P (w\<lparr>w_rtc := c\<rparr>)) \<and> (\<forall>w c. P w \<longrightarrow> P (w\<lparr>w_sdps := c\<rparr>)) \<and>
     (\<forall>w p. P w \<longrightarrow> P (w\<lparr>w_node := (w_node w)\<lparr>n_peerConnections := mdel p (n_peerConnections (w_node w))\<rparr>\<rparr>)) \<and>
     (\<forall>w p. P w \<longrightarrow> P (w\<lparr>w_node := (w_node w)\<lparr>n_peerDataChannels := mdel p (n_peerDataChannels (w_node w))\<rparr>\<rparr>)) \<and>
     (\<forall>w dl. P w \<longrightarrow> P (w\<lparr>w_node := (w_node w)\<lparr>n_activeDownloads := dl\<rparr>\<rparr>))"

lemma conn_framesD:
  assumes "conn_frames P"
  shows "sends_are_frames P" "queries_are_frames P" "\<And>w. P w \<Longrightarrow> sane_db (w_db w)"
    "\<And>w ob. P w \<Longrightarrow> P (add_pc ob w)" "\<And>w ob. P w \<Longrightarrow> P (add_dc ob w)"
    "\<And>w c. P w \<Longrightarrow> P (w\<lparr>w_rtc := c\<rparr>)" "\<And>w c. P w \<Longrightarrow> P (w\<lparr>w_sdps := c\<rparr>)"
    "\<And>w p. P w \<Longrightarrow> P (w\<lparr>w_node := (w_node w)\<lparr>n_peerConnections := mdel p (n_peerConnections (w_node w))\<rparr>\<rparr>)"
    "\<And>w p. P w \<Longrightarrow> P (w\<lparr>w_node := (w_node w)\<lparr>n_peerDataChannels := mdel p (n_peerDataChannels (w_node w))\<rparr>\<rparr>)"
    "\<And>w dl. P w \<Longrightarrow> P (w\<lparr>w_node := (w_node w)\<lparr>n_activeDownloads := dl\<rparr>\<rparr>)"
  using assms by (simp_all add: conn_frames_def)

lemma setupDataChannel_eq: "setupDataChannel p h b w = (Inr (), add_dc \<lparr>rtc_peer = p, rtc_hash = h, rtc_initiator = b\<rparr> w)"
  by (simp add: setupDataChannel_def add_dc_def upd_node_def go_simps)

lemma runs_setupDataChannel [runs_intros]: "conn_frames P \<Longrightarrow> runs P E (setupDataChannel p h b)"
  by (rule runsI) (simp add: setupDataChannel_eq conn_framesD)

lemma runs_removePeer [runs_intros]: "conn_frames P \<Longrightarrow> runs P E (removePeerFromDownloads p)"
  unfolding removePeerFromDownloads_def by (rule runs_upd_node) (simp add: conn_framesD)

lemma runs_OnConnectionStateChange [runs_intros]: "conn_frames P \<Longrightarrow> runs P E (OnConnectionStateChange pc s)"
  unfolding OnConnectionStateChange_def by (intro runs_intros runs_upd_node) (simp add: conn_framesD)

lemma runs_OnDataChannel [runs_intros]: "conn_frames P \<Longrightarrow> runs P E (OnDataChannel pc)"
  unfolding OnDataChannel_def by (intro runs_intros)

lemma runs_OnOpen [runs_intros]: "conn_frames P \<Longrightarrow> runs P E (OnOpen dc)"
  unfolding OnOpen_def by (intro runs_intros runs_query) (simp_all add: conn_framesD)

lemma runs_OnClose [runs_intros]: "conn_frames P \<Longrightarrow> runs P E (OnClose dc)"
  unfolding OnClose_def by (intro runs_intros runs_upd_node) (simp add: conn_framesD)

text \<open>A candidate the library reports has a mid and a line index (ICECandidate.ToJSON always sets them).\<close>

definition full_candidate :: "ICECandidateInit option \<Rightarrow> bool" where
  "full_candidate ice \<longleftrightarrow> (case ice of None \<Rightarrow> True
     | Some json \<Rightarrow> ici_SDPMid json \<noteq> None \<and> ici_SDPMLineIndex json \<noteq> None)"

lemma runs_OnICECandidate:
  assumes "conn_frames P" "NilDereference \<in> E \<or> full_candidate ice"
  shows "runs P E (OnICECandidate pc ice)"
proof (cases ice)
  case None
  then show ?thesis by (simp add: OnICECandidate_def runs_return)
next
  case (Some json)
  show ?thesis
  proof (cases "BuildICECandidateMessage (rtc_peer pc) json")
    case (Inl e)
    then have "e \<in> E" using assms(2) Some
      by (auto simp: BuildICECandidateMessage_def full_candidate_def split: option.splits)
    then show ?thesis using Some Inl by (simp add: OnICECandidate_def runs_def go_simps)
  next
    case (Inr msg)
    then have "for_tracker msg" by (auto simp: BuildICECandidateMessage_def for_tracker_def split: option.splits)
    then have "runs P E (go_then (send_tracker msg) (go_return ()))"
      by (intro runs_intros conn_framesD [OF assms(1)])
    then show ?thesis using Some Inr by (simp add: OnICECandidate_def runs_def go_simps)
  qed
qed

lemma runs_rtc_do [runs_intros]: "conn_frames P \<Longrightarrow> runs P E (rtc_do pc c)"
  unfolding rtc_do_def by (intro runs_intros runs_succeeds runs_modify) (auto simp: conn_framesD)

lemma runs_create_sdp [runs_intros]: "conn_frames P \<Longrightarrow> runs P E create_sdp"
  unfolding create_sdp_def
  by (intro runs_intros runs_succeeds runsI) (auto simp: conn_framesD split: list.split)

text \<open>After a connection was made without error it is in the map.\<close>

lemma succeeds_node: "succeeds w = (Inr b, w') \<Longrightarrow> w_node w' = w_node w \<and> w_pcs w' = w_pcs w"
  by (auto simp: succeeds_def split: list.splits)

lemma runs_handleWebRTCConnection:
  assumes fr: "conn_frames P"
  shows "runs P E (handleWebRTCConnection p h b)"
  unfolding handleWebRTCConnection_def
proof (rule runs_bind, rule runs_succeeds [OF conn_framesD(1) [OF fr]], rule runs_if, rule runs_return)
  let ?rest = "if b then go_bind succeeds (\<lambda>ok'. if \<not> ok' then go_return False
      else go_then (setupDataChannel p h b) (go_return True)) else go_return True"
  let ?ob = "\<lparr>rtc_peer = p, rtc_hash = h, rtc_initiator = b\<rparr>"
  have rest: "runs P E ?rest" by (intro runs_intros runs_succeeds fr conn_framesD(1) [OF fr])
  show "runs P E (go_bind (go_gets (\<lambda>w. length (w_pcs w))) (\<lambda>pc.
      go_then (go_modify (\<lambda>w. w\<lparr>w_pcs := w_pcs w @ [?ob]\<rparr>))
      (go_then (upd_node (\<lambda>n. n\<lparr>n_peerConnections := mput p pc (n_peerConnections n)\<rparr>)) ?rest)))"
    (is "runs P E ?m")
  proof (rule runsI)
    fix w assume "P w"
    then have "P (add_pc ?ob w)" by (rule conn_framesD [OF fr])
    moreover have "?m w = ?rest (add_pc ?ob w)"
      by (simp add: go_gets_def go_modify_def go_bind_def go_then_def upd_node_def add_pc_def)
    ultimately show "P (snd (?m w)) \<and> (\<forall>e. fst (?m w) = Inl e \<longrightarrow> e \<in> E)"
      using rest unfolding runs_def by presburger
  qed
qed

lemma handleWebRTCConnection_known:
  assumes "handleWebRTCConnection p h b w = (Inr True, w')"
  shows "mget (n_peerConnections (w_node w')) p \<noteq> None"
  using assms
  by (auto simp: handleWebRTCConnection_def go_simps upd_node_def setupDataChannel_eq add_dc_def
      split: prod.splits sum.splits if_splits dest: succeeds_node)

lemma runs_dispatch_signal [runs_intros]: "conn_frames P \<Longrightarrow> runs P E (dispatch_signal pc p s)"
  unfolding dispatch_signal_def handleOffer_def
  by (intro runs_intros conn_framesD(1))

text \<open>Looking up a connection that was just made never fails.\<close>

lemma runs_with_connection:
  assumes fr: "conn_frames P" and k: "\<And>pc. runs P E (k pc)"
  shows "runs P E (go_bind (handleWebRTCConnection p h b) (\<lambda>ok.
     if \<not> ok then go_return ()
     else go_bind (get_node n_peerConnections) (\<lambda>pcs. case mget pcs p of None \<Rightarrow> go_stop NilDereference | Some pc \<Rightarrow> k pc)))"
    (is "runs P E (go_bind ?m ?f)")
proof (rule runsI)
  fix w assume w: "P w"
  obtain r w1 where m: "?m w = (r, w1)" by (cases "?m w")
  have P: "P w1" "r = Inl e \<Longrightarrow> e \<in> E" for e
    using runs_handleWebRTCConnection [OF fr, of E p h b] w m by (force simp: runs_def)+
  show "P (snd (go_bind ?m ?f w)) \<and> (\<forall>e. fst (go_bind ?m ?f w) = Inl e \<longrightarrow> e \<in> E)"
  proof (cases r)
    case (Inl e)
    then show ?thesis using P m by (simp add: go_bind_def)
  next
    case (Inr ok)
    then have run: "go_bind ?m ?f w = ?f ok w1" using m by (simp add: go_bind_def)
    show ?thesis
    proof (cases ok)
      case True
      then obtain pc where "mget (n_peerConnections (w_node w1)) p = Some pc"
        using handleWebRTCConnection_known m Inr by fastforce
      then show ?thesis using True run k [of pc] P(1) by (simp add: runs_def)
    next
      case False
      then show ?thesis using run P(1) by (simp add: go_return_def)
    qed
  qed
qed

lemma runs_on_signaling [runs_intros]: "conn_frames P \<Longrightarrow> runs P E (on_signaling s)"
  unfolding on_signaling_def Let_def
  by (intro runs_intros runs_with_connection)

lemma runs_connect_peer [runs_intros]: "conn_frames P \<Longrightarrow> runs P E (connect_peer h p)"
  unfolding connect_peer_def
  by (intro runs_intros runs_with_connection conn_framesD(1-3)) assumption+

lemma runs_startFileDownload: "conn_frames P \<Longrightarrow> runs P E (startFileDownload h n)"
  unfolding startFileDownload_def
proof (rule runs_upd_node)
  fix w assume "conn_frames P" "P w"
  then show "P (w\<lparr>w_node := (if mget (n_activeDownloads (w_node w)) h \<noteq> None then w_node w
      else (w_node w)\<lparr>n_activeDownloads := mput h \<lparr>fd_FileHash = h, fd_TotalChunks = n, fd_ActivePeers = []\<rparr>
        (n_activeDownloads (w_node w))\<rparr>)\<rparr>)"
    by (simp add: conn_framesD)
qed

lemma runs_on_download_answer [runs_intros]: "conn_frames P \<Longrightarrow> runs P E (on_download_answer h n resp)"
  unfolding on_download_answer_def by (intro runs_intros runs_startFileDownload)

lemma runs_heartbeat [runs_intros]: "conn_frames P \<Longrightarrow> runs P E heartbeat_tick"
  unfolding heartbeat_tick_def by (intro runs_intros conn_framesD(1))

lemma runs_tick_conn:
  "conn_frames P \<Longrightarrow> IndexOutOfRange \<in> E \<or> (\<forall>w. P w \<longrightarrow> length (stored_chunks (w_db w) h) \<le> 2 ^ 31) \<Longrightarrow>
   runs P E (download_tick h)"
  by (rule runs_tick) (simp_all add: conn_framesD)

section \<open>Messages of other daemons\<close>

lemma runs_peer_message:
  assumes fr: "conn_frames P" "opens_are_frames P"
    and intro: "\<And>m. MessageType netMsg = Some (NetworkMessage_Introduction m) \<Longrightarrow> intro_frames p P"
    and req: "\<And>m. MessageType netMsg = Some (NetworkMessage_ChunkRequest m) \<Longrightarrow>
      MakeSliceNegative \<in> E \<or> (\<forall>w. P w \<longrightarrow> sizes_ok (w_db w))"
    and resp: "\<And>m. MessageType netMsg = Some (NetworkMessage_ChunkResponse m) \<Longrightarrow> runs P E (handleChunkResponse p m)"
  shows "runs P E (webrtcMessageHandler (Some netMsg) p)"
  unfolding webrtcMessageHandler_def option.case
  by (auto split: option.split message_type.split intro!: runs_return runs_handleIntroduction
      runs_handleChunkRequest resp intro conn_framesD [OF fr(1)] fr(2) dest: req)

section \<open>Handlers on a daemon\<close>

lemma runs_on_world: "runs P E m \<Longrightarrow> runs (\<lambda>d. P (d_world d)) E (on_world m)"
  by (rule runsI) (simp add: on_world_def runs_def split_beta)

lemma runs_download_answer:
  assumes "\<And>h n r. runs P E (on_download_answer h n r)"
    and "\<And>w pd. P w \<Longrightarrow> P (w\<lparr>w_node := (w_node w)\<lparr>n_pendingPeerListRequests := pd\<rparr>\<rparr>)"
  shows "runs (\<lambda>d. P (d_world d)) E (download_answer i)"
  unfolding download_answer_def
  by (intro runs_intros runs_modify runs_on_world runs_upd_node assms(1)) (simp_all add: assms(2))

end
