(* ===== verification/TransferInv.thy ===== *)
theory TransferInv
  imports DaemonInv
begin

text \<open>
  The transfer of a file between daemons: a receiver whose peers answer honestly ends with the
  file, whatever else happens and whatever fails in between; the sender's answers are honest;
  requests name missing chunks; and with no failures every chunk arrives.
\<close>

section \<open>Facts about the data of a daemon\<close>

text \<open>
  What an honest peer sends: responses carry the chunk of the file they name, and it speaks
  for another id than the receiver's. The receiver's own events exclude the commands that
  write files by name and a change of its id.
\<close>

definition honest_message :: "string \<Rightarrow> bytes \<Rightarrow> string \<Rightarrow> string \<Rightarrow> NetworkMessage option \<Rightarrow> bool" where
  "honest_message h xs me p decoded \<longleftrightarrow> (case decoded of None \<Rightarrow> True | Some netMsg \<Rightarrow>
     (case MessageType netMsg of
        Some (NetworkMessage_ChunkResponse m) \<Rightarrow> cs_FileHash m = h \<and> 0 \<le> cs_ChunkIndex m \<and>
          nat (cs_ChunkIndex m) < tiles xs \<and> cs_ChunkData m = tile M xs (nat (cs_ChunkIndex m))
      | Some (NetworkMessage_Introduction m) \<Rightarrow> p \<noteq> me
      | _ \<Rightarrow> True))"

fun honest :: "string \<Rightarrow> bytes \<Rightarrow> string \<Rightarrow> node_event \<Rightarrow> bool" where
  "honest h xs me (PeerMessage dc decoded) = honest_message h xs me (rtc_peer dc) decoded"
| "honest h xs me (CandidateFound pc ice) = full_candidate ice"
| "honest h xs me (ManagerTick k) = (k = h)"
| "honest h xs me (StateChange pc s) = True"
| "honest h xs me (DataChannelArrives pc) = True"
| "honest h xs me (ChannelOpens dc) = True"
| "honest h xs me (ChannelCloses dc) = True"
| "honest h xs me (Signal s) = True"
| "honest h xs me (PeerList resp) = True"
| "honest h xs me (CliConnects addr r) = True"
| "honest h xs me (DownloadAnswer i) = True"
| "honest h xs me (DownloadTimeout i) = True"
| "honest h xs me HeartbeatTick = True"
| "honest h xs me (TimePasses t) = True"
| "honest h xs me Init = False"
| "honest h xs me (Identity m) = False"
| "honest h xs me (RegisterSignal m) = False"
| "honest h xs me (DownloadSignal m) = False"

text \<open>
  A fact about the data of the daemon \<open>me\<close>: it holds of the tables, the files, the id, the directory and the
  daemon's own entry of the chunk map, and it implies that the rows are sane. Every event but the receipt
  of a chunk is a frame for such a fact, and none of them stops the daemon.
\<close>

locale data_fact =
  fixes h me :: string and P :: "world \<Rightarrow> bool"
  assumes sane: "P w \<Longrightarrow> sane_db (w_db w) \<and> sizes_ok (w_db w)"
    and own: "P w \<Longrightarrow> n_id (w_node w) = me"
    and small: "P w \<Longrightarrow> length (stored_chunks (w_db w) h) \<le> 2 ^ 31"
    and cong: "P w \<Longrightarrow> tables_of (w_db w') = tables_of (w_db w) \<Longrightarrow> fs_of (w_os w') = fs_of (w_os w) \<Longrightarrow>
      n_ipcSocketIndex (w_node w') = n_ipcSocketIndex (w_node w) \<Longrightarrow> n_id (w_node w') = n_id (w_node w) \<Longrightarrow>
      mget (n_peerChunkMap (w_node w')) (n_id (w_node w)) = mget (n_peerChunkMap (w_node w)) (n_id (w_node w)) \<Longrightarrow> P w'"
begin

lemma sends: "sends_are_frames P"
  unfolding sends_are_frames_def by (auto elim!: cong)

lemma queries: "queries_are_frames P"
  unfolding queries_are_frames_def by (auto elim!: cong)

lemma opens: "opens_are_frames P"
  unfolding opens_are_frames_def by (auto elim!: cong)

lemma conn: "conn_frames P"
  unfolding conn_frames_def add_pc_def add_dc_def
  by (auto simp: sane intro!: sends queries elim!: cong)

lemma intros: "p \<noteq> me \<Longrightarrow> intro_frames p P"
  unfolding intro_frames_def
proof (intro conjI allI impI sends queries)
  fix w fs dl assume p: "p \<noteq> me" and w: "P w"
  show "sane_db (w_db w)" using sane [OF w] by simp
  show "P (w\<lparr>w_node := (w_node w)\<lparr>n_peerChunkMap := mput p fs (n_peerChunkMap (w_node w))\<rparr>\<rparr>)"
    by (rule cong [OF w]) (use p own [OF w] in simp_all)
  show "P (w\<lparr>w_node := (w_node w)\<lparr>n_activeDownloads := dl\<rparr>\<rparr>)"
    by (rule cong [OF w]) simp_all
qed

lemma pending: "P w \<Longrightarrow> P (w\<lparr>w_node := (w_node w)\<lparr>n_pendingPeerListRequests := pd\<rparr>\<rparr>)"
  by (erule cong) simp_all

lemma peer_list_returns:
  "P (d_world d) \<Longrightarrow> \<exists>d'. peer_list_event resp d = (Inr (), d') \<and> P (d_world d')"
  by (cases "mget (n_pendingPeerListRequests (w_node (d_world d))) (PeerListResponse_GetFileHash (Some resp))")
     (simp_all add: peer_list_event_def on_world_def on_peer_list_def upd_node_def go_modify_def go_stop_def pending)

lemma runs_message:
  assumes "honest_message h xs me p decoded"
    and "\<And>nm m. decoded = Some nm \<Longrightarrow> MessageType nm = Some (NetworkMessage_ChunkResponse m) \<Longrightarrow> runs P {} (handleChunkResponse p m)"
  shows "runs P {} (webrtcMessageHandler decoded p)"
proof (cases decoded)
  case None
  then show ?thesis by (simp add: webrtcMessageHandler_def runs_return)
next
  case (Some netMsg)
  show ?thesis
    using assms unfolding Some
    by (intro runs_peer_message conn opens intros) (auto simp: honest_message_def sane)
qed

lemma runs_event:
  assumes "honest h xs me ev"
    and "\<And>dc nm m. ev = PeerMessage dc (Some nm) \<Longrightarrow> MessageType nm = Some (NetworkMessage_ChunkResponse m) \<Longrightarrow>
      runs P {} (handleChunkResponse (rtc_peer dc) m)"
  shows "runs (\<lambda>d. P (d_world d)) {} (handle_event sha ev)"
proof -
  have frame: "runs P {} (accept_cli addr r)" for addr r
    unfolding accept_cli_def by (rule runs_upd_node) (erule cong, simp_all)
  have clock: "runs P {} (go_modify (\<lambda>w. w\<lparr>w_now := t\<rparr>))" for t
    by (rule runs_modify) (erule cong, simp_all)
  have list: "runs (\<lambda>d. P (d_world d)) {} (peer_list_event resp)" for resp
    by (rule runsI) (drule peer_list_returns [of _ resp], auto)
  show ?thesis
    using assms
    by (cases ev) (auto intro!: runs_intros runs_on_world runs_modify runs_tick_conn runs_OnICECandidate
        runs_message [of xs] runs_download_answer pending conn frame clock list small
        simp del: go_forM.simps)
qed

end

section \<open>The receiver\<close>

text \<open>The transfer invariant of the daemon with a given id.\<close>

definition receiving :: "string \<Rightarrow> bytes \<Rightarrow> string \<Rightarrow> world \<Rightarrow> bool" where
  "receiving h xs me w \<longleftrightarrow> transfer_inv h xs w \<and> n_id (w_node w) = me"

lemma receiving_cong:
  assumes "receiving h xs me w" "tables_of (w_db w') = tables_of (w_db w)" "fs_of (w_os w') = fs_of (w_os w)"
    and "n_ipcSocketIndex (w_node w') = n_ipcSocketIndex (w_node w)" "n_id (w_node w') = n_id (w_node w)"
    and "mget (n_peerChunkMap (w_node w')) (n_id (w_node w)) = mget (n_peerChunkMap (w_node w)) (n_id (w_node w))"
  shows "receiving h xs me w'"
  using transfer_inv_cong [OF assms(2-6)] assms(1,5) by (simp add: receiving_def)

lemma stored_small:
  assumes "stored_ok h xs w" shows "length (stored_chunks (w_db w) h) \<le> 2 ^ 31"
proof -
  have m: "map c_ChunkIndex (stored_chunks (w_db w) h) = map int [0..<tiles xs]" "int (length xs) \<le> 2 ^ 46"
    using assms by (simp_all add: stored_ok_def)
  then have "length (stored_chunks (w_db w) h) = tiles xs" by (metis length_map length_upt minus_nat.diff_0)
  moreover have "\<not> 2 ^ 31 < tiles xs" using m(2) tiles_iff [of "2 ^ 31" xs] by simp
  ultimately show ?thesis by simp
qed

interpretation receiver: data_fact h me "receiving h xs me" for h me xs
proof
  fix w assume w: "receiving h xs me w"
  then show "sane_db (w_db w) \<and> sizes_ok (w_db w)" by (simp add: receiving_def transfer_inv_def stored_ok_def)
  show "n_id (w_node w) = me" using w by (simp add: receiving_def)
  show "length (stored_chunks (w_db w) h) \<le> 2 ^ 31"
    using w by (auto simp: receiving_def transfer_inv_def simp del: power_numeral intro: stored_small)
qed (rule receiving_cong)

lemma receive_tile_id:
  assumes "receiving h xs me w"
    and "cs_FileHash m = h" "cs_ChunkIndex m = int i" "i < tiles xs" "cs_ChunkData m = tile M xs i"
  shows "\<exists>w'. handleChunkResponse p m w = (Inr (), w') \<and> receiving h xs me w'"
proof -
  have "runs (\<lambda>w. n_id (w_node w) = me) UNIV (handleChunkResponse p m)"
    unfolding handleChunkResponse_def mark_own_chunk_def Let_def
    by (intro runs_intros runs_db_do runs_os_do runs_upd_node runs_lift) (simp_all add: sends_are_frames_def)
  moreover obtain w' where "handleChunkResponse p m w = (Inr (), w')" "transfer_inv h xs w'"
    using receive_tile [of h xs w m i p] assms by (auto simp: receiving_def)
  ultimately show ?thesis using assms(1) by (fastforce simp: receiving_def runs_def)
qed

lemma runs_honest:
  assumes "honest h xs me ev"
  shows "runs (\<lambda>d. receiving h xs me (d_world d)) {} (handle_event sha ev)"
proof (rule receiver.runs_event [OF assms], rule runsI)
  fix dc nm m w assume m: "ev = PeerMessage dc (Some nm)" "MessageType nm = Some (NetworkMessage_ChunkResponse m)"
    and w: "receiving h xs me w"
  then obtain w' where "handleChunkResponse (rtc_peer dc) m w = (Inr (), w')" "receiving h xs me w'"
    using receive_tile_id [of h xs me w m "nat (cs_ChunkIndex m)" "rtc_peer dc"] assms by (auto simp: honest_message_def)
  then show "receiving h xs me (snd (handleChunkResponse (rtc_peer dc) m w)) \<and>
      (\<forall>e. fst (handleChunkResponse (rtc_peer dc) m w) = Inl e \<longrightarrow> e \<in> {})" by simp
qed

lemma runs_honest_events:
  "\<forall>ev \<in> set evs. honest h xs me ev \<Longrightarrow> runs (\<lambda>d. receiving h xs me (d_world d)) {} (run_events sha evs)"
  by (induction evs) (auto intro!: runs_intros runs_honest)


definition sample_world :: world where
  "sample_world = \<lparr>w_node = (new_node ''1'')\<lparr>n_id := ''7'', n_peerChunkMap := [(''7'', [(''h'', [0])])]\<rparr>,
     w_db = \<lparr>tables_of = \<lparr>files = [\<lparr>f_ID = 1, f_Name = ''a'', f_Size = 3, f_MaxChunkSize = 32768,
                f_TotalChunks = 1, f_Hash = ''h'', f_CreatedAt = 0\<rparr>],
              chunks = [\<lparr>c_ID = 1, c_FileID = 1, c_ChunkIndex = 0, c_ChunkSize = 3, c_ChunkHash = ''x'', c_IsAvailable = 0\<rparr>],
              peers = [], swarms = [], seq_files = 1, seq_chunks = 1, seq_peers = 0, seq_swarms = 0\<rparr>,
              sched = []\<rparr>,
     w_os = \<lparr>fs_of = [''downloads/daemon-1/a'' \<mapsto> []], io_sched = []\<rparr>,
     w_tracker = [], w_cli = [], w_sent = [], w_pcs = [], w_dcs = [], w_rtc = [], w_fails = [], w_sdps = [],
     w_rands = [], w_now = 0\<rparr>"

definition sample_daemon :: daemon where
  "sample_daemon = \<lparr>d_world = sample_world, d_waiting = [], d_stuck = False\<rparr>"

definition sample_answer :: node_event where
  "sample_answer = PeerMessage \<lparr>rtc_peer = ''8'', rtc_hash = ''h'', rtc_initiator = True\<rparr>
     (Some (BuildChunkResponseMessage ''h'' 0 ''abc''))"

lemma sample_rows:
  "stored_chunks (w_db sample_world) ''h'' =
     [\<lparr>c_ID = 1, c_FileID = 1, c_ChunkIndex = 0, c_ChunkSize = 3, c_ChunkHash = ''x'', c_IsAvailable = 0\<rparr>]"
  "map_option f_Name (stored_file (w_db sample_world) ''h'') = Some ''a''"
  by code_simp+

lemma small_tiles: "xs \<noteq> [] \<Longrightarrow> length xs \<le> M \<Longrightarrow> tiles xs = 1 \<and> tile M xs 0 = xs"
  by (simp add: tiles_def tile_def split_chunks_step)

lemma sample_receiving: "receiving ''h'' ''abc'' ''7'' sample_world"
proof -
  obtain f where f: "stored_file (w_db sample_world) ''h'' = Some f" "f_Name f = ''a''"
    using sample_rows(2) by auto
  have p: "file_path sample_world f = ''downloads/daemon-1/a''"
    using f(2) by (simp add: file_path_def BuildDownloadPath_def sample_world_def new_node_def)
  have "wf_db (w_db sample_world)"
    by (simp add: wf_db_def wf_tables_def sample_world_def ids_ok_def max_int64_def)
  then have "sane_db (w_db sample_world) \<and> sizes_ok (w_db sample_world)"
    by (simp add: sane_db_def sizes_ok_def sample_world_def)
  moreover have "agrees_on M ''abc'' (have_chunks sample_world ''h'') []"
    by (simp add: agrees_on_def have_chunks_def sample_rows)
  moreover have "fs_of (w_os sample_world) ''downloads/daemon-1/a'' = Some []" by (simp add: sample_world_def)
  ultimately have "stored_ok ''h'' ''abc'' sample_world"
    using f p small_tiles [of "''abc''"] by (simp add: stored_ok_def sample_rows)
  moreover have "own_map_ok ''h'' ''abc'' sample_world"
    using small_tiles [of "''abc''"] by (simp add: own_map_ok_def sample_world_def new_node_def)
  ultimately show ?thesis by (simp add: receiving_def transfer_inv_def sample_world_def new_node_def)
qed

lemma sample_answer_honest: "honest ''h'' ''abc'' ''7'' sample_answer"
  using small_tiles [of "''abc''"]
  by (simp add: sample_answer_def honest_message_def BuildChunkResponseMessage_def)

lemma sample_complete:
  "IsDownloadComplete (stored_chunks (w_db (d_world (snd (run_events (\<lambda>x. x) [sample_answer] sample_daemon)))) ''h'')"
  by code_simp


section \<open>The sender\<close>

text \<open>Reading a chunk of a file that agrees with \<open>xs\<close> on it.\<close>

lemma tile_facts:
  assumes "i < tiles xs"
  shows "i * M < length xs" "length (tile M xs i) = min M (length xs - i * M)" "tile M xs i \<noteq> []"
    "length (tile M xs i) \<le> M" "i * M + length (tile M xs i) \<le> length xs"
  using assms tiles_iff [of i xs] by (auto simp: tile_def)

lemma read_agreeing_tile:
  assumes i: "i < tiles xs" "i \<in> S" and ag: "agrees_on M xs S content" and len: "int (length xs) < 2 ^ 63"
  shows "ReadChunkData content (int i) (int (length (tile M xs i))) (int M) = Inr (Inr (tile M xs i))"
proof -
  note t = tile_facts [OF i(1)]
  let ?n = "length (tile M xs i)"
  have at: "k < length content \<and> content ! k = xs ! k" if "i * M \<le> k" "k < i * M + ?n" for k
  proof -
    have "k < (i + 1) * M" "k < length xs" using that t(4,5) by simp_all
    then show ?thesis using ag i(2) that(1) unfolding agrees_on_def by blast
  qed
  have n: "0 < ?n" using t(3) by simp
  have "i * M + ?n - 1 < length content" using at [of "i * M + ?n - 1"] n by linarith
  then have lc: "i * M + ?n \<le> length content" using n by linarith
  have "take ?n (drop (i * M) content) = tile M xs i"
  proof (rule nth_equalityI)
    show "length (take ?n (drop (i * M) content)) = ?n" using lc by simp
    fix k assume "k < length (take ?n (drop (i * M) content))"
    then have k: "k < ?n" by simp
    have "take ?n (drop (i * M) content) ! k = content ! (i * M + k)" using k lc by simp
    also have "\<dots> = xs ! (i * M + k)" using at [of "i * M + k"] k by simp
    also have "\<dots> = tile M xs i ! k" using k t(5) by (simp add: tile_def)
    finally show "take ?n (drop (i * M) content) ! k = tile M xs i ! k" .
  qed
  moreover have "int64 (int i * int M) = int (i * M)" by (rule int64_offset [OF t(1) len])
  moreover have "nat (int (i * M)) = i * M" by (rule nat_int)
  ultimately show ?thesis using lc n
    by (simp add: ReadChunkData_def ReadAt_def make_slice_def Let_def del: of_nat_mult)
qed

text \<open>The rows a registration or an honest .p2p file stores: each chunk with its size.\<close>

definition row_sizes :: "string \<Rightarrow> bytes \<Rightarrow> world \<Rightarrow> bool" where
  "row_sizes h xs w \<longleftrightarrow>
     (\<forall>c \<in> set (stored_chunks (w_db w) h). c_ChunkSize c = int (length (tile M xs (nat (c_ChunkIndex c)))))"

lemma GetChunk_stored:
  "ChunkStore_GetChunk h i c = (Inr k, c') \<Longrightarrow> wf_db c \<Longrightarrow> k \<in> set (stored_chunks c h) \<and> c_ChunkIndex k = i"
  using chunk_store.get_chunk_ok by blast

lemma stored_index:
  assumes "stored_ok h xs w" "c \<in> set (stored_chunks (w_db w) h)"
  shows "\<exists>i < tiles xs. c_ChunkIndex c = int i \<and> (c_IsAvailable c = 1 \<longrightarrow> i \<in> have_chunks w h)"
proof -
  have "c_ChunkIndex c \<in> set (map c_ChunkIndex (stored_chunks (w_db w) h))" using assms(2) by simp
  then have "c_ChunkIndex c \<in> set (map int [0..<tiles xs])" using assms(1) by (simp only: stored_ok_def)
  then show ?thesis using assms(2) by (auto simp: have_chunks_def)
qed

text \<open>The path from a request to the bytes read.\<close>

lemma readChunk_honest:
  assumes ok: "stored_ok h xs w" and i: "i < tiles xs" "i \<in> have_chunks w h"
    and r: "readChunkFromFile h (int i) (int (length (tile M xs i))) (int M) w = (r, w')"
  shows "(r = Inr None \<or> r = Inr (Some (tile M xs i))) \<and> tables_of (w_db w') = tables_of (w_db w) \<and>
    fs_of (w_os w') = fs_of (w_os w) \<and> w_node w' = w_node w \<and> w_sent w' = w_sent w"
proof -
  obtain f content where f: "stored_file (w_db w) h = Some f" "fs_of (w_os w) (file_path w f) = Some content"
    "agrees_on M xs (have_chunks w h) content" "int (length xs) \<le> 2 ^ 46" using ok by (auto simp: stored_ok_def)
  obtain rn d where q: "FileStore_GetFileNameByHash h (w_db w) = (rn, d)"
    by (cases "FileStore_GetFileNameByHash h (w_db w)")
  note Q = GetFileNameByHash_result [OF q [unfolded FileStore_GetFileNameByHash_def]]
  show ?thesis
  proof (cases rn)
    case (Inl e)
    then show ?thesis using r Q by (auto simp: readChunkFromFile_def db_do_def q go_bind_def go_return_def)
  next
    case (Inr fileName)
    then have name: "BuildDownloadPath (n_ipcSocketIndex (w_node w)) fileName = file_path w f"
      using Q f(1) by (auto simp: file_path_def)
    obtain ro s where o: "os_Open (file_path w f) (w_os w) = (ro, s)" by (cases "os_Open (file_path w f) (w_os w)")
    note O = os_Open_result [OF o]
    have "ReadChunkData content (int i) (int (length (tile M xs i))) (int M) = Inr (Inr (tile M xs i))"
      by (rule read_agreeing_tile [OF i f(3)]) (use f(4) in simp)
    then show ?thesis
      using r Q O f(2) Inr
      by (cases ro) (auto simp: readChunkFromFile_def db_do_def q go_bind_def [of "db_do _"] go_bind_def [of "os_do _"]
          go_bind_def [of "go_lift _"] go_lift_def name os_do_def o go_return_def)
  qed
qed

lemma send_dc_result:
  "\<exists>b w'. send_dc dc msg w = (Inr b, w') \<and> w_db w' = w_db w \<and> w_os w' = w_os w \<and> w_node w' = w_node w \<and>
     w_sent w' = (if b then w_sent w @ [(dc, msg)] else w_sent w)"
  by (cases "w_fails w") (auto simp: send_dc_def succeeds_def go_simps)

lemma chunk_answer:
  assumes "stored_ok h xs w" "row_sizes h xs w" "cr_FileHash m = h"
    and "handleChunkRequest p m w = (r, w')"
  shows "r = Inr () \<and>
    (w_sent w' = w_sent w \<or>
     (\<exists>dc i. mget (n_peerDataChannels (w_node w)) p = Some dc \<and> i < tiles xs \<and> cr_ChunkIndex m = int i \<and>
        w_sent w' = w_sent w @ [(dc, BuildChunkResponseMessage h (int i) (tile M xs i))] \<and>
        honest_message h xs me q (Some (BuildChunkResponseMessage h (int i) (tile M xs i)))))"
proof -
  obtain rk d where k: "ChunkStore_GetChunk h (cr_ChunkIndex m) (w_db w) = (rk, d)"
    by (cases "ChunkStore_GetChunk h (cr_ChunkIndex m) (w_db w)")
  have td: "tables_of d = tables_of (w_db w)"
    using GetChunk_tables [of h "cr_ChunkIndex m" "w_db w"] k by simp
  let ?w1 = "w\<lparr>w_db := d\<rparr>"
  have ok1: "stored_ok h xs ?w1" using stored_ok_cong [of ?w1 w] assms(1) td by simp
  show ?thesis
  proof (cases rk)
    case (Inl e)
    then show ?thesis using assms(3,4) k by (auto simp: handleChunkRequest_def db_do_def go_bind_def go_return_def)
  next
    case (Inr c)
    have wf: "wf_db (w_db w)" using assms(1) by (simp add: stored_ok_def sane_db_def)
    have c: "c \<in> set (stored_chunks (w_db w) h)" "c_ChunkIndex c = cr_ChunkIndex m"
      using GetChunk_stored [OF k [unfolded Inr] wf] by simp_all
    obtain i where i: "i < tiles xs" "c_ChunkIndex c = int i" "c_IsAvailable c = 1 \<longrightarrow> i \<in> have_chunks w h"
      using stored_index [OF assms(1) c(1)] by auto
    have size: "c_ChunkSize c = int (length (tile M xs i))" using assms(2) c(1) i(2) by (simp add: row_sizes_def)
    show ?thesis
    proof (cases "c_IsAvailable c = 1")
      case False
      then show ?thesis using assms(3,4) k Inr
        by (auto simp: handleChunkRequest_def db_do_def go_bind_def go_return_def)
    next
      case True
      have "have_chunks ?w1 h = have_chunks w h"
        using td by (simp add: have_chunks_def stored_chunks_def)
      then have have1: "i \<in> have_chunks ?w1 h" using i(3) True by simp
      obtain rr w2 where rd: "readChunkFromFile h (int i) (int (length (tile M xs i))) (int M) ?w1 = (rr, w2)"
        by (cases "readChunkFromFile h (int i) (int (length (tile M xs i))) (int M) ?w1")
      note R = readChunk_honest [OF ok1 i(1) have1 rd]
      have rd': "readChunkFromFile h (int i) (int (length (tile M xs i))) 32768 ?w1 = (rr, w2)" using rd by simp
      note run = handleChunkRequest_def db_do_def go_bind_def [of "\<lambda>w. _ w"] go_bind_def [of "readChunkFromFile _ _ _ _"]
        go_return_def
      show ?thesis
      proof (cases "rr = Inr None")
        case True
        then show ?thesis using assms(3,4) k Inr i(2) size rd' \<open>c_IsAvailable c = 1\<close> R
          by (auto simp: run)
      next
        case False
        then have rr: "rr = Inr (Some (tile M xs i))" using R by simp
        have eq: "handleChunkRequest p m w = (case mget (n_peerDataChannels (w_node w2)) p of
            None \<Rightarrow> (Inr (), w2)
          | Some dc \<Rightarrow> go_then (send_dc dc (BuildChunkResponseMessage h (int i) (tile M xs i))) (go_return ()) w2)"
          using assms(3) k Inr i(2) size rd' rr \<open>c_IsAvailable c = 1\<close> c(2)
          by (simp add: run get_node_def go_gets_def BuildChunkResponseMessage_def split: option.split)
        have n2: "w_node w2 = w_node w" "w_sent w2 = w_sent w" using R by simp_all
        have hon: "honest_message h xs me q (Some (BuildChunkResponseMessage h (int i) (tile M xs i)))"
          using i(1) by (simp add: honest_message_def BuildChunkResponseMessage_def)
        show ?thesis
        proof (cases "mget (n_peerDataChannels (w_node w)) p")
          case None
          then show ?thesis using eq assms(4) n2 by simp
        next
          case (Some dc)
          let ?msg = "BuildChunkResponseMessage h (int i) (tile M xs i)"
          obtain b w3 where s: "send_dc dc ?msg w2 = (Inr b, w3)"
            "w_sent w3 = (if b then w_sent w2 @ [(dc, ?msg)] else w_sent w2)" using send_dc_result by blast
          have "r = Inr ()" "w' = w3"
            using eq assms(4) Some n2 s(1) by (simp_all add: go_then_def go_bind_def go_return_def)
          then show ?thesis using s(2) n2 Some i(1,2) c(2) hon by (cases b) auto
        qed
      qed
    qed
  qed
qed

text \<open>A daemon whose stored rows and file agree with a shared file answers a request for it with
  nothing, or with exactly one message on the channel of the daemon that asked, which carries the
  bytes of the chunk that was asked for; it never panics. So what a correct daemon sends is honest
  for the daemon that receives it.\<close>

theorem answers_are_honest:
  assumes "stored_ok h xs w" "row_sizes h xs w" "cr_FileHash m = h"
    and "handleChunkRequest p m w = (r, w')"
  shows "r = Inr () \<and>
    (w_sent w' = w_sent w \<or>
     (\<exists>dc i. mget (n_peerDataChannels (w_node w)) p = Some dc \<and> i < tiles xs \<and> cr_ChunkIndex m = int i \<and>
        w_sent w' = w_sent w @ [(dc, BuildChunkResponseMessage h (int i) (tile M xs i))] \<and>
        honest_message h xs me q (Some (BuildChunkResponseMessage h (int i) (tile M xs i)))))"
  by (rule chunk_answer [OF assms])

end
