(* ===== verification/Progress.thy ===== *)
theory Progress
  imports TransferInv
begin

text \<open>
  A transfer makes progress: when nothing fails, one tick of the download manager, the
  sender's answer to the request it sends, and the receiver's handling of that answer make
  one more chunk available, so as many rounds as chunks are missing complete the file.
\<close>

section \<open>Handlers when nothing fails\<close>

definition calm :: "world \<Rightarrow> bool" where
  "calm w \<longleftrightarrow> sched (w_db w) = [] \<and> io_sched (w_os w) = [] \<and> w_fails w = []"

lemma os_call_calm: "io_sched s = [] \<Longrightarrow> os_call f s = (fst (f (fs_of s)), s\<lparr>fs_of := snd (f (fs_of s))\<rparr>)"
  by (simp add: os_call_def next_fault_def split: prod.split)

lemma os_same [simp]: "s\<lparr>fs_of := fs_of s\<rparr> = (s :: osys)"
  by simp

lemma db_do_same: "q (w_db w) = (r, w_db w) \<Longrightarrow> db_do q w = (Inr r, w)"
  by (simp add: db_do_def)

lemma GetChunks_calm: "calm w \<Longrightarrow> db_do (ChunkStore_GetChunks h) w = (Inr (Inr (stored_chunks (w_db w) h)), w)"
  by (rule db_do_same)
     (simp add: calm_def ChunkStore_GetChunks_def Q_GetChunksByFileHash_def run_query_calm stored_chunks_def)

lemma GetName_calm:
  "calm w \<Longrightarrow> stored_file (w_db w) h = Some f \<Longrightarrow>
   db_do (FileStore_GetFileNameByHash h) w = (Inr (Inr (f_Name f)), w)"
  by (rule db_do_same)
     (auto simp: calm_def FileStore_GetFileNameByHash_def Q_GetFileNameByHash_def run_query_calm stored_file_def
        split: list.splits)

lemma GetChunk_calm:
  assumes "calm w" "wf_db (w_db w)" "c \<in> set (stored_chunks (w_db w) h)" "c_ChunkIndex c = i"
  shows "\<exists>k. db_do (ChunkStore_GetChunk h i) w = (Inr (Inr k), w) \<and> k \<in> set (stored_chunks (w_db w) h) \<and> c_ChunkIndex k = i"
proof -
  let ?q = "\<lambda>t. first_row (filter (\<lambda>c. c_ChunkIndex c = i) (join_chunks_files h t))"
  have g: "ChunkStore_GetChunk h i (w_db w) = (?q (tables_of (w_db w)), w_db w)"
    using assms(1) by (simp add: calm_def ChunkStore_GetChunk_def Q_GetChunk_def run_query_calm)
  obtain r where r: "ChunkStore_GetChunk h i (w_db w) = (r, w_db w)" using g by simp
  show ?thesis
  proof (cases r)
    case (Inl e)
    have "e = ErrNoRows" using Inl r g by (auto simp: first_row_Inl)
    then show ?thesis using chunk_store.get_chunk_err [OF assms(2) r [unfolded Inl]] assms(3,4) by blast
  next
    case (Inr k)
    then show ?thesis
      using chunk_store.get_chunk_ok [OF assms(2) r [unfolded Inr]] db_do_same [of "ChunkStore_GetChunk h i" w r] r by blast
  qed
qed

lemma Open_calm:
  "calm w \<Longrightarrow> fs_of (w_os w) path = Some c \<Longrightarrow> os_do (os_Open path) w = (Inr (Inr c), w)"
  by (simp add: calm_def os_do_def os_Open_def os_call_calm)

lemma messageCLI_calm: "calm w \<Longrightarrow> \<exists>c. messageCLI s w = (Inr (), w\<lparr>w_cli := c\<rparr>)"
proof (cases "n_cliRouter (w_node w)")
  case None
  then have "messageCLI s w = (Inr (), w\<lparr>w_cli := w_cli w\<rparr>)" by (simp add: messageCLI_def go_return_def)
  then show ?thesis by blast
next
  case (Some r)
  assume "calm w"
  then have "messageCLI s w = (Inr (), w\<lparr>w_cli := w_cli w @ [(r, BuildLogMessage s)]\<rparr>)"
    using Some by (simp add: messageCLI_def send_cli_def succeeds_def go_simps calm_def get_node_def)
  then show ?thesis by blast
qed

lemma send_dc_calm: "calm w \<Longrightarrow> send_dc dc msg w = (Inr True, w\<lparr>w_sent := w_sent w @ [(dc, msg)]\<rparr>)"
  by (simp add: send_dc_def succeeds_def go_simps calm_def)

section \<open>The receiver's turn\<close>

definition own_map_of :: "world \<Rightarrow> (string, int list) gomap" where
  "own_map_of w = (case mget (n_peerChunkMap (w_node w)) (n_id (w_node w)) of None \<Rightarrow> [] | Some fs \<Rightarrow> fs)"

lemma Mark_calm:
  assumes "calm w" "wf_db (w_db w)"
  shows "\<exists>d. db_do (ChunkStore_MarkChunkAvailable h i) w = (Inr (Inr ()), w\<lparr>w_db := d\<rparr>) \<and> sched d = [] \<and>
    files (tables_of d) = files (tables_of (w_db w)) \<and>
    stored_chunks d = (stored_chunks (w_db w))(h := map (set_available i) (stored_chunks (w_db w) h))"
proof -
  let ?u = "update_available h i True (tables_of (w_db w))"
  let ?d = "(w_db w)\<lparr>tables_of := snd ?u\<rparr>"
  have m: "ChunkStore_MarkChunkAvailable h i (w_db w) = (Inr (), ?d)"
    using assms(1)
    by (auto simp: calm_def ChunkStore_MarkChunkAvailable_def Q_MarkChunkAvailable_def run_stmt_calm update_available_def
        split: sum.splits)
  have "files (tables_of ?d) = files (tables_of (w_db w))"
    using Q_Mark_result [OF m [unfolded ChunkStore_MarkChunkAvailable_def]] by simp
  then show ?thesis using m chunk_store.mark_ok [OF assms(2) m] assms(1) by (auto simp: db_do_def calm_def)
qed

lemma response_calm:
  assumes calm: "calm w" and inv: "transfer_inv h xs w"
    and m: "cs_FileHash m = h" "cs_ChunkIndex m = int i" "i < tiles xs" "cs_ChunkData m = tile M xs i"
  shows "\<exists>w' cs. handleChunkResponse p m w = (Inr (), w') \<and> calm w' \<and> transfer_inv h xs w' \<and>
    stored_chunks (w_db w') h = map (set_available (int i)) (stored_chunks (w_db w) h) \<and>
    stored_file (w_db w') h = stored_file (w_db w) h \<and>
    mget (own_map_of w) h = Some cs \<and> i < length cs \<and>
    w_node w' = (w_node w)\<lparr>n_peerChunkMap :=
      mput (n_id (w_node w)) (mput h (cs[i := 1]) (own_map_of w)) (n_peerChunkMap (w_node w))\<rparr>"
proof -
  obtain own cs where own: "mget (n_peerChunkMap (w_node w)) (n_id (w_node w)) = Some own" "mget own h = Some cs"
    "length cs = tiles xs" using inv by (auto simp: transfer_inv_def own_map_ok_def)
  obtain f content where f: "stored_file (w_db w) h = Some f" "fs_of (w_os w) (file_path w f) = Some content"
    "int (length xs) \<le> 2 ^ 46" "wf_db (w_db w)" using inv by (auto simp: transfer_inv_def stored_ok_def sane_db_def)
  obtain c1 where c1: "messageCLI (''Got chunk '' @ FormatInt (cs_ChunkIndex m) @ '' from peer '' @ p) w
      = (Inr (), w\<lparr>w_cli := c1\<rparr>)" using messageCLI_calm [OF calm] by blast
  have "calm (w\<lparr>w_cli := c1\<rparr>)" using calm by (simp add: calm_def)
  then obtain c2 where c2: "messageCLI ''progress'' (w\<lparr>w_cli := c1\<rparr>) = (Inr (), w\<lparr>w_cli := c2\<rparr>)"
    using messageCLI_calm by fastforce
  let ?w2 = "w\<lparr>w_cli := c2\<rparr>"
  have calm2: "calm ?w2" using calm by (simp add: calm_def)
  let ?content = "write_at content (i * M) (tile M xs i)"
  let ?w3 = "?w2\<lparr>w_os := (w_os w)\<lparr>fs_of := (fs_of (w_os w))(file_path w f \<mapsto> ?content)\<rparr>\<rparr>"
  have name: "db_do (FileStore_GetFileNameByHash h) ?w2 = (Inr (Inr (f_Name f)), ?w2)"
    using GetName_calm [OF calm2] f(1) by simp
  have opn: "os_do (os_Open (file_path w f)) ?w2 = (Inr (Inr content), ?w2)"
    using Open_calm [OF calm2] f(2) by simp
  have lt: "i * M < length xs" "int (length xs) < 2 ^ 63" using m(3) f(3) by (simp_all add: tiles_iff)
  have wr: "os_do (os_WriteChunk (file_path w f) (int i) (int M) (tile M xs i)) ?w2 = (Inr (Inr ()), ?w3)"
    using calm f(2) WriteChunkData_tile [OF lt, of content]
    by (simp add: os_do_def os_WriteChunk_def os_call_calm calm_def)
  let ?map = "mput (n_id (w_node w)) (mput h (cs[i := 1]) own) (n_peerChunkMap (w_node w))"
  let ?w4 = "?w3\<lparr>w_node := (w_node w)\<lparr>n_peerChunkMap := ?map\<rparr>\<rparr>"
  have mark: "mark_own_chunk h (int i) ?w3 = (Inr (), ?w4)"
    using own m(3) by (simp add: mark_own_chunk_def slice_set_def upd_node_def go_lift_def go_modify_def Let_def go_bind_def [of "go_lift _"])
  have "calm ?w4" "wf_db (w_db ?w4)" using calm f(4) by (simp_all add: calm_def)
  from Mark_calm [OF this, of h "int i"] obtain d where d:
    "db_do (ChunkStore_MarkChunkAvailable h (int i)) ?w4 = (Inr (Inr ()), ?w4\<lparr>w_db := d\<rparr>)" "sched d = []"
    "files (tables_of d) = files (tables_of (w_db w))"
    "stored_chunks d = (stored_chunks (w_db w))(h := map (set_available (int i)) (stored_chunks (w_db w) h))"
    by auto
  let ?w5 = "?w4\<lparr>w_db := d\<rparr>"
  have run: "handleChunkResponse p m w = (Inr (), ?w5)"
    using c1 c2 name opn wr mark d(1) m(1,2,4)
    by (simp add: handleChunkResponse_def go_then_def go_bind_def [of "messageCLI _"] go_bind_def [of "db_do _"]
        go_bind_def [of "os_do _"] go_bind_def [of "mark_own_chunk _ _"] Let_def file_path_def go_return_def)
  moreover have "transfer_inv h xs ?w5"
    using receive_tile [OF inv m, of p] run by simp
  moreover have "calm ?w5" using calm d(2) by (simp add: calm_def)
  moreover have "stored_file d h = stored_file (w_db w) h" using stored_file_cong [OF d(3)] by simp
  moreover have "mget (own_map_of w) h = Some cs \<and> i < length cs \<and> own_map_of w = own"
    using own m(3) by (simp add: own_map_of_def)
  ultimately show ?thesis using d(4) own(2) by (intro exI [of _ ?w5] exI [of _ cs]) simp
qed

text \<open>
  The peers that offer a missing chunk: exactly the given one. The receiver's own map marks
  no chunk that is missing.
\<close>

definition only_source :: "string \<Rightarrow> bytes \<Rightarrow> string \<Rightarrow> world \<Rightarrow> bool" where
  "only_source h xs p w \<longleftrightarrow> (\<forall>i < tiles xs. i \<notin> have_chunks w h \<longrightarrow>
     map fst (filter (\<lambda>(q, fs). offers h (int i) fs) (n_peerChunkMap (w_node w))) = [p])"

lemma filter_mput_same:
  assumes "mget m k = Some v" "Q v' = Q v"
  shows "map fst (filter (\<lambda>(q, x). Q x) (mput k v' m)) = map fst (filter (\<lambda>(q, x). Q x) m)"
  using assms(1)
proof (induction m)
  case (Cons a m)
  then show ?case using assms(2) by (cases a) auto
qed simp

lemma offers_other_index: "i \<noteq> j \<Longrightarrow> mget own h = Some cs \<Longrightarrow> offers h (int j) (mput h (cs[i := 1]) own) = offers h (int j) own"
  by (auto simp: offers_def)

text \<open>After the chunk \<open>i\<close> has arrived.\<close>

lemma only_source_marked:
  assumes src: "only_source h xs p w" and inv: "transfer_inv h xs w"
    and rows: "stored_chunks (w_db w') h = map (set_available (int i)) (stored_chunks (w_db w) h)"
    and own: "mget (own_map_of w) h = Some cs"
    and node: "n_peerChunkMap (w_node w') =
      mput (n_id (w_node w)) (mput h (cs[i := 1]) (own_map_of w)) (n_peerChunkMap (w_node w))"
  shows "only_source h xs p w'"
  unfolding only_source_def
proof (intro allI impI)
  fix j assume j: "j < tiles xs" "j \<notin> have_chunks w' h"
  have "have_chunks w h \<subseteq> have_chunks w' h"
  proof
    fix k assume "k \<in> have_chunks w h"
    then obtain c where "c \<in> set (stored_chunks (w_db w) h)" "c_ChunkIndex c = int k" "c_IsAvailable c = 1"
      by (auto simp: have_chunks_def)
    then have "set_available (int i) c \<in> set (stored_chunks (w_db w') h)" "c_ChunkIndex (set_available (int i) c) = int k"
      "c_IsAvailable (set_available (int i) c) = 1" unfolding rows set_map by simp_all
    then show "k \<in> have_chunks w' h" unfolding have_chunks_def by blast
  qed
  then have jw: "j \<notin> have_chunks w h" using j(2) by blast
  have "i \<noteq> j"
  proof
    assume "i = j"
    have "int j \<in> set (map c_ChunkIndex (stored_chunks (w_db w) h))"
      using inv j(1) by (simp add: transfer_inv_def stored_ok_def)
    then obtain c where "c \<in> set (stored_chunks (w_db w) h)" "c_ChunkIndex c = int j" by auto
    then have "set_available (int j) c \<in> set (stored_chunks (w_db w') h)" "c_ChunkIndex (set_available (int j) c) = int j"
      "c_IsAvailable (set_available (int j) c) = 1" unfolding rows set_map \<open>i = j\<close> by simp_all
    then have "j \<in> have_chunks w' h" unfolding have_chunks_def by blast
    then show False using j(2) by simp
  qed
  have "mget (n_peerChunkMap (w_node w)) (n_id (w_node w)) = Some (own_map_of w)"
    using own by (auto simp: own_map_of_def split: option.splits)
  then have "map fst (filter (\<lambda>(q, fs). offers h (int j) fs) (n_peerChunkMap (w_node w'))) =
      map fst (filter (\<lambda>(q, fs). offers h (int j) fs) (n_peerChunkMap (w_node w)))"
    unfolding node by (rule filter_mput_same) (rule offers_other_index [OF \<open>i \<noteq> j\<close> own])
  then show "map fst (filter (\<lambda>(q, fs). offers h (int j) fs) (n_peerChunkMap (w_node w'))) = [p]"
    using src j(1) jw by (simp add: only_source_def)
qed

lemma SelectRandomPeer_one:
  "\<exists>rs. SelectRandomPeer [p] w = (Inr p, w\<lparr>w_rands := rs\<rparr>)"
proof (cases "w_rands w")
  case Nil
  then have "SelectRandomPeer [p] w = (Inr p, w\<lparr>w_rands := w_rands w\<rparr>)"
    by (simp add: SelectRandomPeer_def rand_Intn_def go_bind_def go_lift_def slice_get_def)
  then show ?thesis by blast
next
  case (Cons r rs)
  then show ?thesis by (auto simp: SelectRandomPeer_def rand_Intn_def go_bind_def go_lift_def slice_get_def)
qed

text \<open>One tick of a download that is not complete requests its first missing chunk.\<close>

lemma tick_calm:
  assumes calm: "calm w" and inv: "transfer_inv h xs w" and src: "only_source h xs p w"
    and dc: "mget (n_peerDataChannels (w_node w)) p = Some dc"
    and dl: "mget (n_activeDownloads (w_node w)) h = Some dl" "fd_ActivePeers dl \<noteq> []"
    and more: "\<not> IsDownloadComplete (stored_chunks (w_db w) h)"
  shows "\<exists>i rs. i < tiles xs \<and> i \<notin> have_chunks w h \<and> download_tick h w = (Inr False,
    w\<lparr>w_rands := rs, w_sent := w_sent w @ [(dc, BuildChunkRequestMessage h (int i))]\<rparr>)"
proof -
  let ?rows = "stored_chunks (w_db w) h" and ?k = "FindMissingChunkIndex (stored_chunks (w_db w) h)"
  have ok: "stored_ok h xs w" and small: "length ?rows \<le> 2 ^ 31"
    using inv stored_small [of h xs w] by (simp_all add: transfer_inv_def)
  have k1: "?k \<noteq> -1" and k0: "0 \<le> ?k"
    using more find_missing_from_none [of 0 ?rows] small find_missing_nonneg [OF small]
    by (auto simp: FindMissingChunkIndex_def IsDownloadComplete_iff)
  have len: "length ?rows = tiles xs"
    using ok by (metis diff_zero length_map length_upt stored_ok_def)
  have miss: "nat ?k < length ?rows" "c_IsAvailable (?rows ! nat ?k) \<noteq> 1"
    using find_missing_from_pos [of 0 ?rows ?k] k1 small by (auto simp: FindMissingChunkIndex_def)
  let ?i = "nat ?k"
  have "c_ChunkIndex (?rows ! j) = int j" if "j < tiles xs" for j
  proof -
    have "c_ChunkIndex (?rows ! j) = map c_ChunkIndex ?rows ! j" using that len by simp
    also have "\<dots> = int j" using ok that by (simp add: stored_ok_def)
    finally show ?thesis .
  qed
  then have unique: "j = ?i" if "j < tiles xs" "c_ChunkIndex (?rows ! j) = int ?i" for j
    using that by (metis of_nat_eq_iff)
  have "?i \<notin> have_chunks w h"
  proof
    assume "?i \<in> have_chunks w h"
    then obtain j where "j < tiles xs" "c_ChunkIndex (?rows ! j) = int ?i" "c_IsAvailable (?rows ! j) = 1"
      using len unfolding have_chunks_def by (fastforce simp only: mem_Collect_eq in_set_conv_nth)
    then show False using unique miss(2) by blast
  qed
  moreover have i: "?i < tiles xs" using miss(1) len by simp
  ultimately have "map fst (filter (\<lambda>(q, fs). offers h (int ?i) fs) (n_peerChunkMap (w_node w))) = [p]"
    using src unfolding only_source_def by blast
  moreover have "int ?i = ?k" using k0 by simp
  ultimately have elig: "FindEligiblePeers (n_peerChunkMap (w_node w)) h ?k = Inr [p]"
    using FindEligiblePeers_offers [OF k0, of "n_peerChunkMap (w_node w)" h] by (simp only:)
  obtain rs where sel: "SelectRandomPeer [p] w = (Inr p, w\<lparr>w_rands := rs\<rparr>)" using SelectRandomPeer_one by blast
  let ?msg = "BuildChunkRequestMessage h ?k"
  let ?w' = "w\<lparr>w_rands := rs, w_sent := w_sent w @ [(dc, ?msg)]\<rparr>"
  have "calm (w\<lparr>w_rands := rs\<rparr>)" using calm by (simp add: calm_def)
  then have send: "send_with_retries maxRetries p ?msg (w\<lparr>w_rands := rs\<rparr>) = (Inr True, ?w')"
    using send_dc_calm [of "w\<lparr>w_rands := rs\<rparr>" dc ?msg] dc
    by (simp add: maxRetries_def numeral_3_eq_3 go_bind_def [of "send_dc _ _"] go_return_def)
  have req: "requestOneMissingChunk h w = (Inr (), ?w')"
    using GetChunks_calm [OF calm] elig sel send dc k1
    by (simp add: requestOneMissingChunk_def Let_def go_bind_def [of "db_do _"] go_bind_def [of "go_lift _"]
        go_bind_def [of "SelectRandomPeer _"] go_lift_def go_then_def go_bind_def [of "send_with_retries _ _ _"] go_return_def)
  have "download_tick h w = (Inr False, ?w')"
    using GetChunks_calm [OF calm] more dl req
    by (simp add: download_tick_def go_bind_def [of "db_do _"] go_then_def go_bind_def [of "requestOneMissingChunk _"] go_return_def)
  then show ?thesis using i k0 \<open>?i \<notin> have_chunks w h\<close> by (intro exI [of _ ?i] exI [of _ rs]) simp
qed

section \<open>The sender's turn\<close>

lemma stored_chunk_ok:
  assumes ok: "stored_ok h xs w" and c: "c \<in> set (stored_chunks (w_db w) h)" "c_ChunkIndex c = int i"
    and i: "i \<in> have_chunks w h"
  shows "c_IsAvailable c = 1"
proof -
  obtain k where k: "k \<in> set (stored_chunks (w_db w) h)" "c_ChunkIndex k = int i" "c_IsAvailable k = 1"
    using i by (auto simp: have_chunks_def)
  have "distinct (map c_ChunkIndex (stored_chunks (w_db w) h))"
    using ok by (simp add: stored_ok_def distinct_map)
  then have "c = k" using c k(1,2) distinct_map_unique by metis
  then show ?thesis using k(3) by simp
qed

lemma answer_calm:
  assumes calm: "calm w" and ok: "stored_ok h xs w" "row_sizes h xs w" and i: "i < tiles xs" "i \<in> have_chunks w h"
    and dc: "mget (n_peerDataChannels (w_node w)) q = Some dc"
    and m: "cr_FileHash m = h" "cr_ChunkIndex m = int i"
  shows "handleChunkRequest q m w =
    (Inr (), w\<lparr>w_sent := w_sent w @ [(dc, BuildChunkResponseMessage h (int i) (tile M xs i))]\<rparr>)"
proof -
  have wf: "wf_db (w_db w)" using ok(1) by (simp add: stored_ok_def sane_db_def)
  obtain c0 where "c0 \<in> set (stored_chunks (w_db w) h)" "c_ChunkIndex c0 = int i"
    using i(2) by (auto simp: have_chunks_def)
  then obtain c where c: "db_do (ChunkStore_GetChunk h (int i)) w = (Inr (Inr c), w)"
    "c \<in> set (stored_chunks (w_db w) h)" "c_ChunkIndex c = int i"
    using GetChunk_calm [OF calm wf] by blast
  have av: "c_IsAvailable c = 1" by (rule stored_chunk_ok [OF ok(1) c(2,3) i(2)])
  have size: "c_ChunkSize c = int (length (tile M xs i))" using ok(2) c(2,3) by (simp add: row_sizes_def)
  obtain f content where f: "stored_file (w_db w) h = Some f" "fs_of (w_os w) (file_path w f) = Some content"
    "agrees_on M xs (have_chunks w h) content" "int (length xs) \<le> 2 ^ 46" using ok(1) by (auto simp: stored_ok_def)
  have "ReadChunkData content (int i) (int (length (tile M xs i))) (int M) = Inr (Inr (tile M xs i))"
    by (rule read_agreeing_tile [OF i f(3)]) (use f(4) in simp)
  then have "readChunkFromFile h (int i) (int (length (tile M xs i))) (int M) w = (Inr (Some (tile M xs i)), w)"
    using GetName_calm [OF calm f(1)] Open_calm [OF calm f(2)]
    by (simp add: readChunkFromFile_def go_bind_def [of "db_do _"] go_bind_def [of "os_do _"]
        go_bind_def [of "go_lift _"] go_lift_def go_return_def file_path_def)
  then show ?thesis
    using c(1,3) av size dc m send_dc_calm [OF calm]
    by (simp add: handleChunkRequest_def go_bind_def [of "db_do _"] go_bind_def [of "readChunkFromFile _ _ _ _"]
        go_then_def go_bind_def [of "send_dc _ _"] go_return_def)
qed

section \<open>Rounds\<close>

text \<open>
  One round between a receiver and a sender: a tick of the receiver's download manager, then
  the delivery of the message it sent last to the sender's message handler, then the delivery
  of the message the sender sent last to the receiver's. \<open>p\<close> and \<open>q\<close> are the ids under which
  the receiver and the sender know each other.
\<close>

definition on_receiver :: "'a act \<Rightarrow> (world \<times> world, 'a) go" where
  "on_receiver m s = (case m (fst s) of (r, w) \<Rightarrow> (r, (w, snd s)))"

definition on_sender :: "'a act \<Rightarrow> (world \<times> world, 'a) go" where
  "on_sender m s = (case m (snd s) of (r, w) \<Rightarrow> (r, (fst s, w)))"

definition transfer_round :: "string \<Rightarrow> string \<Rightarrow> string \<Rightarrow> (world \<times> world, unit) go" where
  "transfer_round h p q =
     go_then (on_receiver (download_tick h))
     (go_bind (go_gets (\<lambda>(wr, ws). snd (last (w_sent wr)))) (\<lambda>request.
      go_then (on_sender (webrtcMessageHandler (Some request) q))
      (go_bind (go_gets (\<lambda>(wr, ws). snd (last (w_sent ws)))) (\<lambda>response.
       on_receiver (webrtcMessageHandler (Some response) p)))))"

fun transfer_rounds :: "nat \<Rightarrow> string \<Rightarrow> string \<Rightarrow> string \<Rightarrow> (world \<times> world, unit) go" where
  "transfer_rounds 0 h p q = go_return ()"
| "transfer_rounds (Suc n) h p q = go_then (transfer_round h p q) (transfer_rounds n h p q)"

definition can_receive :: "string \<Rightarrow> bytes \<Rightarrow> string \<Rightarrow> world \<Rightarrow> bool" where
  "can_receive h xs p w \<longleftrightarrow> calm w \<and> transfer_inv h xs w \<and> only_source h xs p w \<and>
     mget (n_peerDataChannels (w_node w)) p \<noteq> None \<and>
     (\<exists>dl. mget (n_activeDownloads (w_node w)) h = Some dl \<and> fd_ActivePeers dl \<noteq> [])"

definition can_send :: "string \<Rightarrow> bytes \<Rightarrow> string \<Rightarrow> world \<Rightarrow> bool" where
  "can_send h xs q w \<longleftrightarrow> calm w \<and> stored_ok h xs w \<and> row_sizes h xs w \<and> have_chunks w h = {..<tiles xs} \<and>
     mget (n_peerDataChannels (w_node w)) q \<noteq> None"

lemma can_send_sent: "can_send h xs q w \<Longrightarrow> can_send h xs q (w\<lparr>w_sent := s\<rparr>)"
proof -
  assume "can_send h xs q w"
  moreover have "stored_ok h xs (w\<lparr>w_sent := s\<rparr>) = stored_ok h xs w" by (rule stored_ok_cong) simp_all
  ultimately show ?thesis by (simp add: can_send_def calm_def row_sizes_def have_chunks_def)
qed

lemma round_progress:
  assumes rcv: "can_receive h xs p wr" and snd: "can_send h xs q ws"
    and more: "\<not> IsDownloadComplete (stored_chunks (w_db wr) h)"
  shows "\<exists>wr' ws'. transfer_round h p q (wr, ws) = (Inr (), wr', ws') \<and> can_receive h xs p wr' \<and> can_send h xs q ws' \<and>
    missing (stored_chunks (w_db wr') h) < missing (stored_chunks (w_db wr) h)"
proof -
  obtain dcr dl where r: "calm wr" "transfer_inv h xs wr" "only_source h xs p wr"
    "mget (n_peerDataChannels (w_node wr)) p = Some dcr"
    "mget (n_activeDownloads (w_node wr)) h = Some dl" "fd_ActivePeers dl \<noteq> []"
    using rcv by (auto simp: can_receive_def)
  obtain dcs where s: "calm ws" "stored_ok h xs ws" "row_sizes h xs ws" "have_chunks ws h = {..<tiles xs}"
    "mget (n_peerDataChannels (w_node ws)) q = Some dcs" using snd by (auto simp: can_send_def)
  obtain i rs where tick: "i < tiles xs" "i \<notin> have_chunks wr h" "download_tick h wr = (Inr False,
      wr\<lparr>w_rands := rs, w_sent := w_sent wr @ [(dcr, BuildChunkRequestMessage h (int i))]\<rparr>)"
    using tick_calm [OF r more] by blast
  let ?wr1 = "wr\<lparr>w_rands := rs, w_sent := w_sent wr @ [(dcr, BuildChunkRequestMessage h (int i))]\<rparr>"
  let ?req = "\<lparr>cr_FileHash = h, cr_ChunkIndex = int i, cr_ChunkHash = []\<rparr>"
  let ?resp = "\<lparr>cs_FileHash = h, cs_ChunkIndex = int i, cs_ChunkData = tile M xs i\<rparr>"
  let ?ws1 = "ws\<lparr>w_sent := w_sent ws @ [(dcs, BuildChunkResponseMessage h (int i) (tile M xs i))]\<rparr>"
  have i: "i \<in> have_chunks ws h" using s(4) tick(1) by simp
  have answer: "handleChunkRequest q ?req ws = (Inr (), ?ws1)"
    by (rule answer_calm [OF s(1-3) tick(1) i s(5)]) simp_all
  have calm1: "calm ?wr1" using r(1) by (simp add: calm_def)
  have inv1: "transfer_inv h xs ?wr1" using r(2) transfer_inv_cong [of ?wr1 wr] by simp
  obtain wr' cs where wr': "handleChunkResponse p ?resp ?wr1 = (Inr (), wr')" "calm wr'" "transfer_inv h xs wr'"
    "stored_chunks (w_db wr') h = map (set_available (int i)) (stored_chunks (w_db wr) h)"
    "mget (own_map_of ?wr1) h = Some cs"
    "w_node wr' = (w_node wr)\<lparr>n_peerChunkMap :=
       mput (n_id (w_node wr)) (mput h (cs[i := 1]) (own_map_of ?wr1)) (n_peerChunkMap (w_node wr))\<rparr>"
    using response_calm [OF calm1 inv1, of ?resp i p] tick(1) by auto
  have own: "own_map_of ?wr1 = own_map_of wr" by (simp add: own_map_of_def)
  have "only_source h xs p wr'"
    by (rule only_source_marked [OF r(3,2) wr'(4)]) (use wr'(5,6) own in simp_all)
  then have rcv': "can_receive h xs p wr'" using r(4-6) wr'(2,3,6) by (simp add: can_receive_def)
  have "int i \<in> set (map c_ChunkIndex (stored_chunks (w_db wr) h))"
    using r(2) tick(1) by (simp add: transfer_inv_def stored_ok_def)
  then obtain c where c: "c \<in> set (stored_chunks (w_db wr) h)" "c_ChunkIndex c = int i" by auto
  moreover have "c_IsAvailable c \<noteq> 1" using tick(2) c by (auto simp: have_chunks_def)
  ultimately have less: "missing (stored_chunks (w_db wr') h) < missing (stored_chunks (w_db wr) h)"
    unfolding wr'(4) by (rule missing_mark_less)
  have "transfer_round h p q (wr, ws) = (Inr (), wr', ?ws1)"
    using tick(3) answer wr'(1)
    by (simp add: transfer_round_def go_then_def go_bind_def on_receiver_def on_sender_def go_gets_def
        webrtcMessageHandler_def BuildChunkRequestMessage_def BuildChunkResponseMessage_def)
  then show ?thesis using rcv' can_send_sent [OF snd] less by blast
qed

lemma rounds_complete:
  assumes "can_receive h xs p wr" "can_send h xs q ws"
  shows "\<exists>n wr' ws'. n \<le> missing (stored_chunks (w_db wr) h) \<and>
    transfer_rounds n h p q (wr, ws) = (Inr (), wr', ws') \<and> can_receive h xs p wr' \<and>
    IsDownloadComplete (stored_chunks (w_db wr') h)"
  using assms
proof (induction "missing (stored_chunks (w_db wr) h)" arbitrary: wr ws rule: less_induct)
  case less
  show ?case
  proof (cases "IsDownloadComplete (stored_chunks (w_db wr) h)")
    case True
    then show ?thesis using less.prems(1)
      by (intro exI [of _ 0] exI [of _ wr] exI [of _ ws]) (simp add: go_return_def)
  next
    case False
    obtain wr1 ws1 where one: "transfer_round h p q (wr, ws) = (Inr (), wr1, ws1)" "can_receive h xs p wr1"
      "can_send h xs q ws1" "missing (stored_chunks (w_db wr1) h) < missing (stored_chunks (w_db wr) h)"
      using round_progress [OF less.prems False] by blast
    obtain n wr' ws' where rest: "n \<le> missing (stored_chunks (w_db wr1) h)"
      "transfer_rounds n h p q (wr1, ws1) = (Inr (), wr', ws')" "can_receive h xs p wr'"
      "IsDownloadComplete (stored_chunks (w_db wr') h)"
      using less.hyps [OF one(4,2,3)] by blast
    have "transfer_rounds (Suc n) h p q (wr, ws) = (Inr (), wr', ws')"
      using one(1) rest(2) by (simp add: go_then_def go_bind_def)
    then show ?thesis using rest one(4) by (intro exI [of _ "Suc n"]) auto
  qed
qed

text \<open>C4: when nothing fails, a receiver that is connected to one peer with the whole file completes
  within as many rounds as it misses chunks; nothing panics, the file on its disk is then the
  shared file, and the next tick of its download manager ends the download.\<close>

theorem transfer_completes:
  assumes "can_receive h xs p wr" "can_send h xs q ws"
  shows "\<exists>n wr' ws' f. n \<le> missing (stored_chunks (w_db wr) h) \<and>
    transfer_rounds n h p q (wr, ws) = (Inr (), wr', ws') \<and>
    stored_file (w_db wr') h = Some f \<and> fs_of (w_os wr') (file_path wr' f) = Some xs \<and>
    fst (download_tick h wr') = Inr True"
proof -
  obtain n wr' ws' where d: "n \<le> missing (stored_chunks (w_db wr) h)"
    "transfer_rounds n h p q (wr, ws) = (Inr (), wr', ws')" "can_receive h xs p wr'"
    "IsDownloadComplete (stored_chunks (w_db wr') h)"
    using rounds_complete [OF assms] by blast
  have calm: "calm wr'" and ok: "stored_ok h xs wr'" using d(3) by (simp_all add: can_receive_def transfer_inv_def)
  obtain f where f: "stored_file (w_db wr') h = Some f" using ok by (auto simp: stored_ok_def)
  have "calm (wr'\<lparr>w_node := nd\<rparr>)" for nd using calm by (simp add: calm_def)
  then obtain c where "messageCLI ''done'' (wr'\<lparr>w_node := (w_node wr')\<lparr>n_activeDownloads :=
      mdel h (n_activeDownloads (w_node wr'))\<rparr>\<rparr>) = (Inr (), wr'\<lparr>w_node := (w_node wr')\<lparr>n_activeDownloads :=
      mdel h (n_activeDownloads (w_node wr'))\<rparr>, w_cli := c\<rparr>)" using messageCLI_calm by blast
  then have "fst (download_tick h wr') = Inr True"
    using GetChunks_calm [OF calm] d(4)
    by (simp add: download_tick_def go_bind_def [of "db_do _"] go_then_def go_bind_def [of "go_modify _"]
        go_bind_def [of "messageCLI _"] upd_node_def go_modify_def go_return_def)
  then show ?thesis using d(1,2) f complete_transfer [OF ok d(4) f] by blast
qed

definition sample_receiver :: world where
  "sample_receiver = sample_world\<lparr>w_node := (w_node sample_world)\<lparr>n_peerChunkMap := [(''7'', [(''h'', [0])]), (''8'', [(''h'', [1])])],
     n_peerDataChannels := [(''8'', 0)],
     n_activeDownloads := [(''h'', \<lparr>fd_FileHash = ''h'', fd_TotalChunks = 1, fd_ActivePeers = [(''8'', True)]\<rparr>)]\<rparr>\<rparr>"

definition sample_sender :: world where
  "sample_sender = sample_world\<lparr>w_node := (w_node sample_world)\<lparr>n_id := ''8'', n_peerDataChannels := [(''7'', 3)]\<rparr>,
     w_db := (w_db sample_world)\<lparr>tables_of := (tables_of (w_db sample_world))\<lparr>chunks :=
       [\<lparr>c_ID = 1, c_FileID = 1, c_ChunkIndex = 0, c_ChunkSize = 3, c_ChunkHash = ''x'', c_IsAvailable = 1\<rparr>]\<rparr>\<rparr>,
     w_os := \<lparr>fs_of = [''downloads/daemon-1/a'' \<mapsto> ''abc''], io_sched = []\<rparr>\<rparr>"

lemma sample_receiver_ok: "can_receive ''h'' ''abc'' ''8'' sample_receiver"
proof -
  have "transfer_inv ''h'' ''abc'' sample_receiver = transfer_inv ''h'' ''abc'' sample_world"
    by (rule transfer_inv_cong) (simp_all add: sample_receiver_def sample_world_def new_node_def)
  then have "transfer_inv ''h'' ''abc'' sample_receiver" using sample_receiving by (simp add: receiving_def)
  moreover have "only_source ''h'' ''abc'' ''8'' sample_receiver"
    using small_tiles [of "''abc''"]
    by (simp add: only_source_def sample_receiver_def offers_def int32_def)
  ultimately show ?thesis
    by (simp add: can_receive_def calm_def sample_receiver_def) (simp add: sample_world_def)
qed

lemma sample_sender_rows:
  "stored_chunks (w_db sample_sender) ''h'' =
     [\<lparr>c_ID = 1, c_FileID = 1, c_ChunkIndex = 0, c_ChunkSize = 3, c_ChunkHash = ''x'', c_IsAvailable = 1\<rparr>]"
  "map_option f_Name (stored_file (w_db sample_sender) ''h'') = Some ''a''"
  by code_simp+

lemma sample_sender_ok: "can_send ''h'' ''abc'' ''7'' sample_sender"
proof -
  note one = small_tiles [of "''abc''"]
  obtain f where f: "stored_file (w_db sample_sender) ''h'' = Some f" "f_Name f = ''a''"
    using sample_sender_rows(2) by auto
  have p: "file_path sample_sender f = ''downloads/daemon-1/a''"
    using f(2) by (simp add: file_path_def BuildDownloadPath_def sample_sender_def sample_world_def new_node_def)
  have "wf_db (w_db sample_sender)"
    by (simp add: wf_db_def wf_tables_def sample_sender_def sample_world_def ids_ok_def max_int64_def)
  then have "sane_db (w_db sample_sender) \<and> sizes_ok (w_db sample_sender)"
    by (simp add: sane_db_def sizes_ok_def sample_sender_def sample_world_def)
  moreover have "agrees_on M ''abc'' (have_chunks sample_sender ''h'') ''abc''" by (simp add: agrees_on_def)
  moreover have "fs_of (w_os sample_sender) ''downloads/daemon-1/a'' = Some ''abc''" by (simp add: sample_sender_def)
  ultimately have "stored_ok ''h'' ''abc'' sample_sender"
    using f p one by (simp add: stored_ok_def sample_sender_rows)
  moreover have "row_sizes ''h'' ''abc'' sample_sender" using one by (simp add: row_sizes_def sample_sender_rows)
  moreover have "have_chunks sample_sender ''h'' = {..<tiles ''abc''}"
    using one by (auto simp: have_chunks_def sample_sender_rows)
  moreover have "calm sample_sender" by (simp add: calm_def sample_sender_def sample_world_def)
  ultimately show ?thesis by (simp add: can_send_def) (simp add: sample_sender_def)
qed

theorem transfer_completes_witness:
  "\<exists>n wr' ws' f. n \<le> 1 \<and> transfer_rounds n ''h'' ''8'' ''7'' (sample_receiver, sample_sender) = (Inr (), wr', ws') \<and>
     fs_of (w_os wr') (file_path wr' f) = Some ''abc''"
proof -
  have "missing (stored_chunks (w_db sample_receiver) ''h'') = 1" by code_simp
  then show ?thesis using transfer_completes [OF sample_receiver_ok sample_sender_ok] by (metis (no_types, lifting))
qed

text \<open>An instance of the answer of an honest sender.\<close>

theorem answers_are_honest_witness:
  "\<exists>w'. handleChunkRequest ''7'' \<lparr>cr_FileHash = ''h'', cr_ChunkIndex = 0, cr_ChunkHash = []\<rparr> sample_sender = (Inr (), w') \<and>
     map (honest_message ''h'' ''abc'' ''7'' ''8'' \<circ> Some \<circ> snd) (w_sent w') = [True]"
proof -
  let ?m = "\<lparr>cr_FileHash = ''h'', cr_ChunkIndex = 0, cr_ChunkHash = []\<rparr>"
  obtain r w' where h: "handleChunkRequest ''7'' ?m sample_sender = (r, w')"
    by (cases "handleChunkRequest ''7'' ?m sample_sender")
  have ok: "stored_ok ''h'' ''abc'' sample_sender" "row_sizes ''h'' ''abc'' sample_sender"
    using sample_sender_ok by (simp_all add: can_send_def)
  have "length (w_sent (snd (handleChunkRequest ''7'' ?m sample_sender))) = 1" by code_simp
  then have "length (w_sent w') = 1" using h by simp
  moreover have "w_sent sample_sender = []" by (simp add: sample_sender_def sample_world_def)
  ultimately show ?thesis
    using answers_are_honest [OF ok _ h, of "''7''" "''8''"] h by auto
qed

end
