(* ===== verification/DaemonSafety.thy ===== *)
theory DaemonSafety
  imports DaemonInv
begin

text \<open>
  The safety invariant of a daemon: its rows cannot make a chunk map panic, its maps name
  objects that exist and belong to the peer they are filed under, every message it wrote is one
  its receiver reads, and peer lists wait in the channel of their own hash. Kept by every event;
  and the complete list of the ways an event can stop the process.
\<close>

section \<open>The invariant\<close>

definition objects_ok :: "(string, nat) gomap \<Rightarrow> rtc_object list \<Rightarrow> bool" where
  "objects_ok m obs \<longleftrightarrow> (\<forall>p i. mget m p = Some i \<longrightarrow> i < length obs \<and> rtc_peer (obs ! i) = p)"

definition pending_ok :: "(string, PeerListResponse list) gomap \<Rightarrow> bool" where
  "pending_ok pd \<longleftrightarrow> (\<forall>h q. mget pd h = Some q \<longrightarrow> length q \<le> chan_capacity \<and>
     (\<forall>r \<in> set q. PeerListResponse_GetFileHash (Some r) = h))"

definition world_ok :: "string set \<Rightarrow> world \<Rightarrow> bool" where
  "world_ok K w \<longleftrightarrow> sane_db (w_db w) \<and>
     objects_ok (n_peerConnections (w_node w)) (w_pcs w) \<and>
     objects_ok (n_peerDataChannels (w_node w)) (w_dcs w) \<and>
     (\<forall>m \<in> set (w_tracker w). for_tracker m) \<and> (\<forall>(r, m) \<in> set (w_cli w). for_cli m) \<and>
     (\<forall>(dc, m) \<in> set (w_sent w). for_peer m) \<and>
     pending_ok (n_pendingPeerListRequests (w_node w)) \<and>
     (\<forall>h \<in> K. mget (n_pendingPeerListRequests (w_node w)) h \<noteq> None)"

definition daemon_ok :: "daemon \<Rightarrow> bool" where
  "daemon_ok d \<longleftrightarrow> world_ok (fst ` set (d_waiting d)) (d_world d)"

lemma objects_ok_add: "objects_ok m obs \<Longrightarrow> objects_ok (mput (rtc_peer ob) (length obs) m) (obs @ [ob])"
  unfolding objects_ok_def by (auto simp: nth_append less_Suc_eq split: if_splits)

lemma objects_ok_del: "objects_ok m obs \<Longrightarrow> objects_ok (mdel p m) obs"
  by (auto simp: objects_ok_def split: if_splits)

section \<open>Frames of the invariant\<close>

lemma world_ok_db: "world_ok K w \<Longrightarrow> sane_db d \<Longrightarrow> world_ok K (w\<lparr>w_db := d\<rparr>)"
  by (simp add: world_ok_def)

lemma world_ok_sends: "sends_are_frames (world_ok K)"
  unfolding sends_are_frames_def by (intro conjI allI impI) (simp_all add: world_ok_def)

lemma world_ok_queries: "queries_are_frames (world_ok K)"
  unfolding queries_are_frames_def
  by (intro allI impI world_ok_db, assumption, drule sane_db_cong) (simp add: world_ok_def)

lemma world_ok_opens: "opens_are_frames (world_ok K)"
  by (simp add: opens_are_frames_def world_ok_def)

lemma world_ok_conn: "conn_frames (world_ok K)"
  unfolding conn_frames_def
  by (intro conjI allI impI world_ok_sends world_ok_queries)
     (auto simp: world_ok_def add_pc_def add_dc_def objects_ok_add objects_ok_del)

lemma world_ok_intro: "intro_frames p (world_ok K)"
  unfolding intro_frames_def
  by (intro conjI allI impI world_ok_sends world_ok_queries) (simp_all add: world_ok_def)

lemma runs_os [runs_intros]: "runs (world_ok K) E (os_do q)"
  by (rule runs_os_do) (simp add: world_ok_def)

lemma runs_touch [runs_intros]: "runs (world_ok K) E os_touch"
  unfolding os_touch_def by (rule runs_os)

lemmas world_ok_frames [runs_intros] =
  world_ok_sends world_ok_queries world_ok_opens world_ok_conn world_ok_intro

lemma runs_set_chunk_map_own:
  "runs (world_ok K) E (go_then ensure_own_map (go_bind (get_node n_id) (\<lambda>i. set_chunk_map i h cs)))"
proof (rule runsI)
  fix w assume w: "world_ok K w"
  let ?m = "go_then ensure_own_map (go_bind (get_node n_id) (\<lambda>i. set_chunk_map i h cs))"
  have "\<exists>mp. ?m w = (Inr (), w\<lparr>w_node := (w_node w)\<lparr>n_peerChunkMap := mp\<rparr>\<rparr>)"
    by (cases "mget (n_peerChunkMap (w_node w)) (n_id (w_node w))")
       (auto simp: ensure_own_map_def set_chunk_map_def upd_node_def get_node_def go_then_def go_bind_def
         go_gets_def go_modify_def go_return_def)
  then show "world_ok K (snd (?m w)) \<and> (\<forall>e. fst (?m w) = Inl e \<longrightarrow> e \<in> E)"
    using w by (auto simp: world_ok_def)
qed

section \<open>Handlers that write rows\<close>

lemma CreateFile_sane:
  assumes "sane_db c" "0 \<le> k"
  shows "sane_db (snd (FileStore_CreateFile now n s m k h c))"
proof -
  obtain r c' where q: "FileStore_CreateFile now n s m k h c = (r, c')" by (cases "FileStore_CreateFile now n s m k h c")
  have wf: "wf_db c" using assms(1) by (simp add: sane_db_def)
  show ?thesis
    using CreateFile_result [OF q wf] assms q
    by (cases r) (auto simp: sane_db_def split: if_splits)
qed

lemma CreateChunk_sane:
  assumes "sane_db c" "av \<Longrightarrow> 0 \<le> i"
  shows "sane_db (snd (ChunkStore_CreateChunk fid i s h av c))"
proof -
  obtain r c' where q: "ChunkStore_CreateChunk fid i s h av c = (r, c')" by (cases "ChunkStore_CreateChunk fid i s h av c")
  note q' = q [unfolded ChunkStore_CreateChunk_def Let_def]
  have "wf_db c'" using Q_CreateChunk_wf [of c] q' assms(1) by (metis sane_db_def snd_conv)
  then show ?thesis
    using Q_CreateChunk_result [OF q'] assms q by (cases r) (auto simp: sane_db_def split: if_splits)
qed

lemma Mark_sane:
  assumes "sane_db c" "0 \<le> i"
  shows "sane_db (snd (ChunkStore_MarkChunkAvailable h i c))"
proof -
  obtain r c' where q: "ChunkStore_MarkChunkAvailable h i c = (r, c')" by (cases "ChunkStore_MarkChunkAvailable h i c")
  note q' = q [unfolded ChunkStore_MarkChunkAvailable_def]
  have "wf_db c'" using Q_MarkChunkAvailable_wf [of c h i] q' assms(1) by (simp add: sane_db_def)
  then show ?thesis
    using Q_Mark_result [OF q'] assms q by (cases r) (auto simp: sane_db_def mark_row_def)
qed

lemma runs_CreateFile [runs_intros]:
  "0 \<le> k \<Longrightarrow> runs (world_ok K) E (db_do (FileStore_CreateFile now n s m k h))"
  by (rule runs_db_do) (simp add: world_ok_db CreateFile_sane world_ok_def)

lemma runs_CreateChunk [runs_intros]:
  "(av \<Longrightarrow> 0 \<le> i) \<Longrightarrow> runs (world_ok K) E (db_do (ChunkStore_CreateChunk fid i s h av))"
  by (rule runs_db_do) (simp add: world_ok_db CreateChunk_sane world_ok_def)

lemma runs_world_query [runs_intros]:
  "runs (world_ok K) E (db_do FileStore_GetFiles)"
  "runs (world_ok K) E (db_do (FileStore_GetFileByHash h))"
  "runs (world_ok K) E (db_do (FileStore_GetFileNameByHash h))"
  "runs (world_ok K) E (db_do (ChunkStore_GetChunks h))"
  by (rule runs_query [OF world_ok_queries], simp add: FileStore_GetFiles_def Q_GetAllFiles_def run_query_tables [OF surjective_pairing])+

text \<open>An index the own chunk map accepted is not negative.\<close>

lemma mark_own_nonneg: "mark_own_chunk h i w = (Inr u, w') \<Longrightarrow> 0 \<le> i"
  by (auto simp: mark_own_chunk_def go_bind_def get_node_def go_gets_def go_lift_def slice_set_def Let_def
      split: if_splits)

lemma runs_chunk_response:
  assumes "IndexOutOfRange \<in> E"
  shows "runs (world_ok K) E (handleChunkResponse p m)"
proof -
  have mark: "runs (world_ok K) E (mark_own_chunk h i)" for h i
    unfolding mark_own_chunk_def Let_def
    by (intro runs_intros runs_lift runs_upd_node) (use assms in \<open>auto simp: slice_set_def world_ok_def split: if_splits\<close>)
  have pair: "runs (world_ok K) E (go_then (mark_own_chunk h i)
      (go_then (db_do (ChunkStore_MarkChunkAvailable h i)) (go_return ())))" for h i
  proof (rule runs_then_if [OF mark])
    fix s x s' assume "mark_own_chunk h i s = (Inr x, s')"
    then have "0 \<le> i" by (rule mark_own_nonneg)
    then have "runs (world_ok K) E (db_do (ChunkStore_MarkChunkAvailable h i))"
      by (intro runs_db_do) (simp add: world_ok_db Mark_sane world_ok_def)
    then show "runs (world_ok K) E (go_then (db_do (ChunkStore_MarkChunkAvailable h i)) (go_return ()))"
      by (intro runs_intros)
  qed
  show ?thesis unfolding handleChunkResponse_def Let_def by (intro pair runs_intros)
qed

section \<open>Startup\<close>

text \<open>The map built at startup stops only on an available chunk beyond the file's total.\<close>

lemma init_chunk_map_stops: "init_chunk_map cs m = Inl e \<Longrightarrow> e = IndexOutOfRange"
  by (induction cs m rule: init_chunk_map.induct) (auto simp: slice_set_def split: if_splits sum.splits)

lemma runs_init_file:
  assumes "FatalExit \<in> E" "IndexOutOfRange \<in> E" "0 \<le> f_TotalChunks f"
  shows "runs (world_ok K) E (init_file f)"
  unfolding init_file_def
  by (intro runs_intros runs_lift runs_set_chunk_map_own)
     (use assms in \<open>auto simp: make_slice_def dest: init_chunk_map_stops\<close>)

lemma runs_node_init:
  assumes "FatalExit \<in> E" "IndexOutOfRange \<in> E"
  shows "runs (world_ok K) E node_init"
  unfolding node_init_def
proof (rule runs_bind_if)
  show "runs (world_ok K) E (db_do FileStore_GetFiles)" by (rule runs_world_query)
  fix s r s' assume s: "world_ok K s" "db_do FileStore_GetFiles s = (Inr r, s')"
  have "0 \<le> f_TotalChunks f" if rf: "r = Inr fs" "f \<in> set fs" for fs f
  proof -
    obtain d where "FileStore_GetFiles (w_db s) = (Inr fs, d)" using db_do_result [OF s(2)] rf(1) by auto
    then have "fs = files (tables_of (w_db s))"
      unfolding FileStore_GetFiles_def Q_GetAllFiles_def
      by (cases rule: run_query_cases [of "\<lambda>t. Inr (files t)" "w_db s"]) auto
    then show ?thesis using s(1) rf(2) by (simp add: world_ok_def sane_db_def)
  qed
  then show "runs (world_ok K) E (case r of Inl e \<Rightarrow> go_stop FatalExit
    | Inr fileList \<Rightarrow> go_then (go_forM fileList init_file)
        (go_then (send_tracker \<lparr>MessageType = Some (NetworkMessage_Announce \<lparr>am_Files = map file_info fileList\<rparr>)\<rparr>)
        (go_bind (get_node n_id) (\<lambda>i. upd_node (\<lambda>n. n\<lparr>n_peerChunkMap := mput i [] (n_peerChunkMap n)\<rparr>)))))"
    by (intro runs_intros runs_init_file runs_upd_node assms) (auto simp: world_ok_def)
qed

section \<open>Commands\<close>

lemma runs_register_chunks:
  "0 \<le> i \<Longrightarrow> runs (world_ok K) E (register_chunks sha fid i ds pf)"
proof (induction ds arbitrary: i pf)
  case (Cons d ds)
  then show ?case by (auto intro!: runs_intros)
qed (auto intro!: runs_intros)

lemma runs_register_publish [runs_intros]: "runs (world_ok K) E (register_publish filePath fileName dbFile pf)"
  unfolding register_publish_def Let_def by (intro runs_intros)

lemma total_nonneg: "countable_size content \<Longrightarrow> 0 \<le> CalculateTotalChunks (int (length content)) maxChunkSize"
  by (simp add: CalculateTotalChunks_div countable_size_def maxChunkSize_def)

lemma register_stops:
  assumes w: "world_ok K w"
    and size: "\<And>c. fs_of (w_os w) (SignalRegisterMessage_GetFilePath (Some m)) = Some c \<Longrightarrow> countable_size c"
  shows "world_ok K (snd (handleRegisterSignal sha m w)) \<and> (\<forall>e. fst (handleRegisterSignal sha m w) = Inl e \<longrightarrow> e \<in> E)"
proof -
  let ?P = "\<lambda>s. world_ok K s \<and> fs_of (w_os s) = fs_of (w_os w)"
  let ?path = "SignalRegisterMessage_GetFilePath (Some m)"
  obtain r w1 where o: "os_do (os_Open ?path) w = (r, w1)" by (cases "os_do (os_Open ?path) w")
  then obtain x s where x: "os_Open ?path (w_os w) = (x, s)" "r = Inr x" "w1 = w\<lparr>w_os := s\<rparr>"
    by (auto simp: os_do_def split: prod.splits)
  have w1: "world_ok K w1" using w x(3) by (simp add: world_ok_def)
  have c: "countable_size content" if "x = Inr content" for content
    using os_Open_result [OF x(1)] that size by (auto split: option.splits)
  define k where "k = (\<lambda>x :: bytes io. case x of Inl e \<Rightarrow> go_return () | Inr content \<Rightarrow>
      go_bind os_touch (\<lambda>r.
         case r of Inl e \<Rightarrow> go_return () | Inr u \<Rightarrow>
         let fileSize = int (length content); fileTotalChunks = CalculateTotalChunks fileSize maxChunkSize;
             fileName = ExtractFileName ?path
         in go_bind os_touch (\<lambda>r.
            case HashFile sha (map_sum id (\<lambda>u. content) r) of Inl e \<Rightarrow> go_return () | Inr fileHash \<Rightarrow>
            go_bind (go_gets w_now) (\<lambda>now.
            go_bind (db_do (FileStore_CreateFile now fileName fileSize maxChunkSize fileTotalChunks fileHash)) (\<lambda>r.
            case r of
              Inl e \<Rightarrow> go_return ()
            | Inr (dbFile, created) \<Rightarrow>
                if \<not> created then go_return ()
                else go_bind os_touch (\<lambda>r.
                  case r of Inl e \<Rightarrow> go_return () | Inr u \<Rightarrow>
                  go_bind (register_chunks sha (f_ID dbFile) 0 (split_chunks (nat maxChunkSize) content)
                    \<lparr>pf_FileName = fileName, pf_FileHash = fileHash, pf_FileSize = FormatInt fileSize,
                     pf_MaxChunkSize = FormatInt maxChunkSize, pf_TotalChunks = FormatInt fileTotalChunks,
                     pf_Chunks = []\<rparr>) (\<lambda>r.
                  case r of
                    None \<Rightarrow> go_return ()
                  | Some pf \<Rightarrow> register_publish ?path fileName dbFile pf)))))))"
  have "runs (world_ok K) E (k x)"
    unfolding k_def Let_def by (intro runs_intros runs_register_chunks total_nonneg c) simp_all
  moreover have "handleRegisterSignal sha m w = k x w1"
    using o x(2) unfolding handleRegisterSignal_def Let_def go_bind_def [of "os_do _"] k_def by simp
  ultimately show ?thesis using w1 by (simp add: runs_def)
qed

lemma runs_create_missing_chunks [runs_intros]: "runs (world_ok K) E (create_missing_chunks fid cs)"
  by (induction cs) (auto intro!: runs_intros split: prod.split option.split)

lemma reset_own_nonneg: "reset_own_chunks h n w = (Inr u, w') \<Longrightarrow> 0 \<le> n"
  by (auto simp: reset_own_chunks_def go_then_def go_bind_def go_lift_def make_slice_def
      split: prod.splits sum.splits if_splits)

lemma runs_ensure_own_map: "runs (world_ok K) E ensure_own_map"
  unfolding ensure_own_map_def by (intro runs_intros runs_upd_node) (simp add: world_ok_def)

lemma bind_lift_Inr: "go_bind (go_lift (Inr x)) f = f x"
  by (simp add: go_bind_def go_lift_def fun_eq_iff)

lemma runs_reset_own_chunks:
  assumes "MakeSliceNegative \<in> E"
  shows "runs (world_ok K) E (reset_own_chunks h n)"
proof (cases "n < 0")
  case True
  then show ?thesis using assms
    by (auto simp: reset_own_chunks_def make_slice_def intro!: runs_intros runs_ensure_own_map runs_lift
        [of "Inl MakeSliceNegative"] runs_bind_if)
       (auto simp: go_lift_def)
next
  case False
  then have "reset_own_chunks h n = go_then ensure_own_map (go_bind (get_node n_id) (\<lambda>i. set_chunk_map i h (replicate (nat n) 0)))"
    by (simp add: reset_own_chunks_def make_slice_def bind_lift_Inr del: go_get_node)
  then show ?thesis by (simp only: runs_set_chunk_map_own)
qed

lemma runs_download_request [runs_intros]: "runs (world_ok K) E (download_request h n)"
  unfolding download_request_def
  by (intro runs_intros runs_upd_node) (auto simp: world_ok_def pending_ok_def)

lemma runs_download_store [runs_intros]: "0 \<le> n \<Longrightarrow> runs (world_ok K) E (download_store ex pf s n)"
  unfolding download_store_def by (intro runs_intros)

lemma runs_download_files [runs_intros]:
  "MakeSliceNegative \<in> E \<Longrightarrow> runs (world_ok K) E (download_files pf s n c)"
  unfolding download_files_def by (intro runs_intros runs_reset_own_chunks)

lemma parse_lines_stops: "parse_lines i ls pf = Inl e \<Longrightarrow> e = IndexOutOfRange"
  by (induction i ls pf rule: parse_lines.induct)
     (auto simp: parse_line_def parse_chunk_line_def field_def slice_get_def split: if_splits sum.splits)

lemma map_sum_Inl_iff: "map_sum id f r = Inl e \<longleftrightarrow> r = Inl e"
  by (cases r) simp_all

lemma runs_parse:
  assumes "IndexOutOfRange \<in> E"
  shows "runs (world_ok K) E (os_try (ParseP2PFile path))"
proof (rule runsI)
  fix w assume "world_ok K w"
  moreover have "e = IndexOutOfRange" if "ParseP2PFile path s = (Inl e, s')" for s s' e
    using that by (auto simp: ParseP2PFile_def parse_p2p_def map_sum_Inl_iff dest: parse_lines_stops
        split: prod.splits sum.splits)
  ultimately show "world_ok K (snd (os_try (ParseP2PFile path) w)) \<and>
      (\<forall>e. fst (os_try (ParseP2PFile path) w) = Inl e \<longrightarrow> e \<in> E)"
    using assms by (cases "ParseP2PFile path (w_os w)") (auto simp: os_try_def world_ok_def)
qed

lemma runs_handleDownloadSignal:
  assumes "IndexOutOfRange \<in> E" "MakeSliceNegative \<in> E"
  shows "runs (world_ok K) E (handleDownloadSignal m)"
proof -
  have rest: "runs (world_ok K) E (go_then (reset_own_chunks h n)
      (go_bind (download_store ex pf s n) (\<lambda>st. case st of None \<Rightarrow> go_return None | Some c \<Rightarrow> download_files pf s n c)))"
    for h n ex pf s
    by (rule runs_then_if [OF runs_reset_own_chunks])
       (intro runs_intros runs_reset_own_chunks assms | drule reset_own_nonneg)+
  show ?thesis
    unfolding handleDownloadSignal_def Let_def
    by (intro rest runs_intros runs_parse assms) (hypsubst, assumption)
qed

section \<open>Events\<close>

text \<open>Why an event may end the process.\<close>

fun stop_reasons :: "node_event \<Rightarrow> daemon \<Rightarrow> stop set" where
  "stop_reasons Init d = {FatalExit, IndexOutOfRange}"
| "stop_reasons (CandidateFound pc ice) d = (if full_candidate ice then {} else {NilDereference})"
| "stop_reasons (PeerMessage dc decoded) d =
     (case decoded of None \<Rightarrow> {} | Some netMsg \<Rightarrow>
       (case MessageType netMsg of
          Some (NetworkMessage_ChunkRequest m) \<Rightarrow> if sizes_ok (w_db (d_world d)) then {} else {MakeSliceNegative}
        | Some (NetworkMessage_ChunkResponse m) \<Rightarrow> {IndexOutOfRange}
        | _ \<Rightarrow> {}))"
| "stop_reasons (DownloadSignal m) d = {IndexOutOfRange, MakeSliceNegative}"
| "stop_reasons (ManagerTick h) d =
     (if length (stored_chunks (w_db (d_world d)) h) \<le> 2 ^ 31 then {} else {IndexOutOfRange})"
| "stop_reasons _ d = {}"

text \<open>The same frames for the invariant together with a fact about the rows.\<close>

definition row_fact :: "(sqldb \<Rightarrow> bool) \<Rightarrow> bool" where
  "row_fact Q \<longleftrightarrow> (\<forall>c c'. tables_of c' = tables_of c \<longrightarrow> Q c' = Q c)"

lemma world_and_rows:
  assumes "row_fact Q"
  shows "conn_frames (\<lambda>w. world_ok K w \<and> Q (w_db w))" "opens_are_frames (\<lambda>w. world_ok K w \<and> Q (w_db w))"
proof -
  note c = world_ok_conn [of K, unfolded conn_frames_def sends_are_frames_def queries_are_frames_def]
  show "conn_frames (\<lambda>w. world_ok K w \<and> Q (w_db w))"
    unfolding conn_frames_def sends_are_frames_def queries_are_frames_def
  proof (intro conjI allI impI)
    fix w :: world and d :: sqldb assume "world_ok K w \<and> Q (w_db w)" "tables_of d = tables_of (w_db w)"
    moreover from this have "Q d = Q (w_db w)" using assms unfolding row_fact_def by blast
    ultimately show "Q (w_db (w\<lparr>w_db := d\<rparr>))" by simp
  qed (use c in \<open>simp_all add: add_pc_def add_dc_def\<close>)
  show "opens_are_frames (\<lambda>w. world_ok K w \<and> Q (w_db w))"
    using world_ok_opens [of K] by (simp add: opens_are_frames_def)
qed

lemma runs_weaken:
  assumes "runs (\<lambda>w. P w \<and> Q w) E m" "P w" "Q w"
  shows "P (snd (m w)) \<and> (\<forall>e. fst (m w) = Inl e \<longrightarrow> e \<in> E)"
  using assms by (auto simp: runs_def)

lemma runs_at: "runs P E m \<Longrightarrow> P w \<Longrightarrow> P (snd (m w)) \<and> (\<forall>e. fst (m w) = Inl e \<longrightarrow> e \<in> E)"
  by (simp add: runs_def)

lemma message_stops:
  assumes w: "world_ok K (d_world d)"
  shows "world_ok K (snd (webrtcMessageHandler decoded (rtc_peer dc) (d_world d))) \<and>
    (\<forall>e. fst (webrtcMessageHandler decoded (rtc_peer dc) (d_world d)) = Inl e \<longrightarrow>
       e \<in> stop_reasons (PeerMessage dc decoded) d)"
proof (cases decoded)
  case None
  then show ?thesis using w by (simp add: webrtcMessageHandler_def go_return_def)
next
  case (Some netMsg)
  show ?thesis
  proof (cases "\<exists>m. MessageType netMsg = Some (NetworkMessage_ChunkRequest m) \<and> sizes_ok (w_db (d_world d))")
    case True
    have "row_fact sizes_ok" by (simp add: row_fact_def sizes_ok_def)
    note fr = world_and_rows [OF this, of K]
    have "runs (\<lambda>w. world_ok K w \<and> sizes_ok (w_db w)) {} (webrtcMessageHandler (Some netMsg) (rtc_peer dc))"
      by (rule runs_peer_message [OF fr]) (use True in auto)
    then show ?thesis using runs_weaken [of "world_ok K" "\<lambda>w. sizes_ok (w_db w)" "{}"
        "webrtcMessageHandler (Some netMsg) (rtc_peer dc)" "d_world d"] w True Some by simp
  next
    case False
    have "runs (world_ok K) (stop_reasons (PeerMessage dc (Some netMsg)) d) (webrtcMessageHandler (Some netMsg) (rtc_peer dc))"
      by (rule runs_peer_message [OF world_ok_conn world_ok_opens world_ok_intro])
         (use False in \<open>auto intro: runs_chunk_response\<close>)
    then show ?thesis unfolding Some using w by (rule runs_at)
  qed
qed

lemma tick_stops:
  assumes w: "world_ok K (d_world d)"
  shows "world_ok K (snd (download_tick h (d_world d))) \<and>
    (\<forall>e. fst (download_tick h (d_world d)) = Inl e \<longrightarrow> e \<in> stop_reasons (ManagerTick h) d)"
proof (cases "length (stored_chunks (w_db (d_world d)) h) \<le> 2 ^ 31")
  case True
  let ?Q = "\<lambda>c. length (stored_chunks c h) \<le> 2 ^ 31"
  have "row_fact ?Q" by (simp add: row_fact_def stored_chunks_def)
  from runs_tick_conn [OF world_and_rows(1) [OF this]]
  have "runs (\<lambda>w. world_ok K w \<and> ?Q (w_db w)) {} (download_tick h)" by simp
  then show ?thesis
    using runs_weaken [of "world_ok K" "\<lambda>w. ?Q (w_db w)" "{}" "download_tick h" "d_world d"] w True by simp
next
  case False
  have "runs (world_ok K) {IndexOutOfRange} (download_tick h)" by (rule runs_tick_conn [OF world_ok_conn]) simp
  then show ?thesis using runs_at [of "world_ok K" "{IndexOutOfRange}" "download_tick h" "d_world d"] w False by simp
qed

lemma world_ok_antimono: "world_ok K w \<Longrightarrow> K' \<subseteq> K \<Longrightarrow> world_ok K' w"
  unfolding world_ok_def by blast

lemma remove_nth_subset: "set (remove_nth i xs) \<subseteq> set xs"
  using set_take_subset [of i xs] set_drop_subset [of "Suc i" xs] by (auto simp: remove_nth_def)

text \<open>What a download command waits for has a channel.\<close>

lemma go_bind_InrD: "go_bind m f w = (Inr y, w') \<Longrightarrow> \<exists>x w1. m w = (Inr x, w1) \<and> f x w1 = (Inr y, w')"
  by (auto simp: go_bind_def split: prod.splits sum.splits)

lemma go_then_InrD: "go_then m k w = (Inr y, w') \<Longrightarrow> \<exists>w1. k w1 = (Inr y, w')"
  unfolding go_then_def by (auto dest: go_bind_InrD)

lemma download_request_waits:
  assumes "download_request h n w = (Inr (Some wt), w')"
  shows "fst wt = h \<and> mget (n_pendingPeerListRequests (w_node w')) h \<noteq> None"
proof -
  let ?P = "\<lambda>w. mget (n_pendingPeerListRequests (w_node w)) h \<noteq> None"
  let ?w1 = "w\<lparr>w_node := (if mget (n_pendingPeerListRequests (w_node w)) h = None
    then (w_node w)\<lparr>n_pendingPeerListRequests := mput h [] (n_pendingPeerListRequests (w_node w))\<rparr> else w_node w)\<rparr>"
  have P: "?P ?w1" by simp
  have "runs ?P UNIV (go_then (send_tracker (BuildPeerListRequestMessage h)) (go_return (Some (h, n))))"
    by (intro runs_intros) (simp add: sends_are_frames_def)
  moreover have eq: "download_request h n w =
      go_then (send_tracker (BuildPeerListRequestMessage h)) (go_return (Some (h, n))) ?w1"
    by (simp add: download_request_def upd_node_def go_modify_def go_then_def go_bind_def)
  ultimately have "?P (snd (download_request h n w))" using P unfolding runs_def by metis
  moreover have "wt = (h, n)"
    using assms unfolding eq by (auto simp: go_return_def dest!: go_then_InrD)
  ultimately show ?thesis using assms by simp
qed

lemma download_waits:
  assumes "handleDownloadSignal m w = (Inr (Some wt), w')"
  shows "mget (n_pendingPeerListRequests (w_node w')) (fst wt) \<noteq> None"
proof -
  have files: "download_files pf s n c w1 = (Inr (Some wt), w') \<Longrightarrow> \<exists>h k w2. download_request h k w2 = (Inr (Some wt), w')"
    for pf s n c w1
    unfolding download_files_def
    by (auto simp: go_return_def dest!: go_then_InrD go_bind_InrD split: sum.splits) blast
  have "\<exists>h k w2. download_request h k w2 = (Inr (Some wt), w')"
    using assms unfolding handleDownloadSignal_def Let_def
    by (auto simp: go_return_def dest!: go_then_InrD go_bind_InrD files split: sum.splits option.splits prod.splits)
  then show ?thesis using download_request_waits by blast
qed

text \<open>A peer list goes to the channel of its hash, or blocks the goroutine.\<close>

lemma on_peer_list_result:
  assumes "world_ok K w"
    and room: "\<And>q. mget (n_pendingPeerListRequests (w_node w)) (PeerListResponse_GetFileHash (Some r)) = Some q \<Longrightarrow>
      length q < chan_capacity"
  shows "\<exists>w'. (on_peer_list r w = (Inr (), w') \<or> on_peer_list r w = (Inl BlockedForever, w')) \<and> world_ok K w'"
proof (cases "mget (n_pendingPeerListRequests (w_node w)) (PeerListResponse_GetFileHash (Some r))")
  case None
  then show ?thesis using assms(1) by (simp add: on_peer_list_def go_stop_def)
next
  case (Some q)
  have "pending_ok (mput (PeerListResponse_GetFileHash (Some r)) (q @ [r]) (n_pendingPeerListRequests (w_node w)))"
    using assms(1) room [OF Some] Some by (auto simp: world_ok_def pending_ok_def)
  then show ?thesis using Some assms(1) by (simp add: on_peer_list_def upd_node_def go_modify_def world_ok_def)
qed

lemma peer_list_event_ok:
  assumes "daemon_ok d" "possible (PeerList r) d"
  shows "\<exists>d'. peer_list_event r d = (Inr (), d') \<and> daemon_ok d'"
proof -
  have room: "length q < chan_capacity"
    if "mget (n_pendingPeerListRequests (w_node (d_world d))) (PeerListResponse_GetFileHash (Some r)) = Some q" for q
    using assms(2) that by simp
  obtain w' where "on_peer_list r (d_world d) = (Inr (), w') \<or> on_peer_list r (d_world d) = (Inl BlockedForever, w')"
    "world_ok (fst ` set (d_waiting d)) w'"
    using on_peer_list_result [OF assms(1) [unfolded daemon_ok_def] room] by blast
  then show ?thesis by (auto simp: peer_list_event_def on_world_def daemon_ok_def)
qed

lemma pop_pending_ok:
  "world_ok K w \<Longrightarrow> mget (n_pendingPeerListRequests (w_node w)) h = Some (r # rest) \<Longrightarrow>
   world_ok K (w\<lparr>w_node := (w_node w)\<lparr>n_pendingPeerListRequests := mput h rest (n_pendingPeerListRequests (w_node w))\<rparr>\<rparr>)"
proof -
  assume w: "world_ok K w" "mget (n_pendingPeerListRequests (w_node w)) h = Some (r # rest)"
  then have "pending_ok (mput h rest (n_pendingPeerListRequests (w_node w)))"
    unfolding world_ok_def pending_ok_def by (metis Suc_leD length_Cons list.set_intros(2) mget_mput option.inject)
  then show ?thesis using w(1) by (simp add: world_ok_def)
qed

lemma on_world_at: "on_world m d = (r, d') \<longleftrightarrow> m (d_world d) = (r, d_world d') \<and> d' = d\<lparr>d_world := d_world d'\<rparr>"
  by (auto simp: on_world_def split: prod.splits)

lemma download_answer_ok:
  assumes d: "daemon_ok d" and "possible (DownloadAnswer i) d"
  shows "\<exists>d'. download_answer i d = (Inr (), d') \<and> daemon_ok d'"
proof -
  obtain h n r rest where w: "d_waiting d ! i = (h, n)" "i < length (d_waiting d)"
    "mget (n_pendingPeerListRequests (w_node (d_world d))) h = Some (r # rest)"
    using assms(2) by (cases "d_waiting d ! i") (auto split: option.splits list.splits)
  let ?d1 = "d\<lparr>d_waiting := remove_nth i (d_waiting d)\<rparr>"
  let ?K = "fst ` set (remove_nth i (d_waiting d))"
  let ?w2 = "(d_world d)\<lparr>w_node := (w_node (d_world d))\<lparr>n_pendingPeerListRequests :=
    mput h rest (n_pendingPeerListRequests (w_node (d_world d)))\<rparr>\<rparr>"
  have "world_ok ?K (d_world d)"
    using d world_ok_antimono [of "fst ` set (d_waiting d)" "d_world d" ?K] remove_nth_subset
    unfolding daemon_ok_def by fast
  then have "world_ok ?K ?w2" using w(3) by (rule pop_pending_ok)
  moreover have "runs (world_ok ?K) {} (on_download_answer h n r)" by (intro runs_intros)
  ultimately obtain w3 where "on_download_answer h n r ?w2 = (Inr (), w3)" "world_ok ?K w3"
    using runs_returns by fastforce
  then have "download_answer i d = (Inr (), d\<lparr>d_waiting := remove_nth i (d_waiting d), d_world := w3\<rparr>)"
    using w by (simp add: download_answer_def go_gets_def go_bind_def go_then_def go_modify_def on_world_def upd_node_def)
  then show ?thesis using \<open>world_ok ?K w3\<close> by (simp add: daemon_ok_def)
qed

lemma on_world_ok:
  assumes "daemon_ok d" "runs (world_ok (fst ` set (d_waiting d))) E m"
  shows "daemon_ok (snd (on_world m d)) \<and> (\<forall>e. fst (on_world m d) = Inl e \<longrightarrow> e \<in> E)"
  using assms by (cases "m (d_world d)") (force simp: on_world_def daemon_ok_def runs_def)

lemma download_signal_ok:
  assumes d: "daemon_ok d"
  shows "daemon_ok (snd (handle_event sha (DownloadSignal m) d)) \<and>
    (\<forall>e. fst (handle_event sha (DownloadSignal m) d) = Inl e \<longrightarrow> e \<in> stop_reasons (DownloadSignal m) d)"
proof -
  let ?K = "fst ` set (d_waiting d)"
  obtain r w' where h: "handleDownloadSignal m (d_world d) = (r, w')" by (cases "handleDownloadSignal m (d_world d)")
  have "runs (world_ok ?K) {IndexOutOfRange, MakeSliceNegative} (handleDownloadSignal m)"
    by (intro runs_handleDownloadSignal) simp_all
  then have w': "world_ok ?K w'" "\<And>e. r = Inl e \<Longrightarrow> e \<in> {IndexOutOfRange, MakeSliceNegative}"
    using d h by (force simp: runs_def daemon_ok_def)+
  show ?thesis
  proof (cases r)
    case (Inl e)
    then show ?thesis using h w' by (simp add: go_bind_def on_world_def daemon_ok_def)
  next
    case (Inr res)
    show ?thesis
    proof (cases res)
      case None
      then show ?thesis using Inr h w' by (simp add: go_bind_def on_world_def daemon_ok_def go_return_def)
    next
      case (Some wt)
      then have "mget (n_pendingPeerListRequests (w_node w')) (fst wt) \<noteq> None"
        using download_waits h Inr by blast
      then have "world_ok (insert (fst wt) ?K) w'" using w'(1) unfolding world_ok_def by blast
      then show ?thesis using Some Inr h by (simp add: go_bind_def on_world_def daemon_ok_def go_modify_def)
    qed
  qed
qed

lemma simple_events:
  fixes K :: "string set"
  shows "runs (world_ok K) {} (on_id im)" "runs (world_ok K) {} (accept_cli addr r)"
    "runs (world_ok K) {} (go_modify (\<lambda>w. w\<lparr>w_now := t\<rparr>))"
  unfolding on_id_def accept_cli_def
  by (rule runs_upd_node, simp add: world_ok_def)+ (rule runs_modify, simp add: world_ok_def)

lemma event_ok:
  assumes d: "daemon_ok d" and p: "possible ev d"
  shows "daemon_ok (snd (handle_event sha ev d)) \<and> (\<forall>e. fst (handle_event sha ev d) = Inl e \<longrightarrow> e \<in> stop_reasons ev d)"
proof -
  let ?K = "fst ` set (d_waiting d)"
  have w: "world_ok ?K (d_world d)" using d by (simp add: daemon_ok_def)
  note on = on_world_ok [OF d]
  have point: "daemon_ok (snd (on_world m d)) \<and> (\<forall>e. fst (on_world m d) = Inl e \<longrightarrow> e \<in> E)"
    if "world_ok ?K (snd (m (d_world d))) \<and> (\<forall>e. fst (m (d_world d)) = Inl e \<longrightarrow> e \<in> E)" for m :: "'b act" and E
    using that by (cases "m (d_world d)") (simp add: on_world_def daemon_ok_def)
  show ?thesis
  proof (cases ev)
    case Init
    have "runs (world_ok ?K) {FatalExit, IndexOutOfRange} node_init" by (intro runs_node_init) simp_all
    then show ?thesis unfolding Init handle_event.simps stop_reasons.simps by (rule on)
  next
    case (CandidateFound pc ice)
    have "runs (world_ok ?K) (stop_reasons ev d) (OnICECandidate pc ice)"
      by (rule runs_OnICECandidate [OF world_ok_conn]) (simp add: CandidateFound)
    then show ?thesis unfolding CandidateFound handle_event.simps by (rule on)
  next
    case (PeerMessage dc decoded)
    show ?thesis unfolding PeerMessage handle_event.simps by (rule point, rule message_stops, rule w)
  next
    case (PeerList r)
    then show ?thesis using peer_list_event_ok [OF d, of r] p by auto
  next
    case (RegisterSignal m)
    have "countable_size c" if "fs_of (w_os (d_world d)) (SignalRegisterMessage_GetFilePath (Some m)) = Some c" for c
      using p that by (simp add: RegisterSignal)
    then show ?thesis unfolding RegisterSignal handle_event.simps stop_reasons.simps handleCLIMsgs_simps
      by (intro point register_stops w)
  next
    case (DownloadSignal m)
    then show ?thesis using download_signal_ok [OF d] by simp
  next
    case (DownloadAnswer i)
    then show ?thesis using download_answer_ok [OF d, of i] p by auto
  next
    case (DownloadTimeout i)
    then show ?thesis using world_ok_antimono [OF w image_mono [OF remove_nth_subset]]
      by (simp add: go_modify_def daemon_ok_def)
  next
    case (ManagerTick h)
    have t: "daemon_ok (snd (on_world (download_tick h) d)) \<and>
        (\<forall>e. fst (on_world (download_tick h) d) = Inl e \<longrightarrow> e \<in> stop_reasons ev d)"
      unfolding ManagerTick by (rule point, rule tick_stops, rule w)
    obtain r d' where o: "on_world (download_tick h) d = (r, d')" by (cases "on_world (download_tick h) d")
    then show ?thesis using t unfolding ManagerTick handle_event.simps
      by (cases r) (simp_all add: go_then_def go_bind_def go_return_def)
  next
    case (StateChange pc s)
    show ?thesis unfolding StateChange handle_event.simps stop_reasons.simps by (rule on) (intro runs_intros)
  next
    case (DataChannelArrives pc)
    show ?thesis unfolding DataChannelArrives handle_event.simps stop_reasons.simps by (rule on) (intro runs_intros)
  next
    case (ChannelOpens dc)
    show ?thesis unfolding ChannelOpens handle_event.simps stop_reasons.simps by (rule on) (intro runs_intros)
  next
    case (ChannelCloses dc)
    show ?thesis unfolding ChannelCloses handle_event.simps stop_reasons.simps by (rule on) (intro runs_intros)
  next
    case (Signal s)
    show ?thesis unfolding Signal handle_event.simps stop_reasons.simps by (rule on) (intro runs_intros)
  next
    case HeartbeatTick
    show ?thesis unfolding HeartbeatTick handle_event.simps stop_reasons.simps by (rule on) (intro runs_intros)
  next
    case (Identity im)
    show ?thesis unfolding Identity handle_event.simps stop_reasons.simps by (rule on) (rule simple_events)
  next
    case (CliConnects addr r)
    show ?thesis unfolding CliConnects handle_event.simps stop_reasons.simps by (rule on) (rule simple_events)
  next
    case (TimePasses t)
    show ?thesis unfolding TimePasses handle_event.simps stop_reasons.simps by (rule on) (rule simple_events)
  qed
qed

interpretation daemon_system: invariant_system "start_daemon idx" "daemon_step sha" daemon_ok
proof
  fix s assume "start_daemon idx s"
  then show "daemon_ok s"
    by (simp add: start_daemon_def daemon_ok_def world_ok_def objects_ok_def pending_ok_def new_node_def)
next
  fix s t assume "daemon_ok s" "daemon_step sha s t"
  then show "daemon_ok t" by (auto elim!: daemon_step.cases dest: event_ok [where sha = sha])
qed

section \<open>Properties of the daemon\<close>

text \<open>C15: in every state a daemon can reach, each connection and data channel it has on file exists and
  was made for the peer it is filed under; chunk totals and the indices of available chunks are not
  negative; every message it wrote to the tracker, to the CLI and to other daemons is of a kind its
  receiver reads; and each queued peer list is in the channel of its own file, of which there are at
  most 100 per file, with a channel for every command that waits.\<close>

theorem daemon_invariant:
  assumes "start_daemon idx d0" "(daemon_step sha)\<^sup>*\<^sup>* d0 d"
  shows "sane_db (w_db (d_world d)) \<and>
    (\<forall>p i. mget (n_peerConnections (w_node (d_world d))) p = Some i \<longrightarrow>
       i < length (w_pcs (d_world d)) \<and> rtc_peer (w_pcs (d_world d) ! i) = p) \<and>
    (\<forall>p i. mget (n_peerDataChannels (w_node (d_world d))) p = Some i \<longrightarrow>
       i < length (w_dcs (d_world d)) \<and> rtc_peer (w_dcs (d_world d) ! i) = p) \<and>
    (\<forall>m \<in> set (w_tracker (d_world d)). for_tracker m) \<and>
    (\<forall>(r, m) \<in> set (w_cli (d_world d)). for_cli m) \<and>
    (\<forall>(dc, m) \<in> set (w_sent (d_world d)). for_peer m) \<and>
    (\<forall>h q. mget (n_pendingPeerListRequests (w_node (d_world d))) h = Some q \<longrightarrow> length q \<le> chan_capacity \<and>
       (\<forall>r \<in> set q. PeerListResponse_GetFileHash (Some r) = h)) \<and>
    (\<forall>(h, n) \<in> set (d_waiting d). mget (n_pendingPeerListRequests (w_node (d_world d))) h \<noteq> None)"
  using daemon_system.reachable_inv [OF assms]
  unfolding daemon_ok_def world_ok_def objects_ok_def pending_ok_def by auto

definition sample_start :: daemon where
  "sample_start = \<lparr>d_world =
     \<lparr>w_node = new_node ''1'', w_db = \<lparr>tables_of = empty_tables, sched = []\<rparr>,
      w_os = \<lparr>fs_of = [''x.p2p'' \<mapsto> ''junk''], io_sched = []\<rparr>,
      w_tracker = [], w_cli = [], w_sent = [], w_pcs = [], w_dcs = [], w_rtc = [], w_fails = [], w_sdps = [],
      w_rands = [], w_now = 0\<rparr>, d_waiting = [], d_stuck = False\<rparr>"

lemma sample_start_ok: "start_daemon ''1'' sample_start"
  by (simp add: start_daemon_def sample_start_def sane_db_def wf_db_def) (simp add: empty_tables_def)

definition sample_beat :: daemon where
  "sample_beat = snd (handle_event (\<lambda>x. x) HeartbeatTick sample_start)"

lemma sample_beat_reachable: "(daemon_step (\<lambda>x. x))\<^sup>*\<^sup>* sample_start sample_beat"
proof -
  have "handle_event (\<lambda>x. x) HeartbeatTick sample_start = (Inr (), sample_beat)"
    by (simp add: sample_beat_def heartbeat_tick_def send_tracker_def succeeds_def on_world_def go_simps sample_start_def)
  then show ?thesis by (intro r_into_rtranclp daemon_step.event [where ev = HeartbeatTick]) simp_all
qed

theorem daemon_invariant_witness:
  "w_tracker (d_world sample_beat) \<noteq> [] \<and> list_all for_tracker (w_tracker (d_world sample_beat))"
proof
  show "w_tracker (d_world sample_beat) \<noteq> []"
    by (simp add: sample_beat_def heartbeat_tick_def send_tracker_def succeeds_def on_world_def go_simps sample_start_def)
  show "list_all for_tracker (w_tracker (d_world sample_beat))"
    using daemon_invariant [OF sample_start_ok sample_beat_reachable] by (simp add: list_all_iff)
qed



end
