(* ===== verification/FilesInv.thy ===== *)
theory FilesInv
  imports TransferInv DaemonSafety
begin

text \<open>
  What a registration leaves behind: a file is announced only when the daemon can serve it.
\<close>

section \<open>Steps that may fail\<close>

lemma os_step:
  assumes "go_bind (os_do q) (\<lambda>x. case x of Inl e \<Rightarrow> go_return v | Inr u \<Rightarrow> k u) w = (r, w')"
  obtains (failed) e s where "q (w_os w) = (Inl e, s)" "r = Inr v" "w' = w\<lparr>w_os := s\<rparr>"
  | (ran) u s where "q (w_os w) = (Inr u, s)" "k u (w\<lparr>w_os := s\<rparr>) = (r, w')"
proof (cases "q (w_os w)")
  case (Pair x s)
  then show thesis using assms failed [of _ s] ran [of _ s]
    by (cases x) (auto simp: go_bind_def os_do_def go_return_def)
qed

lemma db_step:
  assumes "go_bind (db_do q) (\<lambda>x. case x of Inl e \<Rightarrow> go_return v | Inr u \<Rightarrow> k u) w = (r, w')"
  obtains (failed) e d where "q (w_db w) = (Inl e, d)" "r = Inr v" "w' = w\<lparr>w_db := d\<rparr>"
  | (ran) u d where "q (w_db w) = (Inr u, d)" "k u (w\<lparr>w_db := d\<rparr>) = (r, w')"
proof (cases "q (w_db w)")
  case (Pair x d)
  then show thesis using assms failed [of _ d] ran [of _ d]
    by (cases x) (auto simp: go_bind_def db_do_def go_return_def)
qed

definition touch :: "osys \<Rightarrow> unit io \<times> osys" where
  "touch = os_call (\<lambda>fs. (Inr (), fs))"

lemma os_touch_alt: "os_touch = os_do touch"
  by (simp add: os_touch_def touch_def)

lemma touch_result: "touch s = (r, s') \<Longrightarrow> fs_of s' = fs_of s"
  unfolding touch_def by (drule os_call_result) auto

lemma os_CopyTo_ok:
  "os_CopyTo dest src s = (Inr u, s') \<Longrightarrow>
   \<exists>d c. fs_of s dest = Some d \<and> fs_of s src = Some c \<and> fs_of s' = (fs_of s)(dest \<mapsto> d @ c)"
  unfolding os_CopyTo_def by (drule os_call_result) (auto split: option.splits)

lemma os_Create_ok: "os_Create path s = (Inr u, s') \<Longrightarrow> fs_of s' = (fs_of s)(path \<mapsto> [])"
  using os_Create_result by fastforce

lemma send_tracker_result:
  "\<exists>b w'. send_tracker msg w = (Inr b, w') \<and> w_db w' = w_db w \<and> w_os w' = w_os w \<and> w_node w' = w_node w \<and>
     w_tracker w' = (if b then w_tracker w @ [msg] else w_tracker w)"
  by (cases "w_fails w") (auto simp: send_tracker_def succeeds_def go_simps)

section \<open>Publishing\<close>

text \<open>A file is announced only after its copy and its .p2p file are complete.\<close>

lemma publish_result:
  assumes p: "register_publish path name f pf w = (r, w')"
  defines "dest \<equiv> download_dir (n_ipcSocketIndex (w_node w)) @ name"
  assumes src: "fs_of (w_os w) path = Some xs" "path \<noteq> dest"
  shows "r = Inr () \<and> w_db w' = w_db w \<and> w_node w' = w_node w \<and>
    (w_tracker w' = w_tracker w \<or>
     w_tracker w' = w_tracker w @ [BuildAnnounceMessage [file_info f]] \<and>
     fs_of (w_os w') = (fs_of (w_os w))(dest \<mapsto> xs, dest @ ''.p2p'' \<mapsto> p2p_text (p2p_lines pf)))"
proof -
  have run: "go_bind (os_do (os_MkdirAll (download_dir (n_ipcSocketIndex (w_node w))))) (\<lambda>x. case x of Inl e \<Rightarrow> go_return () | Inr u \<Rightarrow>
      go_bind (os_do (os_Create dest)) (\<lambda>x. case x of Inl e \<Rightarrow> go_return () | Inr u \<Rightarrow>
      go_bind (os_do touch) (\<lambda>x. case x of Inl e \<Rightarrow> go_return () | Inr u \<Rightarrow>
      go_bind (os_do (os_CopyTo dest path)) (\<lambda>x. case x of Inl e \<Rightarrow> go_return () | Inr u \<Rightarrow>
      go_bind (os_do (GenerateP2PFile pf (dest @ ''.p2p''))) (\<lambda>x. case x of Inl e \<Rightarrow> go_return () | Inr u \<Rightarrow>
      go_then (send_tracker (BuildAnnounceMessage [file_info f])) (go_return ())))))) w = (r, w')"
    using p unfolding register_publish_def go_get_node Let_def os_touch_alt dest_def .
  show ?thesis
  proof (cases rule: os_step [OF run])
    case ran: (2 u1 s1)
    then have f1: "fs_of s1 = fs_of (w_os w)" using os_MkdirAll_result by blast
    show ?thesis
    proof (cases rule: os_step [OF ran(2)])
      case ran: (2 u2 s2)
      have f2: "fs_of s2 = (fs_of (w_os w))(dest \<mapsto> [])" using os_Create_ok [OF ran(1)] f1 by simp
      show ?thesis
      proof (cases rule: os_step [OF ran(2)])
        case ran: (2 u3 s3)
        have f3: "fs_of s3 = fs_of s2" using touch_result [OF ran(1)] by simp
        show ?thesis
        proof (cases rule: os_step [OF ran(2)])
          case ran: (2 u4 s4)
          obtain d c where dc: "fs_of s3 dest = Some d" "fs_of s3 path = Some c" "fs_of s4 = (fs_of s3)(dest \<mapsto> d @ c)"
            using os_CopyTo_ok [OF ran(1)] by auto
          have "d = []" "c = xs" using dc(1,2) f3 f2 src by simp_all
          then have f4: "fs_of s4 = (fs_of (w_os w))(dest \<mapsto> xs)" using dc(3) f3 f2 by simp
          show ?thesis
          proof (cases rule: os_step [OF ran(2)])
            case ran: (2 u5 s5)
            have f5: "fs_of s5 = (fs_of (w_os w))(dest \<mapsto> xs, dest @ ''.p2p'' \<mapsto> p2p_text (p2p_lines pf))"
              using GenerateP2PFile_ok [OF ran(1)] f4 by simp
            obtain b w5 where b: "send_tracker (BuildAnnounceMessage [file_info f]) (w\<lparr>w_os := s5\<rparr>) = (Inr b, w5)"
              "w_db w5 = w_db w" "w_os w5 = s5" "w_node w5 = w_node w"
              "w_tracker w5 = (if b then w_tracker w @ [BuildAnnounceMessage [file_info f]] else w_tracker w)"
              using send_tracker_result [of "BuildAnnounceMessage [file_info f]" "w\<lparr>w_os := s5\<rparr>"] by auto
            have e: "go_then (send_tracker (BuildAnnounceMessage [file_info f])) (go_return ()) (w\<lparr>w_os := s5\<rparr>) = (r, w')"
              using ran(2) by simp
            have "r = Inr ()" "w' = w5"
              using e unfolding go_then_Inr [of "send_tracker _", OF b(1)] by (simp_all add: go_return_def)
            then show ?thesis using b f5 by simp
          qed simp
        qed simp
      qed simp
    qed simp
  qed simp
qed

section \<open>The read loop of a registration\<close>

definition chunk_facts :: "chunk_row \<Rightarrow> int \<times> int \<times> int \<times> int" where
  "chunk_facts c = (c_FileID c, c_ChunkIndex c, c_ChunkSize c, c_IsAvailable c)"

definition piece_facts :: "int \<Rightarrow> int \<Rightarrow> nat \<times> bytes \<Rightarrow> int \<times> int \<times> int \<times> int" where
  "piece_facts av fid p = (fid, int (fst p), int (length (snd p)), av)"

definition piece_line :: "(bytes \<Rightarrow> bytes) \<Rightarrow> nat \<times> bytes \<Rightarrow> ParserChunk" where
  "piece_line sha p = register_chunk sha (int (fst p)) (snd p)"

lemma CreateChunk_result:
  assumes "ChunkStore_CreateChunk fid i n h av c = (r, c')"
  shows "case r of Inl e \<Rightarrow> tables_of c' = tables_of c
    | Inr k \<Rightarrow> files (tables_of c') = files (tables_of c) \<and> chunks (tables_of c') = chunks (tables_of c) @ [k] \<and>
        chunk_facts k = (fid, i, n, if av then 1 else 0)"
  using Q_CreateChunk_result [OF assms [unfolded ChunkStore_CreateChunk_def Let_def]]
  by (auto simp: chunk_facts_def split: sum.splits)

lemma register_chunks_result:
  "register_chunks sha fid (int k) ds pf w = (r, w') \<Longrightarrow> sane_db (w_db w) \<Longrightarrow> sizes_ok (w_db w) \<Longrightarrow>
   \<exists>p. r = Inr p \<and> w_node w' = w_node w \<and> w_tracker w' = w_tracker w \<and> fs_of (w_os w') = fs_of (w_os w) \<and>
     sane_db (w_db w') \<and> sizes_ok (w_db w') \<and> files (tables_of (w_db w')) = files (tables_of (w_db w)) \<and>
     (\<forall>pf'. p = Some pf' \<longrightarrow> pf' = pf\<lparr>pf_Chunks := pf_Chunks pf @ map (piece_line sha) (enumerate k ds)\<rparr> \<and>
        (\<exists>rows. chunks (tables_of (w_db w')) = chunks (tables_of (w_db w)) @ rows \<and>
           map chunk_facts rows = map (piece_facts 1 fid) (enumerate k ds)))"
proof (induction ds arbitrary: k pf w)
  case Nil
  obtain r1 s1 where t: "touch (w_os w) = (r1, s1)" by (cases "touch (w_os w)")
  then show ?case using Nil touch_result [OF t]
    by (cases r1) (auto simp: os_touch_alt go_bind_def os_do_def go_return_def)
next
  case (Cons d ds)
  note run = Cons.prems(1) [unfolded register_chunks.simps os_touch_alt]
  show ?case
  proof (cases rule: os_step [OF run])
    case failed: (1 e s)
    then show ?thesis using Cons.prems touch_result by fastforce
  next
    case ran: (2 u s)
    have s: "fs_of s = fs_of (w_os w)" using touch_result ran(1) .
    show ?thesis
    proof (cases rule: db_step [OF ran(2)])
      case failed: (1 e c)
      note T = CreateChunk_result [OF failed(1), simplified]
      then show ?thesis using Cons.prems failed s sane_db_cong [OF T] by (simp add: sizes_ok_def)
    next
      case ran: (2 row c)
      let ?w = "w\<lparr>w_os := s, w_db := c\<rparr>"
      note T = CreateChunk_result [OF ran(1), simplified]
      have sane: "sane_db c" using CreateChunk_sane [of "w_db w" True "int k" fid "int (length d)" "GenerateHash sha d"]
          ran(1) Cons.prems(2) by simp
      have sizes: "sizes_ok c" using T Cons.prems(3) by (auto simp: sizes_ok_def chunk_facts_def)
      have k: "int k + 1 = int (Suc k)" by simp
      from Cons.IH [OF ran(2) [unfolded k]] sane sizes obtain p where p: "r = Inr p"
        "w_node w' = w_node w" "w_tracker w' = w_tracker w" "fs_of (w_os w') = fs_of (w_os w)"
        "sane_db (w_db w')" "sizes_ok (w_db w')" "files (tables_of (w_db w')) = files (tables_of c)"
        and P: "\<forall>pf'. p = Some pf' \<longrightarrow> pf' = pf\<lparr>pf_Chunks := (pf_Chunks pf @ [register_chunk sha (int k) d]) @
            map (piece_line sha) (enumerate (Suc k) ds)\<rparr> \<and>
          (\<exists>rows. chunks (tables_of (w_db w')) = chunks (tables_of c) @ rows \<and>
             map chunk_facts rows = map (piece_facts 1 fid) (enumerate (Suc k) ds))"
        by (auto simp: s)
      have "\<exists>rows. chunks (tables_of (w_db w')) = chunks (tables_of (w_db w)) @ rows \<and>
          map chunk_facts rows = map (piece_facts 1 fid) (enumerate k (d # ds))" if pf': "p = Some pf'" for pf'
      proof -
        obtain rows where "chunks (tables_of (w_db w')) = chunks (tables_of c) @ rows"
          "map chunk_facts rows = map (piece_facts 1 fid) (enumerate (Suc k) ds)" using P pf' by blast
        then show ?thesis using T by (intro exI [of _ "row # rows"]) (simp add: piece_facts_def)
      qed
      moreover have line: "piece_line sha (k, d) = register_chunk sha (int k) d" by (simp add: piece_line_def)
      ultimately show ?thesis using p P T by simp
    qed
  qed
qed

section \<open>What a registration leaves behind\<close>

definition shared_record :: "(bytes \<Rightarrow> bytes) \<Rightarrow> string \<Rightarrow> bytes \<Rightarrow> ParserFile" where
  "shared_record sha name xs = \<lparr>pf_FileName = name, pf_FileHash = GenerateHash sha xs,
     pf_FileSize = FormatInt (int (length xs)), pf_MaxChunkSize = FormatInt (int M),
     pf_TotalChunks = FormatInt (int (tiles xs)),
     pf_Chunks = map (piece_line sha) (enumerate 0 (split_chunks M xs))\<rparr>"

text \<open>The rows of a file whose id no older row has.\<close>

lemma rows_of_fresh_file:
  assumes wf: "wf_db c" and f: "stored_file c h = Some f"
    and c: "chunks (tables_of c) = old @ rows" "\<forall>k \<in> set old. c_FileID k \<noteq> f_ID f"
    and rows: "length rows = n" "\<And>i. i < n \<Longrightarrow> c_FileID (rows ! i) = f_ID f \<and> c_ChunkIndex (rows ! i) = int i"
  shows "stored_chunks c h = rows \<and> map c_ChunkIndex (stored_chunks c h) = map int [0..<n]"
proof -
  have "filter (\<lambda>k. c_FileID k = f_ID f) (old @ rows) = rows"
    using c(2) rows by (auto simp: filter_empty_conv filter_id_conv in_set_conv_nth)
  moreover have ix: "map c_ChunkIndex rows = map int [0..<n]" using rows by (intro nth_equalityI) auto
  moreover have "sorted (map int [0..<n])" by (simp add: sorted_map sorted_wrt_upt strict_sorted_imp_sorted)
  ultimately show ?thesis using chunks_known [OF wf f] c(1) by (simp add: sort_key_id_if_sorted)
qed

lemma piece_rows:
  assumes "map chunk_facts rows = map (piece_facts av fid) (enumerate 0 ds)"
  shows "length rows = length ds" "i < length ds \<Longrightarrow> c_FileID (rows ! i) = fid \<and> c_ChunkIndex (rows ! i) = int i \<and>
    c_ChunkSize (rows ! i) = int (length (ds ! i)) \<and> c_IsAvailable (rows ! i) = av"
proof -
  show l: "length rows = length ds" using arg_cong [OF assms, of length] by simp
  assume i: "i < length ds"
  have "chunk_facts (rows ! i) = piece_facts av fid (enumerate 0 ds ! i)"
    using arg_cong [OF assms, of "\<lambda>xs. xs ! i"] i l by simp
  then show "c_FileID (rows ! i) = fid \<and> c_ChunkIndex (rows ! i) = int i \<and>
    c_ChunkSize (rows ! i) = int (length (ds ! i)) \<and> c_IsAvailable (rows ! i) = av"
    using i by (simp add: chunk_facts_def piece_facts_def nth_enumerate_eq)
qed

lemma fresh_id:
  assumes "refs_ok (tables_of c)" "wf_db c'" "files (tables_of c') = files (tables_of c) @ [f]"
    and k: "k \<in> set (chunks (tables_of c))"
  shows "c_FileID k \<noteq> f_ID f"
proof -
  have "c_FileID k \<in> f_ID ` set (files (tables_of c))" using assms(1) k unfolding refs_ok_def by blast
  moreover have "distinct (map f_ID (files (tables_of c) @ [f]))"
    using assms(2) by (simp only: assms(3) [symmetric]) (auto simp: wf_db_def wf_tables_def dest: ids_ok_distinct)
  ultimately show ?thesis by auto
qed

lemma fresh_rows:
  assumes wf: "wf_db (w_db w)" and f: "stored_file (w_db w) h = Some f"
    and c: "chunks (tables_of (w_db w)) = old @ rows" "\<forall>k \<in> set old. c_FileID k \<noteq> f_ID f"
      "map chunk_facts rows = map (piece_facts av (f_ID f)) (enumerate 0 (split_chunks M xs))"
  shows "map c_ChunkIndex (stored_chunks (w_db w) h) = map int [0..<tiles xs] \<and> row_sizes h xs w \<and>
    have_chunks w h = (if av = 1 then {..<tiles xs} else {})"
proof -
  note R = piece_rows [OF c(3)]
  have n: "length rows = tiles xs" using R(1) by (simp add: tiles_def)
  have at: "c_FileID (rows ! i) = f_ID f \<and> c_ChunkIndex (rows ! i) = int i \<and> c_IsAvailable (rows ! i) = av \<and>
      c_ChunkSize (rows ! i) = int (length (tile M xs i))" if "i < tiles xs" for i
    using R(2) [of i] that nth_split_chunks [of M i xs] by (simp add: tiles_def tile_def)
  have S: "stored_chunks (w_db w) h = rows" "map c_ChunkIndex rows = map int [0..<tiles xs]"
    using rows_of_fresh_file [OF wf f c(1,2) n] at by auto
  have mem: "k \<in> set rows \<longleftrightarrow> (\<exists>i < tiles xs. k = rows ! i)" for k using n by (auto simp: in_set_conv_nth)
  have "have_chunks w h = (if av = 1 then {..<tiles xs} else {})"
    using at by (auto simp: have_chunks_def S(1) mem intro!: bexI [of _ "rows ! _"])
  moreover have "row_sizes h xs w" using at by (auto simp: row_sizes_def S(1) mem)
  ultimately show ?thesis using S by simp
qed

text \<open>The database and the file after the read loop and the copy.\<close>

lemma registered_stored_ok:
  assumes sane: "sane_db (w_db w)" "sizes_ok (w_db w)" and f: "stored_file (w_db w) h = Some f"
    and c: "chunks (tables_of (w_db w)) = old @ rows" "\<forall>k \<in> set old. c_FileID k \<noteq> f_ID f"
      "map chunk_facts rows = map (piece_facts 1 (f_ID f)) (enumerate 0 (split_chunks M xs))"
    and len: "int (length xs) \<le> 2 ^ 46" and fs: "fs_of (w_os w) (file_path w f) = Some xs"
  shows "stored_ok h xs w \<and> row_sizes h xs w \<and> have_chunks w h = {..<tiles xs}"
proof -
  have "wf_db (w_db w)" using sane(1) by (simp add: sane_db_def)
  note R = fresh_rows [OF this f c]
  moreover have "agrees_on M xs {..<tiles xs} xs" by (simp add: agrees_on_def)
  ultimately show ?thesis using sane f fs len by (simp add: stored_ok_def)
qed

lemma hash_touch:
  "(case HashFile sha (map_sum id (\<lambda>u. c) r) of Inl e \<Rightarrow> a | Inr h \<Rightarrow> k h) =
   (case r of Inl e \<Rightarrow> a | Inr u \<Rightarrow> k (GenerateHash sha c))"
  by (cases r) (simp_all add: HashFile_def GenerateHash_def)

lemma total_is_tiles: "int (length xs) \<le> 2 ^ 46 \<Longrightarrow> CalculateTotalChunks (int (length xs)) maxChunkSize = int (tiles xs)"
  using split_chunks_total [of M xs] by (simp add: tiles_def)

text \<open>What an announcement promises.\<close>

definition ready_to_serve :: "(bytes \<Rightarrow> bytes) \<Rightarrow> string \<Rightarrow> string \<Rightarrow> bytes \<Rightarrow> world \<Rightarrow> file_row \<Rightarrow> bool" where
  "ready_to_serve sha dest name xs w f \<longleftrightarrow>
     stored_file (w_db w) (GenerateHash sha xs) = Some f \<and> f_TotalChunks f = int (tiles xs) \<and>
     stored_ok (GenerateHash sha xs) xs w \<and> row_sizes (GenerateHash sha xs) xs w \<and>
     have_chunks w (GenerateHash sha xs) = {..<tiles xs} \<and>
     fs_of (w_os w) (dest @ ''.p2p'') = Some (p2p_text (p2p_lines (shared_record sha name xs)))"

lemma register_rest:
  assumes run: "go_bind (register_chunks sha (f_ID f) 0 (split_chunks M xs) ((shared_record sha name xs)\<lparr>pf_Chunks := []\<rparr>))
      (\<lambda>r. case r of None \<Rightarrow> go_return () | Some pf \<Rightarrow> register_publish path name f pf) w = (r, w')"
  defines "dest \<equiv> download_dir (n_ipcSocketIndex (w_node w)) @ name"
  assumes db: "sane_db (w_db w)" "sizes_ok (w_db w)" "\<forall>k \<in> set (chunks (tables_of (w_db w))). c_FileID k \<noteq> f_ID f"
    and f: "f \<in> set (files (tables_of (w_db w)))" "f_Hash f = GenerateHash sha xs" "f_Name f = name"
      "f_TotalChunks f = int (tiles xs)"
    and src: "fs_of (w_os w) path = Some xs" "path \<noteq> dest" "int (length xs) \<le> 2 ^ 46"
  shows "r = Inr () \<and> (w_tracker w' = w_tracker w \<or>
    w_tracker w' = w_tracker w @ [BuildAnnounceMessage [file_info f]] \<and> ready_to_serve sha dest name xs w' f)"
proof -
  let ?h = "GenerateHash sha xs" and ?ds = "split_chunks M xs"
  let ?pf = "(shared_record sha name xs)\<lparr>pf_Chunks := []\<rparr>"
  obtain r1 w1 where q: "register_chunks sha (f_ID f) (int 0) ?ds ?pf w = (r1, w1)"
    by (cases "register_chunks sha (f_ID f) (int 0) ?ds ?pf w")
  obtain p where p: "r1 = Inr p" "w_node w1 = w_node w" "w_tracker w1 = w_tracker w"
    "fs_of (w_os w1) = fs_of (w_os w)" "sane_db (w_db w1)" "sizes_ok (w_db w1)"
    "files (tables_of (w_db w1)) = files (tables_of (w_db w))"
    and P: "\<forall>pf'. p = Some pf' \<longrightarrow> pf' = ?pf\<lparr>pf_Chunks := map (piece_line sha) (enumerate 0 ?ds)\<rparr> \<and>
      (\<exists>rows. chunks (tables_of (w_db w1)) = chunks (tables_of (w_db w)) @ rows \<and>
         map chunk_facts rows = map (piece_facts 1 (f_ID f)) (enumerate 0 ?ds))"
    using register_chunks_result [OF q db(1,2)] by auto
  have last: "(case p of None \<Rightarrow> go_return () | Some pf \<Rightarrow> register_publish path name f pf) w1 = (r, w')"
    using run q by (simp add: go_bind_def p(1))
  show ?thesis
  proof (cases p)
    case None
    then show ?thesis using last p by (simp add: go_return_def)
  next
    case (Some pf)
    then obtain rows where rows: "chunks (tables_of (w_db w1)) = chunks (tables_of (w_db w)) @ rows"
      "map chunk_facts rows = map (piece_facts 1 (f_ID f)) (enumerate 0 ?ds)" and pf: "pf = shared_record sha name xs"
      using P by (auto simp: shared_record_def)
    have src1: "fs_of (w_os w1) path = Some xs" "path \<noteq> download_dir (n_ipcSocketIndex (w_node w1)) @ name"
      using src p unfolding dest_def by simp_all
    note R = publish_result [OF last [unfolded Some option.case] src1]
    have known: "stored_file (w_db w') ?h = Some f"
      using R p f stored_file_Some [of "w_db w'" ?h f] by (simp add: sane_db_def)
    show ?thesis
    proof (cases "w_tracker w' = w_tracker w")
      case False
      then have fs: "fs_of (w_os w') = (fs_of (w_os w1))(dest \<mapsto> xs, dest @ ''.p2p'' \<mapsto> p2p_text (p2p_lines pf))"
        "w_tracker w' = w_tracker w @ [BuildAnnounceMessage [file_info f]]" "r = Inr ()"
        using R p False unfolding dest_def by auto
      then have "fs_of (w_os w') (file_path w' f) = Some xs"
        using R p f(3) by (simp add: file_path_def BuildDownloadPath_def dest_def download_dir_def)
      then have "stored_ok ?h xs w' \<and> row_sizes ?h xs w' \<and> have_chunks w' ?h = {..<tiles xs}"
        using registered_stored_ok [of w' ?h f "chunks (tables_of (w_db w))" rows xs] R p known rows db(3) src(3) by simp
      then show ?thesis using fs known pf f(4) by (simp add: ready_to_serve_def)
    qed (use R in simp)
  qed
qed

lemma registration_outcome:
  assumes run: "handleRegisterSignal sha m w = (r, w')"
  defines "path \<equiv> SignalRegisterMessage_GetFilePath (Some m)"
  defines "name \<equiv> ExtractFileName path"
  defines "dest \<equiv> download_dir (n_ipcSocketIndex (w_node w)) @ name"
  assumes db: "sane_db (w_db w)" "sizes_ok (w_db w)" "refs_ok (tables_of (w_db w))"
    and src: "fs_of (w_os w) path = Some xs" "path \<noteq> dest" "int (length xs) \<le> 2 ^ 46"
  shows "r = Inr () \<and> (w_tracker w' = w_tracker w \<or>
    (\<exists>f. w_tracker w' = w_tracker w @ [BuildAnnounceMessage [file_info f]] \<and> ready_to_serve sha dest name xs w' f))"
proof -
  let ?h = "GenerateHash sha xs"
  note run' = run [unfolded handleRegisterSignal_def Let_def os_touch_alt hash_touch, folded path_def, folded name_def]
  show ?thesis
  proof (cases rule: os_step [OF run'])
    case ran: (2 content s1)
    then have s1: "fs_of s1 = fs_of (w_os w)" "content = xs" using os_Open_result [OF ran(1)] src by auto
    show ?thesis
    proof (cases rule: os_step [OF ran(2)])
      case ran: (2 u2 s2)
      have s2: "fs_of s2 = fs_of (w_os w)" using touch_result [OF ran(1)] s1 by simp
      show ?thesis
      proof (cases rule: os_step [OF ran(2)])
        case ran: (2 u3 s3)
        have s3: "fs_of s3 = fs_of (w_os w)" using touch_result [OF ran(1)] s2 by simp
        note ran' = ran(2) [unfolded go_bind_def [of "go_gets _"] go_gets_def, simplified, unfolded s1(2)]
        show ?thesis
        proof (cases rule: db_step [OF ran'])
          case ran: (2 fc c4)
          obtain f new where fc: "fc = (f, new)" by (cases fc)
          note F = CreateFile_result [OF ran(1) [unfolded fc]]
          note later = ran(2) [unfolded fc prod.case]
          show ?thesis
          proof (cases new)
            case new: True
            have wf4: "wf_db c4" "files (tables_of c4) = files (tables_of (w_db w)) @ [f]"
              "chunks (tables_of c4) = chunks (tables_of (w_db w))" "f_Hash f = ?h" "f_Name f = name"
              "f_TotalChunks f = int (tiles xs)"
              using F db new by (auto simp: sane_db_def total_is_tiles [OF src(3), simplified])
            have "0 \<le> CalculateTotalChunks (int (length xs)) 32768" using total_is_tiles [OF src(3)] by simp
            from CreateFile_sane [OF db(1) this, of "w_now w" name "int (length xs)" 32768 ?h]
            have sane4: "sane_db c4" using ran(1) by simp
            have sizes4: "sizes_ok c4" using wf4(3) db(2) by (simp add: sizes_ok_def)
            show ?thesis
            proof (cases rule: os_step [OF later [unfolded eqTrueI [OF new], unfolded not_True_eq_False if_False]])
              case ran: (2 u5 s5)
              have s5: "fs_of s5 = fs_of (w_os w)" using touch_result [OF ran(1)] s3 by simp
              show ?thesis
                using register_rest [of sha f xs name path "w\<lparr>w_db := c4, w_os := s5\<rparr>" r w'] ran(2) sane4 sizes4 wf4 s5 src
                  fresh_id [OF db(3) wf4(1,2)]
                by (auto simp: shared_record_def dest_def total_is_tiles [OF src(3), simplified])
            qed simp
          qed (use later in \<open>auto simp: go_return_def\<close>)
        qed simp
      qed simp
    qed simp
  qed simp
qed


text \<open>A registration of a two-byte file, with a stand-in for the hash.\<close>

definition first_byte :: "bytes \<Rightarrow> bytes" where
  "first_byte = take 1"

definition sample_shop :: world where
  "sample_shop = (d_world sample_start)\<lparr>w_os := \<lparr>fs_of = [''f'' \<mapsto> ''hi''], io_sched = []\<rparr>\<rparr>"

lemma sample_shop_ok: "sane_db (w_db sample_shop)" "sizes_ok (w_db sample_shop)" "refs_ok (tables_of (w_db sample_shop))"
  by (simp_all add: sample_shop_def sample_start_def sane_db_def sizes_ok_def refs_ok_def wf_db_def)
     (simp_all add: empty_tables_def)

definition shop_row :: file_row where
  "shop_row = \<lparr>f_ID = 1, f_Name = ''f'', f_Size = 2, f_MaxChunkSize = 32768, f_TotalChunks = 1, f_Hash = ''68'',
     f_CreatedAt = 0\<rparr>"

definition shop_tables :: tables where
  "shop_tables = empty_tables\<lparr>files := [shop_row], seq_files := 1\<rparr>"

lemma sample_create:
  "FileStore_CreateFile 0 ''f'' 2 32768 1 ''68'' \<lparr>tables_of = empty_tables, sched = []\<rparr> =
     (Inr (shop_row, True), \<lparr>tables_of = shop_tables, sched = []\<rparr>)"
  by code_simp

lemma sample_create_chunk:
  "ChunkStore_CreateChunk 1 0 2 ''68'' True \<lparr>tables_of = shop_tables, sched = []\<rparr> =
     (Inr \<lparr>c_ID = 1, c_FileID = 1, c_ChunkIndex = 0, c_ChunkSize = 2, c_ChunkHash = ''68'', c_IsAvailable = 1\<rparr>,
      \<lparr>tables_of = shop_tables\<lparr>chunks := [\<lparr>c_ID = 1, c_FileID = 1, c_ChunkIndex = 0, c_ChunkSize = 2,
        c_ChunkHash = ''68'', c_IsAvailable = 1\<rparr>], seq_chunks := 1\<rparr>, sched = []\<rparr>)"
  by code_simp

lemma sample_hash: "GenerateHash first_byte ''hi'' = ''68''"
  by code_simp

lemma sample_total: "CalculateTotalChunks 2 32768 = 1"
  by (simp add: CalculateTotalChunks_div)

lemma sample_split: "split_chunks 32768 ''hi'' = [''hi'']"
  by (simp add: split_chunks_step)

lemma sample_name: "ExtractFileName ''f'' = ''f''"
  by code_simp

lemma calm_os_call: "os_call f \<lparr>fs_of = fs, io_sched = []\<rparr> = (case f fs of (r, fs') \<Rightarrow> (r, \<lparr>fs_of = fs', io_sched = []\<rparr>))"
  by (simp add: os_call_def next_fault_def split: prod.split)

lemma sample_registration:
  "w_tracker (snd (handleRegisterSignal first_byte \<lparr>sr_FilePath = ''f''\<rparr> sample_shop)) \<noteq> []"
  unfolding handleRegisterSignal_def Let_def os_touch_alt hash_touch
  by (simp add: go_simps os_do_def db_do_def os_Open_def touch_def calm_os_call sample_shop_def sample_start_def
    sample_name sample_create sample_hash sample_total sample_split,
  simp add: os_touch_def register_publish_def go_simps db_do_def os_do_def sample_create_chunk shop_row_def get_node_def new_node_def
      os_MkdirAll_def os_Create_def os_CopyTo_def GenerateP2PFile_def os_Append_def p2p_lines_def header_lines_def
      calm_os_call send_tracker_def succeeds_def Let_def download_dir_def)


end
