(* ===== verification/DownloadInv.thy ===== *)
theory DownloadInv
  imports FilesInv
begin

text \<open>
  What a download command leaves behind: on the .p2p file of a registration, a handler that gets
  as far as waiting for peers has prepared the transfer.
\<close>

section \<open>Text without separators\<close>

lemma length_digits: "n < 10 ^ Suc k \<Longrightarrow> length (digits n) \<le> Suc k"
proof (induction k arbitrary: n)
  case 0
  then show ?case by (simp add: digits.simps [of n])
next
  case (Suc k)
  show ?case
  proof (cases "n < 10")
    case True
    then show ?thesis by (simp add: digits.simps [of n])
  next
    case False
    have "n div 10 < 10 ^ Suc k" using Suc.prems by (simp add: less_mult_imp_div_less)
    then show ?thesis using Suc.IH False by (simp add: digits.simps [of n])
  qed
qed

lemma length_FormatInt: "0 \<le> i \<Longrightarrow> i < 10 ^ 19 \<Longrightarrow> length (FormatInt i) \<le> 19"
  using length_digits [of "nat i" 18] by (simp add: FormatInt_def nat_less_iff)

text \<open>The characters of a hash or a number.\<close>

definition tame :: "string \<Rightarrow> bool" where
  "tame s \<longleftrightarrow> (\<forall>c \<in> set s. is_hex c \<or> c = CHR ''-'')"

lemma tame_hash [simp]: "tame (GenerateHash sha xs)"
  by (auto simp: tame_def GenerateHash_def dest: hex_chars)

lemma tame_number [simp]: "tame (FormatInt i)"
  by (auto simp: tame_def is_hex_def dest: FormatInt_chars)

lemma tame_chars:
  assumes "tame s"
  shows "CHR '':'' \<notin> set s" "CHR ''|'' \<notin> set s" "printable s"
  using assms by (auto simp: tame_def is_hex_def is_digit_def printable_def)

lemma printable_simps [simp]:
  "printable (xs @ ys) \<longleftrightarrow> printable xs \<and> printable ys"
  "printable (c # xs) \<longleftrightarrow> c \<noteq> newline \<and> c \<noteq> carriage_return \<and> printable xs"
  "printable []"
  by (auto simp: printable_def)

lemma clean_piece: "clean_chunk (piece_line sha p)"
  by (simp add: clean_chunk_def piece_line_def register_chunk_def tame_chars)

lemma clean_shared_record:
  assumes name: "printable name" "length name \<le> 60000" and sha: "\<And>ys. length (sha ys) \<le> 1000"
    and len: "int (length xs) \<le> 2 ^ 46"
  shows "clean_lines (shared_record sha name xs)"
proof -
  have t: "tiles xs \<le> length xs" using total_is_tiles [OF len] by (simp add: tiles_def length_split_chunks)
  have small: "length (FormatInt (int n)) \<le> 19" if "n \<le> length xs" for n
    by (rule length_FormatInt) (use that len in auto)
  have hash: "length (GenerateHash sha ys) \<le> 2000" for ys using sha [of ys] by (simp add: GenerateHash_def)
  have "printable l \<and> length l < max_token" if l: "l \<in> set (map chunk_line (pf_Chunks (shared_record sha name xs)))" for l
  proof -
    obtain i where i: "i < tiles xs" "l = chunk_line (piece_line sha (i, split_chunks M xs ! i))"
      using l by (auto simp: shared_record_def in_set_enumerate_eq tiles_def)
    have "length (split_chunks M xs ! i) \<le> length xs" using i nth_split_chunks [of M i xs] by (simp add: tiles_def)
    then have "length l \<le> 19 + (1 + (2000 + (1 + 19)))" "printable l"
      using small [of i] small [of "length (split_chunks M xs ! i)"] hash [of "split_chunks M xs ! i"] i t
      by (auto simp: chunk_line_def piece_line_def register_chunk_def tame_chars intro!: add_mono)
    then show ?thesis by (simp add: max_token_def)
  qed
  moreover have "printable l \<and> length l < max_token" if "l \<in> set (header_lines (shared_record sha name xs))" for l
    using that small [of "length xs"] small [of "tiles xs"] length_FormatInt [of "int M"] hash [of xs] name t
    by (auto simp: header_lines_def shared_record_def tame_chars max_token_def)
  ultimately show ?thesis by (auto simp: clean_lines_def p2p_lines_def)
qed

text \<open>What the file of a registration parses to.\<close>

lemma parse_shared_record:
  assumes "clean_lines (shared_record sha name xs)"
  shows "parse_p2p (p2p_text (p2p_lines (shared_record sha name xs))) =
    Inr ((shared_record sha name xs)\<lparr>pf_FileName := upto_colon name\<rparr>)"
proof -
  have "\<forall>c \<in> set (pf_Chunks (shared_record sha name xs)). clean_chunk c"
    using clean_piece by (auto simp: shared_record_def)
  from parse_written [OF assms this] show ?thesis
    by (simp add: cut_header_def shared_record_def tame_chars)
qed

section \<open>What a download prepares\<close>

lemma reset_own_result:
  "\<exists>m own. reset_own_chunks h (int n) w = (Inr (), w\<lparr>w_node := (w_node w)\<lparr>n_peerChunkMap := m\<rparr>\<rparr>) \<and>
     mget m (n_id (w_node w)) = Some own \<and> mget own h = Some (replicate n 0)"
  by (cases "mget (n_peerChunkMap (w_node w)) (n_id (w_node w))")
     (simp_all add: reset_own_chunks_def ensure_own_map_def set_chunk_map_def make_slice_def upd_node_def go_simps get_node_def,
      (rule exI, rule conjI, rule refl, simp)+)

lemma create_missing_chunks_result:
  "create_missing_chunks fid (map (piece_line sha) (enumerate k ds)) w = (r, w') \<Longrightarrow>
   sane_db (w_db w) \<Longrightarrow> sizes_ok (w_db w) \<Longrightarrow> int (k + length ds) < 2 ^ 63 \<Longrightarrow> \<forall>d \<in> set ds. int (length d) < 2 ^ 63 \<Longrightarrow>
   \<exists>b c. r = Inr b \<and> w' = w\<lparr>w_db := c\<rparr> \<and> sane_db c \<and> sizes_ok c \<and> files (tables_of c) = files (tables_of (w_db w)) \<and>
     (b \<longrightarrow> (\<exists>rows. chunks (tables_of c) = chunks (tables_of (w_db w)) @ rows \<and>
        map chunk_facts rows = map (piece_facts 0 fid) (enumerate k ds)))"
proof (induction ds arbitrary: k w)
  case Nil
  then show ?case by (intro exI [of _ True] exI [of _ "w_db w"]) (auto simp: go_return_def)
next
  case (Cons d ds)
  have A: "Atoi (FormatInt (int k)) = (int k, None)" "Atoi (FormatInt (int (length d))) = (int (length d), None)"
    using Cons.prems(4,5) by (auto intro!: Atoi_FormatInt)
  have line: "piece_line sha (k, d) = \<lparr>pc_ChunkHash = GenerateHash sha d, pc_ChunkIndex = FormatInt (int k),
      pc_ChunkSize = FormatInt (int (length d))\<rparr>" by (simp add: piece_line_def register_chunk_def)
  have run: "go_bind (db_do (ChunkStore_CreateChunk fid (int k) (int (length d)) (GenerateHash sha d) False))
      (\<lambda>x. case x of Inl e \<Rightarrow> go_return False | Inr row \<Rightarrow>
         create_missing_chunks fid (map (piece_line sha) (enumerate (Suc k) ds))) w = (r, w')"
    using Cons.prems(1) by (simp add: line A)
  show ?case
  proof (cases rule: db_step [OF run])
    case failed: (1 e c)
    note T = CreateChunk_result [OF failed(1), simplified]
    then show ?thesis using Cons.prems(2,3) failed sane_db_cong [OF T]
      by (intro exI [of _ False] exI [of _ c]) (simp add: sizes_ok_def)
  next
    case ran: (2 row c)
    note T = CreateChunk_result [OF ran(1), simplified]
    have sane: "sane_db c" using CreateChunk_sane [of "w_db w" False "int k" fid "int (length d)" "GenerateHash sha d"]
        ran(1) Cons.prems(2) by simp
    have sizes: "sizes_ok c" using T Cons.prems(3) by (auto simp: sizes_ok_def chunk_facts_def)
    have b: "int (Suc k + length ds) < 2 ^ 63" "\<forall>d \<in> set ds. int (length d) < 2 ^ 63" using Cons.prems(4,5) by simp_all
    from Cons.IH [OF ran(2) _ _ b] sane sizes obtain b c' where IH: "r = Inr b" "w' = w\<lparr>w_db := c'\<rparr>" "sane_db c'" "sizes_ok c'"
      "files (tables_of c') = files (tables_of c)"
      "b \<longrightarrow> (\<exists>rows. chunks (tables_of c') = chunks (tables_of c) @ rows \<and>
         map chunk_facts rows = map (piece_facts 0 fid) (enumerate (Suc k) ds))" by auto
    have "\<exists>rows. chunks (tables_of c') = chunks (tables_of (w_db w)) @ rows \<and>
        map chunk_facts rows = map (piece_facts 0 fid) (enumerate k (d # ds))" if b: b
    proof -
      obtain rows where "chunks (tables_of c') = chunks (tables_of c) @ rows"
        "map chunk_facts rows = map (piece_facts 0 fid) (enumerate (Suc k) ds)" using IH(6) b by blast
      then show ?thesis using T by (intro exI [of _ "row # rows"]) (simp add: piece_facts_def)
    qed
    then show ?thesis using IH T by auto
  qed
qed

text \<open>The rows and the file row of a download that is new to the database.\<close>

definition expects :: "string \<Rightarrow> bytes \<Rightarrow> world \<Rightarrow> bool" where
  "expects h xs w \<longleftrightarrow> sane_db (w_db w) \<and> sizes_ok (w_db w) \<and>
     map c_ChunkIndex (stored_chunks (w_db w) h) = map int [0..<tiles xs] \<and> row_sizes h xs w \<and> have_chunks w h = {}"

lemma download_store_result:
  assumes run: "download_store False pf sz n w = (Inr (Some st), w')"
    and pf: "pf_Chunks pf = map (piece_line sha) (enumerate 0 (split_chunks M xs))" "pf_FileHash pf = h" and n: "0 \<le> n"
    and db: "sane_db (w_db w)" "sizes_ok (w_db w)" "refs_ok (tables_of (w_db w))" "stored_file (w_db w) h = None"
    and len: "int (length xs) \<le> 2 ^ 46"
  shows "st \<and> (\<exists>c f. w' = w\<lparr>w_db := c\<rparr> \<and> stored_file c h = Some f \<and> f_Name f = pf_FileName pf \<and> expects h xs w')"
proof -
  have run': "go_bind (db_do (FileStore_CreateFile (w_now w) (pf_FileName pf) sz maxChunkSize n h))
      (\<lambda>r. case r of Inl e \<Rightarrow> go_return None | Inr u \<Rightarrow> (case u of (f, created) \<Rightarrow>
        if \<not> created then go_return (Some False)
        else go_bind (create_missing_chunks (f_ID f) (pf_Chunks pf)) (\<lambda>ok. go_return (if ok then Some True else None)))) w
      = (Inr (Some st), w')"
    using run pf(2) by (simp add: download_store_def go_bind_def [of "go_gets _"] go_gets_def)
  show ?thesis
  proof (cases rule: db_step [OF run'])
    case ran: (2 u c1)
    obtain f new where u: "u = (f, new)" by (cases u)
    note F = CreateFile_result [OF ran(1) [unfolded u]]
    have new: "new" using F db by (cases new) (auto simp: sane_db_def)
    have wf1: "wf_db c1" "files (tables_of c1) = files (tables_of (w_db w)) @ [f]" "chunks (tables_of c1) = chunks (tables_of (w_db w))"
      "f_Hash f = h" "f_Name f = pf_FileName pf" using F new db by (auto simp: sane_db_def)
    have sane1: "sane_db c1" "sizes_ok c1"
      using CreateFile_sane [OF db(1) n, of "w_now w" "pf_FileName pf" sz maxChunkSize h] ran(1) wf1(3) db(2)
      by (simp_all add: sizes_ok_def)
    have t: "tiles xs \<le> length xs" using total_is_tiles [OF len] by (simp add: tiles_def length_split_chunks)
    have sizes: "\<forall>d \<in> set (split_chunks M xs). int (length d) < 2 ^ 63" "int (0 + length (split_chunks M xs)) < 2 ^ 63"
      using t len by (auto simp: in_set_conv_nth nth_split_chunks tiles_def)
    obtain r2 w2 where q: "create_missing_chunks (f_ID f) (pf_Chunks pf) (w\<lparr>w_db := c1\<rparr>) = (r2, w2)"
      by (cases "create_missing_chunks (f_ID f) (pf_Chunks pf) (w\<lparr>w_db := c1\<rparr>)")
    from create_missing_chunks_result [OF q [unfolded pf(1)] _ _ sizes(2,1)] sane1
    obtain b c where C: "r2 = Inr b" "w2 = w\<lparr>w_db := c\<rparr>" "sane_db c" "sizes_ok c" "files (tables_of c) = files (tables_of c1)"
      "b \<longrightarrow> (\<exists>rows. chunks (tables_of c) = chunks (tables_of c1) @ rows \<and>
         map chunk_facts rows = map (piece_facts 0 (f_ID f)) (enumerate 0 (split_chunks M xs)))" by auto
    have res: "b" "st" "w' = w2" using ran(2) u new q C(1) by (auto simp: go_bind_def go_return_def split: if_splits)
    then obtain rows where rows: "chunks (tables_of c) = chunks (tables_of (w_db w)) @ rows"
      "map chunk_facts rows = map (piece_facts 0 (f_ID f)) (enumerate 0 (split_chunks M xs))" using C(6) wf1(3) by auto
    have wf: "wf_db c" using C(3) by (simp add: sane_db_def)
    have known: "stored_file c h = Some f" using wf C(5) wf1 stored_file_Some [OF wf, of h f] by simp
    have old: "\<forall>k \<in> set (chunks (tables_of (w_db w))). c_FileID k \<noteq> f_ID f" using fresh_id [OF db(3) wf1(1,2)] by simp
    have "expects h xs w'"
      using fresh_rows [of w' h f "chunks (tables_of (w_db w))" rows 0 xs] wf known rows old C res by (simp add: expects_def)
    then show ?thesis using res C(2) known wf1(5) by auto
  qed simp
qed

lemma os_try_parse:
  assumes "os_try (ParseP2PFile path) w = (Inr (Inr pf), w1)" and fs: "fs_of (w_os w) path = Some text"
    and p: "parse_p2p text = Inr pf'"
  shows "pf = pf' \<and> (\<exists>s. w1 = w\<lparr>w_os := s\<rparr> \<and> fs_of s = fs_of (w_os w))"
proof -
  obtain r s where o: "os_Open path (w_os w) = (r, s)" by (cases "os_Open path (w_os w)")
  show ?thesis using assms os_Open_result [OF o] o
    by (cases r) (auto simp: os_try_def ParseP2PFile_def split: sum.splits)
qed

lemma download_files_result:
  assumes run: "download_files pf sz (int n) True w = (Inr (Some wt), w')"
    and pf: "pf_FileHash pf = h"
  shows "wt = (h, int n) \<and> w_db w' = w_db w \<and> n_ipcSocketIndex (w_node w') = n_ipcSocketIndex (w_node w) \<and>
    fs_of (w_os w') = (fs_of (w_os w))(download_dir (n_ipcSocketIndex (w_node w)) @ pf_FileName pf \<mapsto>
      replicate (nat (go_div sz 8)) zero_byte) \<and>
    (\<exists>own. mget (n_peerChunkMap (w_node w')) (n_id (w_node w')) = Some own \<and> mget own h = Some (replicate n 0)) \<and>
    (w_tracker w' = w_tracker w \<or> w_tracker w' = w_tracker w @ [BuildPeerListRequestMessage h])"
proof -
  let ?dir = "download_dir (n_ipcSocketIndex (w_node w))"
  obtain m own where R: "reset_own_chunks h (int n) w = (Inr (), w\<lparr>w_node := (w_node w)\<lparr>n_peerChunkMap := m\<rparr>\<rparr>)"
    "mget m (n_id (w_node w)) = Some own" "mget own h = Some (replicate n 0)" using reset_own_result by blast
  let ?w1 = "w\<lparr>w_node := (w_node w)\<lparr>n_peerChunkMap := m\<rparr>\<rparr>"
  have run1: "go_bind (os_do (os_MkdirAll ?dir)) (\<lambda>r. case r of Inl e \<Rightarrow> go_return None | Inr u \<Rightarrow>
      go_bind (os_do (CreatePreallocatedFile (?dir @ pf_FileName pf) (go_div sz 8))) (\<lambda>r.
      case r of Inl e \<Rightarrow> go_return None | Inr u \<Rightarrow> download_request h (int n))) ?w1 = (Inr (Some wt), w')"
    using run unfolding download_files_def pf if_True go_then_Inr [of "reset_own_chunks _ _", OF R(1)] by (simp add: pf)
  show ?thesis
  proof (cases rule: os_step [OF run1])
    case ran: (2 u s1)
    have s1: "fs_of s1 = fs_of (w_os w)" using os_MkdirAll_result [OF ran(1)] by simp
    show ?thesis
    proof (cases rule: os_step [OF ran(2)])
      case ran: (2 u s2)
      have s2: "fs_of s2 = (fs_of (w_os w))(?dir @ pf_FileName pf \<mapsto> replicate (nat (go_div sz 8)) zero_byte)"
        using CreatePreallocatedFile_ok [OF ran(1)] s1 by simp
      let ?n0 = "(w_node w)\<lparr>n_peerChunkMap := m\<rparr>"
      let ?n1 = "if mget (n_pendingPeerListRequests ?n0) h = None
        then ?n0\<lparr>n_pendingPeerListRequests := mput h [] (n_pendingPeerListRequests ?n0)\<rparr> else ?n0"
      let ?w3 = "w\<lparr>w_os := s2, w_node := ?n1\<rparr>"
      have ps: "download_request h (int n) (?w1\<lparr>w_os := s2\<rparr>) =
          go_then (send_tracker (BuildPeerListRequestMessage h)) (go_return (Some (h, int n))) ?w3"
        by (simp add: download_request_def upd_node_def go_then_def [of "go_modify _"] go_bind_def [of "go_modify _"] go_modify_def)
      obtain b w3 where b: "send_tracker (BuildPeerListRequestMessage h) ?w3 = (Inr b, w3)" "w_db w3 = w_db w" "w_os w3 = s2"
        "w_node w3 = ?n1" "w_tracker w3 = (if b then w_tracker w @ [BuildPeerListRequestMessage h] else w_tracker w)"
        using send_tracker_result [of "BuildPeerListRequestMessage h" ?w3] by auto
      have e: "download_request h (int n) (?w1\<lparr>w_os := s2\<rparr>) = (Inr (Some wt), w')" using ran(2) by simp
      have "wt = (h, int n) \<and> w' = w3"
        using e unfolding ps go_then_Inr [of "send_tracker _", OF b(1)] by (simp add: go_return_def)
      then show ?thesis using b R(2,3) s2 by simp
    qed simp
  qed simp
qed

lemma messageCLI_tracker: "messageCLI s w = (r, w') \<Longrightarrow> w_tracker w' = w_tracker w"
  by (cases "n_cliRouter (w_node w)"; cases "w_fails w")
     (auto simp: messageCLI_def send_cli_def succeeds_def go_simps get_node_def split: if_splits)

lemma preallocated_short: "nat (go_div (int n) 8) \<le> n"
  by (simp add: go_div_nonneg)

lemma download_rest:
  assumes run: "go_then (messageCLI s) (go_then (reset_own_chunks h (int (tiles xs)))
      (go_bind (download_store False pf (int (length xs)) (int (tiles xs))) (\<lambda>st. case st of None \<Rightarrow> go_return None
        | Some createdFile \<Rightarrow> download_files pf (int (length xs)) (int (tiles xs)) createdFile))) w = (Inr (Some wt), w')"
    and pf: "pf_FileHash pf = h" "pf_Chunks pf = map (piece_line sha) (enumerate 0 (split_chunks M xs))"
    and len: "int (length xs) \<le> 2 ^ 46"
    and db: "sane_db (w_db w)" "sizes_ok (w_db w)" "refs_ok (tables_of (w_db w))" "stored_file (w_db w) h = None"
  shows "wt = (h, int (tiles xs)) \<and> transfer_inv h xs w' \<and> row_sizes h xs w' \<and> have_chunks w' h = {} \<and>
    (w_tracker w' = w_tracker w \<or> w_tracker w' = w_tracker w @ [BuildPeerListRequestMessage h])"
proof -
  let ?n = "int (tiles xs)" and ?len = "int (length xs)"
  obtain w1 where w1: "messageCLI s w = (Inr (), w1)" "same_data w w1" using messageCLI_result by blast
  note t1 = messageCLI_tracker [OF w1(1)]
  obtain m own where w2: "reset_own_chunks h ?n w1 = (Inr (), w1\<lparr>w_node := (w_node w1)\<lparr>n_peerChunkMap := m\<rparr>\<rparr>)"
    using reset_own_result by blast
  let ?w2 = "w1\<lparr>w_node := (w_node w1)\<lparr>n_peerChunkMap := m\<rparr>\<rparr>"
  have "go_bind (download_store False pf ?len ?n) (\<lambda>st. case st of None \<Rightarrow> go_return None
      | Some createdFile \<Rightarrow> download_files pf ?len ?n createdFile) ?w2 = (Inr (Some wt), w')"
    using run unfolding go_then_Inr [of "messageCLI _", OF w1(1)] go_then_Inr [of "reset_own_chunks _ _", OF w2] .
  from go_bind_InrD [OF this] obtain st w3 where st: "download_store False pf ?len ?n ?w2 = (Inr st, w3)"
    and files: "(case st of None \<Rightarrow> go_return None | Some createdFile \<Rightarrow> download_files pf ?len ?n createdFile) w3 = (Inr (Some wt), w')"
    by blast
  obtain created where c: "st = Some created" using files by (cases st) (simp_all add: go_return_def)
  obtain db' f where S: "created" "w3 = ?w2\<lparr>w_db := db'\<rparr>" "stored_file db' h = Some f" "f_Name f = pf_FileName pf" "expects h xs w3"
    using download_store_result [OF st [unfolded c] pf(2,1) _ _ _ _ _ len] db w1(2) by (auto simp: same_data_def)
  have "download_files pf ?len ?n True w3 = (Inr (Some wt), w')" using files c S(1) by simp
  note R = download_files_result [OF this pf(1)]
  have "fs_of (w_os w') (file_path w' f) = Some (replicate (nat (go_div ?len 8)) zero_byte)"
    using R S(4) by (simp add: file_path_def BuildDownloadPath_def download_dir_def)
  moreover have "agrees_on M xs {} (replicate (nat (go_div ?len 8)) zero_byte)"
    using preallocated_short by (simp add: agrees_on_def)
  moreover have E: "w_db w' = db'" "stored_chunks (w_db w') h = stored_chunks (w_db w3) h" "w_tracker w3 = w_tracker w"
    using R S(2) t1 by simp_all
  moreover have "expects h xs w'" using S(2,5) E by (simp add: expects_def row_sizes_def have_chunks_def)
  moreover have "own_map_ok h xs w'" using R by (auto simp: own_map_ok_def)
  ultimately show ?thesis using R S(3) len by (simp add: transfer_inv_def stored_ok_def expects_def)
qed

lemma download_outcome:
  assumes run: "handleDownloadSignal m w = (Inr (Some wt), w')"
    and fs: "fs_of (w_os w) (SignalDownloadMessage_GetFilePath (Some m)) = Some (p2p_text (p2p_lines (shared_record sha name xs)))"
    and lim: "printable name" "length name \<le> 60000" "\<forall>ys. length (sha ys) \<le> 1000" "int (length xs) \<le> 2 ^ 46"
  defines "h \<equiv> GenerateHash sha xs"
  assumes db: "sane_db (w_db w)" "sizes_ok (w_db w)" "refs_ok (tables_of (w_db w))" "stored_file (w_db w) h = None"
  shows "wt = (h, int (tiles xs)) \<and> transfer_inv h xs w' \<and> row_sizes h xs w' \<and> have_chunks w' h = {} \<and>
    (w_tracker w' = w_tracker w \<or> w_tracker w' = w_tracker w @ [BuildPeerListRequestMessage h])"
proof -
  let ?pf = "(shared_record sha name xs)\<lparr>pf_FileName := upto_colon name\<rparr>"
  let ?n = "int (tiles xs)" and ?len = "int (length xs)"
  note parsed = parse_shared_record [OF clean_shared_record, OF lim(1,2) lim(3) [rule_format] lim(4)]
  have t: "tiles xs \<le> length xs" using total_is_tiles [OF lim(4)] by (simp add: tiles_def length_split_chunks)
  have A: "Atoi (FormatInt ?len) = (?len, None)" "Atoi (FormatInt ?n) = (?n, None)"
    using lim(4) t by (auto intro!: Atoi_FormatInt)
  have F: "pf_FileHash ?pf = h" "pf_FileSize ?pf = FormatInt ?len" "pf_TotalChunks ?pf = FormatInt ?n"
    "pf_Chunks ?pf = map (piece_line sha) (enumerate 0 (split_chunks M xs))"
    by (simp_all add: shared_record_def h_def)
  obtain pf w1 where 1: "os_try (ParseP2PFile (SignalDownloadMessage_GetFilePath (Some m))) w = (Inr (Inr pf), w1)"
  proof (cases "os_try (ParseP2PFile (SignalDownloadMessage_GetFilePath (Some m))) w")
    case (Pair r w1)
    then show thesis using run that
      by (cases r; cases "projr r") (auto simp: handleDownloadSignal_def go_bind_def [of "os_try _"] go_return_def)
  qed
  obtain s1 where w1: "pf = ?pf" "w1 = w\<lparr>w_os := s1\<rparr>" "fs_of s1 = fs_of (w_os w)"
    using os_try_parse [OF 1 fs parsed] by auto
  obtain g d where g: "FileStore_GetFileByHash h (w_db w) = (g, d)" by (cases "FileStore_GetFileByHash h (w_db w)")
  have D: "tables_of d = tables_of (w_db w)" "\<exists>e. g = Inl e"
    using GetFileByHash_result [OF g [unfolded FileStore_GetFileByHash_def]] db(4) by auto
  let ?w2 = "w\<lparr>w_os := s1, w_db := d\<rparr>"
  have rest2: "go_then (messageCLI (''+'' @ FormatInt ?n)) (go_then (reset_own_chunks h ?n)
      (go_bind (download_store False ?pf ?len ?n) (\<lambda>st. case st of None \<Rightarrow> go_return None
        | Some createdFile \<Rightarrow> download_files ?pf ?len ?n createdFile))) ?w2 = (Inr (Some wt), w')"
    using run D(2) unfolding handleDownloadSignal_def Let_def go_bind_def [of "os_try _"] 1 w1(1)
    by (auto simp: w1(2) F g A go_bind_def [of "db_do _"] db_do_def)
  show ?thesis
    using download_rest [OF rest2 F(1,4) lim(4)] db D(1) sane_db_cong [OF D(1)]
    by (simp add: sizes_ok_def stored_file_def)
qed


definition sample_fetch :: world where
  "sample_fetch = (d_world sample_start)\<lparr>w_os := \<lparr>fs_of =
     [''f.p2p'' \<mapsto> p2p_text (p2p_lines (shared_record first_byte ''f'' ''hi''))], io_sched = []\<rparr>\<rparr>"

lemma sample_fetch_ok: "sane_db (w_db sample_fetch)" "sizes_ok (w_db sample_fetch)" "refs_ok (tables_of (w_db sample_fetch))"
  by (simp_all add: sample_fetch_def sample_start_def sane_db_def sizes_ok_def refs_ok_def wf_db_def)
     (simp_all add: empty_tables_def)

lemma sample_lookup:
  "FileStore_GetFileByHash ''68'' \<lparr>tables_of = empty_tables, sched = []\<rparr> = (Inl ErrNoRows, \<lparr>tables_of = empty_tables, sched = []\<rparr>)"
  by code_simp

lemma shop_row_id: "f_ID shop_row = 1"
  by (simp add: shop_row_def)

lemma sample_create_missing:
  "ChunkStore_CreateChunk 1 0 2 ''68'' False \<lparr>tables_of = shop_tables, sched = []\<rparr> =
     (Inr \<lparr>c_ID = 1, c_FileID = 1, c_ChunkIndex = 0, c_ChunkSize = 2, c_ChunkHash = ''68'', c_IsAvailable = 0\<rparr>,
      \<lparr>tables_of = shop_tables\<lparr>chunks := [\<lparr>c_ID = 1, c_FileID = 1, c_ChunkIndex = 0, c_ChunkSize = 2,
        c_ChunkHash = ''68'', c_IsAvailable = 0\<rparr>], seq_chunks := 1\<rparr>, sched = []\<rparr>)"
  by code_simp

lemma first_byte_length: "length (first_byte ys) \<le> 1000"
  by (simp add: first_byte_def)

lemma sample_record: "(shared_record first_byte ''f'' ''hi'')\<lparr>pf_FileName := upto_colon ''f''\<rparr> =
  \<lparr>pf_FileName = ''f'', pf_FileHash = ''68'', pf_FileSize = FormatInt 2, pf_MaxChunkSize = FormatInt 32768,
   pf_TotalChunks = FormatInt 1, pf_Chunks = [\<lparr>pc_ChunkHash = ''68'', pc_ChunkIndex = FormatInt 0, pc_ChunkSize = FormatInt 2\<rparr>]\<rparr>"
proof -
  have "tiles ''hi'' = 1" by (simp add: tiles_def sample_split)
  then show ?thesis by (simp add: shared_record_def sample_hash sample_split piece_line_def register_chunk_def)
qed

lemma sample_parse: "parse_p2p (p2p_text (p2p_lines (shared_record first_byte ''f'' ''hi''))) =
  Inr \<lparr>pf_FileName = ''f'', pf_FileHash = ''68'', pf_FileSize = FormatInt 2, pf_MaxChunkSize = FormatInt 32768,
   pf_TotalChunks = FormatInt 1, pf_Chunks = [\<lparr>pc_ChunkHash = ''68'', pc_ChunkIndex = FormatInt 0, pc_ChunkSize = FormatInt 2\<rparr>]\<rparr>"
  unfolding sample_record [symmetric]
  by (rule parse_shared_record, rule clean_shared_record) (simp_all add: first_byte_length)

lemma sample_download: "\<exists>wt w'. handleDownloadSignal \<lparr>sd_FilePath = ''f.p2p''\<rparr> sample_fetch = (Inr (Some wt), w')"
  unfolding handleDownloadSignal_def
  by (simp add: Let_def go_simps os_try_def ParseP2PFile_def os_Open_def calm_os_call sample_fetch_def sample_start_def sample_parse
     db_do_def sample_lookup Atoi_FormatInt messageCLI_def get_node_def new_node_def reset_own_chunks_def ensure_own_map_def
     set_chunk_map_def upd_node_def make_slice_def download_store_def sample_create shop_row_id sample_create_missing
     download_files_def os_do_def os_MkdirAll_def CreatePreallocatedFile_def go_div_nonneg os_Create_def download_request_def send_tracker_def succeeds_def)

lemma sample_fetch_src:
  "fs_of (w_os sample_fetch) (SignalDownloadMessage_GetFilePath (Some \<lparr>sd_FilePath = ''f.p2p''\<rparr>)) =
    Some (p2p_text (p2p_lines (shared_record first_byte ''f'' ''hi'')))"
  "stored_file (w_db sample_fetch) (GenerateHash first_byte ''hi'') = None"
  by (simp_all add: sample_fetch_def sample_start_def stored_file_None) (simp add: empty_tables_def)

lemma sample_limits:
  "printable ''f''" "length ''f'' \<le> 60000" "\<forall>ys. length (first_byte ys) \<le> 1000" "int (length ''hi'') \<le> 2 ^ 46"
  by (simp_all add: first_byte_length)


end
