(* ===== verification/System.thy ===== *)
theory System
  imports RouterInv TrackerInv Progress DownloadInv
begin

text \<open>
  Properties that span the parts of the system: from the registration of a file at one daemon
  to its arrival at another, and what each part sends against what the others read.
\<close>

section \<open>From registration to arrival\<close>

text \<open>End to end. A daemon registers a file and announces it; its .p2p file is carried to another
  daemon, whose download command prepares the transfer. From then on, whatever happens at the second
  daemon, as long as the chunk responses it gets for the file are those an honest peer sends, it does not
  panic, and once its download is complete its copy is, byte for byte, the file that was registered;
  and the first daemon is such an honest peer: whatever chunk it is asked for, it answers with nothing or
  with a response that is honest for the second.\<close>

theorem shared_file_arrives:
  assumes reg: "handleRegisterSignal sha ma wa = (ra, wa')" "w_tracker wa' \<noteq> w_tracker wa"
    and path: "fs_of (w_os wa) path = Some xs" "path = SignalRegisterMessage_GetFilePath (Some ma)"
    and dest: "dest = download_dir (n_ipcSocketIndex (w_node wa)) @ ExtractFileName path" "path \<noteq> dest"
    and dba: "sane_db (w_db wa)" "sizes_ok (w_db wa)" "refs_ok (tables_of (w_db wa))"
    and lim: "printable (ExtractFileName path)" "length (ExtractFileName path) \<le> 60000"
      "\<forall>ys. length (sha ys) \<le> 1000" "int (length xs) \<le> 2 ^ 46"
    and carried: "fs_of (w_os wb) (SignalDownloadMessage_GetFilePath (Some mb)) = fs_of (w_os wa') (dest @ ''.p2p'')"
    and dbb: "sane_db (w_db wb)" "sizes_ok (w_db wb)" "refs_ok (tables_of (w_db wb))"
      "stored_file (w_db wb) (GenerateHash sha xs) = None"
    and down: "handleDownloadSignal mb wb = (Inr (Some wt), wb')"
    and later: "d_world d = wb'" "n_id (w_node wb') = me" "\<forall>ev \<in> set evs. honest (GenerateHash sha xs) xs me ev"
  shows "\<exists>d' f. run_events sha evs d = (Inr (), d') \<and> stored_file (w_db (d_world d')) (GenerateHash sha xs) = Some f \<and>
    (IsDownloadComplete (stored_chunks (w_db (d_world d')) (GenerateHash sha xs)) \<longrightarrow>
       fs_of (w_os (d_world d')) (file_path (d_world d') f) = fs_of (w_os wa) path) \<and>
    (\<forall>p m r w''. cr_FileHash m = GenerateHash sha xs \<longrightarrow> handleChunkRequest p m wa' = (r, w'') \<longrightarrow>
       r = Inr () \<and> (w_sent w'' = w_sent wa' \<or> (\<exists>dc msg. w_sent w'' = w_sent wa' @ [(dc, msg)] \<and>
         (\<forall>q. honest_message (GenerateHash sha xs) xs me q (Some msg)))))"
proof -
  let ?h = "GenerateHash sha xs"
  obtain f where f: "ready_to_serve sha dest (ExtractFileName path) xs wa' f"
    using registration_outcome [OF reg(1) dba] path dest lim(4) reg(2) by auto
  then have sender: "stored_ok ?h xs wa'" "row_sizes ?h xs wa'"
    and p2p: "fs_of (w_os wb) (SignalDownloadMessage_GetFilePath (Some mb)) =
      Some (p2p_text (p2p_lines (shared_record sha (ExtractFileName path) xs)))"
    using carried by (simp_all add: ready_to_serve_def)
  have "receiving ?h xs me (d_world d)"
    using download_outcome [OF down p2p lim dbb] later by (simp add: receiving_def)
  then obtain d' where d': "run_events sha evs d = (Inr (), d')" "receiving ?h xs me (d_world d')"
    using runs_returns [OF runs_honest_events [OF later(3)]] by auto
  then have ok: "stored_ok ?h xs (d_world d')" by (simp add: receiving_def transfer_inv_def)
  then obtain g where g: "stored_file (w_db (d_world d')) ?h = Some g" by (auto simp: stored_ok_def)
  have answers: "r = Inr () \<and> (w_sent w'' = w_sent wa' \<or> (\<exists>dc msg. w_sent w'' = w_sent wa' @ [(dc, msg)] \<and>
      (\<forall>q. honest_message ?h xs me q (Some msg))))"
    if "cr_FileHash m = ?h" "handleChunkRequest p m wa' = (r, w'')" for p m r w''
    using chunk_answer [OF sender that] by (fastforce simp: honest_message_def)
  show ?thesis unfolding path(1)
    by (intro exI [of _ d'] exI [of _ g] conjI impI allI d' g complete_transfer [OF ok _ g]) (simp_all add: answers)
qed

section \<open>What is sent is what is read\<close>

definition one_route :: "routes \<Rightarrow> message_type \<Rightarrow> bool" where
  "one_route rs m \<longleftrightarrow> (\<exists>ch. sends_of rs m = [(ch, m)])"

lemma tracker_reads: "for_tracker \<lparr>MessageType = Some m\<rparr> \<Longrightarrow> one_route tracker_routes m"
  by (cases m) (simp_all add: for_tracker_def one_route_def sends_of_def tracker_routes_def AddRoute_def asserts_def)

lemma daemon_reads:
  "kind_of m = KId \<or> kind_of m = KSignaling \<or> kind_of m = KPeerListResponse \<Longrightarrow> one_route node_routes m"
  by (cases m) (auto simp: one_route_def sends_of_def node_routes_def AddRoute_def asserts_def)

lemma one_route_delivery:
  assumes "\<forall>m \<in> set ms. one_route rs m"
  shows "map snd (concat (map (sends_of rs) ms)) = ms \<and>
    (\<forall>(ch, m) \<in> set (concat (map (sends_of rs) ms)). chan_elem ch = kind_of m)"
  using assms
proof (induction ms)
  case (Cons m ms)
  then obtain ch where "sends_of rs m = [(ch, m)]" by (auto simp: one_route_def)
  moreover from this have "(ch, m) \<in> set (sends_of rs m)" by simp
  then have "chan_elem ch = kind_of m" by (auto simp: sends_of_def)
  ultimately show ?case using Cons by simp
qed simp

text \<open>
  The messages are all delivered: written in order on a fresh stream, the reader with the given
  routes puts each on a channel of its kind, once and in order, and then sees the end of the stream.
\<close>

definition delivered ::
  "(NetworkMessage \<Rightarrow> bytes option) \<Rightarrow> (bytes \<Rightarrow> NetworkMessage option) \<Rightarrow> routes \<Rightarrow> NetworkMessage list \<Rightarrow> bool" where
  "delivered marshal unmarshal rs msgs \<longleftrightarrow>
     (\<exists>ms. msgs = map (\<lambda>m. \<lparr>MessageType = Some m\<rparr>) ms \<and>
        (\<forall>c c' u. write_all marshal ms c = (Inr u, c') \<longrightarrow> w_out c = [] \<longrightarrow>
           (\<exists>sends. listen unmarshal rs (w_out c') = (sends, StreamClosed) \<and> map snd sends = ms \<and>
              (\<forall>(ch, m) \<in> set sends. chan_elem ch = kind_of m))))"

lemma all_delivered:
  assumes codec: "codec_ok marshal unmarshal"
    and one: "\<forall>msg \<in> set msgs. \<exists>m. msg = \<lparr>MessageType = Some m\<rparr> \<and> one_route rs m"
  shows "delivered marshal unmarshal rs msgs"
proof -
  obtain ms where ms: "msgs = map (\<lambda>m. \<lparr>MessageType = Some m\<rparr>) ms" "\<forall>m \<in> set ms. one_route rs m"
    using one by (induction msgs) (auto simp: Cons_eq_map_conv, metis list.set_intros(1) set_ConsD)
  have "listen unmarshal rs (w_out c') = (concat (map (sends_of rs) ms), StreamClosed)"
    if "write_all marshal ms c = (Inr u, c')" "w_out c = []" for c c' u
    using listen_written [OF codec that] .
  then show ?thesis unfolding delivered_def using ms one_route_delivery [OF ms(2)] by blast
qed

lemma one_of_tracker: "for_tracker msg \<Longrightarrow> \<exists>m. msg = \<lparr>MessageType = Some m\<rparr> \<and> one_route tracker_routes m"
  using tracker_reads by (cases msg) (auto simp: for_tracker_def split: option.splits)

lemma one_of_daemon:
  assumes "out_ok t c msg"
  shows "\<exists>m. msg = \<lparr>MessageType = Some m\<rparr> \<and> one_route node_routes m"
  using assms daemon_reads
  by (cases msg) (auto simp: out_ok_def id_message_def split: option.splits message_type.splits)



text \<open>The two-byte file, registered, fetched, and its one chunk received.\<close>

theorem shared_file_arrives_witness:
  "\<exists>wa wt wb d' f. handleRegisterSignal first_byte \<lparr>sr_FilePath = ''f''\<rparr> sample_shop = (Inr (), wa) \<and>
     handleDownloadSignal \<lparr>sd_FilePath = ''f.p2p''\<rparr> sample_fetch = (Inr (Some wt), wb) \<and>
     run_events first_byte [PeerMessage \<lparr>rtc_peer = ''8'', rtc_hash = ''68'', rtc_initiator = True\<rparr>
         (Some (BuildChunkResponseMessage ''68'' 0 ''hi''))] \<lparr>d_world = wb, d_waiting = [wt], d_stuck = False\<rparr> = (Inr (), d') \<and>
     stored_file (w_db (d_world d')) ''68'' = Some f"
proof -
  obtain r wa where reg: "handleRegisterSignal first_byte \<lparr>sr_FilePath = ''f''\<rparr> sample_shop = (r, wa)"
    by (cases "handleRegisterSignal first_byte \<lparr>sr_FilePath = ''f''\<rparr> sample_shop")
  obtain wt wb where down: "handleDownloadSignal \<lparr>sd_FilePath = ''f.p2p''\<rparr> sample_fetch = (Inr (Some wt), wb)"
    using sample_download by blast
  let ?dest = "download_dir (n_ipcSocketIndex (w_node sample_shop)) @ ExtractFileName ''f''"
  have shop: "fs_of (w_os sample_shop) (SignalRegisterMessage_GetFilePath (Some \<lparr>sr_FilePath = ''f''\<rparr>)) = Some ''hi''"
    "w_tracker sample_shop = []" "''f'' \<noteq> ?dest"
    by (simp_all add: sample_shop_def sample_start_def new_node_def download_dir_def sample_name)
  have tr: "w_tracker wa \<noteq> w_tracker sample_shop" using sample_registration reg shop(2) by simp
  have dest: "SignalRegisterMessage_GetFilePath (Some \<lparr>sr_FilePath = ''f''\<rparr>) \<noteq> ?dest" using shop(3) by simp
  obtain f where out: "r = Inr ()" "ready_to_serve first_byte ?dest ''f'' ''hi'' wa f"
    using registration_outcome [OF reg sample_shop_ok shop(1)] tr shop(3) by (auto simp: sample_name)
  have one: "tiles ''hi'' = 1" "tile M ''hi'' 0 = ''hi''" by (simp_all add: tiles_def sample_split tile_def)
  let ?evs = "[PeerMessage \<lparr>rtc_peer = ''8'', rtc_hash = ''68'', rtc_initiator = True\<rparr>
    (Some (BuildChunkResponseMessage ''68'' 0 ''hi''))]" and ?d = "\<lparr>d_world = wb, d_waiting = [wt], d_stuck = False\<rparr>"
  have hon: "\<forall>ev \<in> set ?evs. honest (GenerateHash first_byte ''hi'') ''hi'' (n_id (w_node wb)) ev"
    by (simp add: honest_message_def one sample_hash)
  have same: "fs_of (w_os sample_fetch) (SignalDownloadMessage_GetFilePath (Some \<lparr>sd_FilePath = ''f.p2p''\<rparr>)) =
      fs_of (w_os wa) (?dest @ ''.p2p'')"
    using sample_fetch_src out(2) by (simp add: ready_to_serve_def)
  have lim: "printable (ExtractFileName ''f'')" "length (ExtractFileName ''f'') \<le> 60000"
    using sample_limits by (simp_all add: sample_name)
  have path: "''f'' = SignalRegisterMessage_GetFilePath (Some \<lparr>sr_FilePath = ''f''\<rparr>)" by simp
  from shared_file_arrives [OF reg tr shop(1) [folded path] path refl shop(3) sample_shop_ok lim sample_limits(3,4) same
      sample_fetch_ok sample_fetch_src(2) down _ refl hon, of ?d]
  show ?thesis using reg down out(1) unfolding sample_hash by (simp only: daemon.select_convs) blast
qed

section \<open>The daemon and its command line\<close>

definition log_text :: "NetworkMessage \<Rightarrow> string" where
  "log_text msg = (case MessageType msg of Some (NetworkMessage_Log m) \<Rightarrow> LogMessage_GetMessage (Some m) | _ \<Rightarrow> [])"

definition sent_to_cli :: "nat \<Rightarrow> daemon \<Rightarrow> NetworkMessage list" where
  "sent_to_cli r d = map snd (filter (\<lambda>(q, m). q = r) (w_cli (d_world d)))"

lemma cli_reads:
  assumes "for_cli msg" "NewClient index True = Inr client"
  shows "\<exists>m. msg = \<lparr>MessageType = Some m\<rparr> \<and> one_route (cl_routes client) m"
proof -
  obtain m where "msg = \<lparr>MessageType = Some (NetworkMessage_Log m)\<rparr>"
    using assms(1) by (cases msg) (auto simp: for_cli_def split: option.splits message_type.splits)
  then show ?thesis using assms(2)
    by (auto simp: NewClient_def one_route_def sends_of_def AddRoute_def asserts_def)
qed



end
