(* ===== verification/Transport.thy ===== *)
theory Transport
  imports NodeRtc
begin

text \<open>
  internal/transport/webrtc: the transport over WebRTC data channels. A connection is an object
  on a heap, named by its number, because the map of the transport, the accept channel and the
  callbacks share it. The WebRTC library and the signaler are outside: their calls succeed or
  fail by a schedule, their callbacks are events, and the successful calls that matter later
  are recorded.
\<close>

section \<open>Channels\<close>

record 'a gochan =
  ch_items :: "'a list"
  ch_closed :: bool

definition make_chan :: "'a gochan" where
  "make_chan = \<lparr>ch_items = [], ch_closed = False\<rparr>"

definition chan_close :: "'a gochan \<Rightarrow> 'a gochan res" where
  "chan_close ch = (if ch_closed ch then Inl CloseOfClosedChannel else Inr (ch\<lparr>ch_closed := True\<rparr>))"

text \<open>A send in a select with a default: dropped when the buffer is full.\<close>

definition chan_try_send :: "nat \<Rightarrow> 'a \<Rightarrow> 'a gochan \<Rightarrow> 'a gochan res" where
  "chan_try_send cap x ch =
     (if ch_closed ch then Inl SendOnClosedChannel
      else if length (ch_items ch) < cap then Inr (ch\<lparr>ch_items := ch_items ch @ [x]\<rparr>)
      else Inr ch)"

text \<open>A plain send, when the buffer has room; without room the goroutine waits.\<close>

definition chan_send :: "'a \<Rightarrow> 'a gochan \<Rightarrow> 'a gochan res" where
  "chan_send x ch =
     (if ch_closed ch then Inl SendOnClosedChannel else Inr (ch\<lparr>ch_items := ch_items ch @ [x]\<rparr>))"

section \<open>State\<close>

definition recv_cap :: nat where
  "recv_cap = 256"

definition incoming_cap :: nat where
  "incoming_cap = 16"

record connection =
  cx_peerID :: string
  cx_dc :: "nat option"
  cx_recvChan :: "bytes gochan"
  cx_isInitiator :: bool
  cx_onOpen :: bool

datatype SDPType = SDPTypeOffer | SDPTypeAnswer

datatype pc_call =
    PcSetRemote SDPType string
  | PcSetLocal SDPType string
  | DcClose
  | PcClose

record transport =
  tr_connections :: "(string, nat) gomap"
  tr_incoming :: "nat gochan"
  tr_heap :: "connection list"
  tr_channels :: nat
  tr_calls :: "(nat \<times> pc_call) list"
  tr_signals :: "(string \<times> string) list"
  tr_sent :: "(nat \<times> bytes) list"
  tr_taken :: "(nat \<times> bytes) list"
  tr_fails :: "bool list"
  tr_sdps :: "string list"

datatype transport_error =
    PeerConnectionFailed | DataChannelFailed | OfferFailed | LocalFailed | SendOfferFailed
  | RemoteFailed | AnswerFailed | SendAnswerFailed | ChannelNotReady | SendFailed

type_synonym 'a tact = "(transport, 'a) go"

definition new_transport :: transport where
  "new_transport = \<lparr>tr_connections = [], tr_incoming = make_chan, tr_heap = [], tr_channels = 0, tr_calls = [],
     tr_signals = [], tr_sent = [], tr_taken = [], tr_fails = [], tr_sdps = []\<rparr>"

section \<open>Primitive actions\<close>

text \<open>Whether the next outside call succeeds, and the description the library makes.\<close>

definition lib_ok :: "bool tact" where
  "lib_ok t = (case tr_fails t of [] \<Rightarrow> (Inr True, t) | b # bs \<Rightarrow> (Inr (\<not> b), t\<lparr>tr_fails := bs\<rparr>))"

definition lib_sdp :: "string option tact" where
  "lib_sdp = go_bind lib_ok (\<lambda>ok. if \<not> ok then go_return None else (\<lambda>t.
     case tr_sdps t of [] \<Rightarrow> (Inr (Some []), t) | s # ss \<Rightarrow> (Inr (Some s), t\<lparr>tr_sdps := ss\<rparr>)))"

definition lib_call :: "nat \<Rightarrow> pc_call \<Rightarrow> bool tact" where
  "lib_call i call = go_bind lib_ok (\<lambda>ok.
     if ok then go_then (go_modify (\<lambda>t. t\<lparr>tr_calls := tr_calls t @ [(i, call)]\<rparr>)) (go_return True)
     else go_return False)"

definition send_signal :: "string \<Rightarrow> string \<Rightarrow> bool tact" where
  "send_signal peerID payload = go_bind lib_ok (\<lambda>ok.
     if ok then go_then (go_modify (\<lambda>t. t\<lparr>tr_signals := tr_signals t @ [(peerID, payload)]\<rparr>)) (go_return True)
     else go_return False)"

definition get_conn :: "nat \<Rightarrow> connection tact" where
  "get_conn i = go_gets (\<lambda>t. tr_heap t ! i)"

definition upd_conn :: "nat \<Rightarrow> (connection \<Rightarrow> connection) \<Rightarrow> unit tact" where
  "upd_conn i f = go_modify (\<lambda>t. t\<lparr>tr_heap := (tr_heap t)[i := f (tr_heap t ! i)]\<rparr>)"

text \<open>RemoteDescription is nil until SetRemoteDescription has succeeded on the connection.\<close>

fun is_remote :: "pc_call \<Rightarrow> bool" where
  "is_remote (PcSetRemote ty sdp) = True"
| "is_remote call = False"

definition has_remote :: "transport \<Rightarrow> nat \<Rightarrow> bool" where
  "has_remote t i = list_ex (\<lambda>(j, call). j = i \<and> is_remote call) (tr_calls t)"

section \<open>connection.go\<close>

definition newConnection :: "string \<Rightarrow> bool \<Rightarrow> nat tact" where
  "newConnection peerID isInitiator t =
     (Inr (length (tr_heap t)), t\<lparr>tr_heap := tr_heap t @
        [\<lparr>cx_peerID = peerID, cx_dc = None, cx_recvChan = make_chan, cx_isInitiator = isInitiator, cx_onOpen = False\<rparr>]\<rparr>)"

definition close_recv :: "nat \<Rightarrow> unit tact" where
  "close_recv i = go_bind (get_conn i) (\<lambda>c. go_bind (go_lift (chan_close (cx_recvChan c))) (\<lambda>ch.
     upd_conn i (\<lambda>c. c\<lparr>cx_recvChan := ch\<rparr>)))"

definition conn_OnConnectionStateChange :: "nat \<Rightarrow> PeerConnectionState \<Rightarrow> unit tact" where
  "conn_OnConnectionStateChange i s = (if s = StateFailed \<or> s = StateClosed then close_recv i else go_return ())"

definition conn_setupDataChannel :: "nat \<Rightarrow> nat \<Rightarrow> unit tact" where
  "conn_setupDataChannel i dc = upd_conn i (\<lambda>c. c\<lparr>cx_dc := Some dc\<rparr>)"

definition new_channel :: "nat tact" where
  "new_channel t = (Inr (tr_channels t), t\<lparr>tr_channels := Suc (tr_channels t)\<rparr>)"

definition createDataChannel :: "nat \<Rightarrow> (transport_error + unit) tact" where
  "createDataChannel i = go_bind lib_ok (\<lambda>ok.
     if \<not> ok then go_return (Inl DataChannelFailed)
     else go_bind new_channel (\<lambda>dc. go_then (conn_setupDataChannel i dc) (go_return (Inr ()))))"

text \<open>The remote side's data channel; the callback is registered on responders only.\<close>

definition conn_OnDataChannel :: "nat \<Rightarrow> unit tact" where
  "conn_OnDataChannel i = go_bind new_channel (\<lambda>dc. conn_setupDataChannel i dc)"

definition conn_OnOpen :: "nat \<Rightarrow> unit tact" where
  "conn_OnOpen i = go_bind (get_conn i) (\<lambda>c.
     if cx_onOpen c
     then go_bind (go_gets tr_incoming) (\<lambda>ch. go_bind (go_lift (chan_send i ch)) (\<lambda>ch'.
       go_modify (\<lambda>t. t\<lparr>tr_incoming := ch'\<rparr>)))
     else go_return ())"

definition conn_OnMessage :: "nat \<Rightarrow> bytes \<Rightarrow> unit tact" where
  "conn_OnMessage i data = go_bind (get_conn i) (\<lambda>c.
     go_bind (go_lift (chan_try_send recv_cap data (cx_recvChan c))) (\<lambda>ch.
       upd_conn i (\<lambda>c. c\<lparr>cx_recvChan := ch\<rparr>)))"

definition conn_OnClose :: "nat \<Rightarrow> unit tact" where
  "conn_OnClose i = close_recv i"

definition handleSignal :: "nat \<Rightarrow> string \<Rightarrow> (transport_error + unit) tact" where
  "handleSignal i payload = go_bind (go_gets (\<lambda>t. has_remote t i)) (\<lambda>known.
     if known then go_return (Inr ())
     else go_bind (get_conn i) (\<lambda>c.
       go_bind (lib_call i (PcSetRemote (if cx_isInitiator c then SDPTypeAnswer else SDPTypeOffer) payload)) (\<lambda>ok.
       if \<not> ok then go_return (Inl RemoteFailed)
       else if cx_isInitiator c then go_return (Inr ())
       else go_bind lib_sdp (\<lambda>r. case r of
           None \<Rightarrow> go_return (Inl AnswerFailed)
         | Some answer \<Rightarrow> go_bind (lib_call i (PcSetLocal SDPTypeAnswer answer)) (\<lambda>ok'.
             if \<not> ok' then go_return (Inl LocalFailed)
             else go_bind (send_signal (cx_peerID c) answer) (\<lambda>ok''.
               go_return (if ok'' then Inr () else Inl SendAnswerFailed)))))))"

definition PeerID :: "nat \<Rightarrow> string tact" where
  "PeerID i = go_bind (get_conn i) (\<lambda>c. go_return (cx_peerID c))"

definition Send :: "nat \<Rightarrow> bytes \<Rightarrow> (transport_error + unit) tact" where
  "Send i data = go_bind (get_conn i) (\<lambda>c.
     case cx_dc c of
       None \<Rightarrow> go_return (Inl ChannelNotReady)
     | Some dc \<Rightarrow> go_bind lib_ok (\<lambda>ok.
         if ok then go_then (go_modify (\<lambda>t. t\<lparr>tr_sent := tr_sent t @ [(dc, data)]\<rparr>)) (go_return (Inr ()))
         else go_return (Inl SendFailed)))"

text \<open>One receive on the channel Recv returns: None when it is closed and drained.\<close>

definition Recv :: "nat \<Rightarrow> bytes option tact" where
  "Recv i = go_bind (get_conn i) (\<lambda>c.
     case ch_items (cx_recvChan c) of
       [] \<Rightarrow> go_return None
     | d # ds \<Rightarrow> go_then (upd_conn i (\<lambda>c. c\<lparr>cx_recvChan := (cx_recvChan c)\<lparr>ch_items := ds\<rparr>\<rparr>))
         (go_then (go_modify (\<lambda>t. t\<lparr>tr_taken := tr_taken t @ [(i, d)]\<rparr>)) (go_return (Some d))))"

definition conn_Close :: "nat \<Rightarrow> bool tact" where
  "conn_Close i = go_bind (get_conn i) (\<lambda>c.
     go_then (if cx_dc c \<noteq> None then go_then (lib_call i DcClose) (go_return ()) else go_return ())
       (lib_call i PcClose))"

section \<open>transport.go\<close>

definition Connect :: "string \<Rightarrow> (transport_error + nat) tact" where
  "Connect peerID = go_bind lib_ok (\<lambda>ok.
     if \<not> ok then go_return (Inl PeerConnectionFailed)
     else go_bind (newConnection peerID True) (\<lambda>conn.
       go_then (go_modify (\<lambda>t. t\<lparr>tr_connections := mput peerID conn (tr_connections t)\<rparr>))
       (go_bind (createDataChannel conn) (\<lambda>r. case r of
          Inl e \<Rightarrow> go_return (Inl e)
        | Inr u \<Rightarrow> go_bind lib_sdp (\<lambda>r'. case r' of
            None \<Rightarrow> go_return (Inl OfferFailed)
          | Some offer \<Rightarrow> go_bind (lib_call conn (PcSetLocal SDPTypeOffer offer)) (\<lambda>ok'.
              if \<not> ok' then go_return (Inl LocalFailed)
              else go_bind (send_signal peerID offer) (\<lambda>ok''.
                go_return (if ok'' then Inr conn else Inl SendOfferFailed))))))))"

text \<open>One receive on the channel Accept returns.\<close>

definition Accept :: "nat option tact" where
  "Accept = go_bind (go_gets tr_incoming) (\<lambda>ch.
     case ch_items ch of
       [] \<Rightarrow> go_return None
     | c # cs \<Rightarrow> go_then (go_modify (\<lambda>t. t\<lparr>tr_incoming := ch\<lparr>ch_items := cs\<rparr>\<rparr>)) (go_return (Some c)))"

definition HandleSignal :: "string \<Rightarrow> string \<Rightarrow> (transport_error + unit) tact" where
  "HandleSignal peerID payload = go_bind (go_gets (\<lambda>t. mget (tr_connections t) peerID)) (\<lambda>conn.
     case conn of
       Some i \<Rightarrow> handleSignal i payload
     | None \<Rightarrow> go_bind lib_ok (\<lambda>ok.
         if \<not> ok then go_return (Inl PeerConnectionFailed)
         else go_bind (newConnection peerID False) (\<lambda>i.
           go_then (upd_conn i (\<lambda>c. c\<lparr>cx_onOpen := True\<rparr>))
           (go_then (go_modify (\<lambda>t. t\<lparr>tr_connections := mput peerID i (tr_connections t)\<rparr>))
             (handleSignal i payload)))))"

definition transport_Close :: "unit tact" where
  "transport_Close = go_bind (go_gets tr_connections) (\<lambda>conns.
     go_then (go_forM conns (\<lambda>(peerID, conn). go_then (conn_Close conn) (go_return ())))
     (go_then (go_modify (\<lambda>t. t\<lparr>tr_connections := []\<rparr>))
     (go_bind (go_gets tr_incoming) (\<lambda>ch. go_bind (go_lift (chan_close ch)) (\<lambda>ch'.
        go_modify (\<lambda>t. t\<lparr>tr_incoming := ch'\<rparr>))))))"

section \<open>The transport as a transition system\<close>

datatype transport_event =
    DoConnect string
  | DoHandleSignal string string
  | DoSend nat bytes
  | DoRecv nat
  | DoAccept
  | DoConnClose nat
  | DoClose
  | StateChanged nat PeerConnectionState
  | ChannelArrived nat
  | Opened nat
  | MessageArrived nat bytes
  | Closed nat

fun handle_transport :: "transport_event \<Rightarrow> unit tact" where
  "handle_transport (DoConnect p) = go_then (Connect p) (go_return ())"
| "handle_transport (DoHandleSignal p s) = go_then (HandleSignal p s) (go_return ())"
| "handle_transport (DoSend i d) = go_then (Send i d) (go_return ())"
| "handle_transport (DoRecv i) = go_then (Recv i) (go_return ())"
| "handle_transport DoAccept = go_then Accept (go_return ())"
| "handle_transport (DoConnClose i) = go_then (conn_Close i) (go_return ())"
| "handle_transport DoClose = transport_Close"
| "handle_transport (StateChanged i s) = conn_OnConnectionStateChange i s"
| "handle_transport (ChannelArrived i) = conn_OnDataChannel i"
| "handle_transport (Opened i) = conn_OnOpen i"
| "handle_transport (MessageArrived i d) = conn_OnMessage i d"
| "handle_transport (Closed i) = conn_OnClose i"

text \<open>
  When an event can happen: it concerns a connection that exists; only a responder's connection has
  the callback for an arriving data channel; the channel of the callbacks exists; a send on the accept channel completes when
  there is room, or panics when it is closed.
\<close>

fun can_happen :: "transport_event \<Rightarrow> transport \<Rightarrow> bool" where
  "can_happen (DoSend i d) t = (i < length (tr_heap t))"
| "can_happen (DoRecv i) t = (i < length (tr_heap t))"
| "can_happen (DoConnClose i) t = (i < length (tr_heap t))"
| "can_happen (StateChanged i s) t = (i < length (tr_heap t))"
| "can_happen (ChannelArrived i) t = (i < length (tr_heap t) \<and> \<not> cx_isInitiator (tr_heap t ! i))"
| "can_happen (Opened i) t = (i < length (tr_heap t) \<and>
     (cx_onOpen (tr_heap t ! i) \<longrightarrow> ch_closed (tr_incoming t) \<or> length (ch_items (tr_incoming t)) < incoming_cap))"
| "can_happen (MessageArrived i d) t = (i < length (tr_heap t) \<and> cx_dc (tr_heap t ! i) \<noteq> None)"
| "can_happen (Closed i) t = (i < length (tr_heap t) \<and> cx_dc (tr_heap t ! i) \<noteq> None)"
| "can_happen ev t = True"

inductive transport_step :: "transport \<Rightarrow> transport \<Rightarrow> bool" where
  event: "can_happen ev t \<Longrightarrow> handle_transport ev t = (Inr u, t') \<Longrightarrow> transport_step t t'"

fun run_transport :: "transport_event list \<Rightarrow> unit tact" where
  "run_transport [] = go_return ()"
| "run_transport (ev # evs) = go_then (handle_transport ev) (run_transport evs)"

end
