(* ===== verification/TransportInv.thy ===== *)
theory TransportInv
  imports Transport "HOL-Library.Sublist"
begin

text \<open>
  What holds of the transport in every state: its map and its accept channel name the right
  connections, a connection gets at most one remote description and never answers twice, and
  messages are received in order; and exactly when a callback panics.
\<close>

section \<open>The invariant\<close>

definition remotes :: "transport \<Rightarrow> nat \<Rightarrow> pc_call list" where
  "remotes t i = map snd (filter (\<lambda>(j, call). j = i \<and> is_remote call) (tr_calls t))"

definition conn_ok :: "transport \<Rightarrow> nat \<Rightarrow> bool" where
  "conn_ok t i \<longleftrightarrow>
     (let c = tr_heap t ! i in
        length (ch_items (cx_recvChan c)) \<le> recv_cap \<and> (cx_onOpen c \<longleftrightarrow> \<not> cx_isInitiator c) \<and>
        length (remotes t i) \<le> 1 \<and>
        (\<forall>call \<in> set (remotes t i). \<exists>sdp. call = PcSetRemote (if cx_isInitiator c then SDPTypeAnswer else SDPTypeOffer) sdp))"

definition transport_ok :: "transport \<Rightarrow> bool" where
  "transport_ok t \<longleftrightarrow> wf_map (tr_connections t) \<and>
     (\<forall>p i. mget (tr_connections t) p = Some i \<longrightarrow> i < length (tr_heap t) \<and> cx_peerID (tr_heap t ! i) = p) \<and>
     (\<forall>i < length (tr_heap t). conn_ok t i) \<and>
     (\<forall>(i, call) \<in> set (tr_calls t). i < length (tr_heap t)) \<and>
     length (ch_items (tr_incoming t)) \<le> incoming_cap \<and>
     (\<forall>i \<in> set (ch_items (tr_incoming t)). i < length (tr_heap t) \<and> \<not> cx_isInitiator (tr_heap t ! i))"

lemma has_remote_remotes: "has_remote t i \<longleftrightarrow> remotes t i \<noteq> []"
  by (auto simp: has_remote_def remotes_def list_ex_iff filter_empty_conv)

section \<open>What the calls do\<close>

text \<open>Only the schedule, the recorded calls and signals change.\<close>

definition logs_grow :: "transport \<Rightarrow> (nat \<times> pc_call) list \<Rightarrow> (string \<times> string) list \<Rightarrow> transport \<Rightarrow> bool" where
  "logs_grow t cs ss t' \<longleftrightarrow>
     tr_heap t' = tr_heap t \<and> tr_connections t' = tr_connections t \<and> tr_incoming t' = tr_incoming t \<and>
     tr_channels t' = tr_channels t \<and> tr_sent t' = tr_sent t \<and> tr_taken t' = tr_taken t \<and>
     tr_calls t' = tr_calls t @ cs \<and> tr_signals t' = tr_signals t @ ss"

lemma logs_grow_refl: "logs_grow t [] [] t"
  by (simp add: logs_grow_def)

lemma logs_grow_trans: "logs_grow t cs ss t' \<Longrightarrow> logs_grow t' cs' ss' t'' \<Longrightarrow> logs_grow t (cs @ cs') (ss @ ss') t''"
  by (auto simp: logs_grow_def)

lemma logs_grow_same:
  assumes "logs_grow t cs ss t'"
  shows "tr_heap t' = tr_heap t" "tr_connections t' = tr_connections t" "tr_incoming t' = tr_incoming t"
    "tr_channels t' = tr_channels t" "tr_calls t' = tr_calls t @ cs" "tr_signals t' = tr_signals t @ ss" "tr_taken t' = tr_taken t"
  using assms by (auto simp: logs_grow_def)

lemma lib_ok_result: "\<exists>b t'. lib_ok t = (Inr b, t') \<and> logs_grow t [] [] t'"
  by (cases "tr_fails t") (auto simp: lib_ok_def logs_grow_def)

lemma lib_sdp_result: "\<exists>r t'. lib_sdp t = (Inr r, t') \<and> logs_grow t [] [] t'"
proof -
  obtain b t1 where b: "lib_ok t = (Inr b, t1)" "logs_grow t [] [] t1" using lib_ok_result by blast
  show ?thesis
  proof (cases b)
    case False
    then show ?thesis using b by (simp add: lib_sdp_def go_bind_def go_return_def)
  next
    case True
    then show ?thesis using b by (cases "tr_sdps t1") (auto simp: lib_sdp_def go_bind_def logs_grow_def)
  qed
qed

lemma lib_call_result:
  "\<exists>b t'. lib_call i call t = (Inr b, t') \<and> logs_grow t (if b then [(i, call)] else []) [] t'"
proof -
  obtain b t1 where b: "lib_ok t = (Inr b, t1)" "logs_grow t [] [] t1" using lib_ok_result by blast
  then show ?thesis by (cases b) (auto simp: lib_call_def go_simps logs_grow_def)
qed

lemma send_signal_result:
  "\<exists>b t'. send_signal p s t = (Inr b, t') \<and> logs_grow t [] (if b then [(p, s)] else []) t'"
proof -
  obtain b t1 where b: "lib_ok t = (Inr b, t1)" "logs_grow t [] [] t1" using lib_ok_result by blast
  then show ?thesis by (cases b) (auto simp: send_signal_def go_simps logs_grow_def)
qed

text \<open>A signal is used at most once: the first is set as the remote description, and answered by a responder.\<close>

definition signal_effect ::
  "transport \<Rightarrow> nat \<Rightarrow> string \<Rightarrow> transport_error + unit \<Rightarrow> (nat \<times> pc_call) list \<Rightarrow> (string \<times> string) list \<Rightarrow> bool" where
  "signal_effect t i payload r cs ss \<longleftrightarrow>
     (let c = tr_heap t ! i in
      if has_remote t i then r = Inr () \<and> cs = [] \<and> ss = []
      else if r = Inl RemoteFailed then cs = [] \<and> ss = []
      else if cx_isInitiator c then r = Inr () \<and> cs = [(i, PcSetRemote SDPTypeAnswer payload)] \<and> ss = []
      else r = Inl AnswerFailed \<and> cs = [(i, PcSetRemote SDPTypeOffer payload)] \<and> ss = [] \<or>
        r = Inl LocalFailed \<and> cs = [(i, PcSetRemote SDPTypeOffer payload)] \<and> ss = [] \<or>
        (\<exists>answer. cs = [(i, PcSetRemote SDPTypeOffer payload), (i, PcSetLocal SDPTypeAnswer answer)] \<and>
           (r = Inl SendAnswerFailed \<and> ss = [] \<or> r = Inr () \<and> ss = [(cx_peerID c, answer)])))"

lemma handleSignal_result:
  "\<exists>r t' cs ss. handleSignal i payload t = (Inr r, t') \<and> logs_grow t cs ss t' \<and> signal_effect t i payload r cs ss"
proof (cases "has_remote t i")
  case True
  then show ?thesis
    by (intro exI [of _ "Inr ()"] exI [of _ t] exI [of _ "[]"])
       (simp add: handleSignal_def go_simps logs_grow_refl signal_effect_def)
next
  case new: False
  let ?c = "tr_heap t ! i"
  let ?ty = "if cx_isInitiator ?c then SDPTypeAnswer else SDPTypeOffer"
  obtain b t1 where 1: "lib_call i (PcSetRemote ?ty payload) t = (Inr b, t1)"
    "logs_grow t (if b then [(i, PcSetRemote ?ty payload)] else []) [] t1" using lib_call_result by blast
  have run: "handleSignal i payload t = (if \<not> b then go_return (Inl RemoteFailed)
       else if cx_isInitiator ?c then go_return (Inr ())
       else go_bind lib_sdp (\<lambda>r. case r of
           None \<Rightarrow> go_return (Inl AnswerFailed)
         | Some answer \<Rightarrow> go_bind (lib_call i (PcSetLocal SDPTypeAnswer answer)) (\<lambda>ok'.
             if \<not> ok' then go_return (Inl LocalFailed)
             else go_bind (send_signal (cx_peerID ?c) answer) (\<lambda>ok''.
               go_return (if ok'' then Inr () else Inl SendAnswerFailed))))) t1"
    using new 1(1) by (simp add: handleSignal_def get_conn_def go_bind_def [of "go_gets _"] go_gets_def go_bind_def [of "lib_call _ _"])
  show ?thesis
  proof (cases "b \<and> \<not> cx_isInitiator ?c")
    case False
    then show ?thesis using run 1(2) new by (auto simp: go_return_def signal_effect_def)
  next
    case True
    obtain r t2 where 2: "lib_sdp t1 = (Inr r, t2)" "logs_grow t1 [] [] t2" using lib_sdp_result by blast
    show ?thesis
    proof (cases r)
      case None
      then show ?thesis using run 2 True new logs_grow_trans [OF 1(2) 2(2)]
        by (auto simp: go_bind_def go_return_def signal_effect_def)
    next
      case (Some answer)
      obtain b3 t3 where 3: "lib_call i (PcSetLocal SDPTypeAnswer answer) t2 = (Inr b3, t3)"
        "logs_grow t2 (if b3 then [(i, PcSetLocal SDPTypeAnswer answer)] else []) [] t3" using lib_call_result by blast
      note g3 = logs_grow_trans [OF logs_grow_trans [OF 1(2) 2(2)] 3(2)]
      obtain b4 t4 where 4: "send_signal (cx_peerID ?c) answer t3 = (Inr b4, t4)"
        "logs_grow t3 [] (if b4 then [(cx_peerID ?c, answer)] else []) t4" using send_signal_result by blast
      note g4 = logs_grow_trans [OF g3 4(2)]
      show ?thesis
      proof (cases b3)
        case False
        then show ?thesis using run 2 3 Some True new g3 by (auto simp: go_bind_def go_return_def signal_effect_def)
      next
        case b3: True
        have "handleSignal i payload t = (Inr (if b4 then Inr () else Inl SendAnswerFailed), t4)"
          using run 2(1) 3(1) 4(1) Some True b3 by (simp add: go_bind_def go_return_def)
        moreover have "signal_effect t i payload (if b4 then Inr () else Inl SendAnswerFailed)
            [(i, PcSetRemote SDPTypeOffer payload), (i, PcSetLocal SDPTypeAnswer answer)]
            (if b4 then [(cx_peerID ?c, answer)] else [])"
          using new True by (simp add: signal_effect_def)
        ultimately show ?thesis using g4 True b3 by fastforce
      qed
    qed
  qed
qed

section \<open>When the process panics\<close>

fun panics :: "transport_event \<Rightarrow> transport \<Rightarrow> stop option" where
  "panics (StateChanged i s) t =
     (if (s = StateFailed \<or> s = StateClosed) \<and> ch_closed (cx_recvChan (tr_heap t ! i)) then Some CloseOfClosedChannel else None)"
| "panics (Closed i) t = (if ch_closed (cx_recvChan (tr_heap t ! i)) then Some CloseOfClosedChannel else None)"
| "panics (MessageArrived i d) t = (if ch_closed (cx_recvChan (tr_heap t ! i)) then Some SendOnClosedChannel else None)"
| "panics (Opened i) t =
     (if cx_onOpen (tr_heap t ! i) \<and> ch_closed (tr_incoming t) then Some SendOnClosedChannel else None)"
| "panics DoClose t = (if ch_closed (tr_incoming t) then Some CloseOfClosedChannel else None)"
| "panics ev t = None"

definition returns :: "'a tact \<Rightarrow> bool" where
  "returns m \<longleftrightarrow> (\<forall>t. \<exists>x t'. m t = (Inr x, t'))"

named_theorems returns_intros \<open>actions that always return\<close>

lemma returns_simple [returns_intros]:
  "returns (go_return x)" "returns (go_gets f)" "returns (go_modify g)" "returns (newConnection p b)"
  "returns new_channel" "returns (get_conn i)" "returns (upd_conn i h)"
  by (simp_all add: returns_def go_simps newConnection_def new_channel_def get_conn_def upd_conn_def)

lemma returns_lib [returns_intros]:
  "returns lib_ok" "returns lib_sdp" "returns (lib_call i c)" "returns (send_signal p s)" "returns (handleSignal i s)"
  using lib_ok_result lib_sdp_result lib_call_result send_signal_result handleSignal_result
  unfolding returns_def by blast+

lemma returns_bind [returns_intros]: "returns m \<Longrightarrow> (\<And>x. returns (f x)) \<Longrightarrow> returns (go_bind m f)"
proof -
  assume a: "returns m" "\<And>x. returns (f x)"
  have "\<exists>y t'. go_bind m f t = (Inr y, t')" for t
  proof -
    obtain x t1 where "m t = (Inr x, t1)" using a(1) unfolding returns_def by blast
    moreover obtain y t2 where "f x t1 = (Inr y, t2)" using a(2) unfolding returns_def by blast
    ultimately show ?thesis by (simp add: go_bind_def)
  qed
  then show ?thesis by (simp add: returns_def)
qed

lemma returns_then [returns_intros]: "returns m \<Longrightarrow> returns k \<Longrightarrow> returns (go_then m k)"
  by (simp add: go_then_def returns_intros)

lemma returns_cases [returns_intros]:
  "(b \<Longrightarrow> returns m) \<Longrightarrow> (\<not> b \<Longrightarrow> returns k) \<Longrightarrow> returns (if b then m else k)"
  "returns m \<Longrightarrow> (\<And>x. returns (g x)) \<Longrightarrow> returns (case r of None \<Rightarrow> m | Some x \<Rightarrow> g x)"
  "(\<And>e. returns (f e)) \<Longrightarrow> (\<And>y. returns (h y)) \<Longrightarrow> returns (case q of Inl e \<Rightarrow> f e | Inr y \<Rightarrow> h y)"
  "returns m \<Longrightarrow> (\<And>z zs. returns (l z zs)) \<Longrightarrow> returns (case s of [] \<Rightarrow> m | z # zs \<Rightarrow> l z zs)"
  "(\<And>a b. returns (j a b)) \<Longrightarrow> returns (case p of (a, b) \<Rightarrow> j a b)"
  by (auto split: option.split sum.split list.split prod.split)

lemma returns_forM [returns_intros]: "(\<And>x. returns (f x)) \<Longrightarrow> returns (go_forM xs f)"
  by (induction xs) (simp_all add: returns_intros)

lemma returns_ops [returns_intros]:
  "returns (Connect p)" "returns (HandleSignal p s)" "returns (Send i d)" "returns (Recv i)" "returns Accept"
  "returns (conn_Close i)" "returns (conn_OnDataChannel i)"
  unfolding Connect_def HandleSignal_def Send_def Recv_def Accept_def conn_Close_def createDataChannel_def
    conn_setupDataChannel_def conn_OnDataChannel_def
  by (intro returns_intros)+

lemma returns_fst: "returns m \<Longrightarrow> fst (m t) = Inr ()"
  unfolding returns_def by (metis (full_types) fst_conv old.unit.exhaust)

lemma close_recv_result:
  "fst (close_recv i t) = (if ch_closed (cx_recvChan (tr_heap t ! i)) then Inl CloseOfClosedChannel else Inr ())"
  by (simp add: close_recv_def get_conn_def upd_conn_def chan_close_def go_simps)

lemma conn_Close_result:
  "\<exists>b cs t'. conn_Close i t = (Inr b, t') \<and> logs_grow t cs [] t' \<and> (\<forall>(j, c) \<in> set cs. j = i \<and> \<not> is_remote c)"
proof (cases "cx_dc (tr_heap t ! i)")
  case None
  obtain b t1 where 1: "lib_call i PcClose t = (Inr b, t1)" "logs_grow t (if b then [(i, PcClose)] else []) [] t1"
    using lib_call_result by blast
  have "conn_Close i t = (Inr b, t1)" using None 1(1) by (simp add: conn_Close_def get_conn_def go_simps)
  then show ?thesis using 1(2)
    by (intro exI [of _ b] exI [of _ "if b then [(i, PcClose)] else []"] exI [of _ t1]) simp
next
  case (Some dc)
  obtain b t1 where 1: "lib_call i DcClose t = (Inr b, t1)" "logs_grow t (if b then [(i, DcClose)] else []) [] t1"
    using lib_call_result by blast
  obtain b2 t2 where 2: "lib_call i PcClose t1 = (Inr b2, t2)" "logs_grow t1 (if b2 then [(i, PcClose)] else []) [] t2"
    using lib_call_result by blast
  have "conn_Close i t = (Inr b2, t2)" using Some 1(1) 2(1) by (simp add: conn_Close_def get_conn_def go_simps)
  moreover let ?cs = "(if b then [(i, DcClose)] else []) @ (if b2 then [(i, PcClose)] else [])"
  have "\<forall>(j, c) \<in> set ((if b then [(i, DcClose)] else []) @ (if b2 then [(i, PcClose)] else [])). j = i \<and> \<not> is_remote c"
    by auto
  ultimately show ?thesis using logs_grow_trans [OF 1(2) 2(2)]
    by (intro exI [of _ b2] exI [of _ ?cs] exI [of _ t2]) simp
qed

lemma close_all_result:
  "\<exists>cs t'. go_forM conns (\<lambda>(peerID, conn). go_then (conn_Close conn) (go_return ())) t = (Inr (), t') \<and>
     logs_grow t cs [] t' \<and> (\<forall>(j, c) \<in> set cs. j \<in> snd ` set conns \<and> \<not> is_remote c)"
proof (induction conns arbitrary: t)
  case Nil
  show ?case by (intro exI [of _ "[]"] exI [of _ t]) (simp add: go_return_def logs_grow_refl)
next
  case (Cons pc conns)
  obtain p i where pc: "pc = (p, i)" by (cases pc)
  obtain b cs t1 where 1: "conn_Close i t = (Inr b, t1)" "logs_grow t cs [] t1" "\<forall>(j, c) \<in> set cs. j = i \<and> \<not> is_remote c"
    using conn_Close_result by blast
  obtain cs2 t2 where 2: "go_forM conns (\<lambda>(peerID, conn). go_then (conn_Close conn) (go_return ())) t1 = (Inr (), t2)"
    "logs_grow t1 cs2 [] t2" "\<forall>(j, c) \<in> set cs2. j \<in> snd ` set conns \<and> \<not> is_remote c" using Cons.IH by blast
  have "go_forM (pc # conns) (\<lambda>(peerID, conn). go_then (conn_Close conn) (go_return ())) t = (Inr (), t2)"
    using 1(1) 2(1) by (simp add: pc go_simps)
  moreover have "\<forall>(j, c) \<in> set (cs @ cs2). j \<in> snd ` set (pc # conns) \<and> \<not> is_remote c" using 1(3) 2(3) pc by force
  ultimately show ?case using logs_grow_trans [OF 1(2) 2(2)] by (intro exI [of _ "cs @ cs2"] exI [of _ t2]) simp
qed

lemma transport_Close_result:
  "\<exists>cs t1. logs_grow t cs [] t1 \<and> (\<forall>(j, c) \<in> set cs. j \<in> snd ` set (tr_connections t) \<and> \<not> is_remote c) \<and>
     transport_Close t =
       (if ch_closed (tr_incoming t) then (Inl CloseOfClosedChannel, t1\<lparr>tr_connections := []\<rparr>)
        else (Inr (), t1\<lparr>tr_connections := [], tr_incoming := (tr_incoming t)\<lparr>ch_closed := True\<rparr>\<rparr>))"
proof -
  obtain cs t1 where 1: "go_forM (tr_connections t) (\<lambda>(peerID, conn). go_then (conn_Close conn) (go_return ())) t = (Inr (), t1)"
    "logs_grow t cs [] t1" "\<forall>(j, c) \<in> set cs. j \<in> snd ` set (tr_connections t) \<and> \<not> is_remote c"
    using close_all_result by blast
  have "tr_incoming t1 = tr_incoming t" using 1(2) by (simp add: logs_grow_def)
  then have "transport_Close t =
       (if ch_closed (tr_incoming t) then (Inl CloseOfClosedChannel, t1\<lparr>tr_connections := []\<rparr>)
        else (Inr (), t1\<lparr>tr_connections := [], tr_incoming := (tr_incoming t)\<lparr>ch_closed := True\<rparr>\<rparr>))"
    using 1(1) by (simp add: transport_Close_def go_bind_def [of "go_gets _"] go_gets_def go_then_def [of "go_forM _ _"]
        go_bind_def [of "go_forM _ _"] go_then_def [of "go_modify _"] go_bind_def [of "go_modify _"] go_modify_def
        chan_close_def) (simp add: go_simps)
  then show ?thesis using 1(2,3) by blast
qed


lemma both_callbacks_panic:
  "i < length (tr_heap t) \<Longrightarrow> fst (run_transport [Closed i, StateChanged i StateClosed] t) = Inl CloseOfClosedChannel"
  by (cases "ch_closed (cx_recvChan (tr_heap t ! i))")
     (simp_all add: conn_OnClose_def conn_OnConnectionStateChange_def close_recv_def get_conn_def upd_conn_def chan_close_def go_simps)

section \<open>The invariant is kept\<close>

lemma remotes_grow:
  assumes "logs_grow t cs ss t'"
  shows "remotes t' j = remotes t j @ map snd (filter (\<lambda>(k, call). k = j \<and> is_remote call) cs)"
  using assms by (simp add: remotes_def logs_grow_def)

lemma ok_grow:
  assumes ok: "transport_ok t" and g: "logs_grow t cs ss t'" and i: "\<forall>(j, call) \<in> set cs. j < length (tr_heap t)"
    and r: "\<And>j. j < length (tr_heap t) \<Longrightarrow> filter (\<lambda>(k, call). k = j \<and> is_remote call) cs = [] \<or>
      remotes t j = [] \<and> (\<exists>sdp. filter (\<lambda>(k, call). k = j \<and> is_remote call) cs =
        [(j, PcSetRemote (if cx_isInitiator (tr_heap t ! j) then SDPTypeAnswer else SDPTypeOffer) sdp)])"
  shows "transport_ok t'"
proof -
  have "conn_ok t' j" if j: "j < length (tr_heap t)" for j
  proof -
    have h: "tr_heap t' = tr_heap t" using g by (simp add: logs_grow_def)
    have c: "conn_ok t j" using ok j by (simp add: transport_ok_def)
    show ?thesis using r [OF j]
    proof
      assume "filter (\<lambda>(k, call). k = j \<and> is_remote call) cs = []"
      then have "remotes t' j = remotes t j" using remotes_grow [OF g, of j] by simp
      then show ?thesis using c by (simp add: conn_ok_def h)
    next
      assume a: "remotes t j = [] \<and> (\<exists>sdp. filter (\<lambda>(k, call). k = j \<and> is_remote call) cs =
        [(j, PcSetRemote (if cx_isInitiator (tr_heap t ! j) then SDPTypeAnswer else SDPTypeOffer) sdp)])"
      then obtain sdp where "remotes t' j = [PcSetRemote (if cx_isInitiator (tr_heap t ! j) then SDPTypeAnswer else SDPTypeOffer) sdp]"
        using remotes_grow [OF g, of j] by auto
      then show ?thesis using c by (simp add: conn_ok_def h Let_def)
    qed
  qed
  then show ?thesis using ok g i by (auto simp: transport_ok_def logs_grow_def)
qed

lemma ok_quiet:
  assumes "transport_ok t" "logs_grow t cs ss t'" "\<forall>(j, call) \<in> set cs. j < length (tr_heap t) \<and> \<not> is_remote call"
  shows "transport_ok t'"
  by (rule ok_grow [OF assms(1,2)]) (use assms(3) in \<open>auto simp: filter_empty_conv\<close>)

lemma ok_signal:
  assumes ok: "transport_ok t" and i: "i < length (tr_heap t)"
  shows "transport_ok (snd (handleSignal i payload t))"
proof -
  obtain r t' cs ss where h: "handleSignal i payload t = (Inr r, t')" "logs_grow t cs ss t'" "signal_effect t i payload r cs ss"
    using handleSignal_result by blast
  have "transport_ok t'"
    by (rule ok_grow [OF ok h(2)])
       (use h(3) i in \<open>auto simp: signal_effect_def Let_def has_remote_remotes split: if_splits\<close>)
  then show ?thesis using h(1) by simp
qed

text \<open>Updates of one connection that leave its role and its callback alone.\<close>

lemma ok_conn:
  assumes "transport_ok t" "i < length (tr_heap t)"
    and "cx_peerID (f (tr_heap t ! i)) = cx_peerID (tr_heap t ! i)"
    and "cx_isInitiator (f (tr_heap t ! i)) = cx_isInitiator (tr_heap t ! i)" "cx_onOpen (f (tr_heap t ! i)) = cx_onOpen (tr_heap t ! i)"
    and "length (ch_items (cx_recvChan (f (tr_heap t ! i)))) \<le> recv_cap"
  shows "transport_ok (snd (upd_conn i f t))"
  using assms by (auto simp: transport_ok_def upd_conn_def go_modify_def nth_list_update conn_ok_def Let_def remotes_def)

lemma recv_bound: "transport_ok t \<Longrightarrow> i < length (tr_heap t) \<Longrightarrow> length (ch_items (cx_recvChan (tr_heap t ! i))) \<le> recv_cap"
  by (simp add: transport_ok_def conn_ok_def Let_def)

lemma ok_close_recv: "transport_ok t \<Longrightarrow> i < length (tr_heap t) \<Longrightarrow> transport_ok (snd (close_recv i t))"
  using ok_conn [of t i "\<lambda>c. c\<lparr>cx_recvChan := (cx_recvChan (tr_heap t ! i))\<lparr>ch_closed := True\<rparr>\<rparr>"] recv_bound [of t i]
  by (simp add: close_recv_def get_conn_def go_simps chan_close_def upd_conn_def)

lemma ok_channel: "transport_ok t \<Longrightarrow> i < length (tr_heap t) \<Longrightarrow> transport_ok (snd (conn_OnDataChannel i t))"
  using ok_conn [of "t\<lparr>tr_channels := Suc (tr_channels t)\<rparr>" i "\<lambda>c. c\<lparr>cx_dc := Some (tr_channels t)\<rparr>"] recv_bound [of t i]
  by (simp add: conn_OnDataChannel_def conn_setupDataChannel_def new_channel_def go_simps upd_conn_def transport_ok_def conn_ok_def remotes_def)

lemma ok_message: "transport_ok t \<Longrightarrow> i < length (tr_heap t) \<Longrightarrow> transport_ok (snd (conn_OnMessage i d t))"
  using ok_conn [of t i "\<lambda>c. c\<lparr>cx_recvChan := (cx_recvChan (tr_heap t ! i))\<lparr>ch_items := ch_items (cx_recvChan (tr_heap t ! i)) @ [d]\<rparr>\<rparr>"]
    ok_conn [of t i "\<lambda>c. c\<lparr>cx_recvChan := cx_recvChan (tr_heap t ! i)\<rparr>"] recv_bound [of t i]
  by (simp add: conn_OnMessage_def get_conn_def go_simps chan_try_send_def upd_conn_def)

lemma ok_open:
  "transport_ok t \<Longrightarrow> can_happen (Opened i) t \<Longrightarrow> transport_ok (snd (conn_OnOpen i t))"
  by (auto simp: conn_OnOpen_def get_conn_def go_simps chan_send_def transport_ok_def conn_ok_def remotes_def Let_def)

lemma ok_accept: "transport_ok t \<Longrightarrow> transport_ok (snd (Accept t))"
  by (cases "ch_items (tr_incoming t)") (auto simp: Accept_def go_simps transport_ok_def conn_ok_def remotes_def)

lemma ok_recv:
  assumes ok: "transport_ok t" and i: "i < length (tr_heap t)"
  shows "transport_ok (snd (Recv i t))"
proof (cases "ch_items (cx_recvChan (tr_heap t ! i))")
  case Nil
  then show ?thesis using ok by (simp add: Recv_def get_conn_def go_simps)
next
  case (Cons d ds)
  have "transport_ok (snd (upd_conn i (\<lambda>c. c\<lparr>cx_recvChan := (cx_recvChan c)\<lparr>ch_items := ds\<rparr>\<rparr>) t))"
    using ok_conn [OF ok i] recv_bound [OF ok i] Cons by simp
  then show ?thesis using Cons by (simp add: Recv_def get_conn_def go_simps upd_conn_def transport_ok_def conn_ok_def remotes_def)
qed

lemma ok_close_conn: "transport_ok t \<Longrightarrow> i < length (tr_heap t) \<Longrightarrow> transport_ok (snd (conn_Close i t))"
  using conn_Close_result [of i t] ok_quiet [of t] by fastforce

lemma ok_send:
  assumes ok: "transport_ok t"
  shows "transport_ok (snd (Send i d t))"
proof (cases "cx_dc (tr_heap t ! i)")
  case None
  then show ?thesis using ok by (simp add: Send_def get_conn_def go_simps)
next
  case (Some dc)
  obtain b t1 where b: "lib_ok t = (Inr b, t1)" "logs_grow t [] [] t1" using lib_ok_result by blast
  have "transport_ok t1" by (rule ok_quiet [OF ok b(2)]) simp
  moreover have "transport_ok (t1\<lparr>tr_sent := s\<rparr>)" if "transport_ok t1" for s
    using that by (simp add: transport_ok_def conn_ok_def remotes_def)
  ultimately show ?thesis using Some b(1) by (cases b) (simp_all add: Send_def get_conn_def go_simps)
qed

lemma ok_close:
  assumes "transport_ok t"
  shows "transport_ok (snd (transport_Close t))"
proof -
  obtain cs t1 where 1: "logs_grow t cs [] t1" "\<forall>(j, c) \<in> set cs. j \<in> snd ` set (tr_connections t) \<and> \<not> is_remote c"
    "transport_Close t = (if ch_closed (tr_incoming t) then (Inl CloseOfClosedChannel, t1\<lparr>tr_connections := []\<rparr>)
        else (Inr (), t1\<lparr>tr_connections := [], tr_incoming := (tr_incoming t)\<lparr>ch_closed := True\<rparr>\<rparr>))"
    using transport_Close_result by blast
  have "j < length (tr_heap t)" if "j \<in> snd ` set (tr_connections t)" for j
    using that assms mget_mem [of "tr_connections t"] by (auto simp: transport_ok_def)
  then have "\<forall>(j, c) \<in> set cs. j < length (tr_heap t) \<and> \<not> is_remote c" using 1(2) by fastforce
  then have "transport_ok t1" by (rule ok_quiet [OF assms 1(1)])
  then show ?thesis using 1(3) logs_grow_same(3) [OF 1(1)]
    by (auto simp: transport_ok_def conn_ok_def remotes_def wf_map_def)
qed

text \<open>A new connection, entered in the map.\<close>

definition with_new :: "string \<Rightarrow> bool \<Rightarrow> transport \<Rightarrow> transport" where
  "with_new p initiator t = t\<lparr>tr_heap := tr_heap t @
     [\<lparr>cx_peerID = p, cx_dc = None, cx_recvChan = make_chan, cx_isInitiator = initiator, cx_onOpen = \<not> initiator\<rparr>],
     tr_connections := mput p (length (tr_heap t)) (tr_connections t)\<rparr>"

lemma ok_new:
  assumes "transport_ok t"
  shows "transport_ok (with_new p b t)"
proof -
  have "remotes t (length (tr_heap t)) = []"
    using assms by (fastforce simp: transport_ok_def remotes_def filter_empty_conv)
  then show ?thesis
    using assms
    by (auto simp: transport_ok_def with_new_def conn_ok_def remotes_def nth_append Let_def make_chan_def less_Suc_eq)
qed

lemma ok_handle_signal:
  assumes ok: "transport_ok t"
  shows "transport_ok (snd (HandleSignal p s t))"
proof (cases "mget (tr_connections t) p")
  case (Some i)
  then show ?thesis using ok_signal [OF ok, of i s] ok by (simp add: HandleSignal_def go_bind_def go_gets_def transport_ok_def)
next
  case None
  obtain b t1 where b: "lib_ok t = (Inr b, t1)" "logs_grow t [] [] t1" using lib_ok_result by blast
  have ok1: "transport_ok t1" by (rule ok_quiet [OF ok b(2)]) simp
  have "b \<Longrightarrow> HandleSignal p s t = handleSignal (length (tr_heap t1)) s (with_new p False t1)"
    using None b(1) by (simp add: HandleSignal_def go_simps newConnection_def upd_conn_def with_new_def)
  moreover have "length (tr_heap t1) < length (tr_heap (with_new p False t1))" by (simp add: with_new_def)
  ultimately show ?thesis
    using None b(1) ok1 ok_signal [OF ok_new [OF ok1, of p False]] by (cases b) (auto simp: HandleSignal_def go_simps)
qed

text \<open>The rest of Connect works on the new connection.\<close>

definition ok_at :: "nat \<Rightarrow> transport \<Rightarrow> bool" where
  "ok_at i t \<longleftrightarrow> transport_ok t \<and> i < length (tr_heap t)"

lemma runs_quiet:
  assumes "\<And>t. \<exists>x t' cs ss. m t = (Inr x, t') \<and> logs_grow t cs ss t' \<and> (\<forall>(j, call) \<in> set cs. j = i \<and> \<not> is_remote call)"
  shows "runs (ok_at i) {} m"
proof (rule runsI)
  fix t assume t: "ok_at i t"
  obtain x t' cs ss where m: "m t = (Inr x, t')" "logs_grow t cs ss t'" "\<forall>(j, call) \<in> set cs. j = i \<and> \<not> is_remote call"
    using assms [of t] by blast
  have "transport_ok t'"
    by (rule ok_quiet [OF _ m(2)]) (use t m(3) in \<open>auto simp: ok_at_def\<close>)
  then show "ok_at i (snd (m t)) \<and> (\<forall>e. fst (m t) = Inl e \<longrightarrow> e \<in> {})"
    using m t by (simp add: ok_at_def logs_grow_def)
qed

lemma runs_connect_steps [runs_intros]:
  "runs (ok_at i) {} lib_ok" "runs (ok_at i) {} lib_sdp" "runs (ok_at i) {} (send_signal p s)"
  "runs (ok_at i) {} (lib_call i (PcSetLocal ty s))" "runs (ok_at i) {} new_channel"
  "runs (ok_at i) {} (conn_setupDataChannel i dc)"
proof -
  show "runs (ok_at i) {} lib_ok" using lib_ok_result by (intro runs_quiet) fastforce
  show "runs (ok_at i) {} lib_sdp" using lib_sdp_result by (intro runs_quiet) fastforce
  show "runs (ok_at i) {} (send_signal p s)" using send_signal_result by (intro runs_quiet) fastforce
  show "runs (ok_at i) {} (lib_call i (PcSetLocal ty s))"
  proof (rule runs_quiet)
    fix t
    obtain b t' where "lib_call i (PcSetLocal ty s) t = (Inr b, t')"
      "logs_grow t (if b then [(i, PcSetLocal ty s)] else []) [] t'" using lib_call_result by blast
    moreover have "\<forall>(j, call) \<in> set (if b then [(i, PcSetLocal ty s)] else []). j = i \<and> \<not> is_remote call" by simp
    ultimately show "\<exists>x t' cs ss. lib_call i (PcSetLocal ty s) t = (Inr x, t') \<and> logs_grow t cs ss t' \<and>
        (\<forall>(j, call) \<in> set cs. j = i \<and> \<not> is_remote call)" by blast
  qed
  show "runs (ok_at i) {} new_channel"
    by (rule runsI) (simp add: new_channel_def ok_at_def transport_ok_def conn_ok_def remotes_def)
  show "runs (ok_at i) {} (conn_setupDataChannel i dc)"
  proof (rule runsI)
    fix t assume "ok_at i t"
    then have t: "transport_ok t" "i < length (tr_heap t)" by (simp_all add: ok_at_def)
    have "transport_ok (snd (upd_conn i (\<lambda>c. c\<lparr>cx_dc := Some dc\<rparr>) t))"
      by (rule ok_conn [OF t]) (use recv_bound [OF t] in simp_all)
    then show "ok_at i (snd (conn_setupDataChannel i dc t)) \<and> (\<forall>e. fst (conn_setupDataChannel i dc t) = Inl e \<longrightarrow> e \<in> {})"
      using t by (simp add: conn_setupDataChannel_def upd_conn_def go_modify_def ok_at_def)
  qed
qed

lemma with_new_initiator:
  assumes "transport_ok t"
  shows "ok_at (length (tr_heap t)) (with_new p True t)"
  using ok_new [OF assms, of p True] by (simp add: ok_at_def with_new_def)

lemma ok_connect:
  assumes ok: "transport_ok t"
  shows "transport_ok (snd (Connect p t))"
proof -
  obtain b t1 where b: "lib_ok t = (Inr b, t1)" "logs_grow t [] [] t1" using lib_ok_result by blast
  have ok1: "transport_ok t1" by (rule ok_quiet [OF ok b(2)]) simp
  let ?n = "length (tr_heap t1)"
  let ?rest = "go_bind (createDataChannel ?n) (\<lambda>r. case r of
          Inl e \<Rightarrow> go_return (Inl e)
        | Inr u \<Rightarrow> go_bind lib_sdp (\<lambda>r'. case r' of
            None \<Rightarrow> go_return (Inl OfferFailed)
          | Some offer \<Rightarrow> go_bind (lib_call ?n (PcSetLocal SDPTypeOffer offer)) (\<lambda>ok'.
              if \<not> ok' then go_return (Inl LocalFailed)
              else go_bind (send_signal p offer) (\<lambda>ok''.
                go_return (if ok'' then Inr ?n else Inl SendOfferFailed)))))"
  have "runs (ok_at ?n) {} ?rest" unfolding createDataChannel_def by (intro runs_intros)+
  then have "transport_ok (snd (?rest (with_new p True t1)))"
    using runsD(1) with_new_initiator [OF ok1] by (fastforce simp: ok_at_def)
  moreover have "b \<Longrightarrow> Connect p t = ?rest (with_new p True t1)"
    using b(1) by (simp add: Connect_def go_bind_def [of lib_ok] go_bind_def [of "newConnection _ _"] newConnection_def
        go_then_def [of "go_modify _"] go_bind_def [of "go_modify _"] go_modify_def with_new_def)
  ultimately show ?thesis using ok1 b(1) by (cases b) (auto simp: Connect_def go_bind_def [of lib_ok] go_return_def)
qed

lemma transport_ok_step:
  assumes "transport_ok t" "can_happen ev t"
  shows "transport_ok (snd (handle_transport ev t))"
proof -
  have snd_then: "snd (go_then m (go_return ()) t) = snd (m t)" for m :: "'a tact"
    by (cases "m t"; cases "fst (m t)") (simp_all add: go_simps)
  show ?thesis
    using assms ok_open [of t]
    by (cases ev) (simp_all add: snd_then ok_connect ok_handle_signal ok_send ok_recv ok_accept ok_close_conn ok_close
        ok_close_recv ok_channel ok_message conn_OnConnectionStateChange_def conn_OnClose_def go_return_def)
qed

lemma transport_ok_new: "transport_ok new_transport"
  by (simp add: transport_ok_def new_transport_def make_chan_def)

interpretation transport_system: invariant_system "\<lambda>t. \<exists>f d. t = new_transport\<lparr>tr_fails := f, tr_sdps := d\<rparr>" transport_step transport_ok
proof unfold_locales
  fix t assume "\<exists>f d. t = new_transport\<lparr>tr_fails := f, tr_sdps := d\<rparr>"
  then show "transport_ok t" by (auto simp: transport_ok_def new_transport_def make_chan_def)
next
  fix s t assume "transport_ok s" "transport_step s t"
  then show "transport_ok t" using transport_ok_step by (fastforce elim: transport_step.cases)
qed

text \<open>C30: in every state the transport can reach: its map names connections to the right peers; the
  connections waiting to be accepted were opened by the other side and are at most 16; every
  receive channel holds at most 256 messages; and a connection has been given at most one remote
  description, an answer if this side made the offer, else an offer.\<close>

theorem transport_invariant:
  assumes "transport_step\<^sup>*\<^sup>* (new_transport\<lparr>tr_fails := f, tr_sdps := d\<rparr>) t"
  shows "(\<forall>p i. mget (tr_connections t) p = Some i \<longrightarrow> i < length (tr_heap t) \<and> cx_peerID (tr_heap t ! i) = p) \<and>
    length (ch_items (tr_incoming t)) \<le> incoming_cap \<and>
    (\<forall>i \<in> set (ch_items (tr_incoming t)). i < length (tr_heap t) \<and> \<not> cx_isInitiator (tr_heap t ! i)) \<and>
    (\<forall>i < length (tr_heap t). length (ch_items (cx_recvChan (tr_heap t ! i))) \<le> recv_cap \<and> length (remotes t i) \<le> 1 \<and>
       (\<forall>call \<in> set (remotes t i). \<exists>sdp. call = PcSetRemote (if cx_isInitiator (tr_heap t ! i) then SDPTypeAnswer else SDPTypeOffer) sdp))"
proof -
  have "transport_ok t" by (rule transport_system.reachable_inv [OF _ assms]) blast
  then show ?thesis by (simp add: transport_ok_def conn_ok_def Let_def)
qed

section \<open>Messages\<close>

definition received :: "nat \<Rightarrow> transport \<Rightarrow> bytes list" where
  "received i t = map snd (filter (\<lambda>(j, d). j = i) (tr_taken t)) @ ch_items (cx_recvChan (tr_heap t ! i))"

fun arrivals :: "nat \<Rightarrow> transport_event list \<Rightarrow> bytes list" where
  "arrivals i [] = []"
| "arrivals i (MessageArrived j d # evs) = (if j = i then d # arrivals i evs else arrivals i evs)"
| "arrivals i (ev # evs) = arrivals i evs"

definition holds :: "nat \<Rightarrow> bytes list \<Rightarrow> bytes list \<Rightarrow> transport \<Rightarrow> bool" where
  "holds i taken q t \<longleftrightarrow> i < length (tr_heap t) \<and> map snd (filter (\<lambda>(j, d). j = i) (tr_taken t)) = taken \<and> ch_items (cx_recvChan (tr_heap t ! i)) = q"

lemma holds_logs: "logs_grow t cs ss t' \<Longrightarrow> holds i tk q t \<Longrightarrow> holds i tk q t'"
  by (simp add: holds_def logs_grow_def)

lemma runs_holds_logs:
  assumes "\<And>t. \<exists>x t' cs ss. m t = (Inr x, t') \<and> logs_grow t cs ss t'"
  shows "runs (holds i tk q) E m"
proof (rule runsI)
  fix t assume t: "holds i tk q t"
  obtain x t' cs ss where "m t = (Inr x, t')" "logs_grow t cs ss t'" using assms [of t] by blast
  then show "holds i tk q (snd (m t)) \<and> (\<forall>e. fst (m t) = Inl e \<longrightarrow> e \<in> E)" using holds_logs t by simp
qed

lemma runs_holds_upd:
  assumes "\<And>c. ch_items (cx_recvChan (f c)) = ch_items (cx_recvChan c)"
  shows "runs (holds i tk q) E (upd_conn j f)"
  by (rule runsI, cases "i = j") (simp_all add: assms upd_conn_def go_modify_def holds_def)

lemma runs_holds [runs_intros]:
  "runs (holds i tk q) E lib_ok" "runs (holds i tk q) E lib_sdp" "runs (holds i tk q) E (lib_call j c)"
  "runs (holds i tk q) E (send_signal p s)" "runs (holds i tk q) E (handleSignal j s)" "runs (holds i tk q) E (conn_Close j)"
proof -
  show "runs (holds i tk q) E lib_ok" using lib_ok_result by (intro runs_holds_logs) blast
  show "runs (holds i tk q) E lib_sdp" using lib_sdp_result by (intro runs_holds_logs) blast
  show "runs (holds i tk q) E (lib_call j c)" using lib_call_result by (intro runs_holds_logs) blast
  show "runs (holds i tk q) E (send_signal p s)" using send_signal_result by (intro runs_holds_logs) blast
  show "runs (holds i tk q) E (handleSignal j s)" using handleSignal_result by (intro runs_holds_logs) blast
  show "runs (holds i tk q) E (conn_Close j)" using conn_Close_result by (intro runs_holds_logs) blast
qed

lemma runs_holds_simple [runs_intros]:
  "runs (holds i tk q) E (newConnection p b)" "runs (holds i tk q) E new_channel" "runs (holds i tk q) E (get_conn j)"
  "runs (holds i tk q) E (go_modify (\<lambda>t. t\<lparr>tr_connections := cn t\<rparr>))" "runs (holds i tk q) E (go_modify (\<lambda>t. t\<lparr>tr_incoming := inc t\<rparr>))"
  "runs (holds i tk q) E (go_modify (\<lambda>t. t\<lparr>tr_sent := sn t\<rparr>))"
  by (simp_all add: runs_def newConnection_def new_channel_def go_simps holds_def nth_append get_conn_def)

lemma runs_holds_upds [runs_intros]:
  "runs (holds i tk q) E (conn_setupDataChannel j dc)" "runs (holds i tk q) E (upd_conn j (\<lambda>c. c\<lparr>cx_onOpen := b\<rparr>))"
  unfolding conn_setupDataChannel_def by (rule runs_holds_upd, simp)+

lemma runs_holds_close [runs_intros]: "runs (holds i tk q) UNIV (close_recv j)"
  by (rule runsI, cases "i = j")
     (simp_all add: close_recv_def get_conn_def upd_conn_def go_simps chan_close_def holds_def)

text \<open>Every event but an arriving message and a read leaves what a connection received alone.\<close>

lemma runs_holds_event:
  assumes "\<And>d. ev \<noteq> MessageArrived i d" "ev \<noteq> DoRecv i"
  shows "runs (holds i tk q) UNIV (handle_transport ev)"
proof (cases ev)
  case (DoRecv j)
  then have "i \<noteq> j" using assms by auto
  then show ?thesis unfolding DoRecv
    by (auto simp: runs_def Recv_def get_conn_def upd_conn_def go_simps holds_def split: list.split)
next
  case (MessageArrived j d)
  then have "i \<noteq> j" using assms by auto
  then show ?thesis unfolding MessageArrived
    by (auto simp: runs_def conn_OnMessage_def get_conn_def upd_conn_def go_simps holds_def chan_try_send_def)
qed (auto simp: Connect_def HandleSignal_def Send_def Accept_def createDataChannel_def conn_OnDataChannel_def conn_OnOpen_def
      conn_OnClose_def conn_OnConnectionStateChange_def transport_Close_def intro!: runs_intros runs_lift split: prod.split)

lemma event_received:
  assumes run: "handle_transport ev t = (Inr (), t')" and i: "i < length (tr_heap t)"
  defines "q \<equiv> ch_items (cx_recvChan (tr_heap t ! i))" and "q' \<equiv> ch_items (cx_recvChan (tr_heap t' ! i))"
  shows "i < length (tr_heap t') \<and>
    (\<exists>got. subseq got (arrivals i [ev]) \<and> received i t' = received i t @ got \<and> length q' \<le> length q + length (arrivals i [ev]) \<and>
       (length q < recv_cap \<longrightarrow> got = arrivals i [ev]))"
proof -
  consider (msg) d where "ev = MessageArrived i d" | (recv) "ev = DoRecv i" | (other) "\<And>d. ev \<noteq> MessageArrived i d" "ev \<noteq> DoRecv i"
    by blast
  then show ?thesis
  proof cases
    case msg
    have m: "conn_OnMessage i d t = (Inr (), t')" using run msg by simp
    have up: "\<not> ch_closed (cx_recvChan (tr_heap t ! i))"
      using m by (auto simp: conn_OnMessage_def get_conn_def chan_try_send_def go_simps split: if_splits)
    have t': "t' = (if length q < recv_cap
        then t\<lparr>tr_heap := (tr_heap t)[i := (tr_heap t ! i)\<lparr>cx_recvChan := (cx_recvChan (tr_heap t ! i))\<lparr>ch_items := q @ [d]\<rparr>\<rparr>]\<rparr> else t)"
      using m up unfolding q_def
      by (auto simp: conn_OnMessage_def get_conn_def upd_conn_def chan_try_send_def go_simps split: if_splits)
    show ?thesis
    proof (cases "length q < recv_cap")
      case True
      then show ?thesis using t' i msg by (intro conjI exI [of _ "[d]"]) (simp_all add: received_def q_def q'_def)
    next
      case False
      then show ?thesis using t' i by (intro conjI exI [of _ "[]"]) (simp_all add: q_def q'_def)
    qed
  next
    case recv
    have "go_then (Recv i) (go_return ()) t = (Inr (), t')" using run recv by simp
    then show ?thesis using i recv unfolding q_def q'_def
      by (cases "ch_items (cx_recvChan (tr_heap t ! i))")
         (auto simp: Recv_def get_conn_def upd_conn_def go_simps received_def)
  next
    case other
    have "holds i (map snd (filter (\<lambda>(j, d). j = i) (tr_taken t))) q t" using i by (simp add: holds_def q_def)
    then have "holds i (map snd (filter (\<lambda>(j, d). j = i) (tr_taken t))) q t'"
      using runsD(1) [OF runs_holds_event [OF other]] run by fastforce
    moreover have "arrivals i [ev] = []" using other(1) by (cases ev) auto
    ultimately show ?thesis by (simp add: holds_def received_def q_def q'_def)
  qed
qed

lemma arrivals_Cons: "arrivals i (ev # evs) = arrivals i [ev] @ arrivals i evs"
  by (cases ev) simp_all

text \<open>C31: what the reader of a connection has taken and what still waits for it are, in order, what they
  were before followed by messages that arrived since, none invented, none twice, none out of order;
  and none is dropped as long as at most 256 messages, unread or arriving, are outstanding.\<close>

theorem messages_in_order:
  assumes "run_transport evs t = (Inr (), t')" "i < length (tr_heap t)"
  shows "\<exists>got. subseq got (arrivals i evs) \<and> received i t' = received i t @ got \<and>
    (length (ch_items (cx_recvChan (tr_heap t ! i))) + length (arrivals i evs) \<le> recv_cap \<longrightarrow> got = arrivals i evs)"
  using assms
proof (induction evs arbitrary: t)
  case Nil
  then show ?case by (simp add: go_return_def)
next
  case (Cons ev evs)
  obtain t1 where 1: "handle_transport ev t = (Inr (), t1)" "run_transport evs t1 = (Inr (), t')"
    using Cons.prems(1) by (auto simp: go_simps split: prod.splits sum.splits)
  from event_received [OF 1(1) Cons.prems(2)] obtain g where g: "i < length (tr_heap t1)" "subseq g (arrivals i [ev])"
    "received i t1 = received i t @ g"
    "length (ch_items (cx_recvChan (tr_heap t1 ! i))) \<le> length (ch_items (cx_recvChan (tr_heap t ! i))) + length (arrivals i [ev])"
    "length (ch_items (cx_recvChan (tr_heap t ! i))) < recv_cap \<longrightarrow> g = arrivals i [ev]" by blast
  from Cons.IH [OF 1(2) g(1)] obtain h where h: "subseq h (arrivals i evs)" "received i t' = received i t1 @ h"
    "length (ch_items (cx_recvChan (tr_heap t1 ! i))) + length (arrivals i evs) \<le> recv_cap \<longrightarrow> h = arrivals i evs" by blast
  have "g = arrivals i [ev]" if "length (ch_items (cx_recvChan (tr_heap t ! i))) + length (arrivals i (ev # evs)) \<le> recv_cap"
  proof (cases "arrivals i [ev]")
    case Nil
    then show ?thesis using g(2) by simp
  next
    case (Cons d ds)
    then show ?thesis using g(5) that arrivals_Cons [of i ev evs] by simp
  qed
  then show ?case
    using g h arrivals_Cons [of i ev evs] list_emb_append_mono [OF g(2) h(1)]
    by (intro exI [of _ "g @ h"]) simp
qed

text \<open>An offer arrives, the data channel opens, two messages arrive and one is read.\<close>

definition sample_offer :: transport where
  "sample_offer = snd (run_transport [DoHandleSignal ''8'' ''offer'', ChannelArrived 0] new_transport)"

theorem messages_in_order_witness:
  "\<exists>t'. run_transport [MessageArrived 0 ''a'', DoRecv 0, MessageArrived 0 ''b''] sample_offer = (Inr (), t') \<and>
     received 0 t' = [''a'', ''b'']"
proof -
  let ?evs = "[MessageArrived 0 ''a'', DoRecv 0, MessageArrived 0 ''b'']"
  have "fst (run_transport ?evs sample_offer) = Inr ()" by code_simp
  then obtain t' where run: "run_transport ?evs sample_offer = (Inr (), t')"
    by (cases "run_transport ?evs sample_offer") simp
  have "0 < length (tr_heap sample_offer)" "received 0 sample_offer = []" "ch_items (cx_recvChan (tr_heap sample_offer ! 0)) = []"
    by code_simp+
  with messages_in_order [OF run, of 0] run show ?thesis by (simp add: recv_cap_def)
qed

theorem transport_invariant_witness:
  "mget (tr_connections (snd (handle_transport (DoHandleSignal ''8'' ''offer'') new_transport))) ''8'' = Some 0 \<and>
   length (remotes (snd (handle_transport (DoHandleSignal ''8'' ''offer'') new_transport)) 0) \<le> 1"
proof -
  let ?t = "snd (handle_transport (DoHandleSignal ''8'' ''offer'') new_transport)"
  have "fst (handle_transport (DoHandleSignal ''8'' ''offer'') new_transport) = Inr ()" by code_simp
  then have "handle_transport (DoHandleSignal ''8'' ''offer'') new_transport = (Inr (), ?t)" by (simp add: prod_eq_iff)
  moreover have "can_happen (DoHandleSignal ''8'' ''offer'') new_transport" by simp
  ultimately have "transport_step new_transport ?t" by (rule transport_step.event [rotated])
  moreover have "new_transport = new_transport\<lparr>tr_fails := [], tr_sdps := []\<rparr>" by (simp add: new_transport_def)
  ultimately have "transport_step\<^sup>*\<^sup>* (new_transport\<lparr>tr_fails := [], tr_sdps := []\<rparr>) ?t" by simp
  note inv = transport_invariant [OF this]
  moreover have "mget (tr_connections ?t) ''8'' = Some 0" "0 < length (tr_heap ?t)" by code_simp+
  ultimately show ?thesis by blast
qed

text \<open>
  A responder that fails after the remote description was set never answers: the repeated offer is
  taken for one already handled.
\<close>

theorem lost_answer_is_never_sent:
  assumes "handleSignal i s t = (Inr (Inl e), t')" "e \<noteq> RemoteFailed"
  shows "\<not> (\<exists>answer. tr_signals t' = tr_signals t @ [answer]) \<and> handleSignal i s' t' = (Inr (Inr ()), t')"
proof -
  obtain r t1 cs ss where h: "handleSignal i s t = (Inr r, t1)" "logs_grow t cs ss t1" "signal_effect t i s r cs ss"
    using handleSignal_result by blast
  then have eq: "r = Inl e" "t1 = t'" using assms(1) by simp_all
  have "ss = []" "(i, PcSetRemote SDPTypeOffer s) \<in> set cs"
    using h(3) eq assms(2) by (auto simp: signal_effect_def Let_def split: if_splits)
  then have "has_remote t' i" "tr_signals t' = tr_signals t"
    using h(2) eq by (auto simp: logs_grow_def has_remote_def list_ex_iff intro!: bexI [of _ "(i, PcSetRemote SDPTypeOffer s)"])
  then show ?thesis by (simp add: handleSignal_def go_simps)
qed

end
