(* ===== verification/HandlerFacts.thy ===== *)
theory HandlerFacts
  imports FilesInv Progress
begin

text \<open>
  What single handlers of the daemon do on every branch: the request one tick of a download
  manager makes, the effect of an introduction on what is known of a peer, and the two ways the
  daemon builds a chunk map from its rows.
\<close>

section \<open>The chunk map at startup\<close>

lemma init_chunk_map_set:
  "length m = n \<Longrightarrow> init_chunk_map cs m =
     (if \<exists>c \<in> set cs. c_IsAvailable c = 1 \<and> int n \<le> c_ChunkIndex c then Inl IndexOutOfRange
      else set_available_chunks (int n) cs m)"
proof (induction cs arbitrary: m)
  case (Cons c cs)
  have "length (m[nat (c_ChunkIndex c) := 1]) = n" using Cons.prems by simp
  note IH = Cons.IH [OF this] Cons.IH [OF Cons.prems]
  show ?case by (auto simp: IH slice_set_def Cons.prems)
qed simp

text \<open>C37: the map a daemon announces with at startup is the map it introduces itself with later,
  with one difference: a row whose index is past the end panics at startup and is skipped later.\<close>

theorem startup_map_is_introduced_map:
  "init_chunk_map cs (replicate n 0) =
     (if \<exists>c \<in> set cs. c_IsAvailable c = 1 \<and> int n \<le> c_ChunkIndex c then Inl IndexOutOfRange
      else BuildChunkMap (int n) cs)"
  by (auto simp: init_chunk_map_set [of _ n] BuildChunkMap_def make_slice_def)

section \<open>One tick of a download manager\<close>

lemma retries_result:
  "send_with_retries n p msg w = (r, w') \<Longrightarrow>
   (w_sent w' = w_sent w \<or> (\<exists>dc. mget (n_peerDataChannels (w_node w)) p = Some dc \<and> w_sent w' = w_sent w @ [(dc, msg)])) \<and>
   length (w_fails w) \<le> length (w_fails w') + n \<and>
   (mget (n_peerDataChannels (w_node w)) p \<noteq> None \<longrightarrow> (\<exists>b. r = Inr b))"
proof (induction n arbitrary: w)
  case (Suc n)
  show ?case
  proof (cases "mget (n_peerDataChannels (w_node w)) p")
    case (Some dc)
    show ?thesis
    proof (cases "\<exists>fs. w_fails w = True # fs")
      case True
      then obtain fs where fs: "w_fails w = True # fs" by blast
      then have "send_dc dc msg w = (Inr False, w\<lparr>w_fails := fs\<rparr>)" by (simp add: send_dc_def succeeds_def go_simps)
      then have "send_with_retries (Suc n) p msg w = send_with_retries n p msg (w\<lparr>w_fails := fs\<rparr>)"
        using Some by (simp add: go_bind_def [of "send_dc _ _"])
      then show ?thesis using Suc.IH [of "w\<lparr>w_fails := fs\<rparr>"] Suc.prems fs by auto
    next
      case False
      then obtain w1 where "send_dc dc msg w = (Inr True, w1)" "w_sent w1 = w_sent w @ [(dc, msg)]"
        "length (w_fails w) \<le> length (w_fails w1) + 1"
        by (cases "w_fails w") (auto simp: send_dc_def succeeds_def go_simps)
      then show ?thesis using Some Suc.prems by (auto simp: go_bind_def [of "send_dc _ _"] go_return_def)
    qed
  qed (use Suc.prems in \<open>auto simp: go_stop_def\<close>)
qed (auto simp: go_return_def)

lemma SelectRandomPeer_result:
  assumes "ps \<noteq> []"
  shows "\<exists>p rs. SelectRandomPeer ps w = (Inr p, w\<lparr>w_rands := rs\<rparr>) \<and> p \<in> set ps"
proof (cases "w_rands w")
  case Nil
  then have "SelectRandomPeer ps w = (Inr (ps ! 0), w\<lparr>w_rands := w_rands w\<rparr>)"
    using assms by (simp add: SelectRandomPeer_def rand_Intn_def go_bind_def go_lift_def slice_get_def)
  then show ?thesis using assms by (intro exI [of _ "ps ! 0"] exI [of _ "w_rands w"]) simp
next
  case (Cons k rs)
  then have "SelectRandomPeer ps w = (Inr (ps ! (k mod length ps)), w\<lparr>w_rands := rs\<rparr>)"
    using assms by (simp add: SelectRandomPeer_def rand_Intn_def go_bind_def go_lift_def slice_get_def)
  then show ?thesis using assms by (intro exI [of _ "ps ! (k mod length ps)"] exI [of _ rs]) simp
qed

lemma go_bind_modify: "go_bind (go_modify f) k w = k () (f w)"
  by (simp add: go_bind_def go_modify_def)

lemma messageCLI_calls:
  "\<exists>w'. messageCLI s w = (Inr (), w') \<and> w_sent w' = w_sent w \<and> w_node w' = w_node w \<and>
     length (w_fails w) \<le> length (w_fails w') + 1"
  by (cases "n_cliRouter (w_node w)"; cases "w_fails w")
     (auto simp: messageCLI_def send_cli_def succeeds_def go_simps get_node_def)

text \<open>The request a tick may make: the first missing chunk, from a connected peer that offers it.\<close>

definition good_request :: "string \<Rightarrow> chunk_row list \<Rightarrow> Node \<Rightarrow> nat \<Rightarrow> NetworkMessage \<Rightarrow> bool" where
  "good_request h rows n dc msg \<longleftrightarrow> (\<exists>k p fs. msg = BuildChunkRequestMessage h (int k) \<and>
     k < length rows \<and> c_IsAvailable (rows ! k) \<noteq> 1 \<and> (\<forall>j < k. c_IsAvailable (rows ! j) = 1) \<and>
     (p, fs) \<in> set (n_peerChunkMap n) \<and> offers h (int k) fs \<and> mget (n_peerDataChannels n) p = Some dc)"

lemma first_missing:
  assumes "length rows \<le> 2 ^ 31" "FindMissingChunkIndex rows \<noteq> -1"
  obtains k where "FindMissingChunkIndex rows = int k" "k < length rows" "c_IsAvailable (rows ! k) \<noteq> 1"
    "\<forall>j < k. c_IsAvailable (rows ! j) = 1"
proof
  note p = find_missing_from_pos [of 0 rows "FindMissingChunkIndex rows", folded FindMissingChunkIndex_def]
  let ?k = "nat (FindMissingChunkIndex rows)"
  show "FindMissingChunkIndex rows = int ?k" using find_missing_nonneg [OF assms] by simp
  show "?k < length rows" "c_IsAvailable (rows ! ?k) \<noteq> 1" "\<forall>j < ?k. c_IsAvailable (rows ! j) = 1"
    using p assms by auto
qed

lemma request_result:
  assumes run: "requestOneMissingChunk h w = (r, w')" and small: "length (stored_chunks (w_db w) h) \<le> 2 ^ 31"
  shows "r = Inr () \<and> length (w_fails w) \<le> length (w_fails w') + maxRetries \<and> (w_sent w' = w_sent w \<or>
    (\<exists>dc msg. w_sent w' = w_sent w @ [(dc, msg)] \<and> good_request h (stored_chunks (w_db w) h) (w_node w) dc msg))"
proof (cases rule: db_step [OF run [unfolded requestOneMissingChunk_def Let_def]])
  case (2 rows d)
  have rows: "rows = stored_chunks (w_db w) h" by (rule GetChunks_result [OF 2(1)])
  let ?w = "w\<lparr>w_db := d\<rparr>" and ?m = "n_peerChunkMap (w_node w)"
  show ?thesis
  proof (cases "FindMissingChunkIndex rows = -1")
    case False
    obtain k where k: "FindMissingChunkIndex rows = int k" "k < length rows" "c_IsAvailable (rows ! k) \<noteq> 1"
      "\<forall>j < k. c_IsAvailable (rows ! j) = 1" using first_missing [OF _ False] small rows by auto
    let ?ps = "map fst (filter (\<lambda>(p, fs). offers h (int k) fs) ?m)"
    have E: "FindEligiblePeers ?m h (int k) = Inr ?ps" by (rule FindEligiblePeers_offers) simp
    show ?thesis
    proof (cases "?ps = []")
      case True
      then show ?thesis using 2(2) False k(1) E by (auto simp: go_bind_def [of "go_lift _"] go_lift_def go_return_def)
    next
      case some: False
      obtain p rs where p: "SelectRandomPeer ?ps ?w = (Inr p, ?w\<lparr>w_rands := rs\<rparr>)" "p \<in> set ?ps"
        using SelectRandomPeer_result [OF some] by blast
      obtain fs where fs: "(p, fs) \<in> set ?m" "offers h (int k) fs" using p(2) by auto
      have rest: "(if mget (n_peerDataChannels (w_node w)) p = None then go_return ()
          else go_then (send_with_retries maxRetries p (BuildChunkRequestMessage h (int k))) (go_return ()))
          (?w\<lparr>w_rands := rs\<rparr>) = (r, w')"
        using 2(2) [unfolded k(1)] E some p(1)
        by (simp add: go_bind_def [of "go_lift _"] go_lift_def go_bind_def [of "SelectRandomPeer _"] del: BuildChunkRequestMessage_def)
      show ?thesis
      proof (cases "mget (n_peerDataChannels (w_node w)) p")
        case None
        then show ?thesis using rest by (auto simp: go_return_def)
      next
        case (Some dc)
        obtain b w1 where s: "send_with_retries maxRetries p (BuildChunkRequestMessage h (int k)) (?w\<lparr>w_rands := rs\<rparr>) = (b, w1)"
          by (cases "send_with_retries maxRetries p (BuildChunkRequestMessage h (int k)) (?w\<lparr>w_rands := rs\<rparr>)")
        have good: "good_request h rows (w_node w) dc (BuildChunkRequestMessage h (int k))"
          using k fs Some unfolding good_request_def by blast
        show ?thesis using rest retries_result [OF s] Some good rows by (cases b) (auto simp: go_then_def go_bind_def s go_return_def simp del: BuildChunkRequestMessage_def)
      qed
    qed
  qed (use 2(2) in \<open>auto simp: go_return_def\<close>)
qed (use run in simp)

lemma tick_result:
  assumes "download_tick h w = (r, w')" "length (stored_chunks (w_db w) h) \<le> 2 ^ 31"
  shows "(r = Inr True \<or> r = Inr False) \<and> length (w_fails w) \<le> length (w_fails w') + maxRetries \<and> (w_sent w' = w_sent w \<or>
    (\<exists>dc msg. w_sent w' = w_sent w @ [(dc, msg)] \<and> good_request h (stored_chunks (w_db w) h) (w_node w) dc msg))"
proof (cases rule: db_step [OF assms(1) [unfolded download_tick_def]])
  case (2 rows d)
  let ?w = "w\<lparr>w_db := d\<rparr>"
  have same: "stored_chunks d h = stored_chunks (w_db w) h"
    using 2(1) by (metis GetChunks_tables snd_conv stored_chunks_def)
  show ?thesis
  proof (cases "IsDownloadComplete rows")
    case True
    let ?w1 = "?w\<lparr>w_node := (w_node w)\<lparr>n_activeDownloads := mdel h (n_activeDownloads (w_node w))\<rparr>\<rparr>"
    have "go_then (messageCLI ''done'') (go_return True) ?w1 = (r, w')"
      using 2(2) True by (simp add: go_then_def upd_node_def go_bind_modify)
    then show ?thesis using messageCLI_calls [of "''done''" ?w1]
      by (auto simp: go_then_def go_bind_def go_return_def maxRetries_def)
  next
    case False
    have "r = Inr False \<and> w' = ?w \<or> (\<exists>r1. requestOneMissingChunk h ?w = (r1, w') \<and> (\<forall>u. r1 = Inr u \<longrightarrow> r = Inr False))"
      using 2(2) False
      by (auto simp: go_then_def go_bind_def get_node_def go_gets_def go_return_def split: option.splits if_splits prod.splits sum.splits)
    then show ?thesis
    proof
      assume "\<exists>r1. requestOneMissingChunk h ?w = (r1, w') \<and> (\<forall>u. r1 = Inr u \<longrightarrow> r = Inr False)"
      then obtain r1 where r1: "requestOneMissingChunk h ?w = (r1, w')" "\<forall>u. r1 = Inr u \<longrightarrow> r = Inr False" by blast
      show ?thesis using request_result [OF r1(1)] r1(2) assms(2) same by simp
    qed simp
  qed
qed (use assms(1) in simp)


definition sample_tick :: world where
  "sample_tick = sample_world\<lparr>w_node := (w_node sample_world)\<lparr>n_peerChunkMap := [(''8'', [(''h'', [1])])],
     n_peerDataChannels := [(''8'', 4)],
     n_activeDownloads := [(''h'', \<lparr>fd_FileHash = ''h'', fd_TotalChunks = 1, fd_ActivePeers = [(''8'', True)]\<rparr>)]\<rparr>\<rparr>"

lemma sample_tick_run:
  "w_sent (snd (download_tick ''h'' sample_tick)) = [(4, BuildChunkRequestMessage ''h'' 0)]"
  "length (stored_chunks (w_db sample_tick) ''h'') = 1"
  by code_simp+


section \<open>Introductions\<close>

lemma go_then_Inr_both:
  "go_then m k w = (Inr y, w') \<Longrightarrow> \<exists>x w1. m w = (Inr x, w1) \<and> k w1 = (Inr y, w')"
  unfolding go_then_def by (rule go_bind_InrD)

lemma messageCLI_node: "messageCLI s w = (r, w') \<Longrightarrow> w_node w' = w_node w"
  using messageCLI_calls [of s w] by auto

lemma sendIntroduction_node:
  "sendIntroduction p h w = (r, w') \<Longrightarrow> w_node w' = w_node w"
proof -
  assume run: "sendIntroduction p h w = (r, w')"
  have "runs (\<lambda>v. w_node v = w_node w) UNIV (sendIntroduction p h)"
    unfolding sendIntroduction_def GetChunkMap_def
    by (intro runs_intros runs_db_do runs_lift) (simp_all add: sends_are_frames_def)
  then show ?thesis using run runsD(1) by fastforce
qed

lemma fresh_introduction:
  assumes "go_then (sendIntroduction p h) (go_then (upd_node (\<lambda>n. n\<lparr>n_peerChunkMap := mput p [] (n_peerChunkMap n)\<rparr>))
    (set_chunk_map p h cs)) w = (Inr v, w')"
  shows "n_peerChunkMap (w_node w') = mput p (mput h cs []) (mput p [] (n_peerChunkMap (w_node w)))"
proof -
  obtain x w3 where w3: "sendIntroduction p h w = (Inr x, w3)"
    "go_then (upd_node (\<lambda>n. n\<lparr>n_peerChunkMap := mput p [] (n_peerChunkMap n)\<rparr>)) (set_chunk_map p h cs) w3 = (Inr v, w')"
    using go_then_Inr_both [OF assms] by blast
  let ?m = "n_peerChunkMap (w_node w)"
  have n3: "n_peerChunkMap (w_node w3) = ?m" using sendIntroduction_node [OF w3(1)] by simp
  let ?w4 = "w3\<lparr>w_node := (w_node w3)\<lparr>n_peerChunkMap := mput p [] ?m\<rparr>\<rparr>"
  have "set_chunk_map p h cs ?w4 = (Inr v, w')"
    using w3(2) n3 by (simp add: go_then_def upd_node_def go_bind_modify)
  moreover have "mget (n_peerChunkMap (w_node ?w4)) p = Some []" by simp
  ultimately show ?thesis using set_chunk_map_ok [of ?w4 p "[]" h cs] by auto
qed

text \<open>What an introduction leaves in the map of its peer: for a file known of this peer the new list
  replaces the old one and the lists of other files stay; for a file not known of it, every list of another
  file the peer had introduced is dropped. Nothing known of other peers changes.\<close>

theorem introduction_effect:
  assumes run: "handleIntroduction p msg w = (Inr u, w')"
  defines "old \<equiv> (case mget (n_peerChunkMap (w_node w)) p of None \<Rightarrow> [] | Some fs \<Rightarrow> fs)"
  shows "mget (n_peerChunkMap (w_node w')) =
    (mget (n_peerChunkMap (w_node w)))(p \<mapsto>
       (if mget old (im_FileHash msg) = None then [(im_FileHash msg, im_ChunksMap msg)]
        else mput (im_FileHash msg) (im_ChunksMap msg) old))"
proof -
  let ?h = "im_FileHash msg" and ?cs = "im_ChunksMap msg" and ?m = "n_peerChunkMap (w_node w)"
  let ?store = "if mget old ?h = None
     then go_then (sendIntroduction p ?h)
       (go_then (upd_node (\<lambda>n. n\<lparr>n_peerChunkMap := mput p [] (n_peerChunkMap n)\<rparr>)) (set_chunk_map p ?h ?cs))
     else set_chunk_map p ?h ?cs"
  obtain x w1 where x: "messageCLI (''Connected to peer '' @ p) w = (Inr x, w1)" and
    k: "go_bind (get_node n_peerChunkMap) (\<lambda>m. go_then
        (if mget (case mget m p of None \<Rightarrow> [] | Some fs \<Rightarrow> fs) ?h = None
         then go_then (sendIntroduction p ?h)
           (go_then (upd_node (\<lambda>n. n\<lparr>n_peerChunkMap := mput p [] (n_peerChunkMap n)\<rparr>))
             (set_chunk_map p (IntroductionMessage_GetFileHash (Some msg)) (IntroductionMessage_GetChunksMap (Some msg))))
         else set_chunk_map p (IntroductionMessage_GetFileHash (Some msg)) (IntroductionMessage_GetChunksMap (Some msg)))
        (addPeerToDownload p (IntroductionMessage_GetFileHash (Some msg)))) w1 = (Inr u, w')"
    using go_then_Inr_both [OF run [unfolded handleIntroduction_def]] by blast
  have w1: "w_node w1 = w_node w" by (rule messageCLI_node [OF x])
  then have w1': "go_then ?store (addPeerToDownload p ?h) w1 = (Inr u, w')"
    using k by (simp add: old_def IntroductionMessage_GetFileHash_def IntroductionMessage_GetChunksMap_def cong: if_cong)
  obtain v w2 where w2: "?store w1 = (Inr v, w2)" "addPeerToDownload p ?h w2 = (Inr u, w')"
    using go_then_Inr_both [OF w1'] by blast
  have last: "n_peerChunkMap (w_node w') = n_peerChunkMap (w_node w2)"
    using w2(2) by (auto simp: addPeerToDownload_def upd_node_def go_modify_def split: option.splits)
  show ?thesis
  proof (cases "mget old ?h = None")
    case True
    then have "go_then (sendIntroduction p ?h) (go_then (upd_node (\<lambda>n. n\<lparr>n_peerChunkMap := mput p [] (n_peerChunkMap n)\<rparr>))
        (set_chunk_map p ?h ?cs)) w1 = (Inr v, w2)" using w2(1) by simp
    from fresh_introduction [OF this]
    have "n_peerChunkMap (w_node w2) = mput p (mput ?h ?cs []) (mput p [] ?m)" using w1 by simp
    then show ?thesis using last True by auto
  next
    case False
    then have "mget ?m p = Some old" by (auto simp: old_def split: option.splits)
    then show ?thesis using w2(1) False last w1 set_chunk_map_ok [of w1 p old ?h ?cs] by auto
  qed
qed

text \<open>A peer known for one file introduces another: what it offers of the first is forgotten.\<close>

definition sample_known :: world where
  "sample_known = sample_world\<lparr>w_node := (w_node sample_world)\<lparr>n_peerChunkMap := [(''8'', [(''h'', [1])])]\<rparr>\<rparr>"

lemma sample_intro:
  "fst (handleIntroduction ''8'' \<lparr>im_FileHash = ''k'', im_ChunksMap = [0, 1]\<rparr> sample_known) = Inr ()"
  by code_simp

theorem introduction_effect_witness:
  "\<exists>w'. handleIntroduction ''8'' \<lparr>im_FileHash = ''k'', im_ChunksMap = [0, 1]\<rparr> sample_known = (Inr (), w') \<and>
     mget (n_peerChunkMap (w_node w')) ''8'' = Some [(''k'', [0, 1])]"
proof -
  let ?m = "\<lparr>im_FileHash = ''k'', im_ChunksMap = [0, 1]\<rparr>"
  obtain w' where w': "handleIntroduction ''8'' ?m sample_known = (Inr (), w')"
    using sample_intro by (metis prod.collapse)
  show ?thesis using introduction_effect [OF w'] w' by (simp add: sample_known_def)
qed

end
