(* ===== verification/Faults.thy ===== *)
theory Faults
  imports FilesInv Progress
begin

text \<open>
  Inputs the daemon does not survive, or survives in a state it should not be in: a chunk nobody
  asked for, a peer list nobody waits for, a registration of the daemon's own copy, and what a
  restart forgets.
\<close>

section \<open>A chunk response nobody asked for\<close>

definition chunk_expected :: "string \<Rightarrow> int \<Rightarrow> world \<Rightarrow> bool" where
  "chunk_expected h i w \<longleftrightarrow> (case mget (own_map_of w) h of None \<Rightarrow> False | Some cs \<Rightarrow> i < int (length cs))"

lemma mark_unexpected:
  assumes "\<not> chunk_expected h i w"
  shows "mark_own_chunk h i w = (Inl IndexOutOfRange, w)"
proof -
  let ?own = "case mget (n_peerChunkMap (w_node w)) (n_id (w_node w)) of None \<Rightarrow> [] | Some fs \<Rightarrow> fs"
  have "slice_set (case mget ?own h of None \<Rightarrow> [] | Some c \<Rightarrow> c) i 1 = Inl IndexOutOfRange"
    using assms by (auto simp: chunk_expected_def own_map_of_def slice_set_def split: option.splits)
  then show ?thesis by (simp add: mark_own_chunk_def Let_def go_bind_def go_lift_def get_node_def go_gets_def)
qed

text \<open>C38: any peer can end the process of a daemon: a chunk response for a stored file whose chunk list
  the daemon has not set up in this run (after a restart, say, or past the end of the list) is written
  into the file at the offset it names, whatever its bytes, and then the index expression panics.\<close>

theorem unexpected_chunk_panics:
  assumes calm: "calm w" and f: "stored_file (w_db w) (cs_FileHash m) = Some f"
    and content: "fs_of (w_os w) (file_path w f) = Some content"
    and i: "0 \<le> cs_ChunkIndex m" "cs_ChunkIndex m < 2 ^ 31"
    and unexpected: "\<not> chunk_expected (cs_FileHash m) (cs_ChunkIndex m) w"
  shows "\<exists>w'. handleChunkResponse p m w = (Inl IndexOutOfRange, w') \<and>
    fs_of (w_os w') (file_path w f) = Some (write_at content (nat (cs_ChunkIndex m * maxChunkSize)) (cs_ChunkData m))"
proof -
  let ?i = "cs_ChunkIndex m" and ?path = "file_path w f"
  obtain c1 where c1: "messageCLI (''Got chunk '' @ FormatInt ?i @ '' from peer '' @ p) w = (Inr (), w\<lparr>w_cli := c1\<rparr>)"
    using messageCLI_calm [OF calm] by blast
  have "calm (w\<lparr>w_cli := c1\<rparr>)" using calm by (simp add: calm_def)
  then obtain c2 where c2: "messageCLI ''progress'' (w\<lparr>w_cli := c1\<rparr>) = (Inr (), w\<lparr>w_cli := c2\<rparr>)"
    using messageCLI_calm by fastforce
  let ?w2 = "w\<lparr>w_cli := c2\<rparr>"
  have calm2: "calm ?w2" using calm by (simp add: calm_def)
  let ?content = "write_at content (nat (?i * maxChunkSize)) (cs_ChunkData m)"
  let ?w3 = "?w2\<lparr>w_os := (w_os w)\<lparr>fs_of := (fs_of (w_os w))(?path \<mapsto> ?content)\<rparr>\<rparr>"
  have name: "db_do (FileStore_GetFileNameByHash (cs_FileHash m)) ?w2 = (Inr (Inr (f_Name f)), ?w2)"
    using GetName_calm [OF calm2] f by simp
  have opn: "os_do (os_Open ?path) ?w2 = (Inr (Inr content), ?w2)" using Open_calm [OF calm2] content by simp
  have "int64 (?i * maxChunkSize) = ?i * maxChunkSize" using i by (intro int64_id) (simp_all add: maxChunkSize_def)
  then have wr: "os_do (os_WriteChunk ?path ?i maxChunkSize (cs_ChunkData m)) ?w2 = (Inr (Inr ()), ?w3)"
    using calm content i
    by (simp add: os_do_def os_WriteChunk_def os_call_calm calm_def WriteChunkData_def WriteAt_def maxChunkSize_def)
  have "\<not> chunk_expected (cs_FileHash m) ?i ?w3" using unexpected by (simp add: chunk_expected_def own_map_of_def)
  note mark = mark_unexpected [OF this]
  have "handleChunkResponse p m w = (Inl IndexOutOfRange, ?w3)"
    using c1 c2 name opn wr mark
    by (simp add: handleChunkResponse_def go_then_def go_bind_def [of "messageCLI _"] go_bind_def [of "db_do _"]
        go_bind_def [of "os_do _"] go_bind_def [of "mark_own_chunk _ _"] Let_def file_path_def)
  then show ?thesis by simp
qed

definition sample_restarted :: world where
  "sample_restarted = sample_world\<lparr>w_node := (w_node sample_world)\<lparr>n_peerChunkMap := [(''7'', [])]\<rparr>\<rparr>"

theorem unexpected_chunk_panics_witness:
  "\<exists>w'. handleChunkResponse ''8'' \<lparr>cs_FileHash = ''h'', cs_ChunkIndex = 0, cs_ChunkData = ''zzz''\<rparr> sample_restarted =
      (Inl IndexOutOfRange, w') \<and> fs_of (w_os w') ''downloads/daemon-1/a'' = Some ''zzz''"
proof -
  let ?m = "\<lparr>cs_FileHash = ''h'', cs_ChunkIndex = 0, cs_ChunkData = ''zzz''\<rparr>"
  obtain f where f: "stored_file (w_db sample_world) ''h'' = Some f" "f_Name f = ''a''" using sample_rows(2) by auto
  have w: "w_db sample_restarted = w_db sample_world" "w_os sample_restarted = w_os sample_world"
    "n_ipcSocketIndex (w_node sample_restarted) = ''1''"
    by (simp_all add: sample_restarted_def sample_world_def new_node_def)
  have path: "file_path sample_restarted f = ''downloads/daemon-1/a''"
    using f by (simp add: file_path_def BuildDownloadPath_def w)
  have "calm sample_restarted" "fs_of (w_os sample_restarted) ''downloads/daemon-1/a'' = Some []"
    by (simp_all add: calm_def sample_restarted_def sample_world_def)
  moreover have "\<not> chunk_expected ''h'' 0 sample_restarted"
    by (simp add: chunk_expected_def own_map_of_def sample_restarted_def sample_world_def)
  ultimately show ?thesis
    using unexpected_chunk_panics [of sample_restarted ?m f "[]" "''8''"] f(1) path
    by (auto simp: w write_at_def maxChunkSize_def)
qed

section \<open>What a restart forgets\<close>

text \<open>Startup builds the daemon's own chunk maps and then replaces them by an empty map.\<close>

theorem startup_drops_own_maps:
  assumes "node_init w = (Inr u, w')"
  shows "own_map_of w' = []"
  using assms unfolding node_init_def
  by (auto simp: own_map_of_def upd_node_def go_modify_def get_node_def go_gets_def go_stop_def go_bind_def [of "\<lambda>s. (Inr _, s)"]
      dest!: go_bind_InrD go_then_InrD split: sum.splits)

section \<open>A peer list nobody waits for\<close>

lemma runs_stuck_world: "runs d_stuck UNIV (on_world m)"
  by (rule runsI) (auto simp: on_world_def split: prod.split)

lemma runs_stuck_modify: "(\<And>d. d_stuck d \<Longrightarrow> d_stuck (f d)) \<Longrightarrow> runs d_stuck UNIV (go_modify f)"
  by (rule runs_modify)

lemma runs_stuck_list: "runs d_stuck UNIV (peer_list_event resp)"
proof (rule runsI)
  fix d :: daemon assume "d_stuck d"
  then show "d_stuck (snd (peer_list_event resp d)) \<and> (\<forall>e. fst (peer_list_event resp d) = Inl e \<longrightarrow> e \<in> UNIV)"
    using runsD(1) [OF runs_stuck_world, of d "on_peer_list resp"]
    by (cases "on_world (on_peer_list resp) d")
       (auto simp: peer_list_event_def split: sum.split stop.split)
qed

lemma runs_stuck: "runs d_stuck UNIV (handle_event sha ev)"
  by (cases ev)
     (auto simp: handleCLIMsgs_simps download_answer_def intro!: runs_intros runs_stuck_world runs_stuck_list runs_stuck_modify)

lemma steps_stuck: "(daemon_step sha)\<^sup>*\<^sup>* d d' \<Longrightarrow> d_stuck d \<Longrightarrow> d_stuck d'"
proof (induction rule: rtranclp_induct)
  case (step d1 d2)
  from step.hyps(2) show ?case
    by cases (use step runsD(1) [OF runs_stuck] in \<open>metis snd_conv\<close>)
qed

text \<open>A peer list for a file no download asked for is never delivered and stops the goroutine that
  reads the tracker's channels for good: the daemon goes on, but from then on no signal, no peer list and no
  identity is handled, whatever else happens, so no new download gets its peers.\<close>

theorem stray_peer_list_is_fatal:
  assumes stray: "mget (n_pendingPeerListRequests (w_node (d_world d))) (PeerListResponse_GetFileHash (Some resp)) = None"
    and run: "handle_event sha (PeerList resp) d = (r, d1)"
    and later: "(daemon_step sha)\<^sup>*\<^sup>* d1 d2"
  shows "r = Inr () \<and> d_world d1 = d_world d \<and>
    \<not> possible (Signal s) d2 \<and> \<not> possible (PeerList resp') d2 \<and> \<not> possible (Identity m) d2"
proof -
  have "on_peer_list resp (d_world d) = (Inl BlockedForever, d_world d)"
    using stray by (simp add: on_peer_list_def go_stop_def get_node_def go_gets_def go_bind_def)
  then have "r = Inr ()" "d1 = d\<lparr>d_stuck := True\<rparr>" using run by (simp_all add: peer_list_event_def on_world_def)
  then show ?thesis using steps_stuck [OF later] by simp
qed

theorem stray_peer_list_is_fatal_witness:
  "\<exists>d1. handle_event (\<lambda>x. x) (PeerList \<lparr>plp_FileHash = ''h'', plp_TotalChunks = 0, plp_ChunkSize = 0, plp_Peers = []\<rparr>) sample_start = (Inr (), d1) \<and>
     \<not> possible (Signal \<lparr>sg_SourcePeerId = [], sg_TargetPeerId = [], sg_Message = None\<rparr>) d1"
proof -
  obtain r d1 where run: "handle_event (\<lambda>x. x) (PeerList \<lparr>plp_FileHash = ''h'', plp_TotalChunks = 0, plp_ChunkSize = 0, plp_Peers = []\<rparr>) sample_start = (r, d1)"
    by (cases "handle_event (\<lambda>x. x) (PeerList \<lparr>plp_FileHash = ''h'', plp_TotalChunks = 0, plp_ChunkSize = 0, plp_Peers = []\<rparr>) sample_start")
  have "mget (n_pendingPeerListRequests (w_node (d_world sample_start)))
      (PeerListResponse_GetFileHash (Some \<lparr>plp_FileHash = ''h'', plp_TotalChunks = 0, plp_ChunkSize = 0, plp_Peers = []\<rparr>)) = None"
    by (simp add: sample_start_def new_node_def)
  from stray_peer_list_is_fatal [OF this run rtranclp.rtrancl_refl] show ?thesis using run by blast
qed

section \<open>Registering the copy itself\<close>

text \<open>The path of the daemon's own copy is created, so truncated, before it is copied to itself.\<close>

definition sample_own_copy :: world where
  "sample_own_copy = (d_world sample_start)\<lparr>w_os := \<lparr>fs_of = [''downloads/daemon-1/f'' \<mapsto> ''hi''], io_sched = []\<rparr>\<rparr>"

lemma own_copy_name: "ExtractFileName ''downloads/daemon-1/f'' = ''f''"
  by code_simp

theorem registering_own_copy_truncates:
  "case handleRegisterSignal first_byte \<lparr>sr_FilePath = ''downloads/daemon-1/f''\<rparr> sample_own_copy of (r, w') \<Rightarrow>
     r = Inr () \<and> w_tracker w' = [BuildAnnounceMessage [file_info shop_row]] \<and>
     fs_of (w_os w') ''downloads/daemon-1/f'' = Some []"
  unfolding handleRegisterSignal_def Let_def os_touch_alt hash_touch
  by (simp add: go_simps os_do_def db_do_def os_Open_def touch_def calm_os_call sample_own_copy_def sample_start_def
    own_copy_name sample_create sample_hash sample_total sample_split,
  simp add: os_touch_def register_publish_def go_simps db_do_def os_do_def sample_create_chunk shop_row_def get_node_def new_node_def
      os_MkdirAll_def os_Create_def os_CopyTo_def GenerateP2PFile_def os_Append_def p2p_lines_def header_lines_def
      calm_os_call send_tracker_def succeeds_def Let_def download_dir_def)

end
