(* ===== verification/Rendezvous.thy ===== *)
theory Rendezvous
  imports TrackerInv
begin

text \<open>
  How daemons find each other: a daemon that announced a file stays in the swarm of that file,
  whatever the tracker does in the meantime, for as long as the tracker serves it; so every other
  daemon that asks for the file is told of it.
\<close>

section \<open>What a statement takes from a peer\<close>

text \<open>No row of the peer with the given id, no swarm row of it and no file row is lost.\<close>

definition keeps_peer :: "int \<Rightarrow> tables \<Rightarrow> tables \<Rightarrow> bool" where
  "keeps_peer i t t' \<longleftrightarrow> set (files t) \<subseteq> set (files t') \<and>
     {p \<in> set (peers t). p_ID p = i} \<subseteq> set (peers t') \<and> {s \<in> set (swarms t). s_PeerID s = i} \<subseteq> set (swarms t')"

lemma keeps_refl [simp, intro]: "keeps_peer i t t"
  by (simp add: keeps_peer_def)

lemma keeps_trans [trans]: "keeps_peer i a b \<Longrightarrow> keeps_peer i b c \<Longrightarrow> keeps_peer i a c"
  by (auto simp: keeps_peer_def)

lemma keeps_lists:
  "keeps_peer (p_ID p) (tables_of db) (tables_of db') \<Longrightarrow> lists_peer p h db \<Longrightarrow> lists_peer p h db'"
  by (fastforce simp: keeps_peer_def lists_peer_def set_select_peers_by_hash)

lemma keeps_run_stmt:
  assumes "\<And>fk. keeps_peer i (tables_of c) (snd (stmt fk (tables_of c)))"
  shows "keeps_peer i (tables_of c) (tables_of (snd (run_stmt stmt c)))"
  by (cases rule: run_stmt_cases [of stmt c]) (simp_all add: assms)

lemma keeps_run_query: "keeps_peer i (tables_of c) (tables_of (snd (run_query q c)))"
  unfolding run_query_def by (rule keeps_run_stmt) simp

lemma keeps_insert_file: "keeps_peer i t (snd (insert_file a fk t))"
  by (auto simp: keeps_peer_def insert_file_def Let_def split: sum.split)

lemma keeps_insert_peer: "keeps_peer i t (snd (insert_peer ip port fk t))"
  by (auto simp: keeps_peer_def insert_peer_def Let_def split: sum.split)

lemma keeps_insert_swarm: "keeps_peer i t (snd (insert_swarm p f fk t))"
  by (auto simp: keeps_peer_def insert_swarm_def Let_def split: sum.split)

lemma keeps_insert_swarms: "keeps_peer i t (snd (insert_swarms ps fk t))"
proof (induction ps arbitrary: t)
  case (Cons pf ps)
  obtain p f where pf: "pf = (p, f)" by (cases pf)
  obtain r t' where s: "insert_swarm p f fk t = (r, t')" by (cases "insert_swarm p f fk t")
  have "keeps_peer i t t'" using keeps_insert_swarm [of i t p f fk] s by simp
  then show ?case using keeps_trans [OF _ Cons.IH [of t'], of t] pf s by (auto split: sum.split prod.split)
qed simp

lemma keeps_delete_peers:
  assumes "\<And>p. p \<in> set (peers t) \<Longrightarrow> p_ID p = i \<Longrightarrow> \<not> pr p"
  shows "keeps_peer i t (snd (delete_peers pr fk t))"
  using assms by (auto simp: keeps_peer_def delete_peers_def Let_def)

lemma keeps_CreateFile: "keeps_peer i (tables_of c) (tables_of (snd (FileStore_CreateFile now n s m k h c)))"
proof -
  obtain r c1 where g: "Q_GetFileByHash h c = (r, c1)" by (cases "Q_GetFileByHash h c")
  have c1: "keeps_peer i (tables_of c) (tables_of c1)"
    using keeps_run_query [of i c "\<lambda>t. first_row (select_file_by_hash h t)"] g by (simp add: Q_GetFileByHash_def)
  have "keeps_peer i (tables_of c1) (tables_of (snd (Q_CreateFile a c1)))" for a
    unfolding Q_CreateFile_def by (rule keeps_run_stmt) (rule keeps_insert_file)
  then have "Q_CreateFile a c1 = (r', c2) \<Longrightarrow> keeps_peer i (tables_of c) (tables_of c2)" for a r' c2
    using c1 keeps_trans by (metis snd_eqD)
  then show ?thesis using c1 by (auto simp: FileStore_CreateFile_def g split: sum.split prod.split)
qed

lemma keeps_AddPeer: "keeps_peer i (tables_of c) (tables_of (snd (PeerStore_AddPeerToSwarm ip port h c)))"
  unfolding PeerStore_AddPeerToSwarm_def Q_AddPeerToSwarm_def
  by (rule keeps_run_stmt) (simp add: add_peer_to_swarm_def keeps_insert_swarms)

lemma keeps_CreatePeer: "keeps_peer i (tables_of c) (tables_of (snd (PeerStore_CreatePeer ip port c)))"
proof -
  have "keeps_peer i (tables_of c) (tables_of (snd (Q_CreatePeer ip port c)))"
    unfolding Q_CreatePeer_def by (rule keeps_run_stmt) (rule keeps_insert_peer)
  then show ?thesis by (auto simp: PeerStore_CreatePeer_def split: prod.splits sum.splits)
qed

lemma keeps_GetPeers: "keeps_peer i (tables_of c) (tables_of (snd (PeerStore_GetPeersByFileHash h c)))"
  unfolding PeerStore_GetPeersByFileHash_def Q_GetPeersByFileHash_def by (rule keeps_run_query)

lemma keeps_announce: "keeps_peer i (tables_of c) (tables_of (announce_files now ip port fs c))"
proof (induction fs arbitrary: c)
  case (Cons f fs)
  let ?c = "FileStore_CreateFile now (fi_FileName f) (fi_FileSize f) (fi_ChunkSize f) (fi_TotalChunks f) (fi_FileHash f) c"
  let ?a = "PeerStore_AddPeerToSwarm ip port (fi_FileHash f) (snd ?c)"
  note 1 = keeps_CreateFile [of i c now "fi_FileName f" "fi_FileSize f" "fi_ChunkSize f" "fi_TotalChunks f" "fi_FileHash f"]
  note 2 = keeps_trans [OF 1 keeps_AddPeer [of i "snd ?c" ip port "fi_FileHash f"]]
  show ?case using keeps_trans [OF 1 Cons.IH] keeps_trans [OF 2 Cons.IH]
    by (simp add: split_beta Let_def split: sum.split)
qed simp

section \<open>What a step of the tracker takes from a daemon it serves\<close>

lemma daemon_row_key:
  assumes inv: "tracker_inv t" and s: "serving t c se"
    and p: "p \<in> set (peers_of (t_db t))" "FormatInt (p_ID p) = se_daemonID se"
  shows "peer_key p = (se_daemonIP se, se_daemonPort se)"
  using other_peers_exclude_self [OF inv s p(1)] p(2) by blast

text \<open>A departing daemon takes away its own row only.\<close>

lemma keeps_DeletePeer:
  assumes inv: "tracker_inv t" and s: "serving t c se" "serving t d se'" "c \<noteq> d"
    and p: "p \<in> set (peers_of (t_db t))" "FormatInt (p_ID p) = se_daemonID se"
  shows "keeps_peer (p_ID p) (tables_of (t_db t))
    (tables_of (snd (PeerStore_DeletePeer (se_daemonIP se') (se_daemonPort se') (t_db t))))"
  unfolding PeerStore_DeletePeer_def Q_DeletePeerByIPPort_def
proof (rule keeps_run_stmt, rule keeps_delete_peers)
  fix q assume "q \<in> set (peers (tables_of (t_db t)))" "p_ID q = p_ID p"
  then have "peer_key q = (se_daemonIP se, se_daemonPort se)"
    using daemon_row_key [OF inv s(1), of q] p(2) by (simp add: peers_of_def)
  then show "\<not> (p_IpAddress q = se_daemonIP se' \<and> p_Port q = se_daemonPort se')"
    using serving_addr_unique [OF inv s(1,2)] s(3) by (auto simp: peer_key_def)
qed

text \<open>A connection that is served was served before, unless its handshake was this step.\<close>

definition settled :: "tracker \<Rightarrow> nat \<Rightarrow> bool" where
  "settled t c \<longleftrightarrow> c < length (t_conns t) \<and> cn_phase (t_conns t ! c) \<noteq> Accepted"

lemma serving_settled: "serving t c se \<Longrightarrow> settled t c"
  by (simp add: serving_def settled_def)

lemma tr_WriteMessage_phase:
  "tr_WriteMessage cid msg t = (b, t') \<Longrightarrow> length (t_conns t') = length (t_conns t) \<and> t_db t' = t_db t \<and>
   (c < length (t_conns t) \<longrightarrow> cn_phase (t_conns t' ! c) = cn_phase (t_conns t ! c))"
  by (cases rule: tr_WriteMessage_cases [of cid msg t]) (auto simp: upd_conn_faults)

lemma serving_WriteMessage [simp]: "serving (snd (tr_WriteMessage cid msg t)) c se \<longleftrightarrow> serving t c se"
  using tr_WriteMessage_phase [of cid msg t "fst (tr_WriteMessage cid msg t)" "snd (tr_WriteMessage cid msg t)" c]
  by (auto simp: serving_def)

lemma settled_WriteMessage [simp]: "settled (snd (tr_WriteMessage cid msg t)) c \<longleftrightarrow> settled t c"
  using tr_WriteMessage_phase [of cid msg t "fst (tr_WriteMessage cid msg t)" "snd (tr_WriteMessage cid msg t)" c]
  by (auto simp: settled_def)

lemma settled_set_phase [simp]:
  "settled (set_phase cid p t) c \<longleftrightarrow> (if c = cid then c < length (t_conns t) \<and> p \<noteq> Accepted else settled t c)"
  by (auto simp: settled_def set_phase_def)

lemma settled_upd [simp]:
  "settled (t\<lparr>t_DaemonRouters := R\<rparr>) = settled t" "settled (t\<lparr>t_db := d\<rparr>) = settled t" "settled (t\<lparr>t_now := n\<rparr>) = settled t"
  by (simp_all add: settled_def fun_eq_iff)

lemma settled_take [simp]: "settled (take_from se f t) c \<longleftrightarrow> settled t c"
  by (auto simp: settled_def take_from_def split: if_splits)

lemma db_WriteMessage [simp]: "t_db (snd (tr_WriteMessage cid msg t)) = t_db t"
  using tr_WriteMessage_phase [of cid msg t "fst (tr_WriteMessage cid msg t)" "snd (tr_WriteMessage cid msg t)"] by simp

lemma db_take [simp]: "t_db (take_from se f t) = t_db t"
  by (simp add: take_from_def)

text \<open>A handshake of another connection.\<close>

lemma handshake_other:
  assumes "c \<noteq> cid"
  shows "(settled (handshake cid t) c \<longleftrightarrow> settled t c) \<and> (serving (handshake cid t) c se \<longleftrightarrow> serving t c se)"
proof (cases "SplitHostPort (cn_addr (t_conns t ! cid))")
  case (Some a)
  obtain ip port where a: "a = (ip, port)" by (cases a)
  obtain r d where cp: "PeerStore_CreatePeer ip port (t_db t) = (r, d)" by (cases "PeerStore_CreatePeer ip port (t_db t)")
  show ?thesis
  proof (cases r)
    case (Inr i)
    let ?msg = "\<lparr>MessageType = Some (NetworkMessage_Id \<lparr>idm_Id = i\<rparr>)\<rparr>"
    obtain b t1 where w: "tr_WriteMessage cid ?msg (t\<lparr>t_db := d\<rparr>) = (b, t1)" by (cases "tr_WriteMessage cid ?msg (t\<lparr>t_db := d\<rparr>)")
    have "serving t1 c se \<longleftrightarrow> serving t c se" "settled t1 c \<longleftrightarrow> settled t c"
      using serving_WriteMessage [of cid ?msg "t\<lparr>t_db := d\<rparr>" c se] settled_WriteMessage [of cid ?msg "t\<lparr>t_db := d\<rparr>" c] w by simp_all
    then show ?thesis using assms Some a cp Inr w
      by (cases b) (simp_all add: handshake_def Let_def serving_set_phase split: option.split)
  qed (use assms Some a cp in \<open>simp add: handshake_def serving_set_phase\<close>)
qed (use assms in \<open>simp add: handshake_def serving_set_phase\<close>)

lemma keeps_handshake: "keeps_peer i (tables_of (t_db t)) (tables_of (t_db (handshake cid t)))"
proof (cases "SplitHostPort (cn_addr (t_conns t ! cid))")
  case (Some a)
  obtain ip port where a: "a = (ip, port)" by (cases a)
  obtain r d where cp: "PeerStore_CreatePeer ip port (t_db t) = (r, d)" by (cases "PeerStore_CreatePeer ip port (t_db t)")
  have d: "keeps_peer i (tables_of (t_db t)) (tables_of d)" using keeps_CreatePeer [of i "t_db t" ip port] cp by simp
  show ?thesis
  proof (cases r)
    case (Inr pid)
    let ?msg = "\<lparr>MessageType = Some (NetworkMessage_Id \<lparr>idm_Id = pid\<rparr>)\<rparr>"
    obtain b t1 where w: "tr_WriteMessage cid ?msg (t\<lparr>t_db := d\<rparr>) = (b, t1)" by (cases "tr_WriteMessage cid ?msg (t\<lparr>t_db := d\<rparr>)")
    then have "t_db t1 = d" using tr_WriteMessage_phase by fastforce
    then show ?thesis using d Some a cp Inr w by (cases b) (simp_all add: handshake_def Let_def split: option.split)
  qed (use d Some a cp in \<open>simp add: handshake_def\<close>)
qed (simp add: handshake_def)

text \<open>
  One step, seen from a settled connection \<open>c\<close>: it stays settled, it is served after the step only if it
  was before and then under the same id, and its row and swarms are kept.
\<close>

lemma step_keeps_member:
  assumes inv: "tracker_inv t" and step: "tracker_step t t'" and c: "settled t c"
  shows "settled t' c \<and> (\<forall>se'. serving t' c se' \<longrightarrow>
    (\<exists>se. serving t c se \<and> se_daemonID se' = se_daemonID se \<and>
      (\<forall>p \<in> set (peers_of (t_db t)). FormatInt (p_ID p) = se_daemonID se \<longrightarrow>
         keeps_peer (p_ID p) (tables_of (t_db t)) (tables_of (t_db t')))))"
  using step
proof cases
  case (accept addr)
  then show ?thesis using c by (auto simp: settled_def serving_def nth_accept)
next
  case (receive cid m)
  then show ?thesis using c by (auto simp: settled_def serving_def receive_def)
next
  case clock
  then show ?thesis using c by (auto simp: serving_def)
next
  case (handshake cid)
  then have "c \<noteq> cid" using c by (auto simp: settled_def)
  then show ?thesis using handshake handshake_other keeps_handshake c by blast
next
  case (timeout cid se)
  have "c < length (t_conns t)" using c by (simp add: settled_def)
  then show ?thesis using timeout c keeps_DeletePeer [OF inv _ timeout(2)]
    by (auto simp: on_timeout_def Let_def serving_set_phase)
next
  case (signal cid se m ms)
  then show ?thesis using c by (auto simp: forwardSignal_def Let_def split: option.split)
next
  case (heartbeat cid se m ms)
  then have "c < length (t_conns t)" "cid < length (t_conns (take_from se (\<lambda>ch. ch\<lparr>HeartbeatCh := ms\<rparr>) t))"
    using c by (simp_all add: settled_def serving_def take_from_def)
  then show ?thesis using heartbeat c by (auto simp: on_heartbeat_def serving_set_phase split: if_splits)
next
  case (goodbye cid se m ms)
  have "c < length (t_conns t)" using c by (simp add: settled_def)
  then show ?thesis using goodbye c keeps_DeletePeer [OF inv _ goodbye(2)]
    by (auto simp: on_goodbye_def Let_def serving_set_phase) (auto simp: take_from_def)
next
  case (announce cid se m ms)
  then show ?thesis using c keeps_announce by (auto simp: handleAnnounce_def)
next
  case (peer_list cid se m ms)
  let ?t = "take_from se (\<lambda>ch. ch\<lparr>PeerListRequestCh := ms\<rparr>) t"
  obtain r d where q: "PeerStore_GetPeersByFileHash (PeerListRequest_GetFileHash (Some m)) (t_db t) = (r, d)"
    by (cases "PeerStore_GetPeersByFileHash (PeerListRequest_GetFileHash (Some m)) (t_db t)")
  have "keeps_peer i (tables_of (t_db t)) (tables_of d)" for i
    using keeps_GetPeers [of i "t_db t"] q by (metis snd_conv)
  moreover have "t_db ?t = t_db t" by (simp add: take_from_def)
  ultimately show ?thesis using peer_list(1) c q
    by (cases r) (auto simp: handlePeerListRequest_def Let_def db_WriteMessage)
qed

lemma steps_keep_member:
  assumes "tracker_step\<^sup>*\<^sup>* t t'" and inv: "tracker_inv t" and s: "serving t c se"
    and p: "p \<in> set (peers_of (t_db t))" "FormatInt (p_ID p) = se_daemonID se"
  shows "tracker_inv t' \<and> settled t' c \<and> (\<forall>se'. serving t' c se' \<longrightarrow> se_daemonID se' = se_daemonID se \<and>
    keeps_peer (p_ID p) (tables_of (t_db t)) (tables_of (t_db t')))"
  using assms(1)
proof (induction rule: rtranclp_induct)
  case base
  then show ?case using inv s serving_settled by (auto simp: serving_def)
next
  case (step t1 t2)
  then have 1: "tracker_inv t1" "settled t1 c" by simp_all
  note S = step_keeps_member [OF 1(1) step.hyps(2) 1(2)]
  have "se_daemonID se2 = se_daemonID se \<and> keeps_peer (p_ID p) (tables_of (t_db t)) (tables_of (t_db t2))"
    if s2: "serving t2 c se2" for se2
  proof -
    obtain se1 where se1: "serving t1 c se1" "se_daemonID se2 = se_daemonID se1"
      "\<forall>q \<in> set (peers_of (t_db t1)). FormatInt (p_ID q) = se_daemonID se1 \<longrightarrow>
         keeps_peer (p_ID q) (tables_of (t_db t1)) (tables_of (t_db t2))" using S s2 by blast
    have k: "se_daemonID se1 = se_daemonID se" "keeps_peer (p_ID p) (tables_of (t_db t)) (tables_of (t_db t1))"
      using step.IH se1(1) by auto
    have "p \<in> set (peers_of (t_db t1))" using k(2) p(1) by (auto simp: keeps_peer_def peers_of_def)
    then show ?thesis using se1(2,3) k p(2) keeps_trans by metis
  qed
  then show ?case using tracker_inv_step [OF 1(1) step.hyps(2)] S by blast
qed

section \<open>A daemon that announced is found\<close>

text \<open>C7: how daemons find each other. A daemon announces a file; from then on, whatever the tracker does,
  with whatever failures of statements and of writes in between, for as long as the tracker serves the
  daemon, the answer to any other daemon that asks for the file names it, under the id it was given, and
  never names the daemon that asks.\<close>

theorem announced_daemon_is_found:
  assumes start: "tracker_start s" "tracker_step\<^sup>*\<^sup>* s t" "serving t c se"
    and room: "sched (t_db t) = []" "room_for (length (am_Files m)) (t_db t)" "f \<in> set (am_Files m)"
    and later: "tracker_step\<^sup>*\<^sup>* (handleAnnounce (se_daemonIP se) (se_daemonPort se) m t) t'"
    and still: "serving t' c se'" "serving t' d sd" "d \<noteq> c" "sched (t_db t') = []" "t_wfaults t' = []"
  shows "\<exists>answer. cn_out (t_conns (handlePeerListRequest d (se_daemonIP sd) (se_daemonPort sd)
        \<lparr>plr_FileHash = fi_FileHash f\<rparr> t') ! d) =
      cn_out (t_conns t' ! d) @ [\<lparr>MessageType = Some (NetworkMessage_PeerListResponse answer)\<rparr>] \<and>
    plp_FileHash answer = fi_FileHash f \<and> se_daemonID se \<in> pi_Id ` set (plp_Peers answer) \<and>
    se_daemonID sd \<notin> pi_Id ` set (plp_Peers answer)"
proof -
  have inv: "tracker_inv t" by (rule tracker_system.reachable_inv [OF start(1,2)])
  have ok: "session_ok t c se" using inv start(3) by (simp add: tracker_inv_def)
  then obtain p where p: "p \<in> set (peers_of (t_db t))" "FormatInt (p_ID p) = se_daemonID se"
    "p_IpAddress p = se_daemonIP se" "p_Port p = se_daemonPort se"
    by (auto simp: session_ok_def has_row_def peer_key_def)
  let ?h = "fi_FileHash f" and ?t1 = "handleAnnounce (se_daemonIP se) (se_daemonPort se) m t"
  have inv1: "tracker_inv ?t1" by (rule inv_announce [OF inv])
  have s1: "serving ?t1 c se" using start(3) by (simp add: handleAnnounce_def)
  have listed: "lists_peer p ?h (t_db ?t1)"
    using announce_files_calm [OF tracker_inv_wf [OF inv] room(1,2) p(1) [unfolded peers_of_def], of "int (t_now t)"] room(3) p(3,4)
    by (simp add: handleAnnounce_def)
  then have p1: "p \<in> set (peers_of (t_db ?t1))" by (simp add: lists_peer_def set_select_peers_by_hash peers_of_def)
  have late: "tracker_inv t'" "keeps_peer (p_ID p) (tables_of (t_db ?t1)) (tables_of (t_db t'))"
    "se_daemonID se' = se_daemonID se"
    using steps_keep_member [OF later inv1 s1 p1 p(2)] still(1) by auto
  have listed': "lists_peer p ?h (t_db t')" by (rule keeps_lists [OF late(2) listed])
  then have p': "p \<in> set (peers_of (t_db t'))" by (simp add: lists_peer_def set_select_peers_by_hash peers_of_def)
  have key: "peer_key p = (se_daemonIP se', se_daemonPort se')"
    using daemon_row_key [OF late(1) still(1) p'] p(2) late(3) by simp
  then have other: "\<not> (p_IpAddress p = se_daemonIP sd \<and> p_Port p = se_daemonPort sd)"
    using serving_addr_unique [OF late(1) still(1,2)] still(3) by (auto simp: peer_key_def)
  from peer_list_written [OF still(2,4,5), of "\<lparr>plr_FileHash = ?h\<rparr>"] obtain answer where
    answer: "cn_out (t_conns (handlePeerListRequest d (se_daemonIP sd) (se_daemonPort sd) \<lparr>plr_FileHash = ?h\<rparr> t') ! d) =
      cn_out (t_conns t' ! d) @ [\<lparr>MessageType = Some (NetworkMessage_PeerListResponse answer)\<rparr>]"
    "plp_FileHash answer = ?h" "pi_Id ` set (plp_Peers answer) = {FormatInt (p_ID p) | p. lists_peer p ?h (t_db t') \<and>
      \<not> (p_IpAddress p = se_daemonIP sd \<and> p_Port p = se_daemonPort sd)}" by auto
  have "se_daemonID se \<in> pi_Id ` set (plp_Peers answer)"
    unfolding answer(3) by (rule CollectI) (use listed' other p(2) in \<open>intro exI [of _ p], simp\<close>)
  moreover have "se_daemonID sd \<notin> pi_Id ` set (plp_Peers answer)"
  proof
    assume "se_daemonID sd \<in> pi_Id ` set (plp_Peers answer)"
    then obtain q where "lists_peer q ?h (t_db t')" "FormatInt (p_ID q) = se_daemonID sd"
      "\<not> (p_IpAddress q = se_daemonIP sd \<and> p_Port q = se_daemonPort sd)" unfolding answer(3) by auto
    then show False using daemon_row_key [OF late(1) still(2), of q]
      by (auto simp: lists_peer_def set_select_peers_by_hash peers_of_def peer_key_def)
  qed
  ultimately show ?thesis using answer(1,2) by blast
qed

text \<open>Two daemons, the first announces, the second asks.\<close>

definition sample_pair :: tracker where
  "sample_pair = handshake 1 (accept ''10.0.0.8:4001'' sample_tracker)"

abbreviation sample_first :: session where
  "sample_first \<equiv> \<lparr>se_daemonID = ''3'', se_daemonIP = ''10.0.0.9'', se_daemonPort = ''4000'', se_channels = 0, se_deadline = 10\<rparr>"

abbreviation sample_second :: session where
  "sample_second \<equiv> \<lparr>se_daemonID = ''4'', se_daemonIP = ''10.0.0.8'', se_daemonPort = ''4001'', se_channels = 1, se_deadline = 10\<rparr>"

lemma sample_pair_reachable: "tracker_step\<^sup>*\<^sup>* (NewTracker sample_db []) sample_pair"
proof -
  let ?t = "accept ''10.0.0.8:4001'' sample_tracker"
  have "tracker_step sample_tracker ?t" by (rule tracker_step.accept)
  moreover have "1 < length (t_conns ?t)" "cn_phase (t_conns ?t ! 1) = Accepted" by code_simp+
  then have "tracker_step ?t sample_pair" unfolding sample_pair_def by (rule tracker_step.handshake)
  ultimately show ?thesis using sample_tracker_reachable by (meson rtranclp.rtrancl_into_rtrancl)
qed

lemma sample_pair_serves:
  "serving sample_pair 0 sample_first" "sched (t_db sample_pair) = []"
  "room_for (length (am_Files sample_announce)) (t_db sample_pair)"
  "serving (handleAnnounce ''10.0.0.9'' ''4000'' sample_announce sample_pair) 0 sample_first"
  "serving (handleAnnounce ''10.0.0.9'' ''4000'' sample_announce sample_pair) 1 sample_second"
  "sched (t_db (handleAnnounce ''10.0.0.9'' ''4000'' sample_announce sample_pair)) = []"
  "t_wfaults (handleAnnounce ''10.0.0.9'' ''4000'' sample_announce sample_pair) = []"
  unfolding serving_def room_for_def by code_simp+

theorem announced_daemon_is_found_witness:
  "\<exists>answer. \<lparr>MessageType = Some (NetworkMessage_PeerListResponse answer)\<rparr> \<in>
      set (cn_out (t_conns (handlePeerListRequest 1 ''10.0.0.8'' ''4001'' \<lparr>plr_FileHash = ''new''\<rparr>
        (handleAnnounce ''10.0.0.9'' ''4000'' sample_announce sample_pair)) ! 1)) \<and>
     ''3'' \<in> pi_Id ` set (plp_Peers answer)"
proof -
  let ?f = "\<lparr>fi_FileName = [], fi_FileHash = ''new'', fi_FileSize = 9, fi_TotalChunks = 1, fi_ChunkSize = 32768\<rparr>"
  have f: "?f \<in> set (am_Files sample_announce)" by (simp add: sample_announce_def)
  note later = rtranclp.rtrancl_refl [of tracker_step "handleAnnounce ''10.0.0.9'' ''4000'' sample_announce sample_pair"]
  show ?thesis
    using announced_daemon_is_found [OF sample_start sample_pair_reachable sample_pair_serves(1-3) f, of _ sample_first 1 sample_second]
      later sample_pair_serves(4-7) by fastforce
qed

end
