(* ===== verification/Directory.thy ===== *)
theory Directory
  imports Rendezvous
begin

text \<open>
  The tracker as a directory: what it promises is a map from file hashes to sets of daemon ids, to
  which an announcement adds the announcing daemon, from which a departure takes it, and which nothing
  else changes. The tables, the statements and their failures implement this.
\<close>

section \<open>The specification\<close>

type_synonym directory = "string \<Rightarrow> string set"

text \<open>A daemon joins the swarms of some hashes, or leaves all swarms.\<close>

definition dir_join :: "string \<Rightarrow> string set \<Rightarrow> directory \<Rightarrow> directory" where
  "dir_join i H D = (\<lambda>h. if h \<in> H then insert i (D h) else D h)"

definition dir_leave :: "string \<Rightarrow> directory \<Rightarrow> directory" where
  "dir_leave i D = (\<lambda>h. D h - {i})"

inductive dir_step :: "directory \<Rightarrow> directory \<Rightarrow> bool" where
  stay: "dir_step D D"
| join: "dir_step D (dir_join i H D)"
| leave: "dir_step D (dir_leave i D)"

inductive_cases dir_stepE: "dir_step D D'"

section \<open>The directory in the tables\<close>

definition members :: "sqldb \<Rightarrow> directory" where
  "members db = (\<lambda>h. {FormatInt (p_ID p) | p. lists_peer p h db})"

lemma members_def': "members db h = (\<lambda>p. FormatInt (p_ID p)) ` set (select_peers_by_hash h (tables_of db))"
  by (auto simp: members_def lists_peer_def)

lemma members_cong: "tables_of db' = tables_of db \<Longrightarrow> members db' = members db"
  by (simp add: members_def lists_peer_def)

text \<open>No swarm row refers to an id that has not been given out.\<close>

definition refs_past :: "tables \<Rightarrow> bool" where
  "refs_past t \<longleftrightarrow> (\<forall>s \<in> set (swarms t). s_PeerID s \<le> seq_peers t \<and> s_FileID s \<le> seq_files t)"

lemma past_run_stmt:
  assumes "\<And>fk. refs_past (tables_of c) \<Longrightarrow> refs_past (snd (stmt fk (tables_of c)))" "refs_past (tables_of c)"
  shows "refs_past (tables_of (snd (run_stmt stmt c)))"
  by (cases rule: run_stmt_cases [of stmt c]) (simp_all add: assms)

lemma past_insert_file: "refs_past t \<Longrightarrow> refs_past (snd (insert_file a fk t))"
  by (auto simp: refs_past_def insert_file_def Let_def split: sum.split)

lemma past_insert_peer: "refs_past t \<Longrightarrow> refs_past (snd (insert_peer ip port fk t))"
  by (auto simp: refs_past_def insert_peer_def Let_def split: sum.split)

lemma past_delete_peers: "refs_past t \<Longrightarrow> refs_past (snd (delete_peers pr fk t))"
  by (auto simp: refs_past_def delete_peers_def Let_def)

lemma wf_id_le_seq:
  "wf_tables t \<Longrightarrow> f \<in> set (files t) \<Longrightarrow> f_ID f \<le> seq_files t"
  "wf_tables t \<Longrightarrow> p \<in> set (peers t) \<Longrightarrow> 0 < p_ID p \<and> p_ID p \<le> seq_peers t"
  by (auto simp: wf_tables_def ids_ok_def)

section \<open>What the statements do to the directory\<close>

lemma insert_file_select:
  assumes "refs_past t" shows "set (select_peers_by_hash h (snd (insert_file a fk t))) = set (select_peers_by_hash h t)"
proof -
  let ?row = "\<lparr>f_ID = seq_files t + 1, f_Name = cfp_Name a, f_Size = cfp_Size a, f_MaxChunkSize = cfp_MaxChunkSize a,
    f_TotalChunks = cfp_TotalChunks a, f_Hash = cfp_Hash a, f_CreatedAt = cfp_CreatedAt a\<rparr>"
  have "snd (insert_file a fk t) = t \<or>
      snd (insert_file a fk t) = t\<lparr>files := files t @ [?row], seq_files := seq_files t + 1\<rparr>"
    by (auto simp: insert_file_def Let_def split: sum.split)
  moreover have "s \<in> set (swarms t) \<Longrightarrow> s_FileID s \<noteq> seq_files t + 1" for s using assms by (fastforce simp: refs_past_def)
  ultimately show ?thesis by (elim disjE) (simp, fastforce simp: set_select_peers_by_hash)
qed

lemma insert_peer_select:
  assumes "refs_past t" shows "set (select_peers_by_hash h (snd (insert_peer ip port fk t))) = set (select_peers_by_hash h t)"
proof -
  let ?row = "\<lparr>p_ID = seq_peers t + 1, p_IpAddress = ip, p_Port = port\<rparr>"
  have "snd (insert_peer ip port fk t) = t \<or>
      snd (insert_peer ip port fk t) = t\<lparr>peers := peers t @ [?row], seq_peers := seq_peers t + 1\<rparr>"
    by (auto simp: insert_peer_def Let_def split: sum.split)
  moreover have "s \<in> set (swarms t) \<Longrightarrow> s_PeerID s \<noteq> seq_peers t + 1" for s using assms by (fastforce simp: refs_past_def)
  ultimately show ?thesis by (elim disjE) (simp, fastforce simp: set_select_peers_by_hash)
qed

lemma delete_peers_select:
  assumes "wf_tables t"
  shows "set (select_peers_by_hash h (snd (delete_peers pr fk t))) = {p \<in> set (select_peers_by_hash h t). \<not> pr p}"
proof -
  have "s_PeerID s \<notin> p_ID ` {p \<in> set (peers t). pr p}" if "p \<in> set (peers t)" "\<not> pr p" "s_PeerID s = p_ID p" for p s
    using that wf_peer_id_unique [OF assms] by auto
  then show ?thesis by (auto simp: set_select_peers_by_hash delete_peers_def Let_def)
qed

lemma insert_swarm_select:
  assumes "insert_swarm p f fk t = (r, t')"
  shows "(\<exists>e. r = Inl e) \<and> t' = t \<or> peers t' = peers t \<and> files t' = files t \<and> seq_peers t' = seq_peers t \<and>
    seq_files t' = seq_files t \<and> (\<exists>row. s_PeerID row = p \<and> s_FileID row = f \<and> swarms t' = swarms t @ [row])"
  using assms by (auto simp: insert_swarm_def Let_def split: if_splits sum.splits)

text \<open>The daemon's own row and the file row of the hash are the only ones AddPeerToSwarm joins.\<close>

lemma add_peer_tables:
  assumes wt: "wf_tables t" and p: "p \<in> set (peers t)"
    and t'_def: "t' = snd (add_peer_to_swarm (p_IpAddress p) (p_Port p) h fk t)"
  shows "t' = t \<or> (\<exists>f row. f \<in> set (files t) \<and> f_Hash f = h \<and> s_PeerID row = p_ID p \<and> s_FileID row = f_ID f \<and>
    peers t' = peers t \<and> files t' = files t \<and> seq_peers t' = seq_peers t \<and> seq_files t' = seq_files t \<and>
    swarms t' = swarms t @ [row])"
proof (cases "select_file_by_hash h t")
  case Nil
  then show ?thesis using select_peer_row [OF wt p] by (simp add: t'_def add_peer_to_swarm_def select_peer_file_def)
next
  case (Cons f fs)
  then have f: "f \<in> set (files t)" "f_Hash f = h"
    by (simp_all add: select_file_by_hash_def) (metis (mono_tags, lifting) filter_eq_Cons_iff in_set_conv_decomp)+
  have "select_peer_file (p_IpAddress p) (p_Port p) h t = [(p_ID p, f_ID f)]"
    using select_peer_row [OF wt p] select_file_unique [OF wt f(1)] f(2) by (simp add: select_peer_file_def)
  then have t': "t' = snd (insert_swarms [(p_ID p, f_ID f)] fk t)" by (simp add: t'_def add_peer_to_swarm_def)
  obtain r u where s: "insert_swarm (p_ID p) (f_ID f) fk t = (r, u)" by (cases "insert_swarm (p_ID p) (f_ID f) fk t")
  then have "t' = (if \<exists>e. r = Inl e then t else u)" by (cases r) (simp_all add: t')
  then show ?thesis using insert_swarm_select [OF s] f by auto
qed

lemma members_same:
  "(\<And>h. set (select_peers_by_hash h (tables_of db')) = set (select_peers_by_hash h (tables_of db))) \<Longrightarrow> members db' = members db"
  by (simp add: members_def lists_peer_def)

lemma members_CreateFile:
  assumes past: "refs_past (tables_of c)"
  shows "members (snd (FileStore_CreateFile now n s m k h c)) = members c \<and>
    refs_past (tables_of (snd (FileStore_CreateFile now n s m k h c)))"
proof -
  obtain r c1 where g: "Q_GetFileByHash h c = (r, c1)" by (cases "Q_GetFileByHash h c")
  have c1: "tables_of c1 = tables_of c"
    using run_query_tables g unfolding Q_GetFileByHash_def by blast
  have q: "members (snd (Q_CreateFile a c1)) = members c \<and> refs_past (tables_of (snd (Q_CreateFile a c1)))" for a
  proof (cases rule: run_stmt_cases [of "insert_file a" c1])
    case (fault d)
    then have "tables_of (snd (Q_CreateFile a c1)) = tables_of c" by (simp add: Q_CreateFile_def c1)
    then show ?thesis using past members_cong [of "snd (Q_CreateFile a c1)" c] by simp
  next
    case (ran fk d)
    then have t: "tables_of (snd (Q_CreateFile a c1)) = snd (insert_file a fk (tables_of c))" by (simp add: Q_CreateFile_def c1)
    have "members (snd (Q_CreateFile a c1)) = members c" by (rule members_same) (simp only: t insert_file_select [OF past])
    then show ?thesis using past_insert_file [OF past] t by simp
  qed
  have q': "members c2 = members c \<and> refs_past (tables_of c2)" if "Q_CreateFile a c1 = (r', c2)" for a r' c2
    using q [of a] that by simp
  have "refs_past (tables_of c1)" using c1 past by simp
  with q' members_cong [OF c1] show ?thesis
    by (simp add: FileStore_CreateFile_def g split: sum.split prod.split)
qed

lemma select_with_row:
  assumes "peers t' = peers t" "files t' = files t" "swarms t' = swarms t @ [row]"
  shows "q \<in> set (select_peers_by_hash k t') \<longleftrightarrow> q \<in> set (select_peers_by_hash k t) \<or>
    q \<in> set (peers t) \<and> (\<exists>g \<in> set (files t). s_PeerID row = p_ID q \<and> s_FileID row = f_ID g \<and> f_Hash g = k)"
  using assms by (auto simp: set_select_peers_by_hash)

lemma members_AddPeer:
  assumes wf: "wf_db c" and past: "refs_past (tables_of c)" and p: "p \<in> set (peers_of c)"
    and c'_def: "c' = snd (PeerStore_AddPeerToSwarm (p_IpAddress p) (p_Port p) h c)"
  shows "(members c' = members c \<or> members c' = dir_join (FormatInt (p_ID p)) {h} (members c)) \<and> refs_past (tables_of c')"
proof (cases rule: run_stmt_cases [of "add_peer_to_swarm (p_IpAddress p) (p_Port p) h" c])
  case (fault d)
  then have "tables_of c' = tables_of c" by (simp add: c'_def PeerStore_AddPeerToSwarm_def Q_AddPeerToSwarm_def)
  then show ?thesis using past members_cong [of c' c] by simp
next
  case (ran fk d)
  let ?t = "tables_of c"
  have wt: "wf_tables ?t" and pt: "p \<in> set (peers ?t)" using wf p by (simp_all add: wf_db_def peers_of_def)
  have t': "tables_of c' = snd (add_peer_to_swarm (p_IpAddress p) (p_Port p) h fk ?t)"
    using ran by (simp add: c'_def PeerStore_AddPeerToSwarm_def Q_AddPeerToSwarm_def)
  show ?thesis
  proof (cases "tables_of c' = ?t")
    case True
    then show ?thesis using past members_cong [of c' c] by simp
  next
    case False
    then obtain f row where f: "f \<in> set (files ?t)" "f_Hash f = h" "s_PeerID row = p_ID p" "s_FileID row = f_ID f"
      "peers (tables_of c') = peers ?t" "files (tables_of c') = files ?t" "seq_peers (tables_of c') = seq_peers ?t"
      "seq_files (tables_of c') = seq_files ?t" "swarms (tables_of c') = swarms ?t @ [row]"
      using add_peer_tables [OF wt pt t'] by blast
    have one: "g \<in> set (files ?t) \<Longrightarrow> f_ID g = f_ID f \<Longrightarrow> g = f" "q \<in> set (peers ?t) \<Longrightarrow> p_ID q = p_ID p \<Longrightarrow> q = p" for g q
      using wf_file_id_unique [OF wt _ f(1)] wf_peer_id_unique [OF wt _ pt] by auto
    have row: "s_PeerID row = p_ID q \<and> s_FileID row = f_ID g \<and> f_Hash g = k \<longleftrightarrow> q = p \<and> g = f \<and> k = h"
      if "g \<in> set (files ?t)" "q \<in> set (peers ?t)" for g q k
      using one(1) [OF that(1)] one(2) [OF that(2)] f(2-4) by metis
    have "q \<in> set (select_peers_by_hash k (tables_of c')) \<longleftrightarrow> q \<in> set (select_peers_by_hash k ?t) \<or> k = h \<and> q = p" for k q
      unfolding select_with_row [OF f(5,6,9)] using row f(1) pt by metis
    then have "set (select_peers_by_hash k (tables_of c')) = set (select_peers_by_hash k ?t) \<union> (if k = h then {p} else {})" for k
      by auto
    then have "members c' k = (if k = h then insert (FormatInt (p_ID p)) (members c k) else members c k)" for k
      by (simp add: members_def')
    moreover have "refs_past (tables_of c')"
      using past f wf_id_le_seq(1) [OF wt f(1)] wf_id_le_seq(2) [OF wt pt] by (auto simp: refs_past_def)
    ultimately show ?thesis by (auto simp: dir_join_def)
  qed
qed

lemma dir_join_empty [simp]: "dir_join i {} D = D"
  by (simp add: dir_join_def)

lemma dir_join_join: "dir_join i H (dir_join i K D) = dir_join i (H \<union> K) D"
  by (rule ext) (simp add: dir_join_def)

lemma members_announce:
  assumes "wf_db c" "refs_past (tables_of c)" "p \<in> set (peers_of c)"
  shows "\<exists>H \<subseteq> fi_FileHash ` set fs. members (announce_files now (p_IpAddress p) (p_Port p) fs c) =
      dir_join (FormatInt (p_ID p)) H (members c) \<and>
    refs_past (tables_of (announce_files now (p_IpAddress p) (p_Port p) fs c))"
  using assms
proof (induction fs arbitrary: c)
  case (Cons f fs)
  let ?h = "fi_FileHash f" and ?i = "FormatInt (p_ID p)"
  obtain r c1 where c: "FileStore_CreateFile now (fi_FileName f) (fi_FileSize f) (fi_ChunkSize f) (fi_TotalChunks f) ?h c = (r, c1)"
    by (cases "FileStore_CreateFile now (fi_FileName f) (fi_FileSize f) (fi_ChunkSize f) (fi_TotalChunks f) ?h c")
  obtain r2 c2 where a: "PeerStore_AddPeerToSwarm (p_IpAddress p) (p_Port p) ?h c1 = (r2, c2)"
    by (cases "PeerStore_AddPeerToSwarm (p_IpAddress p) (p_Port p) ?h c1")
  have c1: "wf_db c1" "refs_past (tables_of c1)" "p \<in> set (peers_of c1)" "members c1 = members c"
    using CreateFile_wf [OF Cons.prems(1)] members_CreateFile [OF Cons.prems(2)] CreateFile_peers Cons.prems(3) c by (metis snd_conv)+
  have c2: "wf_db c2" "refs_past (tables_of c2)" "p \<in> set (peers_of c2)"
    "members c2 = members c1 \<or> members c2 = dir_join ?i {?h} (members c1)"
    using Q_AddPeerToSwarm_wf [OF c1(1), of "p_IpAddress p" "p_Port p" ?h] members_AddPeer [OF c1(1-3) refl, of ?h]
      AddPeerToSwarm_peers [of "p_IpAddress p" "p_Port p" ?h c1] c1(3) a by (simp_all add: PeerStore_AddPeerToSwarm_def)
  show ?case
  proof (cases r)
    case (Inl e)
    then show ?thesis using Cons.IH [OF c1(1-3)] c c1(4) by (auto simp: Let_def)
  next
    case (Inr x)
    obtain H where H: "H \<subseteq> fi_FileHash ` set fs"
      "members (announce_files now (p_IpAddress p) (p_Port p) fs c2) = dir_join ?i H (members c2)"
      "refs_past (tables_of (announce_files now (p_IpAddress p) (p_Port p) fs c2))"
      using Cons.IH [OF c2(1-3)] by blast
    have run: "announce_files now (p_IpAddress p) (p_Port p) (f # fs) c = announce_files now (p_IpAddress p) (p_Port p) fs c2"
      using Inr c a by (cases x) (simp add: Let_def)
    from c2(4) show ?thesis
    proof
      assume "members c2 = members c1"
      then show ?thesis using H c1(4) unfolding run by (intro exI [of _ H]) auto
    next
      assume "members c2 = dir_join ?i {?h} (members c1)"
      then show ?thesis using H c1(4) unfolding run
        by (intro exI [of _ "H \<union> {?h}"]) (auto simp: dir_join_join)
    qed
  qed
qed (auto intro: exI [of _ "{}"])

lemma members_CreatePeer:
  assumes past: "refs_past (tables_of c)"
  shows "members (snd (PeerStore_CreatePeer ip port c)) = members c \<and> refs_past (tables_of (snd (PeerStore_CreatePeer ip port c)))"
proof -
  have "snd (PeerStore_CreatePeer ip port c) = snd (Q_CreatePeer ip port c)"
    by (auto simp: PeerStore_CreatePeer_def split: prod.split sum.split)
  moreover have "members (snd (Q_CreatePeer ip port c)) = members c \<and> refs_past (tables_of (snd (Q_CreatePeer ip port c)))"
  proof (cases rule: run_stmt_cases [of "insert_peer ip port" c])
    case (fault d)
    then have "tables_of (snd (Q_CreatePeer ip port c)) = tables_of c" by (simp add: Q_CreatePeer_def)
    then show ?thesis using past members_cong [of "snd (Q_CreatePeer ip port c)" c] by simp
  next
    case (ran fk d)
    then have t: "tables_of (snd (Q_CreatePeer ip port c)) = snd (insert_peer ip port fk (tables_of c))" by (simp add: Q_CreatePeer_def)
    have "members (snd (Q_CreatePeer ip port c)) = members c" by (rule members_same) (simp only: t insert_peer_select [OF past])
    then show ?thesis using past_insert_peer [OF past] t by simp
  qed
  ultimately show ?thesis by simp
qed

lemma row_ids_inject:
  assumes wf: "wf_db c" "last_id c \<le> max_int64" and "p \<in> set (peers_of c)" "q \<in> set (peers_of c)"
  shows "FormatInt (p_ID p) = FormatInt (p_ID q) \<longleftrightarrow> p = q"
proof
  assume eq: "FormatInt (p_ID p) = FormatInt (p_ID q)"
  have wt: "wf_tables (tables_of c)" using wf(1) by (simp add: wf_db_def)
  have bound: "0 < p_ID r \<and> p_ID r < 2 ^ 63" if "r \<in> set (peers_of c)" for r
    using wf_id_le_seq(2) [OF wt, of r] that wf(2) by (auto simp: peers_of_def last_id_def max_int64_def)
  have "p_ID p = p_ID q" using eq bound [OF assms(3)] bound [OF assms(4)] by (intro FormatInt_inj) auto
  then show "p = q" using wf_peer_id_unique [OF wt] assms(3,4) by (simp add: peers_of_def)
qed simp

lemma members_DeletePeer:
  assumes wf: "wf_db c" "last_id c \<le> max_int64" and past: "refs_past (tables_of c)" and p: "p \<in> set (peers_of c)"
    and c'_def: "c' = snd (PeerStore_DeletePeer (p_IpAddress p) (p_Port p) c)"
  shows "(members c' = members c \<or> members c' = dir_leave (FormatInt (p_ID p)) (members c)) \<and> refs_past (tables_of c')"
proof (cases rule: run_stmt_cases [of "delete_peers (\<lambda>q. p_IpAddress q = p_IpAddress p \<and> p_Port q = p_Port p)" c])
  case (fault d)
  then have "tables_of c' = tables_of c" by (simp add: c'_def PeerStore_DeletePeer_def Q_DeletePeerByIPPort_def)
  then show ?thesis using past members_cong [of c' c] by simp
next
  case (ran fk d)
  have wt: "wf_tables (tables_of c)" using wf(1) by (simp add: wf_db_def)
  have t': "tables_of c' = snd (delete_peers (\<lambda>q. p_IpAddress q = p_IpAddress p \<and> p_Port q = p_Port p) fk (tables_of c))"
    using ran by (simp add: c'_def PeerStore_DeletePeer_def Q_DeletePeerByIPPort_def)
  have key: "p_IpAddress q = p_IpAddress p \<and> p_Port q = p_Port p \<longleftrightarrow> FormatInt (p_ID q) = FormatInt (p_ID p)"
    if "q \<in> set (select_peers_by_hash h (tables_of c))" for q h
  proof -
    have q: "q \<in> set (peers_of c)" using that by (simp add: set_select_peers_by_hash peers_of_def)
    have "distinct (map peer_key (peers_of c))" using wt by (simp add: wf_tables_def peers_of_def)
    from distinct_map_unique [OF this q p] show ?thesis using row_ids_inject [OF wf q p] by (auto simp: peer_key_def)
  qed
  have "members c' h = members c h - {FormatInt (p_ID p)}" for h
    unfolding members_def' t' delete_peers_select [OF wt] using key by auto
  then show ?thesis using past_delete_peers [OF past] t' by (auto simp: dir_leave_def)
qed

section \<open>The tracker implements the directory\<close>

text \<open>What a step of the tracker does to its tables.\<close>

lemma step_db:
  assumes "tracker_step t t'"
  obtains (same) "tables_of (t_db t') = tables_of (t_db t)"
  | (greets) ip port where "t_db t' = snd (PeerStore_CreatePeer ip port (t_db t))"
  | (leaves) c se where "serving t c se" "\<And>se'. \<not> serving t' c se'"
      "t_db t' = snd (PeerStore_DeletePeer (se_daemonIP se) (se_daemonPort se) (t_db t))"
  | (announces) c se m ms where "serving t c se" "AnnounceCh (channels_of t se) = m # ms"
      "t_db t' = announce_files (int (t_now t)) (se_daemonIP se) (se_daemonPort se) (am_Files m) (t_db t)"
  using assms
proof cases
  case (handshake cid)
  show thesis
  proof (cases "SplitHostPort (cn_addr (t_conns t ! cid))")
    case None
    then show thesis using handshake same by (simp add: handshake_def)
  next
    case (Some a)
    obtain ip port where a: "a = (ip, port)" by (cases a)
    obtain r d where cp: "PeerStore_CreatePeer ip port (t_db t) = (r, d)" by (cases "PeerStore_CreatePeer ip port (t_db t)")
    have "t_db t' = d"
    proof (cases r)
      case (Inl e)
      then show ?thesis using handshake Some a cp by (simp add: handshake_def)
    next
      case (Inr pid)
      let ?msg = "\<lparr>MessageType = Some (NetworkMessage_Id \<lparr>idm_Id = pid\<rparr>)\<rparr>"
      obtain b t1 where w: "tr_WriteMessage cid ?msg (t\<lparr>t_db := d\<rparr>) = (b, t1)" by (cases "tr_WriteMessage cid ?msg (t\<lparr>t_db := d\<rparr>)")
      then have "t_db t1 = d" using tr_WriteMessage_phase by fastforce
      then show ?thesis using handshake Some a cp Inr w by (cases b) (simp_all add: handshake_def Let_def split: option.split)
    qed
    then show thesis using greets cp by (metis snd_conv)
  qed
next
  case (timeout cid se)
  have "cid < length (t_conns t)" using timeout(2) by (simp add: serving_def)
  then show thesis using timeout leaves [of cid se] by (simp add: on_timeout_def Let_def serving_set_phase)
next
  case (goodbye cid se m ms)
  have "cid < length (t_conns t)" using goodbye(2) by (simp add: serving_def)
  then show thesis using goodbye leaves [of cid se] by (simp add: on_goodbye_def Let_def serving_set_phase)
next
  case (announce cid se m ms)
  then show thesis using announces [of cid se m ms] by (simp add: handleAnnounce_def take_from_def)
next
  case (peer_list cid se m ms)
  let ?t = "take_from se (\<lambda>ch. ch\<lparr>PeerListRequestCh := ms\<rparr>) t"
  obtain r d where q: "PeerStore_GetPeersByFileHash (PeerListRequest_GetFileHash (Some m)) (t_db t) = (r, d)"
    by (cases "PeerStore_GetPeersByFileHash (PeerListRequest_GetFileHash (Some m)) (t_db t)")
  have "tables_of d = tables_of (t_db t)"
    using run_query_tables q unfolding PeerStore_GetPeersByFileHash_def Q_GetPeersByFileHash_def by blast
  then show thesis using peer_list(1) q same by (cases r) (auto simp: handlePeerListRequest_def Let_def)
qed (use same in \<open>auto simp: receive_def forwardSignal_def on_heartbeat_def Let_def split: option.splits\<close>)

lemma session_row:
  assumes "tracker_inv t" "serving t c se"
  obtains p where "p \<in> set (peers_of (t_db t))" "FormatInt (p_ID p) = se_daemonID se" "p_IpAddress p = se_daemonIP se"
    "p_Port p = se_daemonPort se"
proof -
  have "session_ok t c se" using assms by (simp add: tracker_inv_def)
  then show thesis using that by (auto simp: session_ok_def has_row_def peer_key_def)
qed

text \<open>Every step is a step of the specification, by the daemon that took it.\<close>

lemma step_directory:
  assumes inv: "tracker_inv t" "refs_past (tables_of (t_db t))" and step: "tracker_step t t'"
  shows "refs_past (tables_of (t_db t')) \<and> (members (t_db t') = members (t_db t) \<or>
    (\<exists>c se m ms H. serving t c se \<and> AnnounceCh (channels_of t se) = m # ms \<and> H \<subseteq> fi_FileHash ` set (am_Files m) \<and>
       members (t_db t') = dir_join (se_daemonID se) H (members (t_db t))) \<or>
    (\<exists>c se. serving t c se \<and> (\<forall>se'. \<not> serving t' c se') \<and>
       members (t_db t') = dir_leave (se_daemonID se) (members (t_db t))))"
  using step
proof (cases rule: step_db)
  case same
  then show ?thesis using inv(2) members_cong [of "t_db t'" "t_db t"] by simp
next
  case (greets ip port)
  then show ?thesis using members_CreatePeer [OF inv(2)] by simp
next
  case (leaves c se)
  obtain p where p: "p \<in> set (peers_of (t_db t))" "FormatInt (p_ID p) = se_daemonID se" "p_IpAddress p = se_daemonIP se"
    "p_Port p = se_daemonPort se" by (rule session_row [OF inv(1) leaves(1)])
  have "wf_db (t_db t)" "last_id (t_db t) \<le> max_int64" using inv(1) by (simp_all add: tracker_inv_def)
  from members_DeletePeer [OF this inv(2) p(1), of "t_db t'"] have
    "refs_past (tables_of (t_db t'))" "members (t_db t') = members (t_db t) \<or>
      members (t_db t') = dir_leave (se_daemonID se) (members (t_db t))" unfolding p(2-4) using leaves(3) by blast+
  then show ?thesis using leaves(1,2) by blast
next
  case (announces c se m ms)
  obtain p where p: "p \<in> set (peers_of (t_db t))" "FormatInt (p_ID p) = se_daemonID se" "p_IpAddress p = se_daemonIP se"
    "p_Port p = se_daemonPort se" by (rule session_row [OF inv(1) announces(1)])
  from members_announce [OF tracker_inv_wf [OF inv(1)] inv(2) p(1), of "am_Files m" "int (t_now t)"] obtain H where
    "H \<subseteq> fi_FileHash ` set (am_Files m)" "members (t_db t') = dir_join (se_daemonID se) H (members (t_db t))"
    "refs_past (tables_of (t_db t'))" unfolding p(2-4) announces(3) by blast
  then show ?thesis using announces(1,2) by blast
qed

definition directory_inv :: "tracker \<Rightarrow> bool" where
  "directory_inv t \<longleftrightarrow> tracker_inv t \<and> refs_past (tables_of (t_db t))"

definition directory_start :: "tracker \<Rightarrow> bool" where
  "directory_start t \<longleftrightarrow> tracker_start t \<and> refs_past (tables_of (t_db t))"

interpretation tracker_directory:
  refinement directory_start tracker_step directory_inv "\<lambda>t. members (t_db t)" dir_step
proof unfold_locales
  fix t t' assume i: "directory_inv t" and step: "tracker_step t t'"
  then have inv: "tracker_inv t" "refs_past (tables_of (t_db t))" by (simp_all add: directory_inv_def)
  note S = step_directory [OF inv step]
  show "directory_inv t'" using tracker_inv_step [OF inv(1) step] S by (simp add: directory_inv_def)
  show "dir_step (members (t_db t)) (members (t_db t'))"
    using S by (elim conjE disjE exE) (simp_all add: dir_step.intros)
qed (simp add: directory_start_def directory_inv_def tracker_inv_start)

text \<open>C6: the tracker as a directory, whatever statements and writes fail. Seen through its tables as a map from
  hashes to the ids of the daemons in their swarms, every step of a tracker that ran from its start leaves the
  map alone, or adds a daemon it serves to the swarms of hashes of the announcement it took from that daemon,
  or takes a daemon that it stops serving from all swarms; no step does anything to another daemon.
  So every run is a run of the specification.\<close>

theorem tracker_refines_directory:
  assumes start: "directory_start s" "tracker_step\<^sup>*\<^sup>* s t" and step: "tracker_step t t'"
  shows "dir_step\<^sup>*\<^sup>* (members (t_db s)) (members (t_db t)) \<and> (members (t_db t') = members (t_db t) \<or>
    (\<exists>c se m ms H. serving t c se \<and> AnnounceCh (channels_of t se) = m # ms \<and> H \<subseteq> fi_FileHash ` set (am_Files m) \<and>
       members (t_db t') = dir_join (se_daemonID se) H (members (t_db t))) \<or>
    (\<exists>c se. serving t c se \<and> (\<forall>se'. \<not> serving t' c se') \<and>
       members (t_db t') = dir_leave (se_daemonID se) (members (t_db t))))"
proof -
  have inv: "directory_inv s" "directory_inv t"
    using tracker_directory.start_inv tracker_directory.reachable_inv start by blast+
  then have "tracker_inv t" "refs_past (tables_of (t_db t))" by (simp_all add: directory_inv_def)
  from step_directory [OF this step] tracker_directory.runs_simulate [OF start(2) inv(1)] show ?thesis by blast
qed

text \<open>The first of two daemons announces a file.\<close>

definition sample_news :: tracker where
  "sample_news = receive 0 (NetworkMessage_Announce sample_announce) sample_pair"

lemma sample_news_reachable: "tracker_step\<^sup>*\<^sup>* (NewTracker sample_db []) sample_news"
proof -
  have "0 < length (t_conns sample_pair)" by code_simp
  then have "tracker_step sample_pair sample_news" unfolding sample_news_def by (rule tracker_step.receive)
  then show ?thesis using sample_pair_reachable by (rule rtranclp.rtrancl_into_rtrancl [rotated])
qed

lemma sample_directory: "directory_start (NewTracker sample_db [])"
proof -
  have "refs_past (tables_of (t_db (NewTracker sample_db [])))" unfolding refs_past_def by code_simp
  then show ?thesis using sample_start by (simp add: directory_start_def)
qed

lemma sample_news_steps: "\<exists>t. tracker_step sample_news t \<and> ''3'' \<in> members (t_db t) ''new'' \<and>
    ''3'' \<notin> members (t_db sample_news) ''new''"
proof -
  have "serving sample_news 0 sample_first" "AnnounceCh (channels_of sample_news sample_first) = sample_announce # []"
    unfolding serving_def by code_simp+
  note step = tracker_step.announce [OF this]
  show ?thesis by (rule exI, rule conjI [OF step]) (unfold members_def', code_simp)
qed

theorem tracker_refines_directory_witness:
  "\<exists>t. tracker_step sample_news t \<and> members (t_db t) \<noteq> members (t_db sample_news) \<and>
    dir_step\<^sup>*\<^sup>* (members sample_db) (members (t_db sample_news))"
  using sample_news_steps tracker_refines_directory [OF sample_directory sample_news_reachable]
  by (force simp: NewTracker_def)

end
