(* ===== verification/Opening.thy ===== *)
theory Opening
  imports Store
begin

text \<open>
  internal/db/connection.go, internal/db/db.go and the two NewDB functions: a database file on disk, the pool of
  connections database/sql keeps on it, and what a statement meets there. The other theories work on
  \<open>sqldb\<close>, tables with a schedule of slots; here the slots come from the pool.
\<close>

section \<open>Database files\<close>

text \<open>A database file: the tables and indexes that exist in it, and its rows. A file that is absent counts as new.\<close>

record db_file =
  df_objects :: "string list"
  df_tables :: tables

type_synonym disk = "(string, db_file) gomap"

definition new_file :: db_file where
  "new_file = \<lparr>df_objects = [], df_tables = empty_tables\<rparr>"

definition file_at :: "string \<Rightarrow> disk \<Rightarrow> db_file" where
  "file_at path d = (case mget d path of None \<Rightarrow> new_file | Some f \<Rightarrow> f)"

text \<open>The statements of schema.sql, by the object each creates when it does not exist.\<close>

definition schema :: "string list" where
  "schema = [''files'', ''chunks'', ''peers'', ''swarms'', ''idx_files_hash'', ''idx_chunks_file_id'',
     ''idx_chunks_file_id_index'', ''idx_peers_ip_port'', ''idx_swarms_file_id'', ''idx_swarms_peer_id'']"

definition create_if_not_exists :: "string \<Rightarrow> db_file \<Rightarrow> db_file" where
  "create_if_not_exists x f = (if x \<in> set (df_objects f) then f else f\<lparr>df_objects := df_objects f @ [x]\<rparr>)"

text \<open>The statements run in turn; \<open>k\<close> of them before the engine fails.\<close>

definition run_schema :: "nat \<Rightarrow> db_file \<Rightarrow> bool \<times> db_file" where
  "run_schema k f = (length schema \<le> k, fold create_if_not_exists (take k schema) f)"

section \<open>The pool\<close>

text \<open>
  The pool: for every connection it has opened whether foreign keys are enforced on it (off on a new SQLite
  connection), the rows the connections share, and for the statements to come whether the driver fails or
  which connection is idle; a number that no connection has makes the pool open another one.
\<close>

datatype pick = DriverFails | Idle nat

record sql_pool =
  pl_path :: string
  pl_conns :: "bool list"
  pl_tables :: tables
  pl_picks :: "pick list"

definition on_conn :: "nat \<Rightarrow> bool list \<Rightarrow> bool \<times> bool list" where
  "on_conn i conns = (if i < length conns then (conns ! i, conns) else (False, conns @ [False]))"

definition next_pick :: "sql_pool \<Rightarrow> pick \<times> sql_pool" where
  "next_pick p = (case pl_picks p of [] \<Rightarrow> (Idle 0, p) | x # xs \<Rightarrow> (x, p\<lparr>pl_picks := xs\<rparr>))"

definition pool_stmt ::
  "(bool \<Rightarrow> tables \<Rightarrow> 'a sql_result \<times> tables) \<Rightarrow> sql_pool \<Rightarrow> 'a sql_result \<times> sql_pool" where
  "pool_stmt stmt p =
     (case next_pick p of
        (DriverFails, p') \<Rightarrow> (Inl DriverError, p')
      | (Idle i, p') \<Rightarrow>
          (case on_conn i (pl_conns p') of (fk, conns) \<Rightarrow>
             (case stmt fk (pl_tables p') of (r, t) \<Rightarrow> (r, p'\<lparr>pl_conns := conns, pl_tables := t\<rparr>))))"

section \<open>Open and NewDB\<close>

datatype open_error = OpeningDatabase | EnablingForeignKeys | RunningMigrations

text \<open>What the environment does: sql.Open and the PRAGMA succeed or not, the pick for the schema, how far it runs,
  and the picks of the statements after it.\<close>

record open_env =
  oe_opens :: bool
  oe_pragma :: bool
  oe_schema_on :: nat
  oe_schema :: nat
  oe_picks :: "pick list"

definition Open :: "string \<Rightarrow> open_env \<Rightarrow> disk \<Rightarrow> (open_error + sql_pool) \<times> disk" where
  "Open path env d =
     (if \<not> oe_opens env then (Inl OpeningDatabase, d)
      else if \<not> oe_pragma env then (Inl EnablingForeignKeys, d)
      else (case on_conn (oe_schema_on env) [True] of (fk, conns) \<Rightarrow>
        (case run_schema (oe_schema env) (file_at path d) of (ok, f) \<Rightarrow>
          (if \<not> ok then Inl RunningMigrations
           else Inr \<lparr>pl_path = path, pl_conns = conns, pl_tables = df_tables f, pl_picks = oe_picks env\<rparr>,
           mput path f d))))"

definition client_NewDB :: "string \<Rightarrow> open_env \<Rightarrow> disk \<Rightarrow> (open_error + sql_pool) \<times> disk" where
  "client_NewDB index = Open (''client-'' @ index @ ''.sqlite3'')"

definition tracker_NewDB :: "open_env \<Rightarrow> disk \<Rightarrow> (open_error + sql_pool) \<times> disk" where
  "tracker_NewDB = Open ''tracker.sqlite3''"

text \<open>What the process leaves on disk, however it ends: the rows its statements wrote.\<close>

definition written_back :: "string \<Rightarrow> tables \<Rightarrow> disk \<Rightarrow> disk" where
  "written_back path t d = mput path ((file_at path d)\<lparr>df_tables := t\<rparr>) d"

section \<open>Migrations\<close>

lemma create_tables [simp]: "df_tables (create_if_not_exists x f) = df_tables f"
  by (simp add: create_if_not_exists_def)

lemma create_objects: "set (df_objects (create_if_not_exists x f)) = insert x (set (df_objects f))"
  by (auto simp: create_if_not_exists_def)

lemma fold_create:
  "df_tables (fold create_if_not_exists xs f) = df_tables f"
  "set (df_objects (fold create_if_not_exists xs f)) = set xs \<union> set (df_objects f)"
  by (induction xs arbitrary: f) (simp_all add: create_objects)

lemma fold_create_existing: "set xs \<subseteq> set (df_objects f) \<Longrightarrow> fold create_if_not_exists xs f = f"
  by (induction xs) (auto simp: create_if_not_exists_def)

lemma run_schema_effect:
  "df_tables (snd (run_schema k f)) = df_tables f" "set (df_objects f) \<subseteq> set (df_objects (snd (run_schema k f)))"
  "fst (run_schema k f) \<Longrightarrow> set schema \<subseteq> set (df_objects (snd (run_schema k f)))"
  by (auto simp: run_schema_def fold_create)

lemma file_at_mput [simp]: "file_at p (mput q f d) = (if p = q then f else file_at p d)"
  by (simp add: file_at_def)

section \<open>The pool implements the statements of the other theories\<close>

text \<open>The slots of the statements to come.\<close>

fun slots :: "pick list \<Rightarrow> bool list \<Rightarrow> slot list" where
  "slots [] conns = []"
| "slots (DriverFails # ps) conns = DriverFault # slots ps conns"
| "slots (Idle i # ps) conns = (case on_conn i conns of (fk, conns') \<Rightarrow> OnConn fk # slots ps conns')"

definition sqldb_of :: "sql_pool \<Rightarrow> sqldb" where
  "sqldb_of p = \<lparr>tables_of = pl_tables p, sched = slots (pl_picks p) (pl_conns p)\<rparr>"

text \<open>The first connection is the one the PRAGMA ran on.\<close>

definition pool_ok :: "sql_pool \<Rightarrow> bool" where
  "pool_ok p \<longleftrightarrow> pl_conns p \<noteq> [] \<and> pl_conns p ! 0 \<and> (\<forall>i < length (pl_conns p). 0 < i \<longrightarrow> \<not> pl_conns p ! i)"

lemma on_conn_ok:
  assumes "conns \<noteq> []" "conns ! 0" "\<forall>i < length conns. 0 < i \<longrightarrow> \<not> conns ! i" "on_conn i conns = (fk, conns')"
  shows "conns' \<noteq> [] \<and> conns' ! 0 \<and> (\<forall>i < length conns'. 0 < i \<longrightarrow> \<not> conns' ! i) \<and> (fk \<longleftrightarrow> i = 0)"
  using assms by (cases i) (auto simp: on_conn_def nth_append less_Suc_eq split: if_splits)

lemma pool_stmt_refines:
  assumes ok: "pool_ok p" and run: "pool_stmt stmt p = (r, p')"
  shows "run_stmt stmt (sqldb_of p) = (r, sqldb_of p') \<and> pool_ok p'"
proof (cases "pl_picks p")
  case Nil
  then have c: "on_conn 0 (pl_conns p) = (True, pl_conns p)" using ok by (simp add: pool_ok_def on_conn_def)
  obtain r1 t1 where s: "stmt True (pl_tables p) = (r1, t1)" by (cases "stmt True (pl_tables p)")
  show ?thesis using ok run Nil c s
    by (auto simp: pool_stmt_def next_pick_def run_stmt_def next_slot_def sqldb_of_def pool_ok_def)
next
  case (Cons x xs)
  show ?thesis
  proof (cases x)
    case DriverFails
    then show ?thesis using ok run Cons
      by (auto simp: pool_stmt_def next_pick_def run_stmt_def next_slot_def sqldb_of_def pool_ok_def)
  next
    case (Idle i)
    obtain fk conns where c: "on_conn i (pl_conns p) = (fk, conns)" by (cases "on_conn i (pl_conns p)")
    obtain r1 t1 where s: "stmt fk (pl_tables p) = (r1, t1)" by (cases "stmt fk (pl_tables p)")
    have "conns \<noteq> [] \<and> conns ! 0 \<and> (\<forall>i < length conns. 0 < i \<longrightarrow> \<not> conns ! i)"
      using on_conn_ok [OF _ _ _ c] ok by (simp add: pool_ok_def)
    then show ?thesis using run Cons Idle c s
      by (auto simp: pool_stmt_def next_pick_def run_stmt_def next_slot_def sqldb_of_def pool_ok_def)
  qed
qed

text \<open>Foreign keys are enforced exactly for the statements on the first connection.\<close>

lemma slots_enforced:
  assumes "conns \<noteq> []" "conns ! 0" "\<forall>i < length conns. 0 < i \<longrightarrow> \<not> conns ! i"
  shows "slots ps conns = map (\<lambda>x. case x of DriverFails \<Rightarrow> DriverFault | Idle i \<Rightarrow> OnConn (i = 0)) ps"
  using assms
proof (induction ps arbitrary: conns)
  case (Cons x ps)
  show ?case
  proof (cases x)
    case (Idle i)
    obtain fk c' where c: "on_conn i conns = (fk, c')" by (cases "on_conn i conns")
    from on_conn_ok [OF Cons.prems c] show ?thesis using Cons.IH [of c'] Idle c by simp
  qed (use Cons in simp)
qed simp

lemma Open_success:
  assumes "Open path env d = (Inr p, d')"
  shows "pool_ok p" "pl_tables p = df_tables (file_at path d)" "pl_path p = path"
    "set schema \<subseteq> set (df_objects (file_at path d'))" "pl_picks p = oe_picks env"
proof -
  obtain fk conns where c: "on_conn (oe_schema_on env) [True] = (fk, conns)" by (cases "on_conn (oe_schema_on env) [True]")
  obtain ok f where s: "run_schema (oe_schema env) (file_at path d) = (ok, f)" by (cases "run_schema (oe_schema env) (file_at path d)")
  have r: "ok" "p = \<lparr>pl_path = path, pl_conns = conns, pl_tables = df_tables f, pl_picks = oe_picks env\<rparr>" "d' = mput path f d"
    using assms c s by (auto simp: Open_def split: if_splits)
  show "pool_ok p" using on_conn_ok [OF _ _ _ c] r(2) by (simp add: pool_ok_def)
  show "pl_tables p = df_tables (file_at path d)" using run_schema_effect(1) [of "oe_schema env" "file_at path d"] s r(2) by simp
  show "set schema \<subseteq> set (df_objects (file_at path d'))" using run_schema_effect(3) [of "oe_schema env" "file_at path d"] s r(1,3) by simp
qed (use assms in \<open>auto simp: Open_def split: if_splits prod.splits\<close>)

section \<open>A run on the pool\<close>

text \<open>One statement of the program on whatever connection the pool has for it.\<close>

inductive pool_step :: "sql_pool \<Rightarrow> sql_pool \<Rightarrow> bool" where
  pool_fault: "next_pick p = (DriverFails, p') \<Longrightarrow> pool_step p p'"
| pool_ran: "next_pick p = (Idle i, p') \<Longrightarrow> on_conn i (pl_conns p') = (fk, conns) \<Longrightarrow>
    db_step fk (pl_tables p') t \<Longrightarrow> pool_step p (p'\<lparr>pl_conns := conns, pl_tables := t\<rparr>)"

lemma next_pick_fields:
  "next_pick p = (x, p') \<Longrightarrow> pl_conns p' = pl_conns p \<and> pl_tables p' = pl_tables p \<and>
   set (pl_picks p') \<subseteq> set (pl_picks p) \<and> (x = Idle 0 \<or> x \<in> set (pl_picks p))"
  by (auto simp: next_pick_def split: list.splits)

lemma pool_step_ok: "pool_ok p \<Longrightarrow> pool_step p p' \<Longrightarrow> pool_ok p'"
  by (erule pool_step.cases) (auto simp: pool_ok_def dest!: next_pick_fields dest: on_conn_ok)

interpretation pool: refinement "\<lambda>p. \<exists>path env d d'. Open path env d = (Inr p, d')" pool_step pool_ok pl_tables "any_step\<^sup>=\<^sup>="
proof unfold_locales
  fix p p' assume "pool_ok p" and step: "pool_step p p'"
  then show "pool_ok p'" by (rule pool_step_ok)
  from step show "any_step\<^sup>=\<^sup>= (pl_tables p) (pl_tables p')"
  proof cases
    case (pool_ran i p1 fk conns t)
    then show ?thesis using next_pick_fields [OF pool_ran(2)] by (cases fk) (auto simp: any_step_def)
  qed (auto dest: next_pick_fields)
qed (use Open_success(1) in blast)

text \<open>On one connection the references are enforced.\<close>

definition one_connection :: "pick list \<Rightarrow> bool" where
  "one_connection ps \<longleftrightarrow> set ps \<subseteq> {DriverFails, Idle 0}"

interpretation single: invariant_system
  "\<lambda>p. pool_ok p \<and> one_connection (pl_picks p) \<and> refs_ok (pl_tables p)" pool_step
  "\<lambda>p. pool_ok p \<and> one_connection (pl_picks p) \<and> refs_ok (pl_tables p)"
proof unfold_locales
  fix p p' assume inv: "pool_ok p \<and> one_connection (pl_picks p) \<and> refs_ok (pl_tables p)" and step: "pool_step p p'"
  from step have "one_connection (pl_picks p') \<and> refs_ok (pl_tables p')"
  proof cases
    case pool_fault
    then show ?thesis using inv next_pick_fields [OF pool_fault] by (auto simp: one_connection_def)
  next
    case (pool_ran i p1 fk conns t)
    note f = next_pick_fields [OF pool_ran(2)]
    have "i = 0" using inv f by (auto simp: one_connection_def)
    then have fk using pool_ran(3) inv f by (auto simp: on_conn_def pool_ok_def split: if_splits)
    then have "refs_ok t" using db_step_refs [of "pl_tables p" t] pool_ran(4) inv f by simp
    then show ?thesis using pool_ran(1) inv f by (auto simp: one_connection_def)
  qed
  then show "pool_ok p' \<and> one_connection (pl_picks p') \<and> refs_ok (pl_tables p')" using pool_step_ok inv step by blast
qed

section \<open>Properties\<close>

text \<open>C23: opening a database. Whatever fails and wherever, opening changes no row of any file, so it can be
  repeated; when it succeeds, every table and index of the schema exists, and each statement run on the pool does
  what \<open>run_stmt\<close> does on the rows of the file, with foreign keys enforced exactly for the statements
  on the connection the PRAGMA ran on. This is where the slots of the other theories come from.\<close>

theorem opening_migrates:
  assumes "Open path env d = (r, d')"
  shows "(\<forall>q. df_tables (file_at q d') = df_tables (file_at q d)) \<and>
    (\<forall>p. r = Inr p \<longrightarrow> set schema \<subseteq> set (df_objects (file_at path d')) \<and>
      sqldb_of p = \<lparr>tables_of = df_tables (file_at path d),
        sched = map (\<lambda>x. case x of DriverFails \<Rightarrow> DriverFault | Idle i \<Rightarrow> OnConn (i = 0)) (oe_picks env)\<rparr> \<and>
      (\<forall>p1. pool_step\<^sup>*\<^sup>* p p1 \<longrightarrow> (\<forall>stmt. run_stmt stmt (sqldb_of p1) = map_prod id sqldb_of (pool_stmt stmt p1 :: 'a sql_result \<times> sql_pool))))"
proof (intro conjI allI impI)
  fix q show "df_tables (file_at q d') = df_tables (file_at q d)"
    using assms run_schema_effect(1) [of "oe_schema env" "file_at path d"] by (auto simp: Open_def split: if_splits prod.splits)
next
  fix p assume "r = Inr p"
  then have o: "Open path env d = (Inr p, d')" using assms by simp
  note S = Open_success [OF o]
  show "set schema \<subseteq> set (df_objects (file_at path d'))" by (rule S(4))
  show "sqldb_of p = \<lparr>tables_of = df_tables (file_at path d),
      sched = map (\<lambda>x. case x of DriverFails \<Rightarrow> DriverFault | Idle i \<Rightarrow> OnConn (i = 0)) (oe_picks env)\<rparr>"
    using slots_enforced S(1) by (simp add: sqldb_of_def S(2,5) pool_ok_def)
  fix p1 and stmt :: "bool \<Rightarrow> tables \<Rightarrow> 'a sql_result \<times> tables" assume "pool_step\<^sup>*\<^sup>* p p1"
  then have "pool_ok p1" using pool.steps_inv S(1) by blast
  then show "run_stmt stmt (sqldb_of p1) = map_prod id sqldb_of (pool_stmt stmt p1)"
    using pool_stmt_refines [of p1 stmt] by (cases "pool_stmt stmt p1") simp
qed

definition sample_env :: open_env where
  "sample_env = \<lparr>oe_opens = True, oe_pragma = True, oe_schema_on = 0, oe_schema = 10, oe_picks = [Idle 0, Idle 1, DriverFails]\<rparr>"

theorem opening_migrates_witness:
  "sched (sqldb_of (projr (fst (Open ''x'' sample_env [])))) = [OnConn True, OnConn False, DriverFault] \<and>
   df_tables (file_at ''x'' (snd (Open ''x'' sample_env []))) = empty_tables"
proof -
  have o: "Open ''x'' sample_env [] = (Inr (projr (fst (Open ''x'' sample_env []))), snd (Open ''x'' sample_env []))" by code_simp
  show ?thesis using opening_migrates [OF o] by (auto simp: sample_env_def file_at_def new_file_def)
qed

text \<open>C8: as long as the pool never needs a second connection, every chunk row and every swarm row refers to stored
  rows, whatever statements run and fail after the database was opened.\<close>

theorem one_connection_keeps_references:
  assumes "Open path env d = (Inr p, d')" "refs_ok (df_tables (file_at path d))" "one_connection (oe_picks env)"
    and "pool_step\<^sup>*\<^sup>* p p'"
  shows "refs_ok (pl_tables p')"
  using single.steps_inv [OF assms(4)] Open_success [OF assms(1)] assms(2,3) by simp

definition sample_opened :: sql_pool where
  "sample_opened = projr (fst (Open ''x'' (sample_env\<lparr>oe_picks := [Idle 0]\<rparr>) [(''x'', new_file\<lparr>df_tables := sample_tables\<rparr>)]))"

theorem one_connection_keeps_references_witness:
  "refs_ok (snd (delete_peers (\<lambda>p. True) True sample_tables)) \<and> sample_tables \<noteq> snd (delete_peers (\<lambda>p. True) True sample_tables)"
proof -
  let ?env = "sample_env\<lparr>oe_picks := [Idle 0]\<rparr>" and ?d = "[(''x'', new_file\<lparr>df_tables := sample_tables\<rparr>)]"
  have o: "Open ''x'' ?env ?d = (Inr sample_opened, snd (Open ''x'' ?env ?d))" unfolding sample_opened_def by code_simp
  have f: "pl_tables sample_opened = sample_tables" "pl_conns sample_opened = [True]" "pl_picks sample_opened = [Idle 0]"
    unfolding sample_opened_def by code_simp+
  have "pool_step sample_opened ((sample_opened\<lparr>pl_picks := []\<rparr>)
      \<lparr>pl_conns := [True], pl_tables := snd (delete_peers (\<lambda>p. True) True sample_tables)\<rparr>)"
    by (rule pool_ran [where i = 0 and fk = True]) (simp_all add: next_pick_def f on_conn_def step_delete)
  then have "pool_step\<^sup>*\<^sup>* sample_opened ((sample_opened\<lparr>pl_picks := []\<rparr>)
      \<lparr>pl_conns := [True], pl_tables := snd (delete_peers (\<lambda>p. True) True sample_tables)\<rparr>)" by blast
  from one_connection_keeps_references [OF o _ _ this] have "refs_ok (snd (delete_peers (\<lambda>p. True) True sample_tables))"
    using integrity.reachable_inv [OF refl sample_tables_reachable] by (simp add: file_at_def one_connection_def)
  moreover have "sample_tables \<noteq> snd (delete_peers (\<lambda>p. True) True sample_tables)" by code_simp
  ultimately show ?thesis by blast
qed

end
