(* ===== verification/TrackerLife.thy ===== *)
theory TrackerLife
  imports Directory Opening
begin

text \<open>
  The tracker from start to end and over restarts: cmd/tracker/main.go opens the database, serves until a signal
  comes and then drops all peers; a crash skips that. What one process leaves in tracker.sqlite3 the next one
  starts with.
\<close>

section \<open>cmd/tracker/main.go\<close>

abbreviation tracker_path :: string where
  "tracker_path \<equiv> ''tracker.sqlite3''"

text \<open>NewTracker, with the database it opens; log.Fatal exits.\<close>

definition tracker_main :: "open_env \<Rightarrow> bool list \<Rightarrow> disk \<Rightarrow> tracker res \<times> disk" where
  "tracker_main env faults d =
     (case tracker_NewDB env d of
        (Inl e, d') \<Rightarrow> (Inl FatalExit, d')
      | (Inr database, d') \<Rightarrow> (Inr (NewTracker (sqldb_of database) faults), d'))"

text \<open>Tracker.Start before its loop: the listener; its loop is \<open>tracker_step\<close>. An Accept that fails is repeated.\<close>

definition Start :: "bool \<Rightarrow> tracker \<Rightarrow> tracker res" where
  "Start listens t = (if \<not> listens then Inl FatalExit else Inr t)"

text \<open>
  The running process. After the signal the two statements of Stop run while the goroutines still serve, so they
  are steps of their own; the process may end between any two.
\<close>

inductive tracker_process :: "tracker \<Rightarrow> tracker \<Rightarrow> bool" where
  serves: "tracker_step t t' \<Longrightarrow> tracker_process t t'"
| drops_swarms: "tracker_process t (t\<lparr>t_db := snd (Q_DeleteAllSwarms (t_db t))\<rparr>)"
| drops_peers: "tracker_process t (t\<lparr>t_db := snd (Q_DeleteAllPeers (t_db t))\<rparr>)"

lemma Stop_process: "tracker_process\<^sup>*\<^sup>* t (Stop t)"
proof -
  let ?u = "t\<lparr>t_db := snd (Q_DeleteAllSwarms (t_db t))\<rparr>"
  have "tracker_process t ?u" by (rule drops_swarms)
  moreover have "tracker_process ?u (?u\<lparr>t_db := snd (Q_DeleteAllPeers (t_db ?u))\<rparr>)" by (rule drops_peers)
  moreover have "Stop t = ?u \<or> Stop t = ?u\<lparr>t_db := snd (Q_DeleteAllPeers (t_db ?u))\<rparr>"
    by (cases "Q_DeleteAllSwarms (t_db t)") (auto simp: Stop_def PeerStore_DropAllPeers_def split: sum.split)
  ultimately show ?thesis by (metis rtranclp.rtrancl_into_rtrancl rtranclp.rtrancl_refl)
qed

text \<open>One life of a tracker: from the disk it starts on to the disk it leaves.\<close>

definition tracker_life :: "disk \<Rightarrow> tracker \<Rightarrow> disk \<Rightarrow> bool" where
  "tracker_life d t d' \<longleftrightarrow> (\<exists>env faults s s' d1. tracker_main env faults d = (Inr s, d1) \<and> Start True s = Inr s' \<and>
     tracker_process\<^sup>*\<^sup>* s' t \<and> d' = written_back tracker_path (tables_of (t_db t)) d1)"

text \<open>Successive lives; between them anything but the tracker's file may change.\<close>

inductive tracker_lives :: "disk \<Rightarrow> tracker list \<Rightarrow> disk \<Rightarrow> bool" where
  no_life: "file_at tracker_path d' = file_at tracker_path d \<Longrightarrow> tracker_lives d [] d'"
| next_life: "file_at tracker_path d1 = file_at tracker_path d \<Longrightarrow> tracker_life d1 t d2 \<Longrightarrow> tracker_lives d2 ts d' \<Longrightarrow>
    tracker_lives d (t # ts) d'"

inductive_cases tracker_lives_ConsE: "tracker_lives d (t # ts) d'"

section \<open>The ids one process gives out\<close>

lemma assigned_WriteMessage:
  "assigned (snd (tr_WriteMessage cid msg t)) c i \<Longrightarrow> assigned t c i \<or> msg = id_message i"
  by (cases rule: tr_WriteMessage_cases [of cid msg t])
     (auto simp: assigned_def upd_conn_faults split: if_splits)

lemma assigned_upd [simp]:
  "assigned (t\<lparr>t_db := d\<rparr>) = assigned t" "assigned (t\<lparr>t_DaemonRouters := R\<rparr>) = assigned t"
  "assigned (t\<lparr>t_now := n\<rparr>) = assigned t" "assigned (set_phase cid p t) c i \<longleftrightarrow> assigned t c i"
  "assigned (take_from se f t) c i \<longleftrightarrow> assigned t c i"
  by (auto simp: assigned_def fun_eq_iff set_phase_def take_from_def split: if_splits)

lemma handshake_assigned:
  assumes "assigned (handshake cid t) c i"
  shows "assigned t c i \<or> (\<exists>ip port d. PeerStore_CreatePeer ip port (t_db t) = (Inr i, d) \<and> t_db (handshake cid t) = d)"
proof (cases "SplitHostPort (cn_addr (t_conns t ! cid))")
  case None
  then show ?thesis using assms by (simp add: handshake_def)
next
  case (Some a)
  obtain ip port where a: "a = (ip, port)" by (cases a)
  obtain r d where cp: "PeerStore_CreatePeer ip port (t_db t) = (r, d)" by (cases "PeerStore_CreatePeer ip port (t_db t)")
  show ?thesis
  proof (cases r)
    case (Inl e)
    then show ?thesis using assms Some a cp by (simp add: handshake_def)
  next
    case (Inr pid)
    let ?msg = "\<lparr>MessageType = Some (NetworkMessage_Id \<lparr>idm_Id = pid\<rparr>)\<rparr>"
    obtain b t1 where w: "tr_WriteMessage cid ?msg (t\<lparr>t_db := d\<rparr>) = (b, t1)" by (cases "tr_WriteMessage cid ?msg (t\<lparr>t_db := d\<rparr>)")
    have h: "assigned (handshake cid t) c i \<longleftrightarrow> assigned t1 c i" "t_db (handshake cid t) = t_db t1"
      using Some a cp Inr w by (cases b; simp add: handshake_def Let_def split: option.split)+
    moreover have "t_db t1 = d" using db_WriteMessage [of cid ?msg "t\<lparr>t_db := d\<rparr>"] w by simp
    moreover have "assigned t1 c i \<Longrightarrow> assigned t c i \<or> pid = i"
      using assigned_WriteMessage [of cid ?msg "t\<lparr>t_db := d\<rparr>" c i] w id_message_inj [of pid i]
      by (auto simp: id_message_def)
    ultimately show ?thesis using assms cp Inr by blast
  qed
qed

lemma step_assigned:
  assumes "tracker_step t t'" "assigned t' c i"
  shows "assigned t c i \<or> (\<exists>ip port d. PeerStore_CreatePeer ip port (t_db t) = (Inr i, d) \<and> t_db t' = d)"
  using assms
proof cases
  case (handshake cid)
  then show ?thesis using handshake_assigned assms(2) by simp
next
  case (signal cid se m ms)
  then show ?thesis using assms(2) assigned_WriteMessage
    by (fastforce simp: forwardSignal_def Let_def id_message_def split: option.splits)
next
  case (peer_list cid se m ms)
  then show ?thesis using assms(2) assigned_WriteMessage
    by (fastforce simp: handlePeerListRequest_def Let_def id_message_def split: sum.splits prod.splits)
next
  case (accept addr)
  then show ?thesis using assms(2) by (auto simp: assigned_def nth_accept less_Suc_eq split: if_splits)
next
  case (receive cid m)
  then show ?thesis using assms(2) by (auto simp: assigned_def receive_def split: if_splits)
qed (simp_all add: on_timeout_def on_heartbeat_def on_goodbye_def handleAnnounce_def Let_def)

text \<open>The rows stay well-formed, and the counter of the peer ids never goes down.\<close>

definition sound_tables :: "tables \<Rightarrow> bool" where
  "sound_tables t \<longleftrightarrow> wf_tables t \<and> seq_peers t \<le> max_int64"

lemma sound_db: "sound_tables (tables_of c) \<longleftrightarrow> wf_db c \<and> last_id c \<le> max_int64"
  by (simp add: sound_tables_def wf_db_def last_id_def)

lemma process_tables:
  assumes sound: "sound_tables (tables_of (t_db t))" and step: "tracker_process t t'"
  shows "sound_tables (tables_of (t_db t')) \<and> last_id (t_db t) \<le> last_id (t_db t')"
  using step
proof cases
  case serves
  have wf: "wf_db (t_db t)" "last_id (t_db t) \<le> max_int64" using sound by (simp_all add: sound_db)
  from serves show ?thesis
  proof (cases rule: step_db)
    case same
    then show ?thesis using sound by (simp add: last_id_def)
  next
    case (greets ip port)
    show ?thesis using CreatePeer_result [OF surjective_pairing wf(1), of ip port] wf greets
      by (auto simp: sound_db split: sum.splits)
  next
    case (leaves c se)
    then show ?thesis using DeletePeer_result [OF wf(1)] wf(2) by (simp add: sound_db)
  next
    case (announces c se m ms)
    then show ?thesis using announce_files_db [OF wf(1)] wf(2) by (simp add: sound_db)
  qed
next
  case drops_swarms
  have wf: "wf_db (t_db t)" "last_id (t_db t) \<le> max_int64" using sound by (simp_all add: sound_db)
  have "last_id (snd (Q_DeleteAllSwarms (t_db t))) = last_id (t_db t)"
    unfolding Q_DeleteAllSwarms_def using run_stmt_peers [of "\<lambda>fk t. (Inr (), t\<lparr>swarms := []\<rparr>)"] by simp
  then show ?thesis using drops_swarms Q_DeleteAllSwarms_wf [OF wf(1)] wf(2) by (simp add: sound_db)
next
  case drops_peers
  have wf: "wf_db (t_db t)" "last_id (t_db t) \<le> max_int64" using sound by (simp_all add: sound_db)
  have "last_id (snd (Q_DeleteAllPeers (t_db t))) = last_id (t_db t)"
    unfolding Q_DeleteAllPeers_def
    by (cases rule: run_stmt_cases [of "delete_peers (\<lambda>p. True)" "t_db t"]) (simp_all add: last_id_def delete_peers_def Let_def)
  then show ?thesis using drops_peers Q_DeleteAllPeers_wf [OF wf(1)] wf(2) by (simp add: sound_db)
qed

text \<open>All ids given out since the counter stood at \<open>L\<close> lie above it.\<close>

definition ids_above :: "int \<Rightarrow> tracker \<Rightarrow> bool" where
  "ids_above L t \<longleftrightarrow> sound_tables (tables_of (t_db t)) \<and> L \<le> last_id (t_db t) \<and>
     (\<forall>c i. assigned t c i \<longrightarrow> (\<exists>j. i = FormatInt j \<and> L < j \<and> j \<le> last_id (t_db t)))"

lemma ids_above_step:
  assumes inv: "ids_above L t" and step: "tracker_process t t'"
  shows "ids_above L t'"
proof -
  have sound: "sound_tables (tables_of (t_db t))" using inv by (simp add: ids_above_def)
  note T = process_tables [OF sound step]
  have "\<exists>j. i = FormatInt j \<and> L < j \<and> j \<le> last_id (t_db t')" if a: "assigned t' c i" for c i
  proof -
    have old: "\<exists>j. i = FormatInt j \<and> L < j \<and> j \<le> last_id (t_db t')" if o: "assigned t c i"
    proof -
      obtain j where "i = FormatInt j" "L < j" "j \<le> last_id (t_db t)" using inv o unfolding ids_above_def by blast
      then show ?thesis using T by (intro exI [of _ j]) simp
    qed
    from step show ?thesis
    proof cases
      case serves
      from step_assigned [OF serves a] show ?thesis
      proof
        assume "\<exists>ip port d. PeerStore_CreatePeer ip port (t_db t) = (Inr i, d) \<and> t_db t' = d"
        then obtain ip port where cp: "PeerStore_CreatePeer ip port (t_db t) = (Inr i, t_db t')" by blast
        have "i = FormatInt (last_id (t_db t) + 1)" "last_id (t_db t') = last_id (t_db t) + 1"
          using CreatePeer_result [OF cp] sound by (simp_all add: sound_db)
        then show ?thesis using inv by (intro exI [of _ "last_id (t_db t) + 1"]) (simp add: ids_above_def)
      qed (rule old)
    qed (use a old in simp_all)
  qed
  then show ?thesis using T inv by (simp add: ids_above_def)
qed

interpretation one_life: invariant_system
  "\<lambda>t. \<exists>db faults. sound_tables (tables_of db) \<and> last_id db = L \<and> t = NewTracker db faults" tracker_process "ids_above L"
  for L
proof unfold_locales
  fix s assume "\<exists>db faults. sound_tables (tables_of db) \<and> last_id db = L \<and> s = NewTracker db faults"
  then show "ids_above L s" by (auto simp: ids_above_def NewTracker_def assigned_def)
qed (rule ids_above_step)

section \<open>Restarts\<close>

abbreviation tracker_rows :: "disk \<Rightarrow> tables" where
  "tracker_rows d \<equiv> df_tables (file_at tracker_path d)"

lemma life_ids:
  assumes "tracker_life d t d'" and sound: "sound_tables (tracker_rows d)"
  shows "ids_above (seq_peers (tracker_rows d)) t" "tracker_rows d' = tables_of (t_db t)"
proof -
  obtain env faults s s' d1 where m: "tracker_main env faults d = (Inr s, d1)" "Start True s = Inr s'"
    "tracker_process\<^sup>*\<^sup>* s' t" "d' = written_back tracker_path (tables_of (t_db t)) d1"
    using assms(1) unfolding tracker_life_def by blast
  obtain p where p: "tracker_NewDB env d = (Inr p, d1)" "s = NewTracker (sqldb_of p) faults"
    using m(1) by (auto simp: tracker_main_def split: prod.splits sum.splits)
  have "tables_of (sqldb_of p) = tracker_rows d" using Open_success(2) [OF p(1) [unfolded tracker_NewDB_def]] by (simp add: sqldb_of_def)
  then have "\<exists>db faults. sound_tables (tables_of db) \<and> last_id db = seq_peers (tracker_rows d) \<and> s = NewTracker db faults"
    using sound p(2) by (intro exI [of _ "sqldb_of p"] exI [of _ faults]) (simp add: last_id_def)
  moreover have "s' = s" using m(2) by (simp add: Start_def)
  ultimately show "ids_above (seq_peers (tracker_rows d)) t" using one_life.reachable_inv m(3) by blast
  show "tracker_rows d' = tables_of (t_db t)" by (simp add: m(4) written_back_def)
qed

lemma lives_ids:
  assumes "tracker_lives d ts d'" "sound_tables (tracker_rows d)" "t \<in> set ts" "assigned t c i"
  shows "\<exists>j. i = FormatInt j \<and> seq_peers (tracker_rows d) < j \<and> j \<le> max_int64"
  using assms
proof (induction rule: tracker_lives.induct)
  case (next_life d1 d u d2 ts d')
  have s: "sound_tables (tracker_rows d1)" "seq_peers (tracker_rows d1) = seq_peers (tracker_rows d)"
    using next_life.hyps(1) next_life.prems(1) by simp_all
  note L = life_ids [OF next_life.hyps(2) s(1)]
  have u: "sound_tables (tables_of (t_db u))" "seq_peers (tracker_rows d) \<le> last_id (t_db u)" "last_id (t_db u) \<le> max_int64"
    using L(1) s(2) by (simp_all add: ids_above_def sound_tables_def last_id_def)
  show ?case
  proof (cases "t = u")
    case True
    then obtain j where "i = FormatInt j" "seq_peers (tracker_rows d) < j" "j \<le> last_id (t_db u)"
      using L(1) s(2) next_life.prems(3) unfolding ids_above_def by metis
    then show ?thesis using u(3) by (intro exI [of _ j]) simp
  next
    case False
    have "sound_tables (tracker_rows d2)" using u(1) L(2) by simp
    then obtain j where "i = FormatInt j" "seq_peers (tracker_rows d2) < j" "j \<le> max_int64"
      using next_life.IH next_life.prems(2,3) False by auto
    then show ?thesis using u(2) L(2) by (intro exI [of _ j]) (simp add: last_id_def)
  qed
qed simp

text \<open>C14: an id is given out once for all time. However often the tracker is stopped, killed and started again on
  its database, at whatever point of its work, with whatever failures, and also when its address and its
  routers are all new, no id it sends to a daemon in one life is sent to any daemon in a later one. So a
  peer list or a signal kept over a restart never names a different daemon.\<close>

theorem ids_survive_restarts:
  assumes "tracker_lives d (t # ts) d'" "sound_tables (tracker_rows d)" "t' \<in> set ts"
    and "assigned t c i" "assigned t' c' i'"
  shows "i \<noteq> i'"
proof -
  obtain d1 d2 where l: "file_at tracker_path d1 = file_at tracker_path d" "tracker_life d1 t d2" "tracker_lives d2 ts d'"
    using assms(1) by (rule tracker_lives_ConsE) auto
  have s: "sound_tables (tracker_rows d1)" using l(1) assms(2) by simp
  note L = life_ids [OF l(2) s]
  then have u: "sound_tables (tracker_rows d2)" by (simp add: ids_above_def)
  have pos: "0 \<le> seq_peers (tracker_rows d1)" using s by (simp add: sound_tables_def wf_tables_def ids_ok_def)
  obtain j where j: "i = FormatInt j" "seq_peers (tracker_rows d1) < j" "j \<le> seq_peers (tracker_rows d2)"
    using L assms(4) unfolding ids_above_def last_id_def by metis
  obtain k where k: "i' = FormatInt k" "seq_peers (tracker_rows d2) < k" "k \<le> max_int64"
    using lives_ids [OF l(3) u assms(3,5)] by blast
  have "FormatInt j \<noteq> FormatInt k" using FormatInt_inj [of j k] j k pos by (auto simp: max_int64_def)
  then show ?thesis using j(1) k(1) by simp
qed

lemma sample_life:
  assumes "tracker_main env faults d = (Inr s, d1)"
  shows "tracker_life d (handshake 0 (accept addr s)) (written_back tracker_path (tables_of (t_db (handshake 0 (accept addr s)))) d1)"
proof -
  have "t_conns s = []" using assms by (auto simp: tracker_main_def NewTracker_def split: prod.splits sum.splits)
  then have c: "0 < length (t_conns (accept addr s))" "cn_phase (t_conns (accept addr s) ! 0) = Accepted"
    by (simp_all add: accept_def Let_def)
  have "tracker_process s (accept addr s)" by (rule serves) (rule tracker_step.accept)
  moreover have "tracker_process (accept addr s) (handshake 0 (accept addr s))" by (rule serves) (rule tracker_step.handshake [OF c])
  ultimately have "tracker_process\<^sup>*\<^sup>* s (handshake 0 (accept addr s))" by (meson converse_rtranclp_into_rtranclp r_into_rtranclp)
  then show ?thesis using assms unfolding tracker_life_def Start_def by auto
qed

abbreviation sample_main :: "disk \<Rightarrow> tracker res \<times> disk" where
  "sample_main \<equiv> tracker_main (sample_env\<lparr>oe_picks := []\<rparr>) []"

lemma sample_main_starts: "sample_main d = (Inr (projr (fst (sample_main d))), snd (sample_main d))"
  by (simp add: tracker_main_def tracker_NewDB_def Open_def on_conn_def run_schema_def sample_env_def schema_def)

text \<open>Two lives from an empty disk; the first is killed while it serves a daemon.\<close>

definition sample_life1 :: tracker where
  "sample_life1 = handshake 0 (accept ''10.0.0.9:4000'' (projr (fst (sample_main []))))"

definition sample_left1 :: disk where
  "sample_left1 = written_back tracker_path (tables_of (t_db sample_life1)) (snd (sample_main []))"

definition sample_life2 :: tracker where
  "sample_life2 = handshake 0 (accept ''10.0.0.8:4001'' (projr (fst (sample_main sample_left1))))"

theorem ids_survive_restarts_witness:
  "assigned sample_life1 0 ''1'' \<and> assigned sample_life2 0 ''2'' \<and> ''1'' \<noteq> ''2''"
proof -
  note m = sample_main_starts [of "[]"] sample_main_starts [of sample_left1]
  note l = sample_life [OF m(1), of "''10.0.0.9:4000''", folded sample_life1_def, folded sample_left1_def]
    sample_life [OF m(2), of "''10.0.0.8:4001''", folded sample_life2_def]
  have lives: "tracker_lives [] [sample_life1, sample_life2]
      (written_back tracker_path (tables_of (t_db sample_life2)) (snd (sample_main sample_left1)))"
    by (rule next_life [OF refl l(1)], rule next_life [OF refl l(2)]) (rule no_life [OF refl])
  have "sound_tables (tracker_rows [])" by (simp add: sound_tables_def file_at_def new_file_def) code_simp
  moreover have a: "assigned sample_life1 0 ''1''" "assigned sample_life2 0 ''2''" unfolding assigned_def by code_simp+
  ultimately show ?thesis using ids_survive_restarts [OF lives, of sample_life2 0 "''1''" 0 "''2''"] by simp
qed

section \<open>Peers that outlive their tracker\<close>

definition left_over :: "tables \<Rightarrow> peer_row \<Rightarrow> tracker \<Rightarrow> bool" where
  "left_over t0 p t \<longleftrightarrow> tracker_inv t \<and> keeps_peer (p_ID p) t0 (tables_of (t_db t)) \<and>
     0 < p_ID p \<and> p_ID p \<le> last_id (t_db t) \<and> (\<forall>c. \<not> assigned t c (FormatInt (p_ID p)))"

lemma left_over_key:
  assumes inv: "left_over t0 p t" and s: "serving t c se" and q: "q \<in> set (peers_of (t_db t))" "p_ID q = p_ID p"
  shows "peer_key q \<noteq> (se_daemonIP se, se_daemonPort se)"
proof
  assume key: "peer_key q = (se_daemonIP se, se_daemonPort se)"
  have t: "tracker_inv t" using inv by (simp add: left_over_def)
  obtain r where r: "r \<in> set (peers_of (t_db t))" "FormatInt (p_ID r) = se_daemonID se" "p_IpAddress r = se_daemonIP se"
    "p_Port r = se_daemonPort se" by (rule session_row [OF t s])
  have "distinct (map peer_key (peers_of (t_db t)))"
    using tracker_inv_wf [OF t] by (simp add: wf_db_def wf_tables_def peers_of_def)
  then have "q = r" using distinct_map_unique key q(1) r by (metis peer_key_def)
  moreover have "session_ok t c se" using t s by (simp add: tracker_inv_def)
  ultimately have "assigned t c (FormatInt (p_ID p))" using r(2) q(2) by (simp add: session_ok_def)
  then show False using inv by (simp add: left_over_def)
qed

lemma left_over_step:
  assumes inv: "left_over t0 p t" and step: "tracker_step t t'"
  shows "left_over t0 p t'"
proof -
  have t: "tracker_inv t" "keeps_peer (p_ID p) t0 (tables_of (t_db t))" and i: "0 < p_ID p" "p_ID p \<le> last_id (t_db t)"
    using inv by (simp_all add: left_over_def)
  have wf: "wf_db (t_db t)" "last_id (t_db t) \<le> max_int64" using t(1) by (simp_all add: tracker_inv_def)
  have up: "last_id (t_db t) \<le> last_id (t_db t')"
    using process_tables [OF _ serves [OF step]] wf by (simp add: sound_db)
  have "keeps_peer (p_ID p) (tables_of (t_db t)) (tables_of (t_db t'))"
    using step
  proof (cases rule: step_db)
    case (leaves c se)
    have "peer_key q \<noteq> (se_daemonIP se, se_daemonPort se)" if "q \<in> set (peers (tables_of (t_db t)))" "p_ID q = p_ID p" for q
      using left_over_key [OF inv leaves(1)] that by (simp add: peers_of_def)
    then show ?thesis unfolding leaves(3) PeerStore_DeletePeer_def Q_DeletePeerByIPPort_def
      by (intro keeps_run_stmt keeps_delete_peers) (auto simp: peer_key_def)
  qed (simp_all add: keeps_CreatePeer keeps_announce)
  moreover have "\<not> assigned t' c (FormatInt (p_ID p))" for c
  proof
    assume "assigned t' c (FormatInt (p_ID p))"
    from step_assigned [OF step this] inv obtain ip port d where
      "PeerStore_CreatePeer ip port (t_db t) = (Inr (FormatInt (p_ID p)), d)" by (auto simp: left_over_def)
    from CreatePeer_result [OF this wf(1)] have "FormatInt (p_ID p) = FormatInt (last_id (t_db t) + 1)" "last_id (t_db t) + 1 \<le> max_int64"
      by auto
    then show False using FormatInt_inj [of "p_ID p" "last_id (t_db t) + 1"] i by (auto simp: max_int64_def)
  qed
  ultimately show ?thesis using tracker_inv_step [OF t(1) step] keeps_trans [OF t(2)] i up by (simp add: left_over_def)
qed

interpretation left_overs: invariant_system
  "\<lambda>t. tracker_start t \<and> tables_of (t_db t) = t0 \<and> p \<in> set (peers t0)" tracker_step "left_over t0 p"
  for t0 p
proof unfold_locales
  fix s assume s: "tracker_start s \<and> tables_of (t_db s) = t0 \<and> p \<in> set (peers t0)"
  then have "wf_tables t0" using tracker_inv_wf [OF tracker_inv_start] by (auto simp: wf_db_def)
  then show "left_over t0 p s" using s wf_id_le_seq(2) [of t0 p] tracker_inv_start [of s]
    by (auto simp: left_over_def last_id_def tracker_start_def NewTracker_def assigned_def)
qed (rule left_over_step)

text \<open>C26: a peer that is still stored when a tracker starts, because the one before it was killed, is named for ever:
  no daemon is ever given its id and nothing deletes its row or its swarms, so in every state of the new
  tracker it is listed for each of its files, and every answer about one of them names it.\<close>

theorem stale_peers_stay_listed:
  assumes "tracker_start s" "lists_peer p h (t_db s)" "tracker_step\<^sup>*\<^sup>* s t"
    and asks: "serving t d sd" "sched (t_db t) = []" "t_wfaults t = []"
  shows "(\<forall>c. \<not> assigned t c (FormatInt (p_ID p))) \<and> lists_peer p h (t_db t) \<and>
    (\<exists>answer. cn_out (t_conns (handlePeerListRequest d (se_daemonIP sd) (se_daemonPort sd) \<lparr>plr_FileHash = h\<rparr> t) ! d) =
       cn_out (t_conns t ! d) @ [\<lparr>MessageType = Some (NetworkMessage_PeerListResponse answer)\<rparr>] \<and>
       FormatInt (p_ID p) \<in> pi_Id ` set (plp_Peers answer))"
proof -
  have "p \<in> set (peers (tables_of (t_db s)))" using assms(2) by (simp add: lists_peer_def set_select_peers_by_hash)
  then have inv: "left_over (tables_of (t_db s)) p t" using left_overs.reachable_inv assms(1,3) by blast
  then have l: "lists_peer p h (t_db t)" using keeps_lists [of p "t_db s" "t_db t" h] assms(2) by (simp add: left_over_def)
  then have "p \<in> set (peers_of (t_db t))" by (simp add: lists_peer_def set_select_peers_by_hash peers_of_def)
  from left_over_key [OF inv asks(1) this refl] have "\<not> (p_IpAddress p = se_daemonIP sd \<and> p_Port p = se_daemonPort sd)"
    by (simp add: peer_key_def)
  then show ?thesis using peer_list_written [OF asks, of "\<lparr>plr_FileHash = h\<rparr>"] l inv by (auto simp: left_over_def)
qed

theorem stale_peers_stay_listed_witness:
  "\<exists>answer. \<lparr>MessageType = Some (NetworkMessage_PeerListResponse answer)\<rparr> \<in>
      set (cn_out (t_conns (handlePeerListRequest 0 ''10.0.0.9'' ''4000'' \<lparr>plr_FileHash = ''h''\<rparr> sample_tracker) ! 0)) \<and>
     ''1'' \<in> pi_Id ` set (plp_Peers answer)"
proof -
  let ?p = "\<lparr>p_ID = 1, p_IpAddress = ''10.0.0.1'', p_Port = ''4000''\<rparr>"
  have l: "lists_peer ?p ''h'' (t_db (NewTracker sample_db []))" "FormatInt (p_ID ?p) = ''1''"
    unfolding lists_peer_def by code_simp+
  have a: "serving sample_tracker 0 sample_first" "sched (t_db sample_tracker) = []" "t_wfaults sample_tracker = []"
    unfolding serving_def by code_simp+
  show ?thesis using stale_peers_stay_listed [OF sample_start l(1) sample_tracker_reachable a] l(2) by fastforce
qed

text \<open>An orderly stop leaves nobody behind: when its statements succeed, no peer and no swarm is stored after
  it, while the files and the counters stay, so the next tracker starts with an empty directory and still
  does not give an id out again.\<close>

theorem stop_empties_the_directory:
  assumes "sched (t_db t) = []"
  shows "members (t_db (Stop t)) = (\<lambda>h. {}) \<and> peers_of (t_db (Stop t)) = [] \<and> swarms (tables_of (t_db (Stop t))) = [] \<and>
    files (tables_of (t_db (Stop t))) = files (tables_of (t_db t)) \<and> last_id (t_db (Stop t)) = last_id (t_db t)"
proof -
  have "tables_of (t_db (Stop t)) = (tables_of (t_db t))\<lparr>peers := [], swarms := []\<rparr>"
    using assms by (simp add: Stop_def PeerStore_DropAllPeers_def Q_DeleteAllSwarms_def Q_DeleteAllPeers_def run_stmt_calm
        delete_peers_def Let_def)
  moreover have "members (t_db (Stop t)) h = {}" for h
    unfolding members_def' by (auto simp: set_select_peers_by_hash calculation)
  ultimately show ?thesis by (auto simp: peers_of_def last_id_def)
qed

theorem stop_empties_the_directory_witness:
  "peers_of (t_db (Stop sample_tracker)) = [] \<and> peers_of (t_db sample_tracker) \<noteq> []"
proof -
  have "sched (t_db sample_tracker) = []" "peers_of (t_db sample_tracker) \<noteq> []" unfolding peers_of_def by code_simp+
  then show ?thesis using stop_empties_the_directory by blast
qed

end
