(* ===== verification/Logger.thy ===== *)
theory Logger
  imports Strings
begin

text \<open>
  internal/shared/utils/logger/logger.go: one line per log entry, the time of day, the level in a colour of
  its own between two escape sequences, and the message. The names of the levels are those of the logging
  library, so a level is the string its String method returns.
\<close>

section \<open>Lines\<close>

definition ESC :: char where
  "ESC = char_of (27 :: nat)"

definition two_digits :: "nat \<Rightarrow> string" where
  "two_digits n = [char_of (48 + n div 10 mod 10), char_of (48 + n mod 10)]"

text \<open>The layout 15:04:05 of time.Format.\<close>

definition clock_time :: "nat \<times> nat \<times> nat \<Rightarrow> string" where
  "clock_time t = (case t of (h, m, s) \<Rightarrow> two_digits h @ '':'' @ two_digits m @ '':'' @ two_digits s)"

record Entry =
  en_Time :: "nat \<times> nat \<times> nat"
  en_Level :: string
  en_Message :: string

definition colorizeLevel :: "string \<Rightarrow> string" where
  "colorizeLevel level =
     (let color =
        (if level = ''info'' then [ESC] @ ''[32m''
         else if level = ''warning'' then [ESC] @ ''[33m''
         else if level = ''error'' then [ESC] @ ''[31m''
         else if level = ''debug'' then [ESC] @ ''[34m''
         else [ESC] @ ''[37m'')
      in color @ level @ [ESC] @ ''[0m'')"

definition Format :: "Entry \<Rightarrow> string" where
  "Format entry = clock_time (en_Time entry) @ '' '' @ colorizeLevel (en_Level entry) @ '' '' @
     en_Message entry @ [CHR 0x0A]"

datatype formatter = CustomFormatter | TextFormatter

record Logger =
  lg_formatter :: formatter
  lg_level :: string

definition NewLogger :: Logger where
  "NewLogger = \<lparr>lg_formatter = CustomFormatter, lg_level = ''debug''\<rparr>"

section \<open>What a line tells\<close>

definition valid_time :: "nat \<times> nat \<times> nat \<Rightarrow> bool" where
  "valid_time t = (case t of (h, m, s) \<Rightarrow> h < 24 \<and> m < 60 \<and> s < 60)"

lemma two_digits_inj: "m < 100 \<Longrightarrow> n < 100 \<Longrightarrow> two_digits m = two_digits n \<longleftrightarrow> m = n"
proof -
  assume mn: "m < 100" "n < 100"
  have d: "char_of (48 + a) = (char_of (48 + b) :: char) \<longleftrightarrow> a = b" if "a < 10" "b < 10" for a b :: nat
    using that by (simp add: char_of_eq_iff take_bit_eq_mod)
  have "m div 10 < 10" "n div 10 < 10" using mn by auto
  then have "two_digits m = two_digits n \<longleftrightarrow> m div 10 = n div 10 \<and> m mod 10 = n mod 10" by (simp add: two_digits_def d)
  then show ?thesis by (metis div_mult_mod_eq)
qed

lemma clock_time_inj: "valid_time t \<Longrightarrow> valid_time u \<Longrightarrow> clock_time t = clock_time u \<longleftrightarrow> t = u"
proof (cases t, cases u)
  fix h m s h' m' s' assume "valid_time t" "valid_time u" and tu: "t = (h, m, s)" "u = (h', m', s')"
  then have b: "h < 100" "m < 100" "s < 100" "h' < 100" "m' < 100" "s' < 100" by (auto simp: valid_time_def)
  have l: "length (two_digits n) = 2" for n by (simp add: two_digits_def)
  have "clock_time t = clock_time u \<longleftrightarrow> two_digits h = two_digits h' \<and> two_digits m = two_digits m' \<and> two_digits s = two_digits s'"
    by (simp add: clock_time_def tu append_eq_append_conv l)
  then show ?thesis using b tu by (simp add: two_digits_inj)
qed

lemma length_clock_time [simp]: "length (clock_time t) = 8"
  by (simp add: clock_time_def two_digits_def split: prod.split)

lemma colorizeLevel_shape:
  obtains c where "colorizeLevel level = ESC # CHR ''['' # CHR ''3'' # c # CHR ''m'' # level @ ESC # ''[0m''"
proof -
  have "\<exists>c. colorizeLevel level = ESC # CHR ''['' # CHR ''3'' # c # CHR ''m'' # level @ ESC # ''[0m''"
    by (simp add: colorizeLevel_def)
  then show thesis using that by blast
qed

lemma split_at_fresh: "x \<notin> set xs \<Longrightarrow> x \<notin> set ys \<Longrightarrow> xs @ x # zs = ys @ x # ws \<longleftrightarrow> xs = ys \<and> zs = ws"
  by (induction xs ys rule: list_induct2') auto

text \<open>A log line determines its entry: the time of day, the level and the message can be read back.\<close>

lemma format_determines_entry:
  assumes "valid_time (en_Time e)" "valid_time (en_Time e')" "ESC \<notin> set (en_Level e)" "ESC \<notin> set (en_Level e')"
    and eq: "Format e = Format e'"
  shows "e = (e' :: Entry)"
proof -
  obtain c where c: "colorizeLevel (en_Level e) = ESC # CHR ''['' # CHR ''3'' # c # CHR ''m'' # en_Level e @ ESC # ''[0m''"
    by (rule colorizeLevel_shape)
  obtain d where d: "colorizeLevel (en_Level e') = ESC # CHR ''['' # CHR ''3'' # d # CHR ''m'' # en_Level e' @ ESC # ''[0m''"
    by (rule colorizeLevel_shape)
  have "clock_time (en_Time e) = clock_time (en_Time e')"
    "en_Level e @ ESC # ''[0m '' @ en_Message e = en_Level e' @ ESC # ''[0m '' @ en_Message e'"
    using eq by (simp_all add: Format_def c d)
  moreover from this(2) have "en_Level e = en_Level e' \<and> en_Message e = en_Message e'"
    using split_at_fresh [OF assms(3,4)] by auto
  ultimately show ?thesis using clock_time_inj assms(1,2) by simp
qed

end
