(* ===== verification/DaemonLife.thy ===== *)
theory DaemonLife
  imports DaemonSafety Opening Logger
begin

text \<open>
  A daemon from node.New on, and over restarts: New opens the database of the daemon's index unless it is given
  repositories, dials the tracker and builds the node; Start runs its goroutines until a signal comes, or the
  process dies. What one process leaves in its database file the next one starts with.
\<close>

section \<open>node.New\<close>

record Options =
  op_TrackerAddr :: string
  op_IPCSocketIndex :: string
  op_Files :: "sqldb option"
  op_Logger :: "Logger option"

datatype new_error = DatabaseError open_error | DialError

text \<open>What a daemon finds around it: the operating system, the outcomes of its calls, and the time.\<close>

record surroundings =
  su_os :: osys
  su_fails :: "bool list"
  su_sdps :: "string list"
  su_rands :: "nat list"
  su_now :: int

text \<open>The repositories: those of the options, or stores on a database opened for the index.\<close>

definition repositories :: "Options \<Rightarrow> open_env \<Rightarrow> disk \<Rightarrow> (new_error + sqldb) \<times> disk" where
  "repositories opts env d =
     (case op_Files opts of
        Some repo \<Rightarrow> (Inr repo, d)
      | None \<Rightarrow> (case client_NewDB (op_IPCSocketIndex opts) env d of
            (Inl err, d') \<Rightarrow> (Inl (DatabaseError err), d')
          | (Inr sqlDB, d') \<Rightarrow> (Inr (sqldb_of sqlDB), d')))"

definition New :: "Options \<Rightarrow> open_env \<Rightarrow> bool \<Rightarrow> surroundings \<Rightarrow> disk \<Rightarrow> (new_error + Logger \<times> daemon) \<times> disk" where
  "New opts env dialed su d =
     (case repositories opts env d of
        (Inl err, d') \<Rightarrow> (Inl err, d')
      | (Inr repo, d') \<Rightarrow>
          let log = (case op_Logger opts of None \<Rightarrow> NewLogger | Some l \<Rightarrow> l)
          in if \<not> dialed then (Inl DialError, d')
             else (Inr (log,
               \<lparr>d_world = \<lparr>w_node = new_node (op_IPCSocketIndex opts), w_db = repo, w_os = su_os su,
                  w_tracker = [], w_cli = [], w_sent = [], w_pcs = [], w_dcs = [], w_rtc = [],
                  w_fails = su_fails su, w_sdps = su_sdps su, w_rands = su_rands su, w_now = su_now su\<rparr>,
                d_waiting = [], d_stuck = False\<rparr>), d'))"

section \<open>The daemon command\<close>

text \<open>The Run function of daemonCmd up to Start: log.Fatal exits.\<close>

definition daemon_Run :: "string \<Rightarrow> string \<Rightarrow> open_env \<Rightarrow> bool \<Rightarrow> surroundings \<Rightarrow> disk \<Rightarrow> daemon res \<times> disk" where
  "daemon_Run daemonIndex trackerAddr env dialed su d =
     (let log = NewLogger
      in (case New \<lparr>op_TrackerAddr = trackerAddr, op_IPCSocketIndex = daemonIndex, op_Files = None, op_Logger = Some log\<rparr>
                 env dialed su d of
            (Inl err, d') \<Rightarrow> (Inl FatalExit, d')
          | (Inr (l, n), d') \<Rightarrow> (Inr n, d')))"

text \<open>
  Node.Start: from here on the goroutines run, init among them, until the signal, at which the process simply
  ends. So a life of a daemon may end in any state, and what is on its disk is what its statements wrote.
\<close>

definition client_path :: "string \<Rightarrow> string" where
  "client_path index = ''client-'' @ index @ ''.sqlite3''"

definition daemon_life :: "(bytes \<Rightarrow> bytes) \<Rightarrow> string \<Rightarrow> disk \<Rightarrow> daemon \<Rightarrow> disk \<Rightarrow> bool" where
  "daemon_life sha index d n d' \<longleftrightarrow> (\<exists>trackerAddr env dialed su n0 d1.
     daemon_Run index trackerAddr env dialed su d = (Inr n0, d1) \<and> (daemon_step sha)\<^sup>*\<^sup>* n0 n \<and>
     d' = written_back (client_path index) (tables_of (w_db (d_world n))) d1)"

text \<open>Successive lives of the daemon of an index; between them anything but its own file may change.\<close>

inductive daemon_lives :: "(bytes \<Rightarrow> bytes) \<Rightarrow> string \<Rightarrow> disk \<Rightarrow> disk \<Rightarrow> bool" for sha index where
  no_life: "file_at (client_path index) d' = file_at (client_path index) d \<Longrightarrow> daemon_lives sha index d d'"
| next_life: "daemon_lives sha index d d1 \<Longrightarrow> daemon_life sha index d1 n d2 \<Longrightarrow>
    file_at (client_path index) d' = file_at (client_path index) d2 \<Longrightarrow> daemon_lives sha index d d'"

section \<open>Files of their own\<close>

lemma client_path_inj: "client_path i = client_path j \<longleftrightarrow> i = j"
  by (simp add: client_path_def)

lemma client_path_not_tracker: "client_path i \<noteq> ''tracker.sqlite3''"
  by (simp add: client_path_def)

lemma daemon_Run_cases:
  assumes "daemon_Run index addr env dialed su d = (r, d')"
  obtains (no_db) e where "client_NewDB index env d = (Inl e, d')" "r = Inl FatalExit"
  | (no_dial) p where "client_NewDB index env d = (Inr p, d')" "\<not> dialed" "r = Inl FatalExit"
  | (started) p n where "client_NewDB index env d = (Inr p, d')" "dialed" "r = Inr n" "w_db (d_world n) = sqldb_of p"
      "w_node (d_world n) = new_node index" "w_tracker (d_world n) = []" "w_cli (d_world n) = []" "w_sent (d_world n) = []"
      "w_pcs (d_world n) = []" "w_dcs (d_world n) = []" "d_waiting n = []" "\<not> d_stuck n"
proof -
  obtain q d1 where o: "client_NewDB index env d = (q, d1)" by (cases "client_NewDB index env d")
  show thesis
  proof (cases q)
    case (Inl e)
    then show thesis using assms o no_db by (simp add: daemon_Run_def New_def repositories_def Let_def)
  next
    case (Inr p)
    then show thesis using assms o no_dial [of p] started [of p]
      by (cases dialed) (auto simp: daemon_Run_def New_def repositories_def Let_def)
  qed
qed

lemma Open_elsewhere:
  assumes "Open path env d = (r, d')" "q \<noteq> path" shows "file_at q d' = file_at q d"
  using assms by (auto simp: Open_def split: if_splits prod.splits)

lemma Open_rows: "Open path env d = (r, d') \<Longrightarrow> df_tables (file_at q d') = df_tables (file_at q d)"
  using run_schema_effect(1) [of "oe_schema env" "file_at path d"] by (auto simp: Open_def split: if_splits prod.splits)

text \<open>Daemons of different indices and the tracker never touch each other's database.\<close>

lemma daemon_life_elsewhere:
  assumes "daemon_life sha index d n d'" "q \<noteq> client_path index"
  shows "file_at q d' = file_at q d"
proof -
  obtain addr env dialed su n0 d1 where l: "daemon_Run index addr env dialed su d = (Inr n0, d1)"
    "d' = written_back (client_path index) (tables_of (w_db (d_world n))) d1"
    using assms(1) unfolding daemon_life_def by blast
  from l(1) obtain p where "client_NewDB index env d = (Inr p, d1)" by (rule daemon_Run_cases) simp_all
  then have "file_at q d1 = file_at q d" using Open_elsewhere assms(2) unfolding client_NewDB_def client_path_def by blast
  then show ?thesis using l(2) assms(2) by (simp add: written_back_def)
qed

section \<open>Restarts\<close>

text \<open>What the start of a daemon needs of the rows of its database.\<close>

definition sane_rows :: "tables \<Rightarrow> bool" where
  "sane_rows t \<longleftrightarrow> sane_db \<lparr>tables_of = t, sched = []\<rparr>"

lemma sane_rows_db: "sane_rows (tables_of c) = sane_db c"
  unfolding sane_rows_def by (rule sane_db_cong) simp

lemma sane_rows_empty: "sane_rows empty_tables"
  by (simp add: sane_rows_def sane_db_def wf_db_def) (simp add: empty_tables_def)

lemma Run_starts:
  assumes "daemon_Run index addr env dialed su d = (Inr n, d')" "sane_rows (df_tables (file_at (client_path index) d))"
  shows "start_daemon index n"
  using assms(1)
proof (cases rule: daemon_Run_cases)
  case (started p m)
  have "pl_tables p = df_tables (file_at (client_path index) d)"
    using Open_success(2) started(1) unfolding client_NewDB_def client_path_def by blast
  then have "sane_db (sqldb_of p)" using assms(2) by (simp add: sqldb_of_def flip: sane_rows_db)
  then show ?thesis using started by (simp add: start_daemon_def)
qed simp_all

lemma lives_sane:
  assumes "daemon_lives sha index d d'" "sane_rows (df_tables (file_at (client_path index) d))"
  shows "sane_rows (df_tables (file_at (client_path index) d'))"
  using assms
proof (induction rule: daemon_lives.induct)
  case (next_life d d1 n d2 d')
  obtain addr env dialed su n0 d0 where l: "daemon_Run index addr env dialed su d1 = (Inr n0, d0)"
    "(daemon_step sha)\<^sup>*\<^sup>* n0 n" "d2 = written_back (client_path index) (tables_of (w_db (d_world n))) d0"
    using next_life.hyps(2) unfolding daemon_life_def by blast
  have "start_daemon index n0" by (rule Run_starts [OF l(1)]) (rule next_life.IH [OF next_life.prems])
  then have "daemon_ok n" using daemon_system.reachable_inv l(2) by blast
  then have "sane_db (w_db (d_world n))" by (simp add: daemon_ok_def world_ok_def)
  then show ?case using l(3) next_life.hyps(3) by (simp add: written_back_def sane_rows_db)
qed simp


definition sample_su :: surroundings where
  "sample_su = \<lparr>su_os = \<lparr>fs_of = Map.empty, io_sched = []\<rparr>, su_fails = [], su_sdps = [], su_rands = [], su_now = 0\<rparr>"


end
