(* ===== verification/Commands.thy ===== *)
theory Commands
  imports RouterInv NodeFiles Cli Logger
begin

text \<open>
  The commands of the peer-it binary: internal/client/cmd and cmd/client/main.go. Each is a function from its
  arguments and from what happens outside it (whether the dial succeeds, which writes fail, the log messages the
  daemon sends, the file system) to what it logs and how it ends. Which command a command line selects is
  the work of the cobra library, hence a parameter. The daemon command is in DaemonLife.
\<close>

section \<open>The commands as cobra sees them\<close>

record Command =
  cmd_Use :: string
  cmd_Short :: string
  cmd_Long :: string
  cmd_Args :: "nat option"
  cmd_index :: "string option"

definition registerCmd :: Command where
  "registerCmd = \<lparr>cmd_Use = ''register <path/to/file>'', cmd_Short = ''register a file to the tracker server'',
     cmd_Long = ''registers a file to the tracker server to make it available for download by other peers'', cmd_Args = Some 1, cmd_index = Some ''0''\<rparr>"

definition downloadCmd :: Command where
  "downloadCmd = \<lparr>cmd_Use = ''download <file-path>'', cmd_Short = ''download a file'',
     cmd_Long = ''download a file from the swarm, requires a .pit file'' @ [CHR 0x27] @ ''s path'', cmd_Args = Some 1, cmd_index = Some ''0''\<rparr>"

definition daemonCmd :: Command where
  "daemonCmd = \<lparr>cmd_Use = ''daemon <tracker-address>'', cmd_Short = ''runs peer-it daemon'',
     cmd_Long = ''runs the peer-it daemon in the background, connecting to the specified tracker'', cmd_Args = Some 1, cmd_index = Some ''0''\<rparr>"

definition parseCmd :: Command where
  "parseCmd = \<lparr>cmd_Use = ''parse path/to/file'', cmd_Short = ''parses a .p2p file'', cmd_Long = [], cmd_Args = Some 1, cmd_index = None\<rparr>"

definition rootCmd :: Command where
  "rootCmd = \<lparr>cmd_Use = ''peer-it'', cmd_Short = [], cmd_Long = ''peer-it is a peer to peer file transfer application'', cmd_Args = None, cmd_index = None\<rparr>"

definition subcommands :: "Command list" where
  "subcommands = [registerCmd, downloadCmd, daemonCmd, parseCmd]"

section \<open>Outcomes\<close>

datatype cmd_error = DialFailed | SendFailed send_error | ParseFailed io_error | BadTotal num_error | UsageError

datatype log_line = LInfo string | LWarn cmd_error | LFatal cmd_error

text \<open>How a command ends: it returns, exits with status 1 (log.Fatal), panics, or does not end.\<close>

datatype status = Returned | Exited | Panic stop | StillWaiting | StuckForEver

record outcome =
  oc_log :: "log_line list"
  oc_logger :: Logger
  oc_status :: status

section \<open>register_cmd.go\<close>

definition register_Run ::
  "(NetworkMessage \<Rightarrow> bytes option) \<Rightarrow> string \<Rightarrow> string \<Rightarrow> bool \<Rightarrow> wconn \<Rightarrow> outcome \<times> wconn" where
  "register_Run marshal registerIndex filePath dialed conn =
     (let logger = NewLogger;
          ends = (\<lambda>ls st. \<lparr>oc_log = ls, oc_logger = logger, oc_status = st\<rparr>)
      in (case NewClient registerIndex dialed of
            Inl e \<Rightarrow> (ends [LFatal DialFailed] Exited, conn)
          | Inr client \<Rightarrow>
              (case SendRegisterSignal marshal filePath conn of
                 (Inl err, conn') \<Rightarrow> (ends [LWarn (SendFailed err), LFatal (SendFailed err)] Exited, conn')
               | (Inr u, conn') \<Rightarrow>
                   (ends [LInfo ''Successfully registered file with tracker'', LInfo (register_report registerIndex filePath)]
                      Returned, conn'))))"

section \<open>download_cmd.go\<close>

text \<open>The writer the command's log goes through: the bar is wiped, the line written, the bar drawn again.\<close>

datatype term_op = BarClear | StdoutWrite string | BarRenderBlank

definition ProgressWriter_Write :: "(string \<Rightarrow> nat \<times> bool) \<Rightarrow> string \<Rightarrow> (nat \<times> bool) \<times> term_op list" where
  "ProgressWriter_Write stdout p = (stdout p, [BarClear, StdoutWrite p, BarRenderBlank])"

text \<open>The text the command reports with; the check mark is three bytes of UTF-8.\<close>

definition download_report :: "string \<Rightarrow> string" where
  "download_report filePath = ''Downloaded '' @ actualFileName filePath @ '' successfully! '' @
     [CHR 0xE2, CHR 0x9C, CHR 0x85]"

fun log_lines :: "log_event list \<Rightarrow> progress_bar \<Rightarrow> log_line list" where
  "log_lines [] b = []"
| "log_lines (ev # evs) b = (case feed_bar ev b of
      None \<Rightarrow> []
    | Some b' \<Rightarrow> (case ev of Info msg \<Rightarrow> [LInfo msg] | Warn er \<Rightarrow> [LWarn (BadTotal er)] | _ \<Rightarrow> []) @ log_lines evs b')"

text \<open>
  The logs are the messages the daemon sends to this client; the two goroutines, the listener and the feeder of the
  bar, are those of \<open>download_logs\<close>. The listener logs what it reads until it ends, waits or is blocked.
\<close>

definition download_Run ::
  "(NetworkMessage \<Rightarrow> bytes option) \<Rightarrow> string \<Rightarrow> string \<Rightarrow> bool \<Rightarrow> string list \<Rightarrow> wconn \<Rightarrow>
   (outcome \<times> progress_bar) \<times> wconn" where
  "download_Run marshal downloadIndex filePath dialed logs conn =
     (let bar = new_bar;
          logger = NewLogger\<lparr>lg_formatter := TextFormatter\<rparr>;
          ends = (\<lambda>ls st. \<lparr>oc_log = ls, oc_logger = logger, oc_status = st\<rparr>)
      in (case NewClient downloadIndex dialed of
            Inl e \<Rightarrow> ((ends [LFatal DialFailed] Exited, bar), conn)
          | Inr client \<Rightarrow>
              (case SendDownloadSignal marshal filePath conn of
                 (Inl err, conn') \<Rightarrow> ((ends [LWarn (SendFailed err), LFatal (SendFailed err)] Exited, bar), conn')
               | (Inr u, conn') \<Rightarrow>
                   let shown = log_lines (fst (ListenForDaemonLogs logs)) new_bar
                   in (case download_logs logs of
                      (bar', Finished) \<Rightarrow> ((ends (shown @ [LInfo (download_report filePath)]) Returned, bar'), conn')
                    | (bar', Waiting) \<Rightarrow> ((ends shown StillWaiting, bar'), conn')
                    | (bar', Blocked) \<Rightarrow> ((ends shown StuckForEver, bar'), conn')
                    | (bar', Crashed p) \<Rightarrow> ((ends shown (Panic p), bar'), conn')))))"

section \<open>parse_cmd.go\<close>

text \<open>The verb %+v of fmt on a pointer to a ParserFile.\<close>

definition show_chunk :: "ParserChunk \<Rightarrow> string" where
  "show_chunk c = ''{ChunkHash:'' @ pc_ChunkHash c @ '' ChunkIndex:'' @ pc_ChunkIndex c @ '' ChunkSize:'' @ pc_ChunkSize c @ ''}''"

definition show_parsed :: "ParserFile \<Rightarrow> string" where
  "show_parsed pf = ''&{FileName:'' @ pf_FileName pf @ '' FileHash:'' @ pf_FileHash pf @ '' FileSize:'' @ pf_FileSize pf @
     '' MaxChunkSize:'' @ pf_MaxChunkSize pf @ '' TotalChunks:'' @ pf_TotalChunks pf @
     '' Chunks:['' @ join_with '' '' (map show_chunk (pf_Chunks pf)) @ '']}''"

definition parse_Run :: "string \<Rightarrow> osys \<Rightarrow> outcome \<times> osys" where
  "parse_Run filePath s =
     (let logger = NewLogger;
          ends = (\<lambda>ls st. \<lparr>oc_log = ls, oc_logger = logger, oc_status = st\<rparr>)
      in (case ParseP2PFile filePath s of
            (Inl p, s') \<Rightarrow> (ends [] (Panic p), s')
          | (Inr (Inl err), s') \<Rightarrow> (ends [LFatal (ParseFailed err)] Exited, s')
          | (Inr (Inr parserFile), s') \<Rightarrow>
              (ends [LInfo ''Successfully parsed file'', LInfo (show_parsed parserFile)] Returned, s')))"

section \<open>root.go and main\<close>

definition root_Run :: outcome where
  "root_Run = \<lparr>oc_log = [LInfo ''peer-it is a peer to peer file transfer application''], oc_logger = NewLogger, oc_status = Returned\<rparr>"

text \<open>Execute: cobra selects a command or reports an error; an error is fatal.\<close>

datatype selected = Root | Register string string | Download string string | Parse string | DaemonCommand string string

definition Execute ::
  "(string list \<Rightarrow> selected option) \<Rightarrow> (selected \<Rightarrow> outcome) \<Rightarrow> string list \<Rightarrow> outcome" where
  "Execute cobra run args =
     (case cobra args of
        None \<Rightarrow> \<lparr>oc_log = [LFatal UsageError], oc_logger = NewLogger, oc_status = Exited\<rparr>
      | Some sel \<Rightarrow> run sel)"

section \<open>One signal on a connection\<close>

lemma listen_cut_frame:
  assumes "length d < 2 ^ 32" "k < length (frame d)"
  shows "fst (listen u rs (take k (frame d))) = []"
proof -
  have len: "length (frame d) = 4 + length d" by (simp add: frame_def)
  have "\<exists>e. listen_once u rs (take k (frame d)) = Inl e"
  proof (cases "k < 4")
    case True
    then show ?thesis using len by (cases "take k (frame d) = []") (auto simp: listen_once_def ReadFull_def)
  next
    case False
    then have t: "take k (frame d) = be32 (word_of_nat (length d)) @ take (k - 4) d" by (simp add: frame_def)
    have "ReadFull 4 (take k (frame d)) = Inr (be32 (word_of_nat (length d)), take (k - 4) d)"
      unfolding t by (rule ReadFull_append) simp
    moreover have "k - 4 < length d" using assms(2) len False by linarith
    ultimately show ?thesis using assms(1) by (auto simp: listen_once_def ReadFull_def)
  qed
  then show ?thesis using listen_stop by fastforce
qed

text \<open>Whatever fails, what is on the stream after one send is a beginning of its frame.\<close>

lemma WriteMessage_prefix:
  assumes "WriteMessage marshal msg c = (r, c')" "w_out c = []"
  shows "(\<exists>data k. marshal msg = Some data \<and> w_out c' = take k (frame data)) \<or> marshal msg = None \<and> w_out c' = []"
proof (cases "marshal msg")
  case None
  then show ?thesis using assms by (simp add: WriteMessage_def)
next
  case (Some data)
  let ?h = "be32 (word_of_nat (length data))"
  obtain b1 c1 where w1: "conn_write ?h c = (b1, c1)" by (cases "conn_write ?h c")
  show ?thesis
  proof (cases b1)
    case False
    then obtain n where "w_out c' = take n ?h" using conn_write_prefix [OF w1] assms Some w1 by (auto simp: WriteMessage_def Let_def)
    then have "w_out c' = take (min n 4) (frame data)" by (auto simp: frame_def min_def)
    then show ?thesis using Some by blast
  next
    case True
    obtain b2 c2 where w2: "conn_write data c1 = (b2, c2)" by (cases "conn_write data c1")
    have "w_out c1 = ?h" using conn_write_ok w1 True assms(2) by fastforce
    moreover obtain n where "w_out c2 = w_out c1 @ take n data" using conn_write_prefix [OF w2] by blast
    moreover have "w_out c' = w_out c2" using assms Some w1 w2 True by (cases b2) (auto simp: WriteMessage_def Let_def)
    ultimately have "w_out c' = take (4 + n) (frame data)" by (simp add: frame_def)
    then show ?thesis using Some by blast
  qed
qed

lemma one_signal:
  assumes codec: "codec_ok marshal unmarshal" and w: "WriteMessage marshal \<lparr>MessageType = Some m\<rparr> c = (r, c')" "w_out c = []"
  shows "fst (listen unmarshal rs (w_out c')) \<in> {[], sends_of rs m} \<and>
    (r = Inr () \<longrightarrow> listen unmarshal rs (w_out c') = (sends_of rs m, StreamClosed))"
proof -
  have full: "listen unmarshal rs (frame d) = (sends_of rs m, StreamClosed)" if "marshal \<lparr>MessageType = Some m\<rparr> = Some d" for d
  proof -
    have "length d < 2 ^ 32" "unmarshal d = Some \<lparr>MessageType = Some m\<rparr>" using codec that unfolding codec_ok_def by fastforce+
    then show ?thesis using listen_frames [of "[(d, m)]" unmarshal rs "[]"] by simp
  qed
  have ok: "listen unmarshal rs (w_out c') = (sends_of rs m, StreamClosed)" if r: "r = Inr ()"
    using WriteMessage_ok [of marshal "\<lparr>MessageType = Some m\<rparr>" c "()" c'] w r full by auto
  from WriteMessage_prefix [OF w] have "fst (listen unmarshal rs (w_out c')) \<in> {[], sends_of rs m}"
  proof (elim disjE exE conjE)
    fix data k assume d: "marshal \<lparr>MessageType = Some m\<rparr> = Some data" "w_out c' = take k (frame data)"
    have "length data < 2 ^ 32" using codec d(1) unfolding codec_ok_def by fastforce
    then show ?thesis using full [OF d(1)] listen_cut_frame [of data k] d(2) by (cases "k < length (frame data)") simp_all
  qed simp
  with ok show ?thesis by blast
qed

section \<open>Properties\<close>


definition sample_path_marshal :: "NetworkMessage \<Rightarrow> bytes option" where
  "sample_path_marshal m = (if m = \<lparr>MessageType = Some (NetworkMessage_SignalRegister \<lparr>sr_FilePath = ''d/f''\<rparr>)\<rparr> then Some ''df''
     else if m = \<lparr>MessageType = Some (NetworkMessage_SignalDownload \<lparr>sd_FilePath = ''d/f.p2p''\<rparr>)\<rparr> then Some ''ff'' else None)"

definition sample_path_unmarshal :: "bytes \<Rightarrow> NetworkMessage option" where
  "sample_path_unmarshal d =
     (if d = ''df'' then Some \<lparr>MessageType = Some (NetworkMessage_SignalRegister \<lparr>sr_FilePath = ''d/f''\<rparr>)\<rparr>
      else if d = ''ff'' then Some \<lparr>MessageType = Some (NetworkMessage_SignalDownload \<lparr>sd_FilePath = ''d/f.p2p''\<rparr>)\<rparr> else None)"

lemma sample_path_codec: "codec_ok sample_path_marshal sample_path_unmarshal"
  by (auto simp: codec_ok_def sample_path_marshal_def sample_path_unmarshal_def)

abbreviation fresh_conn :: wconn where
  "fresh_conn \<equiv> \<lparr>w_out = [], w_sched = []\<rparr>"


text \<open>C18: the download command, from its arguments to its end. It reports a download, under the name of the file
  without the extension .p2p, exactly when the connection opens, the frame of its signal is written and the
  log of the daemon is one the listener follows to the word done; the daemon has then received exactly
  that signal. When the connection or the write fails it exits with a fatal message.\<close>

theorem download_command_reports:
  assumes "codec_ok marshal unmarshal" "w_out conn = []"
    and run: "download_Run marshal index path dialed logs conn = ((oc, bar), conn')"
  shows "let signal = [(Chan ''cliSignalDownloadCh'' KSignalDownload, NetworkMessage_SignalDownload \<lparr>sd_FilePath = path\<rparr>)];
        sent = (\<exists>c1. SendDownloadSignal marshal path conn = (Inr (), c1))
    in (oc_status oc = Returned \<longleftrightarrow> dialed \<and> sent \<and> snd (download_logs logs) = Finished) \<and>
      (oc_status oc = Returned \<longrightarrow> last (oc_log oc) = LInfo (download_report path)) \<and>
      (oc_status oc = Exited \<longleftrightarrow> \<not> (dialed \<and> sent)) \<and>
      (if oc_status oc = Exited then fst (listen unmarshal cli_routes (w_out conn')) \<in> {[], signal}
       else listen unmarshal cli_routes (w_out conn') = (signal, StreamClosed))"
proof -
  let ?m = "NetworkMessage_SignalDownload \<lparr>sd_FilePath = path\<rparr>"
  have s: "sends_of cli_routes ?m = [(Chan ''cliSignalDownloadCh'' KSignalDownload, ?m)]"
    by (simp add: sends_of_def cli_routes_def AddRoute_def asserts_def)
  show ?thesis
  proof (cases dialed)
    case False
    then show ?thesis using run assms(2) by (auto simp: download_Run_def NewClient_def)
  next
    case True
    obtain r c1 where w: "WriteMessage marshal \<lparr>MessageType = Some ?m\<rparr> conn = (r, c1)"
      by (cases "WriteMessage marshal \<lparr>MessageType = Some ?m\<rparr> conn")
    obtain b e where l: "download_logs logs = (b, e)" by (cases "download_logs logs")
    show ?thesis using run True w one_signal [OF assms(1) w assms(2), of cli_routes] s l
      by (cases r; cases e) (auto simp: download_Run_def NewClient_def SendDownloadSignal_def SendNetMsg_eq Let_def)
  qed
qed

theorem download_command_reports_witness:
  "let oc = fst (fst (download_Run sample_path_marshal ''0'' ''d/f.p2p'' True [''starting'', ''done''] fresh_conn))
   in oc_status oc = Returned \<and> last (oc_log oc) = LInfo (''Downloaded f successfully! '' @ [CHR 0xE2, CHR 0x9C, CHR 0x85])"
proof -
  let ?logs = "[''starting'', ''done'']"
  let ?r = "download_Run sample_path_marshal ''0'' ''d/f.p2p'' True ?logs fresh_conn"
  have sent: "\<exists>c1. SendDownloadSignal sample_path_marshal ''d/f.p2p'' fresh_conn = (Inr (), c1)"
    by (simp add: SendDownloadSignal_def SendNetMsg_def sample_path_marshal_def conn_write_def Let_def)
  have logs: "snd (download_logs ?logs) = Finished" by (simp add: download_logs_def slice_get_def)
  have name: "download_report ''d/f.p2p'' = ''Downloaded f successfully! '' @ [CHR 0xE2, CHR 0x9C, CHR 0x85]" by code_simp
  have "?r = ((fst (fst ?r), snd (fst ?r)), snd ?r)" by simp
  from download_command_reports [OF sample_path_codec _ this, unfolded Let_def name] sent logs
  have "oc_status (fst (fst ?r)) = Returned" "last (oc_log (fst (fst ?r))) = LInfo (''Downloaded f successfully! '' @ [CHR 0xE2, CHR 0x9C, CHR 0x85])"
    by (simp_all only: wconn.select_convs simp_thms)
  then show ?thesis by (simp only: Let_def simp_thms)
qed

text \<open>The report of the register command says nothing about the registration: when the daemon cannot open the path it
  was given, its handler returns without a message to anyone, while the command has reported success.\<close>

theorem registration_fails_silently:
  assumes "fs_of (w_os w) path = None" "marshal \<lparr>MessageType = Some (NetworkMessage_SignalRegister \<lparr>sr_FilePath = path\<rparr>)\<rparr> = Some d"
  shows "(\<exists>w'. handleRegisterSignal sha \<lparr>sr_FilePath = path\<rparr> w = (Inr (), w') \<and> w_tracker w' = w_tracker w \<and>
      w_cli w' = w_cli w \<and> w_db w' = w_db w) \<and>
    oc_status (fst (register_Run marshal index path True fresh_conn)) = Returned"
proof
  obtain e s' where o: "os_Open path (w_os w) = (Inl e, s')"
    using assms(1) by (cases "os_Open path (w_os w)") (auto simp: os_Open_def os_call_def next_fault_def split: option.splits prod.splits if_splits list.splits bool.splits)
  show "\<exists>w'. handleRegisterSignal sha \<lparr>sr_FilePath = path\<rparr> w = (Inr (), w') \<and> w_tracker w' = w_tracker w \<and>
      w_cli w' = w_cli w \<and> w_db w' = w_db w"
    by (simp add: handleRegisterSignal_def os_do_def o go_bind_def go_return_def Let_def)
  show "oc_status (fst (register_Run marshal index path True fresh_conn)) = Returned"
    using assms(2) by (simp add: register_Run_def NewClient_def SendRegisterSignal_def SendNetMsg_def conn_write_def Let_def)
qed

end
