(* ===== verification/DaemonFrame.thy ===== *)
theory DaemonFrame
  imports Daemon "HOL-Library.Sublist"
begin

text \<open>
  What no handler of a daemon does: it never takes back a message it wrote to the tracker or to a daemon or
  a data channel it made, and only the identity message of the tracker changes the daemon's id. And what a
  handler says to other daemons: introductions, an answer to a chunk request, the requests of a download
  manager, and nothing else.
\<close>

section \<open>Primitive actions\<close>

text \<open>Since \<open>v\<close> the world has kept its id, what it wrote to the tracker and its data channels, and all it
  sent to daemons satisfies \<open>Q\<close>.\<close>

definition grows :: "(NetworkMessage \<Rightarrow> bool) \<Rightarrow> string \<Rightarrow> world \<Rightarrow> world \<Rightarrow> bool" where
  "grows Q i v w \<longleftrightarrow> n_id (w_node w) = i \<and> prefix (w_tracker v) (w_tracker w) \<and> prefix (w_dcs v) (w_dcs w) \<and>
     (\<exists>more. w_sent w = w_sent v @ more \<and> (\<forall>(dc, m) \<in> set more. Q m))"

named_theorems grows_intros \<open>the actions under which \<open>grows\<close> is kept\<close>

lemmas [grows_intros] = runs_return runs_gets runs_bind runs_then runs_forM runs_if runs_sum runs_option runs_list runs_prod
  runs_get_node

lemma grows_prims [grows_intros]:
  "runs (grows Q i v) UNIV (go_stop e)" "runs (grows Q i v) UNIV (go_lift r)"
  "runs (grows Q i v) UNIV (db_do q)" "runs (grows Q i v) UNIV (os_do s)"
  by (rule runs_stop, simp) (rule runs_lift, simp, rule runs_db_do, simp add: grows_def, rule runs_os_do, simp add: grows_def)

lemma grows_os_try [grows_intros]: "runs (grows Q i v) UNIV (os_try s)"
  by (rule runsI) (simp add: os_try_def grows_def split: prod.split)

lemma grows_succeeds [grows_intros]: "runs (grows Q i v) UNIV succeeds"
  by (rule runsI) (simp add: succeeds_def grows_def split: list.split)

lemma grows_rand [grows_intros]: "runs (grows Q i v) UNIV (rand_Intn n)"
  by (rule runsI) (simp add: rand_Intn_def grows_def split: list.split)

lemma grows_modify [grows_intros]:
  "runs (grows Q i v) UNIV (go_modify (\<lambda>w. w\<lparr>w_tracker := w_tracker w @ [m]\<rparr>))"
  "runs (grows Q i v) UNIV (go_modify (\<lambda>w. w\<lparr>w_cli := c w\<rparr>))"
  "runs (grows Q i v) UNIV (go_modify (\<lambda>w. w\<lparr>w_rtc := x w\<rparr>))"
  "runs (grows Q i v) UNIV (go_modify (\<lambda>w. w\<lparr>w_pcs := p w\<rparr>))"
  "runs (grows Q i v) UNIV (go_modify (\<lambda>w. w\<lparr>w_dcs := w_dcs w @ [ob]\<rparr>))"
  "runs (grows Q i v) UNIV (go_modify (\<lambda>w. w\<lparr>w_now := n\<rparr>))"
  by (rule runs_modify, simp add: grows_def)+

lemma grows_sent [grows_intros]:
  "Q m \<Longrightarrow> runs (grows Q i v) UNIV (go_modify (\<lambda>w. w\<lparr>w_sent := w_sent w @ [(dc, m)]\<rparr>))"
  by (rule runs_modify) (fastforce simp: grows_def)

lemma grows_upd [grows_intros]: "(\<And>n. n_id (f n) = n_id n) \<Longrightarrow> runs (grows Q i v) UNIV (upd_node f)"
  by (rule runs_upd_node) (simp add: grows_def)

lemma grows_sdp [grows_intros]: "runs (grows Q i v) UNIV create_sdp"
  unfolding create_sdp_def
  by (intro grows_intros runsI) (auto simp: grows_def split: list.split)

lemmas send_acts = send_tracker_def send_cli_def messageCLI_def

lemma grows_sends [grows_intros]:
  "runs (grows Q i v) UNIV (send_tracker m)" "runs (grows Q i v) UNIV (send_cli r m)"
  "runs (grows Q i v) UNIV (messageCLI s)"
  unfolding send_acts by (intro grows_intros)+

lemma grows_send_dc: "Q m \<Longrightarrow> runs (grows Q i v) UNIV (send_dc dc m)"
  unfolding send_dc_def by (intro grows_intros)

text \<open>The three things a daemon says to another.\<close>

definition introduces :: "(NetworkMessage \<Rightarrow> bool) \<Rightarrow> bool" where
  "introduces Q \<longleftrightarrow> (\<forall>h cs. Q (BuildIntroductionMessage h cs))"

definition answers :: "ChunkRequest \<Rightarrow> (NetworkMessage \<Rightarrow> bool) \<Rightarrow> bool" where
  "answers cr Q \<longleftrightarrow> (\<forall>data. Q (BuildChunkResponseMessage (cr_FileHash cr) (cr_ChunkIndex cr) data))"

definition requests :: "string \<Rightarrow> (NetworkMessage \<Rightarrow> bool) \<Rightarrow> bool" where
  "requests h Q \<longleftrightarrow> (\<forall>k. Q (BuildChunkRequestMessage h k))"

lemma grows_says [grows_intros]:
  "introduces Q \<Longrightarrow> runs (grows Q i v) UNIV (send_dc dc (BuildIntroductionMessage h cs))"
  "answers cr Q \<Longrightarrow>
     runs (grows Q i v) UNIV (send_dc dc (BuildChunkResponseMessage (cr_FileHash cr) (cr_ChunkIndex cr) data))"
  by (rule grows_send_dc, simp only: introduces_def answers_def)+

section \<open>Handlers\<close>

lemma grows_set_chunk_map [grows_intros]: "runs (grows Q i v) UNIV (set_chunk_map p h cs)"
  unfolding set_chunk_map_def by (intro grows_intros) simp

lemma grows_own_map [grows_intros]: "runs (grows Q i v) UNIV ensure_own_map"
  unfolding ensure_own_map_def by (intro grows_intros) simp

lemma grows_init [grows_intros]: "runs (grows Q i v) UNIV node_init"
  unfolding node_init_def init_file_def by (intro grows_intros) simp

lemma grows_heartbeat [grows_intros]: "runs (grows Q i v) UNIV heartbeat_tick"
  unfolding heartbeat_tick_def by (intro grows_intros)

lemma grows_GetChunkMap [grows_intros]: "runs (grows Q i v) UNIV (GetChunkMap h)"
  unfolding GetChunkMap_def by (intro grows_intros)

lemma grows_introduce [grows_intros]: "introduces Q \<Longrightarrow> runs (grows Q i v) UNIV (sendIntroduction p h)"
  unfolding sendIntroduction_def by (intro grows_intros)

lemma grows_remove [grows_intros]: "runs (grows Q i v) UNIV (removePeerFromDownloads p)"
  unfolding removePeerFromDownloads_def by (intro grows_intros) simp

lemma grows_messages [grows_intros]:
  "answers cr Q \<Longrightarrow> runs (grows Q i v) UNIV (handleChunkRequest p cr)"
  "runs (grows Q i v) UNIV (handleChunkResponse p cs)"
  "introduces Q \<Longrightarrow> runs (grows Q i v) UNIV (handleIntroduction p im)"
  unfolding handleChunkRequest_def readChunkFromFile_def handleChunkResponse_def mark_own_chunk_def Let_def
    handleIntroduction_def addPeerToDownload_def
  by (intro grows_intros; simp split: option.split; fail)+

lemma grows_message_type [grows_intros]:
  "(\<And>m. mt = Some m \<Longrightarrow> runs P E (f m)) \<Longrightarrow> runs P E g \<Longrightarrow> runs P E (case mt of None \<Rightarrow> g | Some m \<Rightarrow> f m)"
  by (cases mt) simp_all

lemma grows_peer_message [grows_intros]:
  assumes "introduces Q" "\<And>nm cr. d = Some nm \<Longrightarrow> MessageType nm = Some (NetworkMessage_ChunkRequest cr) \<Longrightarrow> answers cr Q"
  shows "runs (grows Q i v) UNIV (webrtcMessageHandler d p)"
  using assms
  unfolding webrtcMessageHandler_def by (auto split: option.split message_type.split intro: grows_intros)

lemma grows_retries [grows_intros]:
  assumes "requests h Q" shows "runs (grows Q i v) UNIV (send_with_retries n p (BuildChunkRequestMessage h k))"
proof (induction n)
  case (Suc n)
  have "Q (BuildChunkRequestMessage h k)" using assms by (simp only: requests_def)
  then show ?case unfolding send_with_retries.simps by (intro grows_intros grows_send_dc Suc)
qed (simp add: runs_return)

lemma grows_tick [grows_intros]: "requests h Q \<Longrightarrow> runs (grows Q i v) UNIV (download_tick h)"
  unfolding download_tick_def requestOneMissingChunk_def SelectRandomPeer_def Let_def by (intro grows_intros; simp)

lemma grows_rtc [grows_intros]: "runs (grows Q i v) UNIV (rtc_do pc c)"
  unfolding rtc_do_def by (intro grows_intros)

lemma grows_setup [grows_intros]: "runs (grows Q i v) UNIV (setupDataChannel p h b)"
  unfolding setupDataChannel_def by (intro grows_intros) simp

lemma grows_connection [grows_intros]: "runs (grows Q i v) UNIV (handleWebRTCConnection p h b)"
  unfolding handleWebRTCConnection_def by (intro grows_intros) simp

lemma grows_callbacks [grows_intros]:
  "runs (grows Q i v) UNIV (OnConnectionStateChange pc s)" "runs (grows Q i v) UNIV (OnDataChannel pc)"
  "introduces Q \<Longrightarrow> runs (grows Q i v) UNIV (OnOpen pc)" "runs (grows Q i v) UNIV (OnClose pc)" "runs (grows Q i v) UNIV (OnICECandidate pc ice)"
  unfolding OnConnectionStateChange_def OnDataChannel_def OnOpen_def OnClose_def OnICECandidate_def
  by (intro grows_intros; simp)+

lemma grows_signaling [grows_intros]: "runs (grows Q i v) UNIV (on_signaling s)"
  unfolding on_signaling_def dispatch_signal_def handleOffer_def Let_def by (intro grows_intros)

lemma grows_answer [grows_intros]: "introduces Q \<Longrightarrow> runs (grows Q i v) UNIV (on_download_answer h n r)"
  unfolding on_download_answer_def connect_peer_def startFileDownload_def by (intro grows_intros) simp_all

lemma grows_peer_list [grows_intros]: "runs (grows Q i v) UNIV (on_peer_list r)"
  unfolding on_peer_list_def by (intro grows_intros) simp

lemma grows_touch [grows_intros]: "runs (grows Q i v) UNIV os_touch"
  unfolding os_touch_def by (intro grows_intros)

lemma grows_register_chunks [grows_intros]: "runs (grows Q i v) UNIV (register_chunks sha f k ds pf)"
proof (induction ds arbitrary: k pf)
  case (Cons d ds)
  then show ?case unfolding register_chunks.simps by (intro grows_intros)
qed (unfold register_chunks.simps, intro grows_intros)

lemma grows_register [grows_intros]: "runs (grows Q i v) UNIV (handleRegisterSignal sha m)"
  unfolding handleRegisterSignal_def register_publish_def Let_def by (intro grows_intros)

lemma grows_missing [grows_intros]: "runs (grows Q i v) UNIV (create_missing_chunks f cs)"
  by (induction cs) (auto split: prod.split option.split intro!: grows_intros)

lemma grows_download [grows_intros]: "runs (grows Q i v) UNIV (handleDownloadSignal m)"
  unfolding handleDownloadSignal_def reset_own_chunks_def download_store_def download_files_def download_request_def Let_def
  by (intro grows_intros; simp)

lemma grows_cli [grows_intros]: "runs (grows Q i v) UNIV (accept_cli a r)"
  unfolding accept_cli_def by (intro grows_intros) simp

section \<open>Events\<close>

lemma grows_on_world: "runs (grows Q i v) UNIV m \<Longrightarrow> runs (\<lambda>d. grows Q i v (d_world d)) UNIV (on_world m)"
  by (rule runsI) (simp add: on_world_def runs_def split_beta)

lemma grows_waiting: "runs (\<lambda>d. grows Q i v (d_world d)) UNIV (go_modify (\<lambda>d. d\<lparr>d_waiting := f d\<rparr>))"
  by (rule runs_modify) simp

lemma grows_download_answer: "introduces Q \<Longrightarrow> runs (\<lambda>d. grows Q i v (d_world d)) UNIV (download_answer k)"
  unfolding download_answer_def
  by (intro grows_intros grows_on_world grows_waiting) simp_all

lemma grows_peer_list_event: "runs (\<lambda>d. grows Q i v (d_world d)) UNIV (peer_list_event r)"
proof (rule runsI)
  fix d :: daemon assume g: "grows Q i v (d_world d)"
  obtain s d' where o: "on_world (on_peer_list r) d = (s, d')" by (cases "on_world (on_peer_list r) d")
  have "grows Q i v (d_world d')" using runsD(1) [OF grows_on_world [OF grows_peer_list], of Q i v d r] g o by simp
  then show "grows Q i v (d_world (snd (peer_list_event r d))) \<and> (\<forall>e. fst (peer_list_event r d) = Inl e \<longrightarrow> e \<in> UNIV)"
    using o by (auto simp: peer_list_event_def split: sum.split stop.split)
qed

text \<open>What the handler of an event may say.\<close>

definition says_for :: "node_event \<Rightarrow> NetworkMessage \<Rightarrow> bool" where
  "says_for ev m \<longleftrightarrow> (\<exists>h cs. m = BuildIntroductionMessage h cs) \<or>
     (case ev of
        PeerMessage dc (Some nm) \<Rightarrow> (\<exists>cr data. MessageType nm = Some (NetworkMessage_ChunkRequest cr) \<and>
          m = BuildChunkResponseMessage (cr_FileHash cr) (cr_ChunkIndex cr) data)
      | ManagerTick h \<Rightarrow> (\<exists>k. m = BuildChunkRequestMessage h k)
      | _ \<Rightarrow> False)"

lemma introduces_says: "introduces (says_for ev)"
  unfolding introduces_def says_for_def by blast

lemma grows_event:
  assumes "\<And>m. ev \<noteq> Identity m"
  shows "runs (\<lambda>d. grows (says_for ev) i v (d_world d)) UNIV (handle_event sha ev)"
proof (cases ev)
  case (Identity m)
  then show ?thesis using assms by blast
next
  case (PeerList r)
  then show ?thesis using grows_peer_list_event by simp
next
  case (DownloadAnswer k)
  then show ?thesis using grows_download_answer [OF introduces_says] by simp
next
  case (PeerMessage dc decoded)
  have "answers cr (says_for ev)" if "decoded = Some nm" "MessageType nm = Some (NetworkMessage_ChunkRequest cr)" for nm cr
    using that by (auto simp: answers_def says_for_def PeerMessage simp del: BuildChunkResponseMessage_def)
  then show ?thesis unfolding PeerMessage handle_event.simps
    by (intro grows_on_world grows_intros introduces_says) simp
next
  case (ManagerTick h)
  have "requests h (says_for ev)" by (auto simp: requests_def says_for_def ManagerTick)
  then show ?thesis unfolding ManagerTick handle_event.simps by (intro grows_intros grows_on_world)
qed (simp_all only: handle_event.simps handleCLIMsgs_simps, (intro grows_intros grows_on_world grows_waiting introduces_says)+)

lemma event_frame:
  assumes "handle_event sha ev d = (r, d')"
  shows "prefix (w_tracker (d_world d)) (w_tracker (d_world d')) \<and> prefix (w_dcs (d_world d)) (w_dcs (d_world d')) \<and>
    n_id (w_node (d_world d')) = (case ev of Identity m \<Rightarrow> idm_Id m | _ \<Rightarrow> n_id (w_node (d_world d))) \<and>
    (\<exists>more. w_sent (d_world d') = w_sent (d_world d) @ more \<and> (\<forall>(dc, m) \<in> set more. says_for ev m))"
proof (cases "\<exists>m. ev = Identity m")
  case True
  then show ?thesis using assms by (auto simp: on_id_def on_world_def upd_node_def go_simps)
next
  case False
  have "grows (says_for ev) (n_id (w_node (d_world d))) (d_world d) (d_world d)" by (simp add: grows_def)
  from runsD(1) [OF grows_event this, of sha] False
  have "grows (says_for ev) (n_id (w_node (d_world d))) (d_world d) (d_world d')" using assms by auto
  then show ?thesis using False by (auto simp: grows_def split: node_event.split)
qed

end
