(* ===== verification/Swarm.thy ===== *)
theory Swarm
  imports System HandlerFacts DaemonFrame
begin

text \<open>
  A swarm: any number of daemons that share one file, some because they registered it and some because
  they fetch it, with what they say to each other over their data channels delivered in any order, any
  number of times or never. Every chunk that arrives was sent by a member that was asked for it, so it
  carries the right bytes, and whoever completes has the file.
\<close>

section \<open>Members\<close>

abbreviation id_of :: "daemon \<Rightarrow> string" where
  "id_of d \<equiv> n_id (w_node (d_world d))"

abbreviation sent_by :: "daemon \<Rightarrow> (nat \<times> NetworkMessage) list" where
  "sent_by d \<equiv> w_sent (d_world d)"

definition is_request :: "NetworkMessage \<Rightarrow> bool" where
  "is_request msg \<longleftrightarrow> (\<exists>cr. MessageType msg = Some (NetworkMessage_ChunkRequest cr))"

definition is_response :: "NetworkMessage \<Rightarrow> bool" where
  "is_response msg \<longleftrightarrow> (\<exists>cs. MessageType msg = Some (NetworkMessage_ChunkResponse cs))"

text \<open>Whether a daemon has ever asked for a chunk.\<close>

definition asked :: "daemon \<Rightarrow> bool" where
  "asked d \<longleftrightarrow> (\<exists>(dc, msg) \<in> set (sent_by d). is_request msg)"

text \<open>A member that fetches the file, and one that has all of it and need not have an entry for it in its
  own chunk map: a registration makes none.\<close>

definition fetching :: "string \<Rightarrow> bytes \<Rightarrow> string \<Rightarrow> world \<Rightarrow> bool" where
  "fetching h xs me w \<longleftrightarrow> receiving h xs me w \<and> row_sizes h xs w"

definition serving_all :: "string \<Rightarrow> bytes \<Rightarrow> string \<Rightarrow> world \<Rightarrow> bool" where
  "serving_all h xs me w \<longleftrightarrow> stored_ok h xs w \<and> row_sizes h xs w \<and> have_chunks w h = {..<tiles xs} \<and> n_id (w_node w) = me"

definition member :: "string \<Rightarrow> bytes \<Rightarrow> daemon \<Rightarrow> bool" where
  "member h xs d \<longleftrightarrow> daemon_ok d \<and>
     (fetching h xs (id_of d) (d_world d) \<or> serving_all h xs (id_of d) (d_world d) \<and> \<not> asked d)"

lemma row_sizes_cong: "tables_of (w_db w') = tables_of (w_db w) \<Longrightarrow> row_sizes h xs w' = row_sizes h xs w"
  by (simp add: row_sizes_def stored_chunks_def)

lemma have_chunks_cong: "tables_of (w_db w') = tables_of (w_db w) \<Longrightarrow> have_chunks w' h = have_chunks w h"
  by (simp add: have_chunks_def stored_chunks_def)

interpretation fetcher: data_fact h me "fetching h xs me" for h me xs
proof
  fix w assume w: "fetching h xs me w"
  then have r: "receiving h xs me w" by (simp add: fetching_def)
  show "sane_db (w_db w) \<and> sizes_ok (w_db w)" by (rule receiver.sane [OF r])
  show "n_id (w_node w) = me" by (rule receiver.own [OF r])
  show "length (stored_chunks (w_db w) h) \<le> 2 ^ 31" by (rule receiver.small [OF r])
next
  fix w w' :: world
  assume w: "fetching h xs me w" and same: "tables_of (w_db w') = tables_of (w_db w)" "fs_of (w_os w') = fs_of (w_os w)"
    "n_ipcSocketIndex (w_node w') = n_ipcSocketIndex (w_node w)" "n_id (w_node w') = n_id (w_node w)"
    "mget (n_peerChunkMap (w_node w')) (n_id (w_node w)) = mget (n_peerChunkMap (w_node w)) (n_id (w_node w))"
  then show "fetching h xs me w'" using receiver.cong [OF _ same] row_sizes_cong [OF same(1)] by (simp add: fetching_def)
qed

interpretation server: data_fact h me "serving_all h xs me" for h me xs
proof
  fix w assume w: "serving_all h xs me w"
  then have s: "stored_ok h xs w" by (simp add: serving_all_def)
  then show "sane_db (w_db w) \<and> sizes_ok (w_db w)" by (simp add: stored_ok_def)
  show "n_id (w_node w) = me" using w by (simp add: serving_all_def)
  show "length (stored_chunks (w_db w) h) \<le> 2 ^ 31" by (rule stored_small [OF s])
next
  fix w w' :: world
  assume w: "serving_all h xs me w" and same: "tables_of (w_db w') = tables_of (w_db w)" "fs_of (w_os w') = fs_of (w_os w)"
    "n_ipcSocketIndex (w_node w') = n_ipcSocketIndex (w_node w)" "n_id (w_node w') = n_id (w_node w)"
  then show "serving_all h xs me w'"
    using stored_ok_cong [OF same(1-3)] row_sizes_cong [OF same(1)] have_chunks_cong [OF same(1)] by (simp add: serving_all_def)
qed

section \<open>One event of a member\<close>

text \<open>A chunk received leaves the sizes of the rows.\<close>

lemma mark_keeps_sizes:
  assumes m: "ChunkStore_MarkChunkAvailable g i c = (r, d)" and k: "k \<in> set (stored_chunks d h)"
  obtains k0 where "k0 \<in> set (stored_chunks c h)" "c_ChunkIndex k = c_ChunkIndex k0" "c_ChunkSize k = c_ChunkSize k0"
proof (cases r)
  case (Inl e)
  then show thesis using that k Q_Mark_result [OF m [unfolded ChunkStore_MarkChunkAvailable_def]] by (simp add: stored_chunks_def)
next
  case (Inr u)
  then have t: "files (tables_of d) = files (tables_of c)" "chunks (tables_of d) = map (mark_row g i c) (chunks (tables_of c))"
    using Q_Mark_result [OF m [unfolded ChunkStore_MarkChunkAvailable_def]] by simp_all
  have same: "c_ChunkIndex (mark_row g i c j) = c_ChunkIndex j" "c_ChunkSize (mark_row g i c j) = c_ChunkSize j"
    "c_FileID (mark_row g i c j) = c_FileID j" for j by (simp_all add: mark_row_def)
  have in_t: "k \<in> mark_row g i c ` set (chunks (tables_of c))"
    "\<exists>f \<in> set (files (tables_of c)). c_FileID k = f_ID f \<and> f_Hash f = h"
    using k by (simp_all add: stored_chunks_def select_chunks_by_hash_def set_join_chunks_files t)
  then obtain k0 where k0: "k0 \<in> set (chunks (tables_of c))" "k = mark_row g i c k0" by blast
  then have "k0 \<in> set (stored_chunks c h)"
    using in_t(2) same(3) by (simp add: stored_chunks_def select_chunks_by_hash_def set_join_chunks_files)
  then show thesis using that [of k0] k0(2) same by simp
qed

lemma row_sizes_response: "runs (row_sizes h xs) UNIV (handleChunkResponse p m)"
proof -
  have fr: "sends_are_frames (row_sizes h xs)"
    unfolding sends_are_frames_def by (auto elim: row_sizes_cong [THEN iffD2, rotated])
  have q: "runs (row_sizes h xs) UNIV (db_do (FileStore_GetFileNameByHash g))" for g
    by (rule runs_db_do) (auto elim: row_sizes_cong [THEN iffD2, rotated])
  have k: "runs (row_sizes h xs) UNIV (db_do (ChunkStore_MarkChunkAvailable g i))" for g i
  proof (rule runs_db_do)
    fix w assume w: "row_sizes h xs w"
    show "row_sizes h xs (w\<lparr>w_db := snd (ChunkStore_MarkChunkAvailable g i (w_db w))\<rparr>)"
      unfolding row_sizes_def
    proof
      fix k assume "k \<in> set (stored_chunks (w_db (w\<lparr>w_db := snd (ChunkStore_MarkChunkAvailable g i (w_db w))\<rparr>)) h)"
      then have k: "k \<in> set (stored_chunks (snd (ChunkStore_MarkChunkAvailable g i (w_db w))) h)" by simp
      show "c_ChunkSize k = int (length (tile M xs (nat (c_ChunkIndex k))))"
        by (rule mark_keeps_sizes [OF surjective_pairing k]) (use w in \<open>simp add: row_sizes_def\<close>)
    qed
  qed
  show ?thesis
    unfolding handleChunkResponse_def mark_own_chunk_def Let_def
    by (intro runs_intros runs_os_do runs_upd_node runs_lift q k fr)
       (auto elim: row_sizes_cong [THEN iffD2, rotated])
qed

lemma runs_both:
  assumes "runs P E m" "runs Q F m" shows "runs (\<lambda>w. P w \<and> Q w) (E \<inter> F) m"
  using assms unfolding runs_def by blast

lemma fetching_response:
  assumes "cs_FileHash m = h" "cs_ChunkIndex m = int i" "i < tiles xs" "cs_ChunkData m = tile M xs i"
  shows "runs (fetching h xs me) {} (handleChunkResponse p m)"
proof -
  have "runs (receiving h xs me) {} (handleChunkResponse p m)"
  proof (rule runsI)
    fix w assume "receiving h xs me w"
    from receive_tile_id [OF this assms, of p]
    show "receiving h xs me (snd (handleChunkResponse p m w)) \<and> (\<forall>e. fst (handleChunkResponse p m w) = Inl e \<longrightarrow> e \<in> {})" by auto
  qed
  from runs_both [OF this row_sizes_response] show ?thesis unfolding fetching_def by simp
qed

text \<open>What a member may say: requests for chunks of the file, and the chunks of the file.\<close>

definition on_topic :: "string \<Rightarrow> bytes \<Rightarrow> NetworkMessage \<Rightarrow> bool" where
  "on_topic h xs msg \<longleftrightarrow> (case MessageType msg of
     Some (NetworkMessage_ChunkRequest cr) \<Rightarrow> cr_FileHash cr = h
   | Some (NetworkMessage_ChunkResponse cs) \<Rightarrow> cs_FileHash cs = h \<and> 0 \<le> cs_ChunkIndex cs \<and>
       nat (cs_ChunkIndex cs) < tiles xs \<and> cs_ChunkData cs = tile M xs (nat (cs_ChunkIndex cs))
   | _ \<Rightarrow> True)"

lemma topics:
  "on_topic h xs (BuildIntroductionMessage g m)" "on_topic h xs (BuildChunkRequestMessage h k)"
  "i < tiles xs \<Longrightarrow> on_topic h xs (BuildChunkResponseMessage h (int i) (tile M xs i))"
  by (simp_all add: on_topic_def)

text \<open>The message a daemon sends is of its event: a request from a manager, a response for a request.\<close>

lemma says_request: "says_for ev msg \<Longrightarrow> is_request msg \<Longrightarrow> \<exists>h. ev = ManagerTick h"
  by (auto simp: says_for_def is_request_def split: node_event.splits option.splits)

lemma says_response:
  "says_for ev msg \<Longrightarrow> is_response msg \<Longrightarrow>
   \<exists>ch nm cr. ev = PeerMessage ch (Some nm) \<and> MessageType nm = Some (NetworkMessage_ChunkRequest cr)"
  by (auto simp: says_for_def is_response_def split: node_event.splits option.splits)

lemma says_other:
  "says_for ev msg \<Longrightarrow> \<not> is_request msg \<Longrightarrow> \<not> is_response msg \<Longrightarrow> on_topic h xs msg"
  by (auto simp: on_topic_def is_request_def is_response_def split: option.splits message_type.splits)

lemma event_of_peer: "handle_event sha (PeerMessage ch decoded) d = (r, d') \<Longrightarrow>
    webrtcMessageHandler decoded (rtc_peer ch) (d_world d) = (r, d_world d')"
  by (auto simp: on_world_def split: prod.splits)

text \<open>A request answered: at most the one response, on the channel of the daemon that asked.\<close>

lemma request_answered:
  assumes ok: "stored_ok h xs (d_world d)" "row_sizes h xs (d_world d)"
    and ev: "handle_event sha (PeerMessage ch (Some nm)) d = (r, d')"
    and nm: "MessageType nm = Some (NetworkMessage_ChunkRequest cr)" "cr_FileHash cr = h"
  shows "sent_by d' = sent_by d \<or> (\<exists>dc msg. mget (n_peerDataChannels (w_node (d_world d))) (rtc_peer ch) = Some dc \<and>
    sent_by d' = sent_by d @ [(dc, msg)] \<and> on_topic h xs msg \<and> \<not> is_request msg)"
proof -
  have run: "handleChunkRequest (rtc_peer ch) cr (d_world d) = (r, d_world d')"
    using event_of_peer [OF ev] nm(1) by (simp add: webrtcMessageHandler_def)
  from chunk_answer [OF ok nm(2) run, of undefined undefined]
  show ?thesis
  proof (elim conjE disjE exE)
    fix dc i
    assume i: "i < tiles xs" and dc: "mget (n_peerDataChannels (w_node (d_world d))) (rtc_peer ch) = Some dc"
      "sent_by d' = sent_by d @ [(dc, BuildChunkResponseMessage h (int i) (tile M xs i))]"
    have "\<not> is_request (BuildChunkResponseMessage h (int i) (tile M xs i))" by (simp add: is_request_def)
    then show ?thesis using dc topics(3) [OF i] by blast
  qed simp
qed

text \<open>A manager that misses nothing asks for nothing.\<close>

lemma nothing_missing:
  assumes "serving_all h xs me w" "k < length (stored_chunks (w_db w) h)"
  shows "c_IsAvailable (stored_chunks (w_db w) h ! k) = 1"
proof -
  let ?rows = "stored_chunks (w_db w) h"
  have ix: "map c_ChunkIndex ?rows = map int [0..<tiles xs]" and all: "have_chunks w h = {..<tiles xs}"
    using assms(1) by (simp_all add: serving_all_def stored_ok_def)
  have n: "length ?rows = tiles xs" using ix by (metis length_map length_upt minus_nat.diff_0)
  have at: "c_ChunkIndex (?rows ! j) = int j" if "j < tiles xs" for j
    using arg_cong [OF ix, of "\<lambda>l. l ! j"] that n by simp
  have "k \<in> have_chunks w h" using all assms(2) n by simp
  then obtain c where c: "c \<in> set ?rows" "c_ChunkIndex c = int k" "c_IsAvailable c = 1" by (auto simp: have_chunks_def)
  then obtain j where "j < tiles xs" "?rows ! j = c" using n by (auto simp: in_set_conv_nth)
  then show ?thesis using at [of j] c by auto
qed

lemma quiet_tick:
  assumes "serving_all h xs me (d_world d)" "handle_event sha (ManagerTick h) d = (r, d')"
  shows "sent_by d' = sent_by d"
proof -
  obtain r1 w1 where t: "download_tick h (d_world d) = (r1, w1)" by (cases "download_tick h (d_world d)")
  have "d_world d' = w1"
    using assms(2) t by (auto simp: go_then_def go_bind_def on_world_def go_return_def split: sum.splits)
  moreover have "w_sent w1 = w_sent (d_world d)"
    using tick_result [OF t server.small [OF assms(1)]] nothing_missing [OF assms(1)] by (auto simp: good_request_def)
  ultimately show ?thesis by simp
qed

text \<open>What an event adds to what a member has said.\<close>

definition adds :: "string \<Rightarrow> bytes \<Rightarrow> node_event \<Rightarrow> daemon \<Rightarrow> nat \<times> NetworkMessage \<Rightarrow> bool" where
  "adds h xs ev d = (\<lambda>(dc, msg). on_topic h xs msg \<and> (is_response msg \<longrightarrow>
     (\<exists>ch nm cr. ev = PeerMessage ch (Some nm) \<and> MessageType nm = Some (NetworkMessage_ChunkRequest cr) \<and>
        mget (n_peerDataChannels (w_node (d_world d))) (rtc_peer ch) = Some dc)))"

lemma member_says:
  assumes m: "member h xs d" and ev: "honest h xs (id_of d) ev" "handle_event sha ev d = (r, d')"
    and req: "\<And>ch nm cr. ev = PeerMessage ch (Some nm) \<Longrightarrow> MessageType nm = Some (NetworkMessage_ChunkRequest cr) \<Longrightarrow>
      cr_FileHash cr = h"
  shows "\<exists>more. sent_by d' = sent_by d @ more \<and> (\<forall>s \<in> set more. adds h xs ev d s) \<and>
    (serving_all h xs (id_of d) (d_world d) \<longrightarrow> (\<forall>(dc, msg) \<in> set more. \<not> is_request msg))"
proof -
  obtain more where more: "sent_by d' = sent_by d @ more" "\<forall>(dc, msg) \<in> set more. says_for ev msg"
    using event_frame [OF ev(2)] by blast
  consider (request) ch nm cr where "ev = PeerMessage ch (Some nm)" "MessageType nm = Some (NetworkMessage_ChunkRequest cr)"
    | (tick) k where "ev = ManagerTick k"
    | (other) "\<forall>ch nm cr. ev = PeerMessage ch (Some nm) \<longrightarrow> MessageType nm \<noteq> Some (NetworkMessage_ChunkRequest cr)"
      "\<forall>k. ev \<noteq> ManagerTick k" by blast
  then show ?thesis
  proof cases
    case request
    have ok: "stored_ok h xs (d_world d)" "row_sizes h xs (d_world d)"
      using m by (auto simp: member_def fetching_def serving_all_def receiving_def transfer_inv_def)
    show ?thesis
      using request_answered [OF ok ev(2) [unfolded request(1)] request(2) req [OF request]] request
      by (auto simp: adds_def)
  next
    case (tick k)
    have k: "k = h" using ev(1) tick by simp
    have "adds h xs ev d s" if "s \<in> set more" for s
      using more(2) that tick k topics by (cases s) (fastforce simp: adds_def says_for_def is_response_def)
    moreover have "more = []" if "serving_all h xs (id_of d) (d_world d)"
      using quiet_tick [OF that ev(2) [unfolded tick k]] more(1) by simp
    ultimately show ?thesis using more(1) by fastforce
  next
    case other
    have "\<not> is_request msg \<and> \<not> is_response msg" if "(dc, msg) \<in> set more" for dc msg
      using more(2) that says_request [of ev msg] says_response [of ev msg] other by blast
    then show ?thesis using more says_other by (fastforce simp: adds_def)
  qed
qed

lemma member_event:
  assumes m: "member h xs d" and ev: "honest h xs (id_of d) ev" "possible ev d" "handle_event sha ev d = (r, d')"
    and req: "\<And>ch nm cr. ev = PeerMessage ch (Some nm) \<Longrightarrow> MessageType nm = Some (NetworkMessage_ChunkRequest cr) \<Longrightarrow>
      cr_FileHash cr = h"
    and resp: "\<And>ch nm cs. ev = PeerMessage ch (Some nm) \<Longrightarrow> MessageType nm = Some (NetworkMessage_ChunkResponse cs) \<Longrightarrow>
      asked d"
  shows "r = Inr () \<and> member h xs d' \<and> id_of d' = id_of d \<and> prefix (w_dcs (d_world d)) (w_dcs (d_world d')) \<and>
    (\<exists>more. sent_by d' = sent_by d @ more \<and> (\<forall>s \<in> set more. adds h xs ev d s))"
proof -
  obtain more where more: "sent_by d' = sent_by d @ more" "\<forall>s \<in> set more. adds h xs ev d s"
    "serving_all h xs (id_of d) (d_world d) \<longrightarrow> (\<forall>(dc, msg) \<in> set more. \<not> is_request msg)"
    using member_says [OF m ev(1,3)] req by blast
  have "daemon_ok d" using m by (simp add: member_def)
  then have ok: "daemon_ok d'" using event_ok [OF _ ev(2), of sha] ev(3) by simp
  have id: "id_of d' = id_of d" and dcs: "prefix (w_dcs (d_world d)) (w_dcs (d_world d'))"
    using event_frame [OF ev(3)] ev(1) by (cases ev; simp)+
  show ?thesis
  proof (cases "fetching h xs (id_of d) (d_world d)")
    case True
    have "runs (\<lambda>e. fetching h xs (id_of d) (d_world e)) {} (handle_event sha ev)"
    proof (rule fetcher.runs_event [OF ev(1)])
      fix ch nm cs assume "ev = PeerMessage ch (Some nm)" "MessageType nm = Some (NetworkMessage_ChunkResponse cs)"
      then show "runs (fetching h xs (id_of d)) {} (handleChunkResponse (rtc_peer ch) cs)"
        using ev(1) by (intro fetching_response [of _ _ "nat (cs_ChunkIndex cs)"]) (auto simp: honest_message_def)
    qed
    from runs_returns [OF this, of d] True have "r = Inr () \<and> fetching h xs (id_of d) (d_world d')"
      using ev(3) by simp
    then show ?thesis using ok id dcs more by (auto simp: member_def)
  next
    case False
    then have s: "serving_all h xs (id_of d) (d_world d)" "\<not> asked d" using m by (auto simp: member_def)
    have "runs (\<lambda>e. serving_all h xs (id_of d) (d_world e)) {} (handle_event sha ev)"
      by (rule server.runs_event [OF ev(1)]) (use resp s(2) in blast)
    from runs_returns [OF this, of d] s have "r = Inr () \<and> serving_all h xs (id_of d) (d_world d')"
      using ev(3) by simp
    moreover have "\<not> asked d'" using s more(1,3) by (auto simp: asked_def)
    ultimately show ?thesis using ok id dcs more by (auto simp: member_def)
  qed
qed

section \<open>The swarm\<close>

text \<open>The events of a member that are not the receipt of another member's message: its connections and their
  state, the tracker's messages other than a change of its id, its manager for the file, time, clients, and
  payloads that do not decode. Left out are a restart, further register and download commands, and requests
  for chunks of other files.\<close>

fun alone :: "string \<Rightarrow> node_event \<Rightarrow> bool" where
  "alone h (PeerMessage dc decoded) = (decoded = None)"
| "alone h (CandidateFound pc ice) = full_candidate ice"
| "alone h (ManagerTick k) = (k = h)"
| "alone h (StateChange pc s) = True"
| "alone h (DataChannelArrives pc) = True"
| "alone h (ChannelOpens dc) = True"
| "alone h (ChannelCloses dc) = True"
| "alone h (Signal s) = True"
| "alone h (PeerList resp) = True"
| "alone h (CliConnects addr r) = True"
| "alone h (DownloadAnswer i) = True"
| "alone h (DownloadTimeout i) = True"
| "alone h HeartbeatTick = True"
| "alone h (TimePasses t) = True"
| "alone h Init = False"
| "alone h (Identity m) = False"
| "alone h (RegisterSignal m) = False"
| "alone h (DownloadSignal m) = False"

text \<open>A daemon that may join: in a state the safety properties allow, and it has not traded chunks yet.\<close>

definition newcomer :: "daemon \<Rightarrow> bool" where
  "newcomer d \<longleftrightarrow> daemon_ok d \<and> sizes_ok (w_db (d_world d)) \<and> refs_ok (tables_of (w_db (d_world d))) \<and>
     (\<forall>(dc, msg) \<in> set (sent_by d). \<not> is_request msg \<and> \<not> is_response msg)"

abbreviation channel_peer :: "daemon \<Rightarrow> nat \<Rightarrow> string" where
  "channel_peer d dc \<equiv> rtc_peer (w_dcs (d_world d) ! dc)"

text \<open>
  A daemon joins by registering the file, when that gets as far as the announcement, or by a download
  command with the .p2p file of a registration, when that gets as far as waiting for peers. A message sent
  on a channel to a member arrives there on a channel to the sender.
\<close>

inductive swarm_step :: "(bytes \<Rightarrow> bytes) \<Rightarrow> bytes \<Rightarrow> daemon list \<Rightarrow> daemon list \<Rightarrow> bool" for sha xs where
  shares: "newcomer d \<Longrightarrow> id_of d \<notin> id_of ` set ds \<Longrightarrow> path = SignalRegisterMessage_GetFilePath (Some m) \<Longrightarrow>
    fs_of (w_os (d_world d)) path = Some xs \<Longrightarrow>
    path \<noteq> download_dir (n_ipcSocketIndex (w_node (d_world d))) @ ExtractFileName path \<Longrightarrow>
    possible (RegisterSignal m) d \<Longrightarrow> handle_event sha (RegisterSignal m) d = (Inr u, d') \<Longrightarrow>
    w_tracker (d_world d') \<noteq> w_tracker (d_world d) \<Longrightarrow> swarm_step sha xs ds (ds @ [d'])"
| fetches: "newcomer d \<Longrightarrow> id_of d \<notin> id_of ` set ds \<Longrightarrow> printable name \<Longrightarrow> length name \<le> 60000 \<Longrightarrow>
    fs_of (w_os (d_world d)) (SignalDownloadMessage_GetFilePath (Some m)) =
      Some (p2p_text (p2p_lines (shared_record sha name xs))) \<Longrightarrow>
    stored_file (w_db (d_world d)) (GenerateHash sha xs) = None \<Longrightarrow>
    possible (DownloadSignal m) d \<Longrightarrow> handle_event sha (DownloadSignal m) d = (Inr u, d') \<Longrightarrow>
    d_waiting d' \<noteq> d_waiting d \<Longrightarrow> swarm_step sha xs ds (ds @ [d'])"
| acts: "i < length ds \<Longrightarrow> alone (GenerateHash sha xs) ev \<Longrightarrow> possible ev (ds ! i) \<Longrightarrow>
    handle_event sha ev (ds ! i) = (Inr u, d') \<Longrightarrow> swarm_step sha xs ds (ds[i := d'])"
| delivers: "i < length ds \<Longrightarrow> j < length ds \<Longrightarrow> i \<noteq> j \<Longrightarrow> (dc, msg) \<in> set (sent_by (ds ! i)) \<Longrightarrow>
    channel_peer (ds ! i) dc = id_of (ds ! j) \<Longrightarrow> rtc_peer ch = id_of (ds ! i) \<Longrightarrow>
    possible (PeerMessage ch (Some msg)) (ds ! j) \<Longrightarrow>
    handle_event sha (PeerMessage ch (Some msg)) (ds ! j) = (Inr u, d') \<Longrightarrow> swarm_step sha xs ds (ds[j := d'])"

inductive_cases swarm_stepE: "swarm_step sha xs ds ds'"

text \<open>All that was said is on topic, and every chunk went to a member that had asked.\<close>

definition said_ok :: "string \<Rightarrow> bytes \<Rightarrow> daemon list \<Rightarrow> daemon \<Rightarrow> nat \<times> NetworkMessage \<Rightarrow> bool" where
  "said_ok h xs ds d = (\<lambda>(dc, msg). on_topic h xs msg \<and> (is_response msg \<longrightarrow>
     dc < length (w_dcs (d_world d)) \<and> (\<exists>e \<in> set ds. asked e \<and> id_of e = channel_peer d dc)))"

definition swarm_ok :: "string \<Rightarrow> bytes \<Rightarrow> daemon list \<Rightarrow> bool" where
  "swarm_ok h xs ds \<longleftrightarrow> distinct (map id_of ds) \<and>
     (\<forall>d \<in> set ds. member h xs d \<and> (\<forall>s \<in> set (sent_by d). said_ok h xs ds d s))"

lemma same_member:
  "distinct (map id_of ds) \<Longrightarrow> d \<in> set ds \<Longrightarrow> e \<in> set ds \<Longrightarrow> id_of d = id_of e \<Longrightarrow> d = e"
  by (auto simp: distinct_map dest: inj_onD)

lemma said_ok_later:
  assumes "said_ok h xs ds d s" "prefix (w_dcs (d_world d)) (w_dcs (d_world d'))"
    and "\<And>e. e \<in> set ds \<Longrightarrow> asked e \<Longrightarrow> \<exists>e' \<in> set ds'. asked e' \<and> id_of e' = id_of e"
  shows "said_ok h xs ds' d' s"
  using assms unfolding said_ok_def by (fastforce simp: prefix_def nth_append split: prod.splits)

lemma swarm_ok_joins:
  assumes ok: "swarm_ok h xs ds" and d: "member h xs d" "id_of d \<notin> id_of ` set ds"
    and said: "\<forall>(dc, msg) \<in> set (sent_by d). \<not> is_request msg \<and> \<not> is_response msg"
  shows "swarm_ok h xs (ds @ [d])"
proof -
  have new: "said_ok h xs (ds @ [d]) d s" if "s \<in> set (sent_by d)" for s
    using said that
    by (auto simp: said_ok_def on_topic_def is_request_def is_response_def split: option.splits message_type.splits)
  have old: "said_ok h xs (ds @ [d]) e s" if "e \<in> set ds" "s \<in> set (sent_by e)" for e s
    by (rule said_ok_later [of h xs ds e]) (use ok that in \<open>auto simp: swarm_ok_def\<close>)
  show ?thesis using ok d new old by (auto simp: swarm_ok_def)
qed

lemma swarm_ok_update:
  assumes ok: "swarm_ok h xs ds" and i: "i < length ds"
    and d: "member h xs d" "id_of d = id_of (ds ! i)" "prefix (w_dcs (d_world (ds ! i))) (w_dcs (d_world d))"
    and said: "sent_by d = sent_by (ds ! i) @ new" "\<forall>s \<in> set new. said_ok h xs ds (ds ! i) s"
  shows "swarm_ok h xs (ds[i := d])"
proof -
  have ids: "map id_of (ds[i := d]) = map id_of ds" 
    by (simp only: map_update d(2) nth_map [OF i, of id_of, symmetric] list_update_id)
  have mem: "ds ! i \<in> set ds" using i by simp
  have asked: "\<exists>e' \<in> set (ds[i := d]). asked e' \<and> id_of e' = id_of e" if e: "e \<in> set ds" "asked e" for e
  proof -
    obtain k where k: "k < length ds" "e = ds ! k" using e(1) by (auto simp: in_set_conv_nth)
    have "asked (ds[i := d] ! k)" "id_of (ds[i := d] ! k) = id_of e"
      using k e(2) d(2) said(1) i by (auto simp: asked_def nth_list_update)
    then show ?thesis using k(1) by (metis length_list_update nth_mem)
  qed
  have member: "member h xs e \<and> (\<forall>s \<in> set (sent_by e). said_ok h xs (ds[i := d]) e s)" if e: "e \<in> set (ds[i := d])" for e
  proof (cases "e = d")
    case True
    have "said_ok h xs ds (ds ! i) s" if "s \<in> set (sent_by d)" for s
      using said that ok mem by (auto simp: swarm_ok_def)
    then have "said_ok h xs (ds[i := d]) d s" if "s \<in> set (sent_by d)" for s
      using said_ok_later [OF _ d(3) asked] that by blast
    then show ?thesis using True d(1) by blast
  next
    case False
    then have "e \<in> set ds" using e set_update_subset_insert [of ds i d] by blast
    then show ?thesis using ok said_ok_later [of h xs ds e _ e "ds[i := d]"] asked by (auto simp: swarm_ok_def)
  qed
  show ?thesis unfolding swarm_ok_def ids using ok member by (simp add: swarm_ok_def)
qed

section \<open>The steps keep it\<close>

lemma alone_honest: "alone h ev \<Longrightarrow> honest h xs me ev"
  by (cases ev) (simp_all add: honest_message_def)

text \<open>A request is answered on a channel to the daemon that asked.\<close>

lemma added_said:
  assumes d: "daemon_ok d" and s: "adds h xs ev d (dc, msg)"
    and asker: "\<And>ch nm. ev = PeerMessage ch (Some nm) \<Longrightarrow> is_request nm \<Longrightarrow> \<exists>e \<in> set ds. asked e \<and> id_of e = rtc_peer ch"
  shows "said_ok h xs ds d (dc, msg)"
proof -
  have "objects_ok (n_peerDataChannels (w_node (d_world d))) (w_dcs (d_world d))"
    using d by (simp add: daemon_ok_def world_ok_def)
  then show ?thesis using s asker by (fastforce simp: adds_def said_ok_def objects_ok_def is_request_def)
qed

lemma acts_ok:
  assumes ok: "swarm_ok h xs ds" and i: "i < length ds" and ev: "alone h ev" "possible ev (ds ! i)"
    "handle_event sha ev (ds ! i) = (r, d')"
  shows "r = Inr () \<and> swarm_ok h xs (ds[i := d'])"
proof -
  have m: "member h xs (ds ! i)" using ok i by (simp add: swarm_ok_def)
  then have dok: "daemon_ok (ds ! i)" by (simp add: member_def)
  have none: "ev \<noteq> PeerMessage ch (Some nm)" for ch nm using ev(1) by auto
  have E: "r = Inr () \<and> member h xs d' \<and> id_of d' = id_of (ds ! i) \<and>
      prefix (w_dcs (d_world (ds ! i))) (w_dcs (d_world d')) \<and>
      (\<exists>new. sent_by d' = sent_by (ds ! i) @ new \<and> (\<forall>s \<in> set new. adds h xs ev (ds ! i) s))"
    by (rule member_event [OF m alone_honest [OF ev(1)] ev(2,3)]) (use none in blast)+
  then obtain new where new: "sent_by d' = sent_by (ds ! i) @ new" "\<forall>s \<in> set new. adds h xs ev (ds ! i) s" by blast
  have "said_ok h xs ds (ds ! i) s" if "s \<in> set new" for s
    using new(2) that none by (cases s) (auto intro!: added_said [OF dok])
  then show ?thesis using E swarm_ok_update [OF ok i _ _ _ new(1)] by blast
qed

lemma delivers_ok:
  assumes ok: "swarm_ok h xs ds" and ij: "i < length ds" "j < length ds" "i \<noteq> j"
    and sent: "(dc, msg) \<in> set (sent_by (ds ! i))" "channel_peer (ds ! i) dc = id_of (ds ! j)" "rtc_peer ch = id_of (ds ! i)"
    and ev: "possible (PeerMessage ch (Some msg)) (ds ! j)" "handle_event sha (PeerMessage ch (Some msg)) (ds ! j) = (r, d')"
  shows "r = Inr () \<and> swarm_ok h xs (ds[j := d'])"
proof -
  let ?ev = "PeerMessage ch (Some msg)"
  have mem: "ds ! i \<in> set ds" "ds ! j \<in> set ds" using ij by simp_all
  have dist: "distinct (map id_of ds)" using ok by (simp add: swarm_ok_def)
  have m: "member h xs (ds ! j)" using ok mem by (simp add: swarm_ok_def)
  then have dok: "daemon_ok (ds ! j)" by (simp add: member_def)
  have said: "said_ok h xs ds (ds ! i) (dc, msg)" using ok mem sent(1) by (auto simp: swarm_ok_def)
  have "id_of (ds ! i) \<noteq> id_of (ds ! j)" using nth_eq_iff_index_eq [OF dist, of i j] ij by simp
  then have hon: "honest h xs (id_of (ds ! j)) ?ev"
    using said sent(3) by (auto simp: honest_message_def said_ok_def on_topic_def split: option.splits message_type.splits)
  have asked: "asked (ds ! j)" if "MessageType msg = Some (NetworkMessage_ChunkResponse cs)" for cs
  proof -
    have "is_response msg" using that by (simp add: is_response_def)
    then obtain e where "e \<in> set ds" "asked e" "id_of e = id_of (ds ! j)" using said sent(2) by (auto simp: said_ok_def)
    then show ?thesis using same_member [OF dist _ mem(2)] by blast
  qed
  have req: "cr_FileHash cr = h" if "MessageType msg = Some (NetworkMessage_ChunkRequest cr)" for cr
    using said that by (simp add: said_ok_def on_topic_def)
  have E: "r = Inr () \<and> member h xs d' \<and> id_of d' = id_of (ds ! j) \<and>
      prefix (w_dcs (d_world (ds ! j))) (w_dcs (d_world d')) \<and>
      (\<exists>new. sent_by d' = sent_by (ds ! j) @ new \<and> (\<forall>s \<in> set new. adds h xs ?ev (ds ! j) s))"
    by (rule member_event [OF m hon ev]) (auto dest: req asked)
  then obtain new where new: "sent_by d' = sent_by (ds ! j) @ new" "\<forall>s \<in> set new. adds h xs ?ev (ds ! j) s" by blast
  have asker: "asked (ds ! i) \<and> id_of (ds ! i) = rtc_peer ch" if "is_request msg"
    using that sent(1,3) by (auto simp: asked_def)
  have "said_ok h xs ds (ds ! j) s" if "s \<in> set new" for s
  proof (cases s)
    case (Pair dc' msg')
    then have "adds h xs ?ev (ds ! j) (dc', msg')" using new(2) that by blast
    then show ?thesis unfolding Pair by (rule added_said [OF dok]) (use asker mem(1) in auto)
  qed
  then show ?thesis using E swarm_ok_update [OF ok ij(2) _ _ _ new(1)] by blast
qed

text \<open>The commands say nothing about chunks, so a newcomer joins with nothing said.\<close>

lemma command_says_nothing:
  assumes d: "newcomer d" and ev: "ev = RegisterSignal ra \<or> ev = DownloadSignal da"
    and run: "handle_event sha ev d = (r, d')" "possible ev d"
  shows "daemon_ok d' \<and> id_of d' = id_of d \<and> (\<forall>(dc, msg) \<in> set (sent_by d'). \<not> is_request msg \<and> \<not> is_response msg)"
proof -
  obtain new where new: "sent_by d' = sent_by d @ new" "\<forall>(dc, msg) \<in> set new. says_for ev msg" "id_of d' = id_of d"
    using event_frame [OF run(1)] ev by auto
  have "\<not> is_request msg \<and> \<not> is_response msg" if "says_for ev msg" for msg
    using says_request [OF that] says_response [OF that] ev by auto
  moreover have "daemon_ok d'" using event_ok [of d ev sha] run d by (simp add: newcomer_def)
  ultimately show ?thesis using new d by (auto simp: newcomer_def)
qed

lemma not_asked: "\<forall>(dc, msg) \<in> set (sent_by d). \<not> is_request msg \<and> \<not> is_response msg \<Longrightarrow> \<not> asked d"
  by (auto simp: asked_def)

lemma shares_ok:
  assumes ok: "swarm_ok (GenerateHash sha xs) xs ds" and len: "int (length xs) \<le> 2 ^ 46"
    and d: "newcomer d" "id_of d \<notin> id_of ` set ds" "path = SignalRegisterMessage_GetFilePath (Some m)"
      "fs_of (w_os (d_world d)) path = Some xs"
      "path \<noteq> download_dir (n_ipcSocketIndex (w_node (d_world d))) @ ExtractFileName path" "possible (RegisterSignal m) d"
    and run: "handle_event sha (RegisterSignal m) d = (Inr u, d')" "w_tracker (d_world d') \<noteq> w_tracker (d_world d)"
  shows "swarm_ok (GenerateHash sha xs) xs (ds @ [d'])"
proof -
  let ?h = "GenerateHash sha xs"
  have "handleRegisterSignal sha m (d_world d) = (Inr u, d_world d')"
    using run(1) by (auto simp: on_world_def split: prod.splits)
  moreover have "sane_db (w_db (d_world d))" using d(1) by (simp add: newcomer_def daemon_ok_def world_ok_def)
  ultimately obtain f where f: "ready_to_serve sha (download_dir (n_ipcSocketIndex (w_node (d_world d))) @ ExtractFileName path)
      (ExtractFileName path) xs (d_world d') f"
    using registration_outcome [of sha m "d_world d" "Inr u" "d_world d'" xs] d run(2) len by (auto simp: newcomer_def)
  note S = command_says_nothing [OF d(1) disjI1 [OF refl] run(1) d(6)]
  have "member ?h xs d'" using f S not_asked [of d'] by (auto simp: member_def serving_all_def ready_to_serve_def)
  then show ?thesis using swarm_ok_joins [OF ok] S d(2) by simp
qed

lemma fetches_ok:
  assumes ok: "swarm_ok (GenerateHash sha xs) xs ds" and len: "int (length xs) \<le> 2 ^ 46" "\<forall>ys. length (sha ys) \<le> 1000"
    and d: "newcomer d" "id_of d \<notin> id_of ` set ds" "printable name" "length name \<le> 60000"
      "fs_of (w_os (d_world d)) (SignalDownloadMessage_GetFilePath (Some m)) =
         Some (p2p_text (p2p_lines (shared_record sha name xs)))"
      "stored_file (w_db (d_world d)) (GenerateHash sha xs) = None" "possible (DownloadSignal m) d"
    and run: "handle_event sha (DownloadSignal m) d = (Inr u, d')" "d_waiting d' \<noteq> d_waiting d"
  shows "swarm_ok (GenerateHash sha xs) xs (ds @ [d'])"
proof -
  let ?h = "GenerateHash sha xs"
  obtain wt where wt: "handleDownloadSignal m (d_world d) = (Inr (Some wt), d_world d')"
    using run by (auto simp: on_world_def go_bind_def go_return_def go_modify_def split: prod.splits sum.splits option.splits)
  have "sane_db (w_db (d_world d))" using d(1) by (simp add: newcomer_def daemon_ok_def world_ok_def)
  then have "transfer_inv ?h xs (d_world d') \<and> row_sizes ?h xs (d_world d')"
    using download_outcome [OF wt d(5,3,4) len(2,1)] d(1,6) by (simp add: newcomer_def)
  then have "fetching ?h xs (id_of d') (d_world d')" by (simp add: fetching_def receiving_def)
  moreover note S = command_says_nothing [OF d(1) disjI2 [OF refl] run(1) d(7)]
  ultimately have "member ?h xs d'" by (simp add: member_def)
  then show ?thesis using swarm_ok_joins [OF ok] S d(2) by simp
qed

lemma swarm_step_ok:
  assumes "swarm_step sha xs ds ds'" "swarm_ok (GenerateHash sha xs) xs ds"
    and "int (length xs) \<le> 2 ^ 46" "\<forall>ys. length (sha ys) \<le> 1000"
  shows "swarm_ok (GenerateHash sha xs) xs ds'"
  using assms(1)
proof cases
  case shares
  then show ?thesis using shares_ok [OF assms(2,3)] by blast
next
  case fetches
  then show ?thesis using fetches_ok [OF assms(2-4)] by blast
next
  case acts
  then show ?thesis using acts_ok [OF assms(2)] by blast
next
  case delivers
  then show ?thesis using delivers_ok [OF assms(2)] by blast
qed

lemma swarm_reachable_ok:
  assumes "(swarm_step sha xs)\<^sup>*\<^sup>* [] ds" "int (length xs) \<le> 2 ^ 46" "\<forall>ys. length (sha ys) \<le> 1000"
  shows "swarm_ok (GenerateHash sha xs) xs ds"
  using assms(1) by induction (simp_all add: swarm_ok_def, use swarm_step_ok [OF _ _ assms(2,3)] in \<open>auto simp: swarm_ok_def\<close>)

section \<open>What has arrived\<close>

lemma agreeing_tile:
  assumes ag: "agrees_on M xs S content" and i: "i \<in> S" "i < tiles xs"
  shows "tile M content i = tile M xs i"
proof -
  note t = tile_facts [OF i(2)]
  have at: "k < length content \<and> content ! k = xs ! k" if "i * M \<le> k" "k < (i + 1) * M" "k < length xs" for k
    using ag i(1) that unfolding agrees_on_def by blast
  have le: "length content \<le> length xs" using ag by (simp add: agrees_on_def)
  have "length (tile M content i) = length (tile M xs i)"
  proof (cases "(i + 1) * M \<le> length xs")
    case True
    then have "i * M + M - 1 < length content" using at [of "i * M + M - 1"] by simp
    then have "M \<le> length content - i * M" "M \<le> length xs - i * M" using le by linarith+
    then show ?thesis by (simp add: tile_def)
  next
    case False
    then have "i * M \<le> length xs - 1" "length xs - 1 < (i + 1) * M" "length xs - 1 < length xs" using t(1) by linarith+
    then have "length content = length xs" using at [of "length xs - 1"] le by linarith
    then show ?thesis by (simp add: tile_def)
  qed
  then show ?thesis
  proof (rule nth_equalityI)
    fix k assume "k < length (tile M content i)"
    then have "k < M \<and> k < length content - i * M" by (simp add: tile_def)
    then have k: "k < M" "i * M + k < length content" by linarith+
    then show "tile M content i ! k = tile M xs i ! k" using at [of "i * M + k"] le by (simp add: tile_def)
  qed
qed

end
