(* ===== verification/Network.thy ===== *)
theory Network
  imports System TrackerLife DaemonFrame
begin

text \<open>
  The whole system on its signalling side: the tracker and any number of daemons, each on a connection of its
  own, the messages in flight between them, and all of them running at once. What a daemon wrote reaches
  the tracker in order; of what the tracker wrote a daemon takes the messages of each kind in order.
  Messages between daemons go over WebRTC and are arbitrary here.
\<close>

section \<open>State and steps\<close>

text \<open>Daemon \<open>i\<close> is on connection \<open>i\<close>; \<open>nt_up\<close> counts what the tracker got of its messages, \<open>nt_down\<close> has the
  positions of those it took of the tracker's.\<close>

record network =
  nt_tracker :: tracker
  nt_daemons :: "daemon list"
  nt_up :: "nat list"
  nt_down :: "nat set list"

text \<open>What handleTrackerMsgs does with a message of the tracker.\<close>

fun event_of :: "message_type \<Rightarrow> node_event option" where
  "event_of (NetworkMessage_Signaling s) = Some (Signal s)"
| "event_of (NetworkMessage_PeerListResponse r) = Some (PeerList r)"
| "event_of (NetworkMessage_Id m) = Some (Identity m)"
| "event_of m = None"

definition from_tracker :: "node_event \<Rightarrow> bool" where
  "from_tracker ev \<longleftrightarrow> (\<exists>m. event_of m = Some ev)"

text \<open>The steps of the tracker other than those that bring it a connection or a message.\<close>

definition tracker_works :: "tracker \<Rightarrow> tracker \<Rightarrow> bool" where
  "tracker_works t t' \<longleftrightarrow> tracker_step t t' \<and> (\<forall>addr. t' \<noteq> accept addr t) \<and> (\<forall>cid m. t' \<noteq> receive cid m t)"

abbreviation daemon_at :: "network \<Rightarrow> nat \<Rightarrow> daemon" where
  "daemon_at n i \<equiv> nt_daemons n ! i"

abbreviation to_tracker :: "network \<Rightarrow> nat \<Rightarrow> NetworkMessage list" where
  "to_tracker n i \<equiv> w_tracker (d_world (daemon_at n i))"

abbreviation to_daemon :: "network \<Rightarrow> nat \<Rightarrow> NetworkMessage list" where
  "to_daemon n i \<equiv> cn_out (t_conns (nt_tracker n) ! i)"

inductive network_step :: "(bytes \<Rightarrow> bytes) \<Rightarrow> network \<Rightarrow> network \<Rightarrow> bool" for sha where
  connects: "start_daemon idx d \<Longrightarrow> n_id (w_node (d_world d)) = [] \<Longrightarrow> addr \<notin> cn_addr ` set (t_conns (nt_tracker n)) \<Longrightarrow>
    network_step sha n (n\<lparr>nt_tracker := accept addr (nt_tracker n), nt_daemons := nt_daemons n @ [d],
      nt_up := nt_up n @ [0], nt_down := nt_down n @ [{}]\<rparr>)"
| works: "tracker_works (nt_tracker n) t' \<Longrightarrow> network_step sha n (n\<lparr>nt_tracker := t'\<rparr>)"
| uploads: "i < length (nt_daemons n) \<Longrightarrow> nt_up n ! i < length (to_tracker n i) \<Longrightarrow>
    MessageType (to_tracker n i ! (nt_up n ! i)) = Some m \<Longrightarrow>
    network_step sha n (n\<lparr>nt_tracker := receive i m (nt_tracker n), nt_up := (nt_up n)[i := nt_up n ! i + 1]\<rparr>)"
| takes: "i < length (nt_daemons n) \<Longrightarrow> k < length (to_daemon n i) \<Longrightarrow> k \<notin> nt_down n ! i \<Longrightarrow>
    MessageType (to_daemon n i ! k) = Some m \<Longrightarrow>
    (\<forall>j < k. \<forall>m'. MessageType (to_daemon n i ! j) = Some m' \<longrightarrow> kind_of m' = kind_of m \<longrightarrow> j \<in> nt_down n ! i) \<Longrightarrow>
    event_of m = Some ev \<Longrightarrow> possible ev (daemon_at n i) \<Longrightarrow> handle_event sha ev (daemon_at n i) = (Inr u, d') \<Longrightarrow>
    network_step sha n (n\<lparr>nt_daemons := (nt_daemons n)[i := d'], nt_down := (nt_down n)[i := insert k (nt_down n ! i)]\<rparr>)"
| acts: "i < length (nt_daemons n) \<Longrightarrow> \<not> from_tracker ev \<Longrightarrow> possible ev (daemon_at n i) \<Longrightarrow>
    handle_event sha ev (daemon_at n i) = (Inr u, d') \<Longrightarrow>
    network_step sha n (n\<lparr>nt_daemons := (nt_daemons n)[i := d']\<rparr>)"

inductive_cases network_stepE: "network_step sha n n'"

text \<open>A network starts with a tracker and no daemon.\<close>

definition network_start :: "network \<Rightarrow> bool" where
  "network_start n \<longleftrightarrow> tracker_start (nt_tracker n) \<and> nt_daemons n = [] \<and> nt_up n = [] \<and> nt_down n = []"

section \<open>What the tracker's own steps do to its connections\<close>

definition no_signal :: "NetworkMessage \<Rightarrow> bool" where
  "no_signal msg \<longleftrightarrow> (\<forall>s. MessageType msg \<noteq> Some (NetworkMessage_Signaling s))"

abbreviation pending_signals :: "tracker \<Rightarrow> nat \<Rightarrow> SignalingMessage set" where
  "pending_signals t c \<equiv> set (SignalingCh (cn_channels (t_conns t ! c)))"

text \<open>No signal is written, none is added to a channel, nothing written is lost.\<close>

definition quiet :: "tracker \<Rightarrow> tracker \<Rightarrow> bool" where
  "quiet t t' \<longleftrightarrow> length (t_conns t') = length (t_conns t) \<and> t_Channels t' = t_Channels t \<and>
     (\<forall>c < length (t_conns t). cn_addr (t_conns t' ! c) = cn_addr (t_conns t ! c) \<and>
        pending_signals t' c \<subseteq> pending_signals t c \<and> set (cn_out (t_conns t ! c)) \<subseteq> set (cn_out (t_conns t' ! c)) \<and>
        (\<forall>m \<in> set (cn_out (t_conns t' ! c)). m \<in> set (cn_out (t_conns t ! c)) \<or> no_signal m))"

named_theorems quiet_intros

lemma quiet_refl [quiet_intros]: "quiet t t"
  by (simp add: quiet_def)

lemma quietD:
  assumes "quiet t t'"
  shows "length (t_conns t') = length (t_conns t)" "t_Channels t' = t_Channels t"
    "c < length (t_conns t) \<Longrightarrow> cn_addr (t_conns t' ! c) = cn_addr (t_conns t ! c)"
    "c < length (t_conns t) \<Longrightarrow> pending_signals t' c \<subseteq> pending_signals t c"
    "c < length (t_conns t) \<Longrightarrow> set (cn_out (t_conns t ! c)) \<subseteq> set (cn_out (t_conns t' ! c))"
    "c < length (t_conns t) \<Longrightarrow> m \<in> set (cn_out (t_conns t' ! c)) \<Longrightarrow> m \<in> set (cn_out (t_conns t ! c)) \<or> no_signal m"
  using assms by (simp_all add: quiet_def)

lemma quiet_trans:
  assumes ab: "quiet a b" and bc: "quiet b c" shows "quiet a c"
proof -
  note A = quietD [OF ab] and B = quietD [OF bc, unfolded quietD(1) [OF ab]]
  have "pending_signals c k \<subseteq> pending_signals a k" "set (cn_out (t_conns a ! k)) \<subseteq> set (cn_out (t_conns c ! k))"
    if "k < length (t_conns a)" for k
    using A(4,5) [OF that] B(4,5) [OF that] by blast+
  moreover have "m \<in> set (cn_out (t_conns a ! k)) \<or> no_signal m"
    if "k < length (t_conns a)" "m \<in> set (cn_out (t_conns c ! k))" for k m
    using A(6) [OF that(1)] B(6) [OF that] by blast
  ultimately show ?thesis using A(1-3) B(1-3) by (simp add: quiet_def)
qed

lemma quiet_upd [quiet_intros]:
  "quiet a t \<Longrightarrow> quiet a (t\<lparr>t_db := d\<rparr>)" "quiet a t \<Longrightarrow> quiet a (t\<lparr>t_DaemonRouters := R\<rparr>)"
  "quiet a t \<Longrightarrow> quiet a (t\<lparr>t_now := k\<rparr>)" "quiet a t \<Longrightarrow> quiet a (t\<lparr>t_wfaults := fs\<rparr>)"
  by (simp_all add: quiet_def)

lemma quiet_phase [quiet_intros]: "quiet a t \<Longrightarrow> quiet a (set_phase c p t)"
  by (rule quiet_trans [of a t]) (simp_all add: quiet_def set_phase_def)

lemma quiet_take [quiet_intros]:
  "quiet a t \<Longrightarrow> set (SignalingCh (f (channels_of t se))) \<subseteq> set (SignalingCh (channels_of t se)) \<Longrightarrow> quiet a (take_from se f t)"
  by (rule quiet_trans [of a t]) (simp_all add: quiet_def take_from_def)

lemma quiet_write [quiet_intros]:
  assumes "quiet a t" "no_signal msg" shows "quiet a (snd (tr_WriteMessage c msg t))"
  by (rule quiet_trans [OF assms(1)], cases rule: tr_WriteMessage_cases [of c msg t])
     (use assms(2) in \<open>auto simp: quiet_def upd_conn_faults\<close>)

lemma quiet_handshake: "quiet t (handshake c t)"
proof (cases "SplitHostPort (cn_addr (t_conns t ! c))")
  case None
  then show ?thesis by (auto simp: handshake_def intro: quiet_intros)
next
  case (Some a)
  obtain ip port where a: "a = (ip, port)" by (cases a)
  obtain r d where cp: "PeerStore_CreatePeer ip port (t_db t) = (r, d)" by (cases "PeerStore_CreatePeer ip port (t_db t)")
  show ?thesis
  proof (cases r)
    case (Inl e)
    then show ?thesis using Some a cp by (auto simp: handshake_def intro: quiet_intros)
  next
    case (Inr pid)
    let ?msg = "\<lparr>MessageType = Some (NetworkMessage_Id \<lparr>idm_Id = pid\<rparr>)\<rparr>"
    obtain b t1 where w: "tr_WriteMessage c ?msg (t\<lparr>t_db := d\<rparr>) = (b, t1)" by (cases "tr_WriteMessage c ?msg (t\<lparr>t_db := d\<rparr>)")
    have "quiet t (snd (tr_WriteMessage c ?msg (t\<lparr>t_db := d\<rparr>)))" by (intro quiet_intros) (simp add: no_signal_def)
    then have "quiet t t1" using w by simp
    then show ?thesis using Some a cp Inr w
      by (cases b) (auto simp: handshake_def Let_def split: option.split intro: quiet_intros)
  qed
qed

text \<open>A forwarded signal, or nothing.\<close>

definition forwarded :: "session \<Rightarrow> SignalingMessage \<Rightarrow> NetworkMessage" where
  "forwarded se s = \<lparr>MessageType = Some (NetworkMessage_Signaling
     \<lparr>sg_SourcePeerId = se_daemonID se, sg_TargetPeerId = sg_TargetPeerId s, sg_Message = sg_Message s\<rparr>)\<rparr>"

lemma forwardSignal_cases:
  obtains (dropped) "quiet t (forwardSignal se s t)"
  | (written) c fs where "mget (t_DaemonRouters t) (sg_TargetPeerId s) = Some c"
      "forwardSignal se s t = upd_conn c (\<lambda>k. k\<lparr>cn_out := cn_out k @ [forwarded se s]\<rparr>) (t\<lparr>t_wfaults := fs\<rparr>)"
proof (cases "mget (t_DaemonRouters t) (sg_TargetPeerId s)")
  case None
  then show thesis using dropped by (simp add: forwardSignal_def quiet_refl)
next
  case (Some c)
  then have f: "forwardSignal se s t = snd (tr_WriteMessage c (forwarded se s) t)"
    by (simp add: forwardSignal_def forwarded_def Let_def)
  show thesis
  proof (cases rule: tr_WriteMessage_cases [of c "forwarded se s" t])
    case (failed fs)
    then show thesis using dropped f by (simp add: quiet_intros)
  next
    case (sent fs)
    then show thesis using written [OF Some, of fs] f by simp
  qed
qed

lemma works_cases:
  assumes works: "tracker_works t t'"
  obtains (silent) "quiet t t'"
  | (forwards) i se s c t1 where "serving t i se" "s \<in> pending_signals t (se_channels se)"
      "mget (t_DaemonRouters t) (sg_TargetPeerId s) = Some c" "quiet t t1"
      "t' = upd_conn c (\<lambda>k. k\<lparr>cn_out := cn_out k @ [forwarded se s]\<rparr>) t1"
proof -
  have step: "tracker_step t t'" and not: "\<And>addr. t' \<noteq> accept addr t" "\<And>c m. t' \<noteq> receive c m t"
    using works by (simp_all add: tracker_works_def)
  from step show thesis
  proof cases
    case (handshake c)
    then show thesis using silent quiet_handshake by simp
  next
    case (timeout c se)
    then show thesis using silent by (simp add: on_timeout_def Let_def quiet_intros)
  next
    case (heartbeat c se m ms)
    then show thesis using silent by (simp add: on_heartbeat_def quiet_intros)
  next
    case (goodbye c se m ms)
    then show thesis using silent by (simp add: on_goodbye_def Let_def quiet_intros)
  next
    case (announce c se m ms)
    then show thesis using silent by (simp add: handleAnnounce_def quiet_intros)
  next
    case clock
    then show thesis using silent by (simp add: quiet_intros)
  next
    case (peer_list c se m ms)
    let ?t = "take_from se (\<lambda>ch. ch\<lparr>PeerListRequestCh := ms\<rparr>) t"
    have q: "quiet t (?t\<lparr>t_db := d\<rparr>)" for d by (intro quiet_intros) simp
    show thesis using silent peer_list(1) q quiet_write [OF q]
      by (auto simp: handlePeerListRequest_def Let_def no_signal_def split: prod.splits sum.splits)
  next
    case (signal i se s ms)
    let ?t = "take_from se (\<lambda>ch. ch\<lparr>SignalingCh := ms\<rparr>) t"
    have q: "quiet t ?t" using signal(3) by (intro quiet_intros) auto
    have routers: "t_DaemonRouters ?t = t_DaemonRouters t" by (simp add: take_from_def)
    show thesis
    proof (cases rule: forwardSignal_cases [where se = se and s = s and t = ?t])
      case dropped
      then show thesis using silent quiet_trans [OF q] signal(1) by simp
    next
      case (written c fs)
      have "quiet t (?t\<lparr>t_wfaults := fs\<rparr>)" by (intro quiet_upd q)
      then show thesis using forwards [OF signal(2), of s c] written signal(1,3) routers by simp
    qed
  qed (use not in blast)+
qed

text \<open>A session's channels are those of its own connection, since no two connections share an address.\<close>

definition own_channels :: "tracker \<Rightarrow> bool" where
  "own_channels t \<longleftrightarrow> distinct (map cn_addr (t_conns t)) \<and>
     (\<forall>addr c. mget (t_Channels t) addr = Some c \<longrightarrow> c < length (t_conns t) \<and> cn_addr (t_conns t ! c) = addr) \<and>
     (\<forall>c se. serving t c se \<longrightarrow> se_channels se = c)"

lemma handshake_session:
  assumes "serving (handshake c t) c se" "cn_phase (t_conns t ! c) = Accepted" "c < length (t_conns t)"
  shows "mget (t_Channels t) (cn_addr (t_conns t ! c)) = Some (se_channels se)"
proof (cases "SplitHostPort (cn_addr (t_conns t ! c))")
  case None
  then show ?thesis using assms by (simp add: handshake_def serving_set_phase)
next
  case (Some a)
  obtain ip port where a: "a = (ip, port)" by (cases a)
  obtain r d where cp: "PeerStore_CreatePeer ip port (t_db t) = (r, d)" by (cases "PeerStore_CreatePeer ip port (t_db t)")
  show ?thesis
  proof (cases r)
    case (Inl e)
    then show ?thesis using assms Some a cp by (simp add: handshake_def serving_set_phase)
  next
    case (Inr pid)
    let ?msg = "\<lparr>MessageType = Some (NetworkMessage_Id \<lparr>idm_Id = pid\<rparr>)\<rparr>"
    obtain b t1 where w: "tr_WriteMessage c ?msg (t\<lparr>t_db := d\<rparr>) = (b, t1)" by (cases "tr_WriteMessage c ?msg (t\<lparr>t_db := d\<rparr>)")
    have q: "quiet (t\<lparr>t_db := d\<rparr>) t1" using quiet_write [OF quiet_refl, of ?msg "t\<lparr>t_db := d\<rparr>" c] w by (simp add: no_signal_def)
    then have c: "t_Channels t1 = t_Channels t" "length (t_conns t1) = length (t_conns t)" using quietD(1,2) [OF q] by simp_all
    show ?thesis using assms Some a cp Inr w c
      by (cases b) (auto simp: handshake_def Let_def serving_set_phase split: option.splits)
  qed
qed

lemma works_sessions:
  assumes works: "tracker_works t t'" and s: "serving t' c se'"
  shows "(\<exists>se. serving t c se \<and> se_channels se' = se_channels se) \<or>
    (c < length (t_conns t) \<and> mget (t_Channels t) (cn_addr (t_conns t ! c)) = Some (se_channels se'))"
proof -
  have step: "tracker_step t t'" and not: "\<And>addr. t' \<noteq> accept addr t" "\<And>c m. t' \<noteq> receive c m t"
    using works by (simp_all add: tracker_works_def)
  from step show ?thesis
  proof cases
    case (handshake d)
    then show ?thesis using s handshake_session handshake_other [of c d t] by (cases "c = d") auto
  next
    case (timeout d se)
    then show ?thesis using s by (auto simp: on_timeout_def Let_def serving_set_phase split: if_splits)
  next
    case (heartbeat d se m ms)
    then show ?thesis using s by (auto simp: on_heartbeat_def serving_set_phase split: if_splits)
  next
    case (goodbye d se m ms)
    then show ?thesis using s by (auto simp: on_goodbye_def Let_def serving_set_phase split: if_splits)
  next
    case (announce d se m ms)
    then show ?thesis using s by (auto simp: handleAnnounce_def)
  next
    case clock
    then show ?thesis using s by (auto simp: serving_def)
  next
    case (peer_list d se m ms)
    then show ?thesis using s by (auto simp: handlePeerListRequest_def Let_def split: prod.splits sum.splits)
  next
    case (signal d se m ms)
    then show ?thesis using s by (auto simp: forwardSignal_def Let_def split: option.splits)
  qed (use not in blast)+
qed

lemma works_frame:
  assumes "tracker_works t t'"
  shows "length (t_conns t') = length (t_conns t)" "t_Channels t' = t_Channels t"
    "c < length (t_conns t) \<Longrightarrow> cn_addr (t_conns t' ! c) = cn_addr (t_conns t ! c)"
    "c < length (t_conns t) \<Longrightarrow> pending_signals t' c \<subseteq> pending_signals t c"
    "c < length (t_conns t) \<Longrightarrow> set (cn_out (t_conns t ! c)) \<subseteq> set (cn_out (t_conns t' ! c))"
proof -
  have "quiet t t' \<or> (\<exists>c m t1. quiet t t1 \<and> t' = upd_conn c (\<lambda>k. k\<lparr>cn_out := cn_out k @ [m]\<rparr>) t1)"
    using assms by (cases rule: works_cases) blast+
  then have F: "length (t_conns t') = length (t_conns t) \<and> t_Channels t' = t_Channels t \<and> (\<forall>c < length (t_conns t).
      cn_addr (t_conns t' ! c) = cn_addr (t_conns t ! c) \<and> pending_signals t' c \<subseteq> pending_signals t c \<and>
      set (cn_out (t_conns t ! c)) \<subseteq> set (cn_out (t_conns t' ! c)))"
  proof (elim disjE exE conjE)
    fix d m t1 assume q: "quiet t t1" and t': "t' = upd_conn d (\<lambda>k. k\<lparr>cn_out := cn_out k @ [m]\<rparr>) t1"
    show ?thesis using q unfolding t' quiet_def by auto
  qed (simp add: quiet_def)
  show "length (t_conns t') = length (t_conns t)" "t_Channels t' = t_Channels t"
    "c < length (t_conns t) \<Longrightarrow> cn_addr (t_conns t' ! c) = cn_addr (t_conns t ! c)"
    "c < length (t_conns t) \<Longrightarrow> pending_signals t' c \<subseteq> pending_signals t c"
    "c < length (t_conns t) \<Longrightarrow> set (cn_out (t_conns t ! c)) \<subseteq> set (cn_out (t_conns t' ! c))"
    using F by simp_all
qed

lemma works_own_channels:
  assumes works: "tracker_works t t'" and own: "own_channels t"
  shows "own_channels t'"
proof -
  note F = works_frame [OF works]
  have "map cn_addr (t_conns t') = map cn_addr (t_conns t)" using F(1,3) by (intro nth_equalityI) simp_all
  moreover have "se_channels se = c" if s: "serving t' c se" for c se
    using works_sessions [OF works s]
  proof
    assume "\<exists>se'. serving t c se' \<and> se_channels se = se_channels se'"
    then show ?thesis using own by (auto simp: own_channels_def)
  next
    assume c: "c < length (t_conns t) \<and> mget (t_Channels t) (cn_addr (t_conns t ! c)) = Some (se_channels se)"
    then have "se_channels se < length (t_conns t)" "cn_addr (t_conns t ! se_channels se) = cn_addr (t_conns t ! c)"
      using own by (auto simp: own_channels_def)
    then show ?thesis using c own by (auto simp: own_channels_def distinct_conv_nth)
  qed
  ultimately show ?thesis using own F(1-3) by (auto simp: own_channels_def)
qed

section \<open>The invariant of the network\<close>

definition signal_message :: "SignalingMessage \<Rightarrow> NetworkMessage" where
  "signal_message s = \<lparr>MessageType = Some (NetworkMessage_Signaling s)\<rparr>"

lemma signal_message_inj [simp]: "signal_message s = signal_message s' \<longleftrightarrow> s = s'"
  by (simp add: signal_message_def)

lemma signal_message_iff: "MessageType msg = Some (NetworkMessage_Signaling s) \<longleftrightarrow> msg = signal_message s"
  by (cases msg) (simp add: signal_message_def)

text \<open>A signal for daemon \<open>j\<close> was written, with the same target and content, by the daemon it names as its source.\<close>

definition signed :: "network \<Rightarrow> nat \<Rightarrow> SignalingMessage \<Rightarrow> bool" where
  "signed n j s \<longleftrightarrow> assigned (nt_tracker n) j (sg_TargetPeerId s) \<and>
     (\<exists>i sent. i < length (nt_daemons n) \<and> assigned (nt_tracker n) i (sg_SourcePeerId s) \<and>
        signal_message sent \<in> set (to_tracker n i) \<and>
        sg_TargetPeerId sent = sg_TargetPeerId s \<and> sg_Message sent = sg_Message s)"

definition net_inv :: "network \<Rightarrow> bool" where
  "net_inv n \<longleftrightarrow> tracker_inv (nt_tracker n) \<and> own_channels (nt_tracker n) \<and>
     length (nt_daemons n) = length (t_conns (nt_tracker n)) \<and>
     (\<forall>i < length (nt_daemons n). (n_id (w_node (d_world (daemon_at n i))) = [] \<or>
          assigned (nt_tracker n) i (n_id (w_node (d_world (daemon_at n i))))) \<and>
        (\<forall>s \<in> pending_signals (nt_tracker n) i. signal_message s \<in> set (to_tracker n i)) \<and>
        (\<forall>s. signal_message s \<in> set (to_daemon n i) \<longrightarrow> signed n i s))"

text \<open>What was assigned and written stays so.\<close>

definition net_grows :: "network \<Rightarrow> network \<Rightarrow> bool" where
  "net_grows n n' \<longleftrightarrow> length (nt_daemons n) \<le> length (nt_daemons n') \<and>
     (\<forall>c i. assigned (nt_tracker n) c i \<longrightarrow> assigned (nt_tracker n') c i) \<and>
     (\<forall>i < length (nt_daemons n). set (to_tracker n i) \<subseteq> set (to_tracker n' i))"

lemma signed_grows:
  assumes "net_grows n n'" "signed n j s" shows "signed n' j s"
proof -
  obtain i sent where i: "i < length (nt_daemons n)" "assigned (nt_tracker n) i (sg_SourcePeerId s)"
    "signal_message sent \<in> set (to_tracker n i)" "sg_TargetPeerId sent = sg_TargetPeerId s" "sg_Message sent = sg_Message s"
    "assigned (nt_tracker n) j (sg_TargetPeerId s)"
    using assms(2) unfolding signed_def by blast
  then show ?thesis using assms(1) unfolding signed_def net_grows_def
    by (intro conjI exI [of _ i] exI [of _ sent]) auto
qed

lemma works_assigned: "tracker_works t t' \<Longrightarrow> assigned t c i \<Longrightarrow> assigned t' c i"
  using works_frame(1) [of t t'] works_frame(5) [of t t' c] by (auto simp: assigned_def)

lemma net_works:
  assumes inv: "net_inv n" and works: "tracker_works (nt_tracker n) t'"
  shows "net_inv (n\<lparr>nt_tracker := t'\<rparr>)"
proof -
  let ?t = "nt_tracker n" and ?n = "n\<lparr>nt_tracker := t'\<rparr>"
  have t: "tracker_inv ?t" "own_channels ?t" and len: "length (nt_daemons n) = length (t_conns ?t)"
    using inv by (simp_all add: net_inv_def)
  note F = works_frame [OF works]
  have g: "net_grows n ?n" using works_assigned [OF works] by (simp add: net_grows_def)
  have out: "signed ?n j s" if j: "j < length (nt_daemons n)" "signal_message s \<in> set (cn_out (t_conns t' ! j))" for j s
  proof (cases "signal_message s \<in> set (to_daemon n j)")
    case True
    then show ?thesis using signed_grows [OF g] inv j(1) by (simp add: net_inv_def)
  next
    case False
    from works show ?thesis
    proof (cases rule: works_cases)
      case silent
      then show ?thesis using quietD(6) [OF silent, of j "signal_message s"] j len False by (simp add: no_signal_def signal_message_def)
    next
      case (forwards i se o' c t1)
      have "signal_message s \<notin> set (cn_out (t_conns t1 ! j))"
        using quietD(6) [OF forwards(4), of j "signal_message s"] j(1) len False by (auto simp: no_signal_def signal_message_def)
      then have s: "c = j" "signal_message s = forwarded se o'"
        using j quietD(1) [OF forwards(4)] len unfolding forwards(5) by (auto split: if_splits)
      have i: "i < length (nt_daemons n)" using forwards(1) len by (simp add: serving_def)
      have "se_channels se = i" using t(2) forwards(1) by (simp add: own_channels_def)
      then have sent: "signal_message o' \<in> set (to_tracker n i)" using inv i forwards(2) by (simp add: net_inv_def)
      have a: "assigned ?t i (se_daemonID se)" "assigned ?t j (sg_TargetPeerId o')"
        using t(1) forwards(1,3) s(1) by (auto simp: tracker_inv_def session_ok_def)
      show ?thesis using s(2) i sent a works_assigned [OF works]
        unfolding signed_def forwarded_def signal_message_def
        by (intro conjI exI [of _ i] exI [of _ o']) (auto simp: signal_message_def)
    qed
  qed
  have "tracker_inv t'" using tracker_inv_step [OF t(1)] works by (simp add: tracker_works_def)
  moreover have "n_id (w_node (d_world (daemon_at n i))) = [] \<or> assigned t' i (n_id (w_node (d_world (daemon_at n i))))"
    if "i < length (nt_daemons n)" for i
    using inv that works_assigned [OF works] by (auto simp: net_inv_def)
  moreover have "signal_message s \<in> set (to_tracker n i)" if "i < length (nt_daemons n)" "s \<in> pending_signals t' i" for i s
    using inv that F(4) [of i] len by (auto simp: net_inv_def)
  ultimately show ?thesis using works_own_channels [OF works t(2)] out len F(1) by (simp add: net_inv_def)
qed

lemma enqueue_signals: "set (SignalingCh (enqueue m ch)) \<subseteq> set (SignalingCh ch) \<union> {s. m = NetworkMessage_Signaling s}"
  by (cases m) auto

lemma receive_frame:
  assumes "i < length (t_conns t)"
  shows "serving (receive i m t) = serving t" "assigned (receive i m t) = assigned t" "t_Channels (receive i m t) = t_Channels t"
    "map cn_addr (t_conns (receive i m t)) = map cn_addr (t_conns t)" "length (t_conns (receive i m t)) = length (t_conns t)"
    "c < length (t_conns t) \<Longrightarrow> cn_out (t_conns (receive i m t) ! c) = cn_out (t_conns t ! c)"
    "c < length (t_conns t) \<Longrightarrow> pending_signals (receive i m t) c \<subseteq>
       pending_signals t c \<union> {s. c = i \<and> m = NetworkMessage_Signaling s}"
  using assms enqueue_signals [of m "cn_channels (t_conns t ! i)"]
  by (auto simp: receive_def serving_def assigned_def fun_eq_iff nth_list_update split: if_splits intro!: nth_equalityI)

lemma net_uploads:
  assumes inv: "net_inv n" and i: "i < length (nt_daemons n)" "k < length (to_tracker n i)"
    and m: "MessageType (to_tracker n i ! k) = Some m"
  shows "net_inv (n\<lparr>nt_tracker := receive i m (nt_tracker n), nt_up := us\<rparr>)"
proof -
  let ?t = "nt_tracker n" and ?n = "n\<lparr>nt_tracker := receive i m (nt_tracker n), nt_up := us\<rparr>"
  have t: "tracker_inv ?t" "own_channels ?t" and len: "length (nt_daemons n) = length (t_conns ?t)"
    using inv by (simp_all add: net_inv_def)
  have it: "i < length (t_conns ?t)" using i(1) len by simp
  note F = receive_frame [OF it, where m = m]
  have addr: "c < length (t_conns ?t) \<Longrightarrow> cn_addr (t_conns (receive i m ?t) ! c) = cn_addr (t_conns ?t ! c)" for c
    using F(4,5) by (metis nth_map)
  have own: "own_channels (receive i m ?t)" using t(2) addr by (auto simp: own_channels_def F(1,3-5))
  have signed: "signed ?n j s = signed n j s" for j s by (simp add: signed_def F(2))
  have new: "signal_message s \<in> set (to_tracker n c)"
    if c: "c < length (nt_daemons n)" "s \<in> pending_signals (receive i m ?t) c" for c s
  proof (cases "s \<in> pending_signals ?t c")
    case True
    then show ?thesis using inv c(1) by (simp add: net_inv_def)
  next
    case False
    then have "c = i" "m = NetworkMessage_Signaling s" using F(7) [of c] c len by auto
    then show ?thesis using m nth_mem [OF i(2)] by (simp add: signal_message_iff)
  qed
  have "tracker_inv (receive i m ?t)" using tracker_inv_step [OF t(1) tracker_step.receive [OF it]] by blast
  then show ?thesis using inv own new len by (simp add: net_inv_def signed F(2,5,6))
qed

lemma accept_keeps:
  "serving (accept addr t) = serving t" "assigned (accept addr t) = assigned t"
  "map cn_addr (t_conns (accept addr t)) = map cn_addr (t_conns t) @ [addr]"
  by (auto simp: serving_def assigned_def fun_eq_iff accept_def Let_def nth_append less_Suc_eq split: if_splits)

lemma own_accept:
  assumes "own_channels t" "addr \<notin> cn_addr ` set (t_conns t)"
  shows "own_channels (accept addr t)"
proof -
  have "distinct (map cn_addr (t_conns (accept addr t)))" using assms by (simp add: own_channels_def accept_keeps)
  moreover have "c < length (t_conns (accept addr t)) \<and> cn_addr (t_conns (accept addr t) ! c) = a"
    if "mget (t_Channels (accept addr t)) a = Some c" for a c
    using that assms(1) by (auto simp: own_channels_def accept_def Let_def nth_append split: if_splits)
  ultimately show ?thesis using assms(1) by (simp add: own_channels_def accept_keeps(1))
qed

lemma net_connects:
  assumes inv: "net_inv n" and d: "start_daemon idx d" "n_id (w_node (d_world d)) = []"
    and addr: "addr \<notin> cn_addr ` set (t_conns (nt_tracker n))"
  shows "net_inv (n\<lparr>nt_tracker := accept addr (nt_tracker n), nt_daemons := nt_daemons n @ [d], nt_up := us, nt_down := ws\<rparr>)"
proof -
  let ?t = "nt_tracker n"
  let ?n = "n\<lparr>nt_tracker := accept addr ?t, nt_daemons := nt_daemons n @ [d], nt_up := us, nt_down := ws\<rparr>"
  have t: "tracker_inv ?t" "own_channels ?t" and len: "length (nt_daemons n) = length (t_conns ?t)"
    using inv by (simp_all add: net_inv_def)
  have g: "net_grows n ?n" by (simp add: net_grows_def accept_keeps nth_append)
  have old: "t_conns (accept addr ?t) ! i = t_conns ?t ! i" if "i < length (nt_daemons n)" for i
    using that len by (simp add: nth_accept)
  have new: "t_conns (accept addr ?t) ! length (t_conns ?t) =
      \<lparr>cn_addr = addr, cn_channels = empty_channels, cn_phase = Accepted, cn_out = []\<rparr>" by (simp add: nth_accept)
  have "tracker_inv (accept addr ?t)" using tracker_inv_step [OF t(1) tracker_step.accept] by blast
  moreover have "length (t_conns (accept addr ?t)) = Suc (length (t_conns ?t))" by (simp add: accept_def Let_def)
  moreover have "(n_id (w_node (d_world (daemon_at ?n i))) = [] \<or> assigned (accept addr ?t) i (n_id (w_node (d_world (daemon_at ?n i))))) \<and>
      (\<forall>s \<in> pending_signals (accept addr ?t) i. signal_message s \<in> set (to_tracker ?n i)) \<and>
      (\<forall>s. signal_message s \<in> set (to_daemon ?n i) \<longrightarrow> signed ?n i s)" if "i < Suc (length (nt_daemons n))" for i
  proof (cases "i < length (nt_daemons n)")
    case True
    then show ?thesis using inv old [OF True] signed_grows [OF g] by (auto simp: net_inv_def accept_keeps nth_append)
  next
    case False
    then have "i = length (nt_daemons n)" "daemon_at ?n i = d" using that by (simp_all add: nth_append)
    then show ?thesis using new d(2) len by (simp add: empty_channels_def)
  qed
  ultimately show ?thesis using own_accept [OF t(2) addr] len by (simp add: net_inv_def)
qed

text \<open>A daemon that handles an event; its id is new only when the event brought it.\<close>

lemma net_event:
  assumes inv: "net_inv n" and i: "i < length (nt_daemons n)"
    and ev: "handle_event sha ev (daemon_at n i) = (r, d')"
    and new_id: "\<And>m. ev = Identity m \<Longrightarrow> assigned (nt_tracker n) i (idm_Id m)"
  shows "net_inv (n\<lparr>nt_daemons := (nt_daemons n)[i := d'], nt_down := ws\<rparr>)"
proof -
  let ?n = "n\<lparr>nt_daemons := (nt_daemons n)[i := d'], nt_down := ws\<rparr>"
  note E = event_frame [OF ev]
  have at: "daemon_at ?n j = (if j = i then d' else daemon_at n j)" if "j < length (nt_daemons n)" for j
    using that by (simp add: nth_list_update)
  have up: "set (to_tracker n j) \<subseteq> set (to_tracker ?n j)" if "j < length (nt_daemons n)" for j
    using E at [OF that] by (auto simp: prefix_def)
  have g: "net_grows n ?n" using up by (simp add: net_grows_def)
  have id: "n_id (w_node (d_world d')) = [] \<or> assigned (nt_tracker n) i (n_id (w_node (d_world d')))"
    using E inv i new_id by (cases ev) (auto simp: net_inv_def)
  have "(n_id (w_node (d_world (daemon_at ?n j))) = [] \<or> assigned (nt_tracker ?n) j (n_id (w_node (d_world (daemon_at ?n j))))) \<and>
      (\<forall>s \<in> pending_signals (nt_tracker ?n) j. signal_message s \<in> set (to_tracker ?n j)) \<and>
      (\<forall>s. signal_message s \<in> set (to_daemon ?n j) \<longrightarrow> signed ?n j s)" if j: "j < length (nt_daemons n)" for j
  proof (intro conjI ballI allI impI)
    show "n_id (w_node (d_world (daemon_at ?n j))) = [] \<or> assigned (nt_tracker ?n) j (n_id (w_node (d_world (daemon_at ?n j))))"
      using id inv j unfolding at [OF j] by (simp add: net_inv_def)
    fix s
    show "s \<in> pending_signals (nt_tracker ?n) j \<Longrightarrow> signal_message s \<in> set (to_tracker ?n j)"
      using inv j up [OF j] by (auto simp: net_inv_def)
    show "signal_message s \<in> set (to_daemon ?n j) \<Longrightarrow> signed ?n j s"
      using inv j signed_grows [OF g] by (simp add: net_inv_def)
  qed
  then show ?thesis using inv by (simp add: net_inv_def)
qed

lemma network_step_inv:
  assumes inv: "net_inv n" and step: "network_step sha n n'" shows "net_inv n'"
  using step
proof cases
  case (connects idx d addr)
  then show ?thesis using net_connects [OF inv] by blast
next
  case (works t')
  then show ?thesis using net_works [OF inv] by blast
next
  case (uploads i m)
  then show ?thesis using net_uploads [OF inv] by blast
next
  case (takes i k m ev u d')
  have "assigned (nt_tracker n) i (idm_Id x)" if "ev = Identity x" for x
  proof -
    have "m = NetworkMessage_Id x" using takes(7) that by (cases m) simp_all
    then have "to_daemon n i ! k = id_message (idm_Id x)" using takes(5) by (cases "to_daemon n i ! k") (simp add: id_message_def)
    then show ?thesis using nth_mem [OF takes(3)] inv takes(2) by (simp add: assigned_def net_inv_def)
  qed
  then show ?thesis unfolding takes(1) using net_event [OF inv takes(2,9)] by blast
next
  case (acts i ev u d')
  have "ev \<noteq> Identity x" for x
  proof
    assume "ev = Identity x"
    then have "event_of (NetworkMessage_Id x) = Some ev" by simp
    then show False using acts(3) unfolding from_tracker_def by blast
  qed
  then show ?thesis using net_event [OF inv acts(2,5), of "nt_down n"] acts(1) by simp
qed

interpretation network: invariant_system network_start "network_step sha" net_inv
  for sha
proof unfold_locales
  fix n assume "network_start n"
  moreover from this have "t_conns (nt_tracker n) = []" "t_Channels (nt_tracker n) = []"
    by (auto simp: network_start_def tracker_start_def NewTracker_def)
  ultimately show "net_inv n" using tracker_inv_start by (simp add: network_start_def net_inv_def own_channels_def serving_def)
qed (rule network_step_inv)

end
