(* ===== verification/Meeting.thy ===== *)
theory Meeting
  imports Network
begin

text \<open>
  A run of the whole system: one daemon shares a file, another downloads it, and the two negotiate a
  connection through the tracker. Every state is computed from the one before it.
\<close>

section \<open>The tracker's steps are its own\<close>

definition queued :: "Channels \<Rightarrow> nat" where
  "queued ch = length (AnnounceCh ch) + length (GoodbyeCh ch) + length (HeartbeatCh ch) + length (PeerListRequestCh ch) +
     length (SignalingCh ch)"

lemma queued_enqueue: "queued ch \<le> queued (enqueue m ch)"
  by (cases m) (simp_all add: queued_def)

lemma receive_at:
  assumes "c < length (t_conns t)"
  shows "cn_phase (t_conns (receive d m t) ! c) = cn_phase (t_conns t ! c) \<and>
    queued (cn_channels (t_conns t ! c)) \<le> queued (cn_channels (t_conns (receive d m t) ! c))"
  using assms queued_enqueue by (cases "d = c") (simp_all add: receive_def)

lemma works_by:
  assumes "tracker_step t t'" "length (t_conns t') = length (t_conns t)" "c < length (t_conns t)"
    and "cn_phase (t_conns t' ! c) \<noteq> cn_phase (t_conns t ! c) \<or>
      queued (cn_channels (t_conns t' ! c)) < queued (cn_channels (t_conns t ! c))"
  shows "tracker_works t t'"
proof -
  have "t' \<noteq> accept addr t" for addr using assms(2) by (auto simp: accept_def Let_def)
  moreover have "t' \<noteq> receive d m t" for d m
    using assms(4) receive_at [OF assms(3), of d m] by (metis leD)
  ultimately show ?thesis using assms(1) by (simp add: tracker_works_def)
qed

section \<open>Two daemons on a tracker\<close>

definition pair :: "tracker \<Rightarrow> daemon \<Rightarrow> daemon \<Rightarrow> nat \<Rightarrow> nat \<Rightarrow> nat set \<Rightarrow> nat set \<Rightarrow> network" where
  "pair t d0 d1 u0 u1 s0 s1 = \<lparr>nt_tracker = t, nt_daemons = [d0, d1], nt_up = [u0, u1], nt_down = [s0, s1]\<rparr>"

lemma pair_works: "tracker_works t t' \<Longrightarrow> network_step sha (pair t d0 d1 u0 u1 s0 s1) (pair t' d0 d1 u0 u1 s0 s1)"
  using network_step.works [of "pair t d0 d1 u0 u1 s0 s1" t' sha] by (simp add: pair_def)

lemma pair_uploads:
  "u0 < length (w_tracker (d_world d0)) \<Longrightarrow> MessageType (w_tracker (d_world d0) ! u0) = Some m \<Longrightarrow>
     network_step sha (pair t d0 d1 u0 u1 s0 s1) (pair (receive 0 m t) d0 d1 (u0 + 1) u1 s0 s1)"
  "u1 < length (w_tracker (d_world d1)) \<Longrightarrow> MessageType (w_tracker (d_world d1) ! u1) = Some m \<Longrightarrow>
     network_step sha (pair t d0 d1 u0 u1 s0 s1) (pair (receive 1 m t) d0 d1 u0 (u1 + 1) s0 s1)"
  using network_step.uploads [of 0 "pair t d0 d1 u0 u1 s0 s1" m sha] network_step.uploads [of 1 "pair t d0 d1 u0 u1 s0 s1" m sha]
  by (simp_all add: pair_def)

lemma pair_acts:
  "\<not> from_tracker ev \<Longrightarrow> possible ev d0 \<Longrightarrow> handle_event sha ev d0 = (Inr u, d0') \<Longrightarrow>
     network_step sha (pair t d0 d1 u0 u1 s0 s1) (pair t d0' d1 u0 u1 s0 s1)"
  "\<not> from_tracker ev \<Longrightarrow> possible ev d1 \<Longrightarrow> handle_event sha ev d1 = (Inr u, d1') \<Longrightarrow>
     network_step sha (pair t d0 d1 u0 u1 s0 s1) (pair t d0 d1' u0 u1 s0 s1)"
  using network_step.acts [of 0 "pair t d0 d1 u0 u1 s0 s1" ev sha u d0'] network_step.acts [of 1 "pair t d0 d1 u0 u1 s0 s1" ev sha u d1']
  by (simp_all add: pair_def)

text \<open>A daemon takes the tracker's next message.\<close>

lemma pair_takes:
  assumes "event_of m = Some ev"
  shows "cn_out (t_conns t ! 0) = ms @ [\<lparr>MessageType = Some m\<rparr>] \<Longrightarrow> s0 = {..< length ms} \<Longrightarrow> possible ev d0 \<Longrightarrow>
     handle_event sha ev d0 = (Inr u, d0') \<Longrightarrow>
     network_step sha (pair t d0 d1 u0 u1 s0 s1) (pair t d0' d1 u0 u1 (insert (length ms) s0) s1)"
  "cn_out (t_conns t ! 1) = ms @ [\<lparr>MessageType = Some m\<rparr>] \<Longrightarrow> s1 = {..< length ms} \<Longrightarrow> possible ev d1 \<Longrightarrow>
     handle_event sha ev d1 = (Inr u, d1') \<Longrightarrow>
     network_step sha (pair t d0 d1 u0 u1 s0 s1) (pair t d0 d1' u0 u1 s0 (insert (length ms) s1))"
  using network_step.takes [of 0 "pair t d0 d1 u0 u1 s0 s1" "length ms" m ev sha u d0']
    network_step.takes [of 1 "pair t d0 d1 u0 u1 s0 s1" "length ms" m ev sha u d1'] assms
  by (simp_all add: pair_def)

text \<open>The events of the run are evaluated by these rules.\<close>

lemmas event_eval = on_world_def go_simps get_node_def upd_node_def send_tracker_def succeeds_def on_id_def
  peer_list_event_def on_peer_list_def download_answer_def on_download_answer_def connect_peer_def handleWebRTCConnection_def
  setupDataChannel_def create_sdp_def rtc_do_def startFileDownload_def on_signaling_def dispatch_signal_def handleOffer_def
  remove_nth_def node_init_def init_file_def

text \<open>Daemon 0 has the .p2p file of a two-byte file, daemon 1 shares the file.\<close>

definition meet_d0 :: daemon where
  "meet_d0 = \<lparr>d_world = sample_fetch\<lparr>w_sdps := [''offer'']\<rparr>, d_waiting = [], d_stuck = False\<rparr>"

definition shared_db :: sqldb where
  "shared_db = \<lparr>tables_of = shop_tables\<lparr>chunks := [\<lparr>c_ID = 1, c_FileID = 1, c_ChunkIndex = 0, c_ChunkSize = 2,
     c_ChunkHash = ''68'', c_IsAvailable = 1\<rparr>], seq_chunks := 1\<rparr>, sched = []\<rparr>"

definition meet_d1 :: daemon where
  "meet_d1 = \<lparr>d_world = (d_world sample_start)\<lparr>w_node := new_node ''2'', w_db := shared_db, w_sdps := [''answer'']\<rparr>,
     d_waiting = [], d_stuck = False\<rparr>"

lemma meet_d0_start: "start_daemon ''1'' meet_d0" "n_id (w_node (d_world meet_d0)) = []"
  using sample_fetch_ok(1) by (simp_all add: start_daemon_def meet_d0_def sample_fetch_def sample_start_def new_node_def)

lemma meet_d1_start: "start_daemon ''2'' meet_d1" "n_id (w_node (d_world meet_d1)) = []"
proof -
  have "sane_db shared_db" unfolding sane_db_def wf_db_def by code_simp
  then show "start_daemon ''2'' meet_d1" "n_id (w_node (d_world meet_d1)) = []"
    by (simp_all add: start_daemon_def meet_d1_def sample_start_def new_node_def)
qed

definition meet_news :: AnnounceMessage where
  "meet_news = \<lparr>am_Files = [file_info shop_row]\<rparr>"

text \<open>The states of daemon 0: with its id, after the command, with the tracker's answer, after its offer.\<close>

definition meet_named :: daemon where
  "meet_named = snd (handle_event first_byte (Identity \<lparr>idm_Id = ''3''\<rparr>) meet_d0)"

definition meet_asking :: daemon where
  "meet_asking = snd (handle_event first_byte (DownloadSignal \<lparr>sd_FilePath = ''f.p2p''\<rparr>) meet_named)"

abbreviation meet_peers :: PeerListResponse where
  "meet_peers \<equiv> \<lparr>plp_FileHash = ''68'', plp_TotalChunks = 0, plp_ChunkSize = 0, plp_Peers = [\<lparr>pi_Id = ''4''\<rparr>]\<rparr>"

definition meet_told :: daemon where
  "meet_told = snd (handle_event first_byte (PeerList meet_peers) meet_asking)"

definition meet_offering :: daemon where
  "meet_offering = snd (handle_event first_byte (DownloadAnswer 0) meet_told)"

abbreviation signal_of :: "string \<Rightarrow> string \<Rightarrow> SignalingMessage_Message \<Rightarrow> SignalingMessage" where
  "signal_of src dst m \<equiv> \<lparr>sg_SourcePeerId = src, sg_TargetPeerId = dst, sg_Message = Some m\<rparr>"

abbreviation meet_offer :: SignalingMessage_Message where
  "meet_offer \<equiv> SignalingMessage_Offer \<lparr>of_Sdp = ''offer''\<rparr>"

abbreviation meet_answer :: SignalingMessage_Message where
  "meet_answer \<equiv> SignalingMessage_Answer \<lparr>an_Sdp = ''answer''\<rparr>"

definition meet_connected :: daemon where
  "meet_connected = snd (handle_event first_byte (Signal (signal_of ''4'' ''3'' meet_answer)) meet_offering)"

text \<open>The states of daemon 1: with its id, after its announcement, after its answer.\<close>

definition share_named :: daemon where
  "share_named = snd (handle_event first_byte (Identity \<lparr>idm_Id = ''4''\<rparr>) meet_d1)"

definition share_ready :: daemon where
  "share_ready = snd (handle_event first_byte Init share_named)"

definition share_answering :: daemon where
  "share_answering = snd (handle_event first_byte (Signal (signal_of ''3'' ''4'' meet_offer)) share_ready)"

text \<open>The events succeed.\<close>

lemma meet_named: "meet_named = meet_d0\<lparr>d_world := (d_world meet_d0)\<lparr>w_node := (w_node (d_world meet_d0))\<lparr>n_id := ''3''\<rparr>\<rparr>\<rparr>"
  "handle_event first_byte (Identity \<lparr>idm_Id = ''3''\<rparr>) meet_d0 = (Inr (), meet_named)"
  by (simp_all add: meet_named_def event_eval)

lemma meet_asking: "handle_event first_byte (DownloadSignal \<lparr>sd_FilePath = ''f.p2p''\<rparr>) meet_named = (Inr (), meet_asking)"
  "w_node (d_world meet_asking) = (new_node ''1'')\<lparr>n_id := ''3'', n_pendingPeerListRequests := [(''68'', [])],
     n_peerChunkMap := [(''3'', [(''68'', [0])])]\<rparr>"
  "w_tracker (d_world meet_asking) = [\<lparr>MessageType = Some (NetworkMessage_PeerListRequest \<lparr>plr_FileHash = ''68''\<rparr>)\<rparr>]"
  "d_waiting meet_asking = [(''68'', 1)]" "d_stuck meet_asking = False" "w_fails (d_world meet_asking) = []"
  "w_sdps (d_world meet_asking) = [''offer'']" "w_pcs (d_world meet_asking) = []" "w_dcs (d_world meet_asking) = []"
  "w_rtc (d_world meet_asking) = []"
  unfolding meet_asking_def meet_named
  by (simp_all add: event_eval handleDownloadSignal_def meet_d0_def Let_def os_try_def ParseP2PFile_def os_Open_def
     calm_os_call sample_fetch_def sample_start_def sample_parse
     db_do_def sample_lookup Atoi_FormatInt messageCLI_def new_node_def reset_own_chunks_def ensure_own_map_def
     set_chunk_map_def make_slice_def download_store_def sample_create shop_row_id sample_create_missing
     download_files_def os_do_def os_MkdirAll_def CreatePreallocatedFile_def go_div_nonneg os_Create_def download_request_def)

lemma meet_told: "handle_event first_byte (PeerList meet_peers) meet_asking = (Inr (), meet_told)"
  "possible (PeerList meet_peers) meet_asking"
  "meet_told = meet_asking\<lparr>d_world := (d_world meet_asking)\<lparr>w_node := (w_node (d_world meet_asking))\<lparr>n_pendingPeerListRequests :=
     [(''68'', [meet_peers])]\<rparr>\<rparr>\<rparr>"
  by (simp_all add: meet_told_def event_eval meet_asking(2-) chan_capacity_def)

lemma meet_offering: "handle_event first_byte (DownloadAnswer 0) meet_told = (Inr (), meet_offering)"
  "possible (DownloadAnswer 0) meet_told" "\<not> d_stuck meet_offering" "w_fails (d_world meet_offering) = []"
  "w_tracker (d_world meet_offering) = w_tracker (d_world meet_asking) @
     [\<lparr>MessageType = Some (NetworkMessage_Signaling (signal_of [] ''4'' meet_offer))\<rparr>]"
  "w_rtc (d_world meet_offering) = [(0, SetLocalDescription ''offer'')]"
  "n_peerConnections (w_node (d_world meet_offering)) = [(''4'', 0)]"
  by (simp_all add: meet_offering_def meet_told(3) event_eval meet_asking(2-) new_node_def Let_def BuildSignalingOfferMessage_def)

lemma meet_connected: "handle_event first_byte (Signal (signal_of ''4'' ''3'' meet_answer)) meet_offering = (Inr (), meet_connected)"
  "w_rtc (d_world meet_connected) = [(0, SetLocalDescription ''offer''), (0, SetRemoteAnswer ''answer'')]"
  by (simp_all add: meet_connected_def event_eval meet_offering(2-) Let_def)

lemma share_named: "handle_event first_byte (Identity \<lparr>idm_Id = ''4''\<rparr>) meet_d1 = (Inr (), share_named)"
  "share_named = meet_d1\<lparr>d_world := (d_world meet_d1)\<lparr>w_node := (w_node (d_world meet_d1))\<lparr>n_id := ''4''\<rparr>\<rparr>\<rparr>"
  by (simp_all add: share_named_def event_eval)

lemma shared_db_rows:
  "FileStore_GetFiles shared_db = (Inr [shop_row], shared_db)"
  "ChunkStore_GetChunks ''68'' shared_db = (Inr [\<lparr>c_ID = 1, c_FileID = 1, c_ChunkIndex = 0, c_ChunkSize = 2,
     c_ChunkHash = ''68'', c_IsAvailable = 1\<rparr>], shared_db)"
  by code_simp+

lemma share_ready: "handle_event first_byte Init share_named = (Inr (), share_ready)"
  "\<not> d_stuck share_ready" "w_fails (d_world share_ready) = []"
  "w_tracker (d_world share_ready) = [\<lparr>MessageType = Some (NetworkMessage_Announce meet_news)\<rparr>]"
  "n_peerConnections (w_node (d_world share_ready)) = []" "w_pcs (d_world share_ready) = []" "w_rtc (d_world share_ready) = []"
  "w_sdps (d_world share_ready) = [''answer'']"
  unfolding share_ready_def share_named(2)
  by (simp_all add: event_eval meet_d1_def sample_start_def new_node_def Let_def db_do_def shared_db_rows meet_news_def
      make_slice_def ensure_own_map_def set_chunk_map_def shop_row_def slice_set_def)

lemma share_answering: "handle_event first_byte (Signal (signal_of ''3'' ''4'' meet_offer)) share_ready = (Inr (), share_answering)"
  "w_tracker (d_world share_answering) = w_tracker (d_world share_ready) @
     [\<lparr>MessageType = Some (NetworkMessage_Signaling (signal_of [] ''3'' meet_answer))\<rparr>]"
  "w_rtc (d_world share_answering) = [(0, SetRemoteOffer ''offer''), (0, SetLocalDescription ''answer'')]"
  by (simp_all add: share_answering_def event_eval share_ready(2-) Let_def BuildSignalingAnswerMessage_def)

section \<open>The run\<close>

text \<open>The tracker: both daemons served, the announcement, the request for peers, the offer, the answer.\<close>

definition meet_t1 :: tracker where
  "meet_t1 = receive 1 (NetworkMessage_Announce meet_news) sample_pair"

definition meet_t2 :: tracker where
  "meet_t2 = handleAnnounce ''10.0.0.8'' ''4001'' meet_news (take_from sample_second (\<lambda>ch. ch\<lparr>AnnounceCh := []\<rparr>) meet_t1)"

definition meet_t3 :: tracker where
  "meet_t3 = receive 0 (NetworkMessage_PeerListRequest \<lparr>plr_FileHash = ''68''\<rparr>) meet_t2"

definition meet_t4 :: tracker where
  "meet_t4 = handlePeerListRequest 0 ''10.0.0.9'' ''4000'' \<lparr>plr_FileHash = ''68''\<rparr>
     (take_from sample_first (\<lambda>ch. ch\<lparr>PeerListRequestCh := []\<rparr>) meet_t3)"

definition meet_t5 :: tracker where
  "meet_t5 = receive 0 (NetworkMessage_Signaling (signal_of [] ''4'' meet_offer)) meet_t4"

definition meet_t6 :: tracker where
  "meet_t6 = forwardSignal sample_first (signal_of [] ''4'' meet_offer)
     (take_from sample_first (\<lambda>ch. ch\<lparr>SignalingCh := []\<rparr>) meet_t5)"

definition meet_t7 :: tracker where
  "meet_t7 = receive 1 (NetworkMessage_Signaling (signal_of [] ''3'' meet_answer)) meet_t6"

definition meet_t8 :: tracker where
  "meet_t8 = forwardSignal sample_second (signal_of [] ''3'' meet_answer)
     (take_from sample_second (\<lambda>ch. ch\<lparr>SignalingCh := []\<rparr>) meet_t7)"

lemma meet_works:
  "tracker_works (accept ''10.0.0.9:4000'' (NewTracker sample_db [])) sample_tracker"
  "tracker_works (accept ''10.0.0.8:4001'' sample_tracker) sample_pair"
proof -
  let ?t = "accept ''10.0.0.9:4000'' (NewTracker sample_db [])" and ?u = "accept ''10.0.0.8:4001'' sample_tracker"
  have "tracker_step ?t sample_tracker" "tracker_step ?u sample_pair"
    unfolding sample_tracker_def sample_pair_def by (rule tracker_step.handshake; code_simp)+
  then show "tracker_works ?t sample_tracker" "tracker_works ?u sample_pair"
    by - (erule works_by [where c = 0], code_simp, code_simp, code_simp, erule works_by [where c = 1], code_simp+)
qed

lemma meet_announce: "tracker_works meet_t1 meet_t2"
proof (rule works_by [where c = 1])
  have "serving meet_t1 1 sample_second" "AnnounceCh (channels_of meet_t1 sample_second) = meet_news # []"
    unfolding serving_def by code_simp+
  from tracker_step.announce [OF this] show "tracker_step meet_t1 meet_t2" by (simp add: meet_t2_def)
qed (code_simp+)

lemma meet_request: "tracker_works meet_t3 meet_t4"
proof (rule works_by [where c = 0])
  have "serving meet_t3 0 sample_first" "PeerListRequestCh (channels_of meet_t3 sample_first) = \<lparr>plr_FileHash = ''68''\<rparr> # []"
    unfolding serving_def by code_simp+
  from tracker_step.peer_list [OF this] show "tracker_step meet_t3 meet_t4" by (simp add: meet_t4_def)
qed (code_simp+)

lemma meet_signals: "tracker_works meet_t5 meet_t6" "tracker_works meet_t7 meet_t8"
proof -
  have "serving meet_t5 0 sample_first" "SignalingCh (channels_of meet_t5 sample_first) = signal_of [] ''4'' meet_offer # []"
    "serving meet_t7 1 sample_second" "SignalingCh (channels_of meet_t7 sample_second) = signal_of [] ''3'' meet_answer # []"
    unfolding serving_def by code_simp+
  note S = tracker_step.signal [OF this(1,2)] tracker_step.signal [OF this(3,4)]
  have "tracker_step meet_t5 meet_t6" "tracker_step meet_t7 meet_t8" using S by (simp_all add: meet_t6_def meet_t8_def)
  then show "tracker_works meet_t5 meet_t6" "tracker_works meet_t7 meet_t8"
    by - (erule works_by [where c = 0], code_simp, code_simp, code_simp, erule works_by [where c = 1], code_simp+)
qed

lemma meet_outs:
  "cn_out (t_conns sample_pair ! 0) = [] @ [\<lparr>MessageType = Some (NetworkMessage_Id \<lparr>idm_Id = ''3''\<rparr>)\<rparr>]"
  "cn_out (t_conns sample_pair ! 1) = [] @ [\<lparr>MessageType = Some (NetworkMessage_Id \<lparr>idm_Id = ''4''\<rparr>)\<rparr>]"
  "cn_out (t_conns meet_t4 ! 0) = [id_message ''3''] @ [\<lparr>MessageType = Some (NetworkMessage_PeerListResponse meet_peers)\<rparr>]"
  "cn_out (t_conns meet_t6 ! 1) = [id_message ''4''] @
     [\<lparr>MessageType = Some (NetworkMessage_Signaling (signal_of ''3'' ''4'' meet_offer))\<rparr>]"
  "cn_out (t_conns meet_t8 ! 0) = [id_message ''3'', \<lparr>MessageType = Some (NetworkMessage_PeerListResponse meet_peers)\<rparr>] @
     [\<lparr>MessageType = Some (NetworkMessage_Signaling (signal_of ''4'' ''3'' meet_answer))\<rparr>]"
  unfolding id_message_def by code_simp+

text \<open>The states of the network when the offer has arrived, and at the end.\<close>

definition meet_start :: network where
  "meet_start = \<lparr>nt_tracker = NewTracker sample_db [], nt_daemons = [], nt_up = [], nt_down = []\<rparr>"

definition meet_offered :: network where
  "meet_offered = pair meet_t6 meet_offering share_ready 2 1 {0, 1} {0}"

definition meet_end :: network where
  "meet_end = pair meet_t8 meet_connected share_answering 2 2 {0, 1, 2} {0, 1}"

lemma meet_start: "network_start meet_start"
  by (simp add: network_start_def meet_start_def sample_start)

lemma meet_connects: "(network_step sha)\<^sup>*\<^sup>* meet_start (pair sample_pair meet_d0 meet_d1 0 0 {} {})"
proof -
  let ?one = "\<lambda>t. \<lparr>nt_tracker = t, nt_daemons = [meet_d0], nt_up = [0], nt_down = [{}]\<rparr>"
  have "(network_step sha)\<^sup>*\<^sup>* meet_start meet_start" by simp
  also have "network_step sha meet_start (?one (accept ''10.0.0.9:4000'' (NewTracker sample_db [])))"
    using network_step.connects [OF meet_d0_start, of "''10.0.0.9:4000''" meet_start sha] by (simp add: meet_start_def NewTracker_def)
  also have "network_step sha \<dots> (?one sample_tracker)"
    using network_step.works [of "?one (accept ''10.0.0.9:4000'' (NewTracker sample_db []))" sample_tracker sha] meet_works(1) by simp
  also have "''10.0.0.8:4001'' \<notin> cn_addr ` set (t_conns sample_tracker)" by code_simp
  then have "network_step sha (?one sample_tracker) (pair (accept ''10.0.0.8:4001'' sample_tracker) meet_d0 meet_d1 0 0 {} {})"
    using network_step.connects [OF meet_d1_start, of "''10.0.0.8:4001''" "?one sample_tracker" sha] by (simp add: pair_def)
  also have "network_step sha \<dots> (pair sample_pair meet_d0 meet_d1 0 0 {} {})" by (rule pair_works [OF meet_works(2)])
  finally show ?thesis by simp
qed

lemma meet_names_itself: "(network_step first_byte)\<^sup>*\<^sup>* (pair sample_pair meet_d0 meet_d1 0 0 {} {})
    (pair sample_pair meet_named share_named 0 0 {0} {0})"
proof -
  have "(network_step first_byte)\<^sup>*\<^sup>* (pair sample_pair meet_d0 meet_d1 0 0 {} {}) (pair sample_pair meet_d0 meet_d1 0 0 {} {})" by simp
  also have "network_step first_byte (pair sample_pair meet_d0 meet_d1 0 0 {} {}) (pair sample_pair meet_named meet_d1 0 0 {0} {})"
    using pair_takes(1) [OF event_of.simps(3) meet_outs(1) _ _ meet_named(2)] by (simp add: meet_d0_def)
  also have "network_step first_byte \<dots> (pair sample_pair meet_named share_named 0 0 {0} {0})"
    using pair_takes(2) [OF event_of.simps(3) meet_outs(2) _ _ share_named(1)] by (simp add: meet_d1_def)
  finally show ?thesis by simp
qed

lemma not_from_tracker: "\<not> from_tracker Init" "\<not> from_tracker (DownloadSignal m)" "\<not> from_tracker (DownloadAnswer i)"
proof -
  have "event_of x \<noteq> Some Init" "event_of x \<noteq> Some (DownloadSignal m)" "event_of x \<noteq> Some (DownloadAnswer i)" for x
    by (cases x; simp)+
  then show "\<not> from_tracker Init" "\<not> from_tracker (DownloadSignal m)" "\<not> from_tracker (DownloadAnswer i)"
    by (simp_all add: from_tracker_def)
qed

lemma meet_announces: "(network_step first_byte)\<^sup>*\<^sup>* (pair sample_pair meet_named share_named 0 0 {0} {0})
    (pair meet_t4 meet_asking share_ready 1 1 {0} {0})"
proof -
  have "(network_step first_byte)\<^sup>*\<^sup>* (pair sample_pair meet_named share_named 0 0 {0} {0}) (pair sample_pair meet_named share_named 0 0 {0} {0})" by simp
  also have "network_step first_byte (pair sample_pair meet_named share_named 0 0 {0} {0}) (pair sample_pair meet_named share_ready 0 0 {0} {0})"
    by (rule pair_acts(2) [OF not_from_tracker(1) _ share_ready(1)]) simp
  also have "network_step first_byte \<dots> (pair meet_t1 meet_named share_ready 0 1 {0} {0})"
    using pair_uploads(2) [of 0 share_ready] unfolding meet_t1_def by (simp add: share_ready(4))
  also have "network_step first_byte \<dots> (pair meet_t2 meet_named share_ready 0 1 {0} {0})" by (rule pair_works [OF meet_announce])
  also have "network_step first_byte \<dots> (pair meet_t2 meet_asking share_ready 0 1 {0} {0})"
    by (rule pair_acts(1) [OF not_from_tracker(2) _ meet_asking(1)]) simp
  also have "network_step first_byte \<dots> (pair meet_t3 meet_asking share_ready 1 1 {0} {0})"
    using pair_uploads(1) [of 0 meet_asking] unfolding meet_t3_def by (simp add: meet_asking(3))
  also have "network_step first_byte \<dots> (pair meet_t4 meet_asking share_ready 1 1 {0} {0})" by (rule pair_works [OF meet_request])
  finally show ?thesis by simp
qed

lemma meet_offers: "(network_step first_byte)\<^sup>*\<^sup>* (pair meet_t4 meet_asking share_ready 1 1 {0} {0}) meet_offered"
proof -
  have "(network_step first_byte)\<^sup>*\<^sup>* (pair meet_t4 meet_asking share_ready 1 1 {0} {0}) (pair meet_t4 meet_asking share_ready 1 1 {0} {0})" by simp
  also have "network_step first_byte (pair meet_t4 meet_asking share_ready 1 1 {0} {0}) (pair meet_t4 meet_told share_ready 1 1 {0, 1} {0})"
    using pair_takes(1) [OF event_of.simps(2) meet_outs(3) _ meet_told(2,1)] by (simp add: lessThan_Suc insert_commute)
  also have "network_step first_byte \<dots> (pair meet_t4 meet_offering share_ready 1 1 {0, 1} {0})"
    by (rule pair_acts(1) [OF not_from_tracker(3) meet_offering(2,1)])
  also have "network_step first_byte \<dots> (pair meet_t5 meet_offering share_ready 2 1 {0, 1} {0})"
    using pair_uploads(1) [of 1 meet_offering] unfolding meet_t5_def by (simp add: meet_offering(5) meet_asking(3) numeral_2_eq_2)
  also have "network_step first_byte \<dots> meet_offered" unfolding meet_offered_def by (rule pair_works [OF meet_signals(1)])
  finally show ?thesis by simp
qed

lemma meet_answers: "(network_step first_byte)\<^sup>*\<^sup>* meet_offered meet_end"
proof -
  have "(network_step first_byte)\<^sup>*\<^sup>* meet_offered meet_offered" by simp
  also have "network_step first_byte meet_offered (pair meet_t6 meet_offering share_answering 2 1 {0, 1} {0, 1})"
    using pair_takes(2) [OF event_of.simps(1) meet_outs(4) _ _ share_answering(1)] share_ready(2)
    by (simp add: meet_offered_def lessThan_Suc insert_commute)
  also have "network_step first_byte \<dots> (pair meet_t7 meet_offering share_answering 2 2 {0, 1} {0, 1})"
    using pair_uploads(2) [of 1 share_answering] unfolding meet_t7_def by (simp add: share_answering(2) share_ready(4) numeral_2_eq_2)
  also have "network_step first_byte \<dots> (pair meet_t8 meet_offering share_answering 2 2 {0, 1} {0, 1})" by (rule pair_works [OF meet_signals(2)])
  also have "network_step first_byte \<dots> meet_end"
    using pair_takes(1) [OF event_of.simps(1) meet_outs(5) _ _ meet_connected(1)] meet_offering(3)
    by (simp add: meet_end_def lessThan_Suc insert_commute eval_nat_numeral)
  finally show ?thesis by simp
qed

lemma meet_run: "(network_step first_byte)\<^sup>*\<^sup>* meet_start meet_offered" "(network_step first_byte)\<^sup>*\<^sup>* meet_offered meet_end"
  using meet_connects meet_names_itself meet_announces meet_offers meet_answers by (meson rtranclp_trans)+

text \<open>At its end each daemon has set its own description and the other's.\<close>

lemma meet_described: "w_rtc (d_world (daemon_at meet_end 0)) = [(0, SetLocalDescription ''offer''), (0, SetRemoteAnswer ''answer'')]"
  "w_rtc (d_world (daemon_at meet_end 1)) = [(0, SetRemoteOffer ''offer''), (0, SetLocalDescription ''answer'')]"
  by (simp_all add: meet_end_def pair_def meet_connected(2) share_answering(3))

section \<open>Properties of the network\<close>

text \<open>C5: signals are authentic, whatever fails and however the daemons and the tracker interleave. When the tracker
  wrote a signal on the connection of a daemon, that daemon is the one with the target's id (it goes by this id or
  has not taken its id yet), exactly one daemon of the network was given the id that the signal names as its source,
  and this daemon itself wrote a signal with the same target and the same content to the tracker.\<close>

theorem signals_are_authentic:
  assumes run: "network_start n0" "(network_step sha)\<^sup>*\<^sup>* n0 n"
    and s: "j < length (nt_daemons n)" "\<lparr>MessageType = Some (NetworkMessage_Signaling s)\<rparr> \<in> set (to_daemon n j)"
  shows "n_id (w_node (d_world (daemon_at n j))) \<in> {[], sg_TargetPeerId s} \<and>
    (\<exists>i < length (nt_daemons n). assigned (nt_tracker n) i (sg_SourcePeerId s) \<and>
      (\<forall>k. assigned (nt_tracker n) k (sg_SourcePeerId s) \<longrightarrow> k = i) \<and>
      (\<exists>sent. \<lparr>MessageType = Some (NetworkMessage_Signaling sent)\<rparr> \<in> set (to_tracker n i) \<and>
        sg_TargetPeerId sent = sg_TargetPeerId s \<and> sg_Message sent = sg_Message s))"
proof -
  have inv: "net_inv n" by (rule network.reachable_inv [OF run])
  then have ids: "assigned (nt_tracker n) c a \<Longrightarrow> assigned (nt_tracker n) d a \<Longrightarrow> c = d"
    "assigned (nt_tracker n) c a \<Longrightarrow> assigned (nt_tracker n) c b \<Longrightarrow> a = b" for a b c d
    unfolding net_inv_def tracker_inv_def by blast+
  have signed: "signed n j s" using inv s by (simp add: net_inv_def signal_message_def)
  then have "n_id (w_node (d_world (daemon_at n j))) \<in> {[], sg_TargetPeerId s}"
    using inv s(1) ids(2) [of j] by (auto simp: net_inv_def signed_def)
  then show ?thesis using signed ids(1) [where a = "sg_SourcePeerId s"] unfolding signed_def signal_message_def by blast
qed

theorem signals_are_authentic_witness:
  "\<exists>i < 2. \<exists>sent. \<lparr>MessageType = Some (NetworkMessage_Signaling sent)\<rparr> \<in> set (to_tracker meet_offered i) \<and>
    assigned (nt_tracker meet_offered) i ''3'' \<and> sg_TargetPeerId sent = ''4'' \<and> sg_Message sent = Some meet_offer"
proof -
  have "1 < length (nt_daemons meet_offered)"
    "\<lparr>MessageType = Some (NetworkMessage_Signaling (signal_of ''3'' ''4'' meet_offer))\<rparr> \<in> set (to_daemon meet_offered 1)"
    using meet_outs(4) by (simp_all add: meet_offered_def pair_def)
  moreover have "length (nt_daemons meet_offered) = 2" by (simp add: meet_offered_def pair_def)
  ultimately show ?thesis using signals_are_authentic [OF meet_start meet_run(1), of 1 "signal_of ''3'' ''4'' meet_offer"]
    by simp blast
qed

text \<open>No two daemons of a network go by the same id: every id a daemon has taken is the one the tracker gave to
  its connection and to no other.\<close>

theorem daemons_have_own_ids:
  assumes run: "network_start n0" "(network_step sha)\<^sup>*\<^sup>* n0 n"
    and ij: "i < length (nt_daemons n)" "j < length (nt_daemons n)" "i \<noteq> j" "n_id (w_node (d_world (daemon_at n i))) \<noteq> []"
  shows "n_id (w_node (d_world (daemon_at n i))) \<noteq> n_id (w_node (d_world (daemon_at n j))) \<and>
    assigned (nt_tracker n) i (n_id (w_node (d_world (daemon_at n i))))"
proof -
  have inv: "net_inv n" by (rule network.reachable_inv [OF run])
  then have "assigned (nt_tracker n) c a \<Longrightarrow> assigned (nt_tracker n) d a \<Longrightarrow> c = d" for a c d
    unfolding net_inv_def tracker_inv_def by blast
  then show ?thesis using inv ij unfolding net_inv_def by metis
qed

theorem daemons_have_own_ids_witness:
  "n_id (w_node (d_world (daemon_at meet_end 0))) \<noteq> n_id (w_node (d_world (daemon_at meet_end 1))) \<and>
    n_id (w_node (d_world (daemon_at meet_end 0))) = ''3''"
proof -
  have "n_id (w_node (d_world (daemon_at meet_end 0))) = ''3''"
    by (simp add: meet_end_def pair_def meet_connected_def event_eval meet_offering(2-) Let_def meet_offering_def meet_told(3) meet_asking(2-) new_node_def)
  then show ?thesis using daemons_have_own_ids [OF meet_start rtranclp_trans [OF meet_run], of 0 1]
    by (simp add: meet_end_def pair_def)
qed

end
