(* ===== verification/SwarmRun.thy ===== *)
theory SwarmRun
  imports Swarm Meeting
begin

text \<open>
  A run of a swarm of two: one daemon registers a two-byte file, another fetches it. And the properties
  of all swarms.
\<close>

section \<open>Two daemons\<close>

text \<open>Both are connected to each other when their commands come.\<close>

definition sharer0 :: daemon where
  "sharer0 = \<lparr>d_world = sample_shop\<lparr>w_node := (new_node ''1'')\<lparr>n_id := ''4'', n_peerConnections := [(''3'', 0)], n_peerDataChannels := [(''3'', 0)]\<rparr>,
     w_pcs := [\<lparr>rtc_peer = ''3'', rtc_hash = [], rtc_initiator = False\<rparr>],
     w_dcs := [\<lparr>rtc_peer = ''3'', rtc_hash = [], rtc_initiator = False\<rparr>]\<rparr>, d_waiting = [], d_stuck = False\<rparr>"

definition fetcher0 :: daemon where
  "fetcher0 = \<lparr>d_world = sample_fetch\<lparr>w_node := (new_node ''1'')\<lparr>n_id := ''3'', n_peerConnections := [(''4'', 0)], n_peerDataChannels := [(''4'', 0)]\<rparr>,
     w_pcs := [\<lparr>rtc_peer = ''4'', rtc_hash = ''68'', rtc_initiator = True\<rparr>],
     w_dcs := [\<lparr>rtc_peer = ''4'', rtc_hash = ''68'', rtc_initiator = True\<rparr>]\<rparr>, d_waiting = [], d_stuck = False\<rparr>"

definition fetched_db :: sqldb where
  "fetched_db = \<lparr>tables_of = shop_tables\<lparr>chunks := [\<lparr>c_ID = 1, c_FileID = 1, c_ChunkIndex = 0, c_ChunkSize = 2,
     c_ChunkHash = ''68'', c_IsAvailable = 0\<rparr>], seq_chunks := 1\<rparr>, sched = []\<rparr>"

definition sharer1 :: daemon where
  "sharer1 = snd (handle_event first_byte (RegisterSignal \<lparr>sr_FilePath = ''f''\<rparr>) sharer0)"

definition fetcher1 :: daemon where
  "fetcher1 = snd (handle_event first_byte (DownloadSignal \<lparr>sd_FilePath = ''f.p2p''\<rparr>) fetcher0)"

lemma sharer1: "handle_event first_byte (RegisterSignal \<lparr>sr_FilePath = ''f''\<rparr>) sharer0 = (Inr (), sharer1)"
  "w_node (d_world sharer1) = (new_node ''1'')\<lparr>n_id := ''4'', n_peerConnections := [(''3'', 0)], n_peerDataChannels := [(''3'', 0)]\<rparr>"
  "w_db (d_world sharer1) = shared_db" "w_fails (d_world sharer1) = []" "w_sent (d_world sharer1) = []"
  "fs_of (w_os (d_world sharer1)) ''downloads/daemon-1/f'' = Some ''hi''" "io_sched (w_os (d_world sharer1)) = []"
  "w_tracker (d_world sharer1) \<noteq> []" "w_dcs (d_world sharer1) = [\<lparr>rtc_peer = ''3'', rtc_hash = [], rtc_initiator = False\<rparr>]"
  unfolding sharer1_def sharer0_def handle_event.simps handleCLIMsgs_simps handleRegisterSignal_def Let_def os_touch_alt hash_touch
  by (simp_all add: on_world_def go_simps os_do_def db_do_def os_Open_def touch_def calm_os_call sample_shop_def sample_start_def
    sample_name sample_create sample_hash sample_total sample_split)
     (simp_all add: os_touch_def register_publish_def go_simps db_do_def os_do_def sample_create_chunk shop_row_def get_node_def new_node_def
      os_MkdirAll_def os_Create_def os_CopyTo_def GenerateP2PFile_def os_Append_def p2p_lines_def header_lines_def
      calm_os_call send_tracker_def succeeds_def Let_def download_dir_def shared_db_def)

lemma fetcher1: "handle_event first_byte (DownloadSignal \<lparr>sd_FilePath = ''f.p2p''\<rparr>) fetcher0 = (Inr (), fetcher1)"
  "w_node (d_world fetcher1) = (new_node ''1'')\<lparr>n_id := ''3'', n_peerConnections := [(''4'', 0)], n_peerDataChannels := [(''4'', 0)],
     n_pendingPeerListRequests := [(''68'', [])], n_peerChunkMap := [(''3'', [(''68'', [0])])]\<rparr>"
  "w_db (d_world fetcher1) = fetched_db" "w_fails (d_world fetcher1) = []" "w_sent (d_world fetcher1) = []" "w_rands (d_world fetcher1) = []"
  "fs_of (w_os (d_world fetcher1)) ''downloads/daemon-1/f'' = Some []" "io_sched (w_os (d_world fetcher1)) = []"
  "d_waiting fetcher1 = [(''68'', 1)]" "d_stuck fetcher1 = False"
  "w_dcs (d_world fetcher1) = [\<lparr>rtc_peer = ''4'', rtc_hash = ''68'', rtc_initiator = True\<rparr>]"
  unfolding fetcher1_def fetcher0_def
  by (simp_all add: event_eval handleDownloadSignal_def Let_def os_try_def ParseP2PFile_def os_Open_def
     calm_os_call sample_fetch_def sample_start_def sample_parse
     db_do_def sample_lookup Atoi_FormatInt messageCLI_def new_node_def reset_own_chunks_def ensure_own_map_def
     set_chunk_map_def make_slice_def download_store_def sample_create shop_row_id sample_create_missing
     download_files_def os_do_def os_MkdirAll_def CreatePreallocatedFile_def go_div_nonneg os_Create_def download_request_def fetched_db_def download_dir_def)

text \<open>The events after that: the tracker's list, the introductions, a tick, the request and the response.\<close>

abbreviation to_sharer :: "NetworkMessage \<Rightarrow> node_event" where
  "to_sharer msg \<equiv> PeerMessage \<lparr>rtc_peer = ''3'', rtc_hash = [], rtc_initiator = False\<rparr> (Some msg)"

abbreviation to_fetcher :: "NetworkMessage \<Rightarrow> node_event" where
  "to_fetcher msg \<equiv> PeerMessage \<lparr>rtc_peer = ''4'', rtc_hash = ''68'', rtc_initiator = True\<rparr> (Some msg)"

definition fetcher2 :: daemon where
  "fetcher2 = snd (handle_event first_byte (PeerList meet_peers) fetcher1)"

definition fetcher3 :: daemon where
  "fetcher3 = snd (handle_event first_byte (DownloadAnswer 0) fetcher2)"

definition sharer2 :: daemon where
  "sharer2 = snd (handle_event first_byte (to_sharer (BuildIntroductionMessage ''68'' [0])) sharer1)"

definition fetcher4 :: daemon where
  "fetcher4 = snd (handle_event first_byte (to_fetcher (BuildIntroductionMessage ''68'' [1])) fetcher3)"

definition fetcher5 :: daemon where
  "fetcher5 = snd (handle_event first_byte (ManagerTick ''68'') fetcher4)"

definition sharer3 :: daemon where
  "sharer3 = snd (handle_event first_byte (to_sharer (BuildChunkRequestMessage ''68'' 0)) sharer2)"

definition fetcher6 :: daemon where
  "fetcher6 = snd (handle_event first_byte (to_fetcher (BuildChunkResponseMessage ''68'' 0 ''hi'')) fetcher5)"

lemma run_rows:
  "FileStore_GetFileByHash ''68'' shared_db = (Inr shop_row, shared_db)"
  "ChunkStore_GetChunk ''68'' 0 shared_db = (Inr \<lparr>c_ID = 1, c_FileID = 1, c_ChunkIndex = 0, c_ChunkSize = 2,
     c_ChunkHash = ''68'', c_IsAvailable = 1\<rparr>, shared_db)"
  "FileStore_GetFileNameByHash ''68'' shared_db = (Inr ''f'', shared_db)"
  "FileStore_GetFileByHash ''68'' fetched_db = (Inr shop_row, fetched_db)"
  "ChunkStore_GetChunks ''68'' fetched_db = (Inr [\<lparr>c_ID = 1, c_FileID = 1, c_ChunkIndex = 0, c_ChunkSize = 2,
     c_ChunkHash = ''68'', c_IsAvailable = 0\<rparr>], fetched_db)"
  "FileStore_GetFileNameByHash ''68'' fetched_db = (Inr ''f'', fetched_db)"
  "ChunkStore_MarkChunkAvailable ''68'' 0 fetched_db = (Inr (), shared_db)"
  by code_simp+

lemma run_maps:
  "BuildChunkMap 1 [\<lparr>c_ID = 1, c_FileID = 1, c_ChunkIndex = 0, c_ChunkSize = 2, c_ChunkHash = ''68'', c_IsAvailable = 1\<rparr>] = Inr [1]"
  "BuildChunkMap 1 [\<lparr>c_ID = 1, c_FileID = 1, c_ChunkIndex = 0, c_ChunkSize = 2, c_ChunkHash = ''68'', c_IsAvailable = 0\<rparr>] = Inr [0]"
  "FindMissingChunkIndex [\<lparr>c_ID = 1, c_FileID = 1, c_ChunkIndex = 0, c_ChunkSize = 2, c_ChunkHash = ''68'', c_IsAvailable = 0\<rparr>] = 0"
  by code_simp+

lemmas run_eval = event_eval webrtcMessageHandler_def messageCLI_def sendIntroduction_def GetChunkMap_def db_do_def run_rows
  shared_db_rows(2) run_maps send_dc_def set_chunk_map_def addPeerToDownload_def new_node_def handleIntroduction_def

lemma fetcher2: "handle_event first_byte (PeerList meet_peers) fetcher1 = (Inr (), fetcher2)"
  "possible (PeerList meet_peers) fetcher1"
  "fetcher2 = fetcher1\<lparr>d_world := (d_world fetcher1)\<lparr>w_node := (w_node (d_world fetcher1))\<lparr>n_pendingPeerListRequests :=
     [(''68'', [meet_peers])]\<rparr>\<rparr>\<rparr>"
  by (simp_all add: fetcher2_def event_eval fetcher1(2-) chan_capacity_def)

definition run_download :: FileDownload where
  "run_download = \<lparr>fd_FileHash = ''68'', fd_TotalChunks = 1, fd_ActivePeers = []\<rparr>"

lemma fetcher3: "handle_event first_byte (DownloadAnswer 0) fetcher2 = (Inr (), fetcher3)"
  "possible (DownloadAnswer 0) fetcher2"
  "fetcher3 = fetcher2\<lparr>d_waiting := [], d_world := (d_world fetcher2)\<lparr>w_sent := [(0, BuildIntroductionMessage ''68'' [0])],
     w_node := (w_node (d_world fetcher2))\<lparr>n_pendingPeerListRequests := [(''68'', [])], n_activeDownloads := [(''68'', run_download)]\<rparr>\<rparr>\<rparr>"
  by (simp_all add: fetcher3_def fetcher2(3) run_eval fetcher1(2-) shop_row_def run_download_def)

lemma sharer2: "handle_event first_byte (to_sharer (BuildIntroductionMessage ''68'' [0])) sharer1 = (Inr (), sharer2)"
  "sharer2 = sharer1\<lparr>d_world := (d_world sharer1)\<lparr>w_sent := [(0, BuildIntroductionMessage ''68'' [1])],
     w_node := (w_node (d_world sharer1))\<lparr>n_peerChunkMap := [(''3'', [(''68'', [0])])]\<rparr>\<rparr>\<rparr>"
  by (simp_all add: sharer2_def run_eval sharer1(2-) shop_row_def)

lemma fetcher4: "handle_event first_byte (to_fetcher (BuildIntroductionMessage ''68'' [1])) fetcher3 = (Inr (), fetcher4)"
  "fetcher4 = fetcher3\<lparr>d_world := (d_world fetcher3)\<lparr>
     w_sent := [(0, BuildIntroductionMessage ''68'' [0]), (0, BuildIntroductionMessage ''68'' [0])],
     w_node := (w_node (d_world fetcher3))\<lparr>n_peerChunkMap := [(''3'', [(''68'', [0])]), (''4'', [(''68'', [1])])],
       n_activeDownloads := [(''68'', run_download\<lparr>fd_ActivePeers := [(''4'', True)]\<rparr>)]\<rparr>\<rparr>\<rparr>"
  by (simp_all add: fetcher4_def fetcher3(3) fetcher2(3) run_eval fetcher1(2-) shop_row_def run_download_def)

lemma fetcher5: "handle_event first_byte (ManagerTick ''68'') fetcher4 = (Inr (), fetcher5)"
  "possible (ManagerTick ''68'') fetcher4"
  "fetcher5 = fetcher4\<lparr>d_world := (d_world fetcher4)\<lparr>
     w_sent := w_sent (d_world fetcher4) @ [(0, BuildChunkRequestMessage ''68'' 0)]\<rparr>\<rparr>"
  by (simp_all add: fetcher5_def fetcher4(2) fetcher3(3) fetcher2(3) run_eval fetcher1(2-) download_tick_def IsDownloadComplete_iff
      requestOneMissingChunk_def Let_def slice_get_def SelectRandomPeer_def rand_Intn_def maxRetries_def eval_nat_numeral int32_def)

lemma sharer3: "handle_event first_byte (to_sharer (BuildChunkRequestMessage ''68'' 0)) sharer2 = (Inr (), sharer3)"
  "w_sent (d_world sharer3) = [(0, BuildIntroductionMessage ''68'' [1]), (0, BuildChunkResponseMessage ''68'' 0 ''hi'')]"
  "id_of sharer3 = ''4''" "w_dcs (d_world sharer3) = [\<lparr>rtc_peer = ''3'', rtc_hash = [], rtc_initiator = False\<rparr>]"
  by (simp_all add: sharer3_def sharer2(2) run_eval sharer1(2-) handleChunkRequest_def readChunkFromFile_def os_do_def os_Open_def
      os_call_def next_fault_def BuildDownloadPath_def ReadChunkData_def make_slice_def ReadAt_def Let_def int64_def)

lemma fetcher6: "handle_event first_byte (to_fetcher (BuildChunkResponseMessage ''68'' 0 ''hi'')) fetcher5 = (Inr (), fetcher6)"
  "w_db (d_world fetcher6) = shared_db"
  by (simp_all add: fetcher6_def fetcher5(3) fetcher4(2) fetcher3(3) fetcher2(3) run_eval fetcher1(2-) handleChunkResponse_def
      mark_own_chunk_def os_do_def os_Open_def os_WriteChunk_def os_call_def next_fault_def BuildDownloadPath_def WriteChunkData_def
      WriteAt_def Let_def int64_def slice_set_def)

text \<open>The run as steps of the swarm.\<close>

lemma run_newcomers: "newcomer sharer0" "newcomer fetcher0"
  using sample_shop_ok sample_fetch_ok
  by (auto simp: newcomer_def daemon_ok_def world_ok_def objects_ok_def pending_ok_def sharer0_def fetcher0_def sample_shop_def
      sample_fetch_def sample_start_def new_node_def)

lemma run_joins: "(swarm_step first_byte ''hi'')\<^sup>*\<^sup>* [] [sharer1, fetcher1]"
proof -
  have "(swarm_step first_byte ''hi'')\<^sup>*\<^sup>* [] []" by simp
  also have "swarm_step first_byte ''hi'' [] ([] @ [sharer1])"
    by (rule swarm_step.shares [OF run_newcomers(1) _ refl _ _ _ sharer1(1)])
       (simp_all add: sharer0_def sample_shop_def sample_start_def new_node_def download_dir_def sample_name countable_size_def
         sharer1(8) [unfolded sharer0_def])
  also have "swarm_step first_byte ''hi'' ([] @ [sharer1]) (([] @ [sharer1]) @ [fetcher1])"
    by (rule swarm_step.fetches [OF run_newcomers(2) _ sample_limits(1,2) _ _ _ fetcher1(1)])
       (use sample_fetch_src in \<open>simp_all add: fetcher0_def sharer1(2) fetcher1(9)\<close>)
  finally show ?thesis by simp
qed

lemma run_acts:
  assumes "handle_event first_byte ev f = (Inr (), f')" "possible ev f" "alone ''68'' ev"
  shows "swarm_step first_byte ''hi'' [s, f] [s, f']"
  using swarm_step.acts [of 1 "[s, f]" first_byte "''hi''" ev "()" f'] assms by (simp add: sample_hash)

lemma run_up:
  assumes "handle_event first_byte (to_sharer msg) s = (Inr (), s')" "(0, msg) \<in> set (sent_by f)" "channel_peer f 0 = ''4''"
    and "id_of s = ''4''" "id_of f = ''3''" "possible (to_sharer msg) s"
  shows "swarm_step first_byte ''hi'' [s, f] [s', f]"
  using swarm_step.delivers [of 1 "[s, f]" 0 0 msg "\<lparr>rtc_peer = ''3'', rtc_hash = [], rtc_initiator = False\<rparr>"
      first_byte "()" s' "''hi''"] assms by simp

lemma run_down:
  assumes "handle_event first_byte (to_fetcher msg) f = (Inr (), f')" "(0, msg) \<in> set (sent_by s)" "channel_peer s 0 = ''3''"
    and "id_of s = ''4''" "id_of f = ''3''" "possible (to_fetcher msg) f"
  shows "swarm_step first_byte ''hi'' [s, f] [s, f']"
  using swarm_step.delivers [of 0 "[s, f]" 1 0 msg "\<lparr>rtc_peer = ''4'', rtc_hash = ''68'', rtc_initiator = True\<rparr>"
      first_byte "()" f' "''hi''"] assms by simp

lemmas run_states = fetcher3(3) fetcher2(3) fetcher1(2-) sharer1(2-)

lemma run_asks: "(swarm_step first_byte ''hi'')\<^sup>*\<^sup>* [] [sharer2, fetcher5]"
proof -
  note run_joins
  also have "swarm_step first_byte ''hi'' [sharer1, fetcher1] [sharer1, fetcher2]" by (rule run_acts [OF fetcher2(1,2)]) simp
  also have "swarm_step first_byte ''hi'' [sharer1, fetcher2] [sharer1, fetcher3]" by (rule run_acts [OF fetcher3(1,2)]) simp
  also have "swarm_step first_byte ''hi'' [sharer1, fetcher3] [sharer2, fetcher3]"
    by (rule run_up [OF sharer2(1)]) (simp_all add: run_states)
  also have "swarm_step first_byte ''hi'' [sharer2, fetcher3] [sharer2, fetcher4]"
    by (rule run_down [OF fetcher4(1)]) (simp_all add: sharer2(2) run_states)
  also have "swarm_step first_byte ''hi'' [sharer2, fetcher4] [sharer2, fetcher5]" by (rule run_acts [OF fetcher5(1,2)]) simp
  finally show ?thesis .
qed

lemma run_gets: "(swarm_step first_byte ''hi'')\<^sup>*\<^sup>* [] [sharer3, fetcher6]"
proof -
  note run_asks
  also have "swarm_step first_byte ''hi'' [sharer2, fetcher5] [sharer3, fetcher5]"
    by (rule run_up [OF sharer3(1)]) (simp_all add: fetcher5(3) fetcher4(2) sharer2(2) run_states)
  also have "swarm_step first_byte ''hi'' [sharer3, fetcher5] [sharer3, fetcher6]"
    by (rule run_down [OF fetcher6(1)]) (simp_all add: fetcher5(3) fetcher4(2) sharer3(2-) run_states)
  finally show ?thesis .
qed

section \<open>Properties of swarms\<close>

text \<open>C1: however many daemons register and fetch a file and trade no other, in whatever order they join, act, fail and deliver
  what they said to each other (late, repeatedly, out of order, or never), every daemon of the swarm has on its
  disk, for each chunk it lists as available, the bytes of the file that was registered, and the whole file once
  all are; and every copy of a chunk under way has the right bytes.\<close>

theorem swarm_copies_are_exact:
  assumes "(swarm_step sha xs)\<^sup>*\<^sup>* [] ds" "int (length xs) \<le> 2 ^ 46" "\<forall>ys. length (sha ys) \<le> 1000" "d \<in> set ds"
  defines "h \<equiv> GenerateHash sha xs"
  shows "\<exists>f content. stored_file (w_db (d_world d)) h = Some f \<and>
    fs_of (w_os (d_world d)) (file_path (d_world d) f) = Some content \<and>
    (\<forall>c \<in> set (stored_chunks (w_db (d_world d)) h). c_IsAvailable c = 1 \<longrightarrow>
       tile M content (nat (c_ChunkIndex c)) = tile M xs (nat (c_ChunkIndex c))) \<and>
    (IsDownloadComplete (stored_chunks (w_db (d_world d)) h) \<longrightarrow> content = xs) \<and>
    (\<forall>(dc, msg) \<in> set (sent_by d). \<forall>cs. MessageType msg = Some (NetworkMessage_ChunkResponse cs) \<longrightarrow>
       cs_FileHash cs = h \<and> cs_ChunkData cs = tile M xs (nat (cs_ChunkIndex cs)))"
proof -
  have ok: "swarm_ok h xs ds" unfolding h_def by (rule swarm_reachable_ok [OF assms(1-3)])
  then have m: "member h xs d" and said: "\<forall>s \<in> set (sent_by d). said_ok h xs ds d s" using assms(4) by (simp_all add: swarm_ok_def)
  then have s: "stored_ok h xs (d_world d)"
    by (auto simp: member_def fetching_def serving_all_def receiving_def transfer_inv_def)
  then obtain f content where f: "stored_file (w_db (d_world d)) h = Some f"
    "fs_of (w_os (d_world d)) (file_path (d_world d) f) = Some content"
    "agrees_on M xs (have_chunks (d_world d) h) content" by (auto simp: stored_ok_def)
  have "tile M content (nat (c_ChunkIndex c)) = tile M xs (nat (c_ChunkIndex c))"
    if "c \<in> set (stored_chunks (w_db (d_world d)) h)" "c_IsAvailable c = 1" for c
    using stored_index [OF s that(1)] that(2) agreeing_tile [OF f(3)] by auto
  moreover have "IsDownloadComplete (stored_chunks (w_db (d_world d)) h) \<longrightarrow> content = xs"
    using complete_transfer [OF s _ f(1)] f(2) by auto
  moreover have "\<forall>(dc, msg) \<in> set (sent_by d). \<forall>cs. MessageType msg = Some (NetworkMessage_ChunkResponse cs) \<longrightarrow>
       cs_FileHash cs = h \<and> cs_ChunkData cs = tile M xs (nat (cs_ChunkIndex cs))"
    using said by (fastforce simp: said_ok_def on_topic_def)
  ultimately show ?thesis using f by blast
qed


text \<open>The fetcher of the run ends with the two bytes.\<close>

theorem swarm_copies_are_exact_witness:
  "\<exists>ds f. (swarm_step first_byte ''hi'')\<^sup>*\<^sup>* [] ds \<and> fetcher6 \<in> set ds \<and>
     stored_file (w_db (d_world fetcher6)) ''68'' = Some f \<and>
     fs_of (w_os (d_world fetcher6)) (file_path (d_world fetcher6) f) = Some ''hi''"
proof -
  have "IsDownloadComplete (stored_chunks shared_db ''68'')" by code_simp
  then have complete: "IsDownloadComplete (stored_chunks (w_db (d_world fetcher6)) ''68'')" by (simp only: fetcher6(2))
  have "fetcher6 \<in> set [sharer3, fetcher6]" by simp
  from swarm_copies_are_exact [OF run_gets sample_limits(4,3) this, unfolded sample_hash] complete
  show ?thesis using run_gets by (metis list.set_intros)
qed


end
