(* ===== verification/Config.thy ===== *)
theory Config
  imports Strings
begin

text \<open>
  What the program tells the WebRTC library: internal/node/config.go, the constants of
  internal/node/webrtc.go, and those of internal/transport/webrtc. The daemon's transfer relies on channels that keep the order and lose nothing.
\<close>

section \<open>config.go\<close>

datatype ICETransportPolicy = ICETransportPolicyAll | ICETransportPolicyRelay

record ICEServer =
  URLs :: "string list"

record Configuration =
  ICEServers :: "ICEServer list"
  icePolicy :: ICETransportPolicy

definition defaultSTUNServers :: "string list" where
  "defaultSTUNServers =
     [''stun:stun.l.google.com:19302'', ''stun:stun1.l.google.com:19302'', ''stun:stun2.l.google.com:19302'',
      ''stun:stun3.l.google.com:19302'', ''stun:stun4.l.google.com:19302'']"

definition DefaultSTUNConfig :: Configuration where
  "DefaultSTUNConfig = \<lparr>ICEServers = [\<lparr>URLs = defaultSTUNServers\<rparr>], icePolicy = ICETransportPolicyAll\<rparr>"

text \<open>Pointers that may be nil are options; nil leaves the library's default.\<close>

record DataChannelInit =
  Ordered :: "bool option"
  MaxRetransmits :: "nat option"
  Protocol :: "string option"

definition DefaultDataChannelConfig :: DataChannelInit where
  "DefaultDataChannelConfig = \<lparr>Ordered = Some True, MaxRetransmits = None, Protocol = Some ''file-transfer''\<rparr>"

section \<open>What the connections are made with\<close>

text \<open>webrtc.go has the constants again: DefaultDataChannelConfig is used by its test only.\<close>

definition dataChannelConfig :: DataChannelInit where
  "dataChannelConfig = \<lparr>Ordered = Some True, MaxRetransmits = None, Protocol = Some ''file-transfer''\<rparr>"

text \<open>createDataChannel of the transport.\<close>

definition transport_channel :: DataChannelInit where
  "transport_channel = \<lparr>Ordered = Some True, MaxRetransmits = None, Protocol = None\<rparr>"

text \<open>New of the transport: one server per URL.\<close>

definition transport_config :: "string list \<Rightarrow> Configuration" where
  "transport_config stunServers =
     \<lparr>ICEServers = map (\<lambda>server. \<lparr>URLs = [server]\<rparr>) stunServers, icePolicy = ICETransportPolicyAll\<rparr>"

text \<open>The URLs a configuration gives the library, in order.\<close>

definition stun_urls :: "Configuration \<Rightarrow> string list" where
  "stun_urls c = concat (map URLs (ICEServers c))"

text \<open>Both ways to configure a peer connection offer the same servers in the same order.\<close>

lemma same_servers: "stun_urls (transport_config defaultSTUNServers) = stun_urls DefaultSTUNConfig"
  by (simp add: stun_urls_def transport_config_def DefaultSTUNConfig_def o_def)

text \<open>Every channel the program creates keeps the order of its messages and retransmits without limit.\<close>

lemma channels_reliable:
  "c \<in> {dataChannelConfig, transport_channel, DefaultDataChannelConfig} \<Longrightarrow> Ordered c = Some True \<and> MaxRetransmits c = None"
  by (auto simp: dataChannelConfig_def transport_channel_def DefaultDataChannelConfig_def)

lemma channel_configs_agree: "dataChannelConfig = DefaultDataChannelConfig"
  by (simp add: dataChannelConfig_def DefaultDataChannelConfig_def)

end
