(* ===== verification/Goroutines.thy ===== *)
theory Goroutines
  imports Prelude
begin

text \<open>
  Goroutines below the level of handlers: what a function does to shared memory and to mutexes, instruction by
  instruction, and all goroutines interleaved. A value that is read decides nothing here; a branch or loop takes
  either way. A goroutine that waits for a channel, a timer or the network counts as one that may go on.
\<close>

section \<open>Code\<close>

text \<open>
  \<open>Acq m True\<close> is Lock, \<open>Acq m False\<close> is RLock, \<open>Rel\<close> the matching unlock; \<open>Go\<close> starts a goroutine, as the go
  statement does and as a library does that calls a registered callback.
\<close>

datatype ('m, 'v) code =
    Acq 'm bool
  | Rel 'm bool
  | Rd 'v
  | Wr 'v
  | Go "('m, 'v) code"
  | Skip
  | Seq "('m, 'v) code" "('m, 'v) code"
  | Or "('m, 'v) code" "('m, 'v) code"
  | Loop "('m, 'v) code"

text \<open>A goroutine: the mutexes it holds and what it has still to do.\<close>

type_synonym ('m, 'v) thread = "('m \<times> bool) set \<times> ('m, 'v) code list"

definition seq :: "('m, 'v) code list \<Rightarrow> ('m, 'v) code" where
  "seq cs = foldr Seq cs Skip"

definition maybe :: "('m, 'v) code \<Rightarrow> ('m, 'v) code" where
  "maybe c = Or c Skip"

definition one_of :: "'a list \<Rightarrow> ('a \<Rightarrow> ('m, 'v) code) \<Rightarrow> ('m, 'v) code" where
  "one_of xs f = foldr (\<lambda>x. Or (f x)) xs Skip"

definition locked :: "'m \<Rightarrow> ('m, 'v) code list \<Rightarrow> ('m, 'v) code" where
  "locked m cs = seq ([Acq m True] @ cs @ [Rel m True])"

text \<open>A callback registered with a library: from then on it may run at any time, any number of times.\<close>

definition callback :: "('m, 'v) code \<Rightarrow> ('m, 'v) code" where
  "callback c = Go (Loop (Go c))"

section \<open>Runs\<close>

definition free :: "'m \<Rightarrow> bool \<Rightarrow> ('m, 'v) thread list \<Rightarrow> bool" where
  "free m w ts = list_all (\<lambda>(H, k). (m, True) \<notin> H \<and> (w \<longrightarrow> (m, False) \<notin> H)) ts"

text \<open>Goroutine \<open>i\<close> does its next instruction, if it can; \<open>b\<close> is the way it takes at a branch or loop.\<close>

definition exec :: "nat \<Rightarrow> bool \<Rightarrow> ('m, 'v) thread list \<Rightarrow> ('m, 'v) thread list option" where
  "exec i b ts =
     (if i < length ts
      then (case ts ! i of
          (H, []) \<Rightarrow> None
        | (H, c # k) \<Rightarrow> (case c of
              Acq m w \<Rightarrow> if free m w ts then Some (ts[i := (insert (m, w) H, k)]) else None
            | Rel m w \<Rightarrow> if (m, w) \<in> H then Some (ts[i := (H - {(m, w)}, k)]) else None
            | Rd v \<Rightarrow> Some (ts[i := (H, k)])
            | Wr v \<Rightarrow> Some (ts[i := (H, k)])
            | Go c' \<Rightarrow> Some (ts[i := (H, k)] @ [({}, [c'])])
            | Skip \<Rightarrow> Some (ts[i := (H, k)])
            | Seq a a' \<Rightarrow> Some (ts[i := (H, a # a' # k)])
            | Or a a' \<Rightarrow> Some (ts[i := (H, (if b then a else a') # k)])
            | Loop a \<Rightarrow> Some (ts[i := (H, if b then a # Loop a # k else k)])))
      else None)"

inductive conc_step :: "('m, 'v) thread list \<Rightarrow> ('m, 'v) thread list \<Rightarrow> bool" where
  conc_step: "exec i b ts = Some ts' \<Longrightarrow> conc_step ts ts'"

fun run_sched :: "(nat \<times> bool) list \<Rightarrow> ('m, 'v) thread list \<Rightarrow> ('m, 'v) thread list option" where
  "run_sched [] ts = Some ts"
| "run_sched ((i, b) # s) ts = (case exec i b ts of None \<Rightarrow> None | Some ts' \<Rightarrow> run_sched s ts')"

lemma run_sched_steps: "run_sched s ts = Some ts' \<Longrightarrow> conc_step\<^sup>*\<^sup>* ts ts'"
  proof (induction s arbitrary: ts)
  case (Cons a s)
  obtain i b where a: "a = (i, b)" by (cases a)
  with Cons.prems obtain t where "exec i b ts = Some t" "run_sched s t = Some ts'" by (auto split: option.splits)
  then show ?case using Cons.IH conc_step.intros by (metis converse_rtranclp_into_rtranclp)
qed simp

text \<open>The run of a program starts with its main goroutine.\<close>

abbreviation starts :: "('m, 'v) code \<Rightarrow> ('m, 'v) thread list" where
  "starts c \<equiv> [({}, [c])]"

definition reaches :: "('m, 'v) code \<Rightarrow> ('m, 'v) thread list \<Rightarrow> bool" where
  "reaches c ts \<longleftrightarrow> conc_step\<^sup>*\<^sup>* (starts c) ts"

text \<open>A data race: two goroutines are about to access the same variable, by a write (\<open>True\<close>) or a read.\<close>

fun pending :: "('m, 'v) thread \<Rightarrow> ('v \<times> bool) option" where
  "pending (H, Rd v # k) = Some (v, False)"
| "pending (H, Wr v # k) = Some (v, True)"
| "pending t = None"

definition meet :: "'v \<Rightarrow> bool \<Rightarrow> bool \<Rightarrow> ('m, 'v) thread list \<Rightarrow> bool" where
  "meet v w u ts \<longleftrightarrow> (\<exists>i < length ts. \<exists>j < length ts. i \<noteq> j \<and> pending (ts ! i) = Some (v, w) \<and> pending (ts ! j) = Some (v, u))"

definition races :: "('m, 'v) code \<Rightarrow> 'v \<Rightarrow> bool \<Rightarrow> bool \<Rightarrow> bool" where
  "races c v w u \<longleftrightarrow> (\<exists>ts. reaches c ts \<and> meet v w u ts)"

text \<open>A run that calls at given meetings: each stop has a schedule to get there and the two goroutines that meet.
  \<open>along i n exits\<close>: \<open>n\<close> steps of goroutine \<open>i\<close>, the first way at each branch and loop but at the steps \<open>exits\<close>.\<close>

definition along :: "nat \<Rightarrow> nat \<Rightarrow> nat list \<Rightarrow> (nat \<times> bool) list" where
  "along i n exits = map (\<lambda>k. (i, k \<notin> set exits)) [0..<n]"

fun visits :: "((nat \<times> bool) list \<times> 'v \<times> bool \<times> bool \<times> nat \<times> nat) list \<Rightarrow> ('m, 'v) thread list \<Rightarrow> bool" where
  "visits [] ts = True"
| "visits ((s, v, w, u, i, j) # stops) ts = (case run_sched s ts of None \<Rightarrow> False | Some ts' \<Rightarrow>
     i < length ts' \<and> j < length ts' \<and> i \<noteq> j \<and> pending (ts' ! i) = Some (v, w) \<and> pending (ts' ! j) = Some (v, u) \<and>
     visits stops ts')"

lemma visits_races:
  "visits stops ts \<Longrightarrow> reaches c ts \<Longrightarrow> (s, v, w, u, i, j) \<in> set stops \<Longrightarrow> races c v w u"
proof (induction stops ts rule: visits.induct)
  case (2 s' v' w' u' i' j' stops ts)
  then obtain ts' where ts': "run_sched s' ts = Some ts'" by (auto split: option.splits)
  then have r: "reaches c ts'" using run_sched_steps "2.prems"(2) unfolding reaches_def by (metis rtranclp_trans)
  show ?case
  proof (cases "(s, v, w, u, i, j) = (s', v', w', u', i', j')")
    case True
    then have "meet v w u ts'" using "2.prems"(1) ts' unfolding meet_def by auto
    then show ?thesis using r unfolding races_def by blast
  next
    case False
    then show ?thesis using "2.IH" [OF ts'] "2.prems" ts' r by auto
  qed
qed simp

lemma races_sym: "races c v w u \<Longrightarrow> races c v u w"
  unfolding races_def meet_def by metis

section \<open>A discipline of locking\<close>

text \<open>
  \<open>check ord guard H c\<close>: run with the mutexes \<open>H\<close> held, \<open>c\<close> takes mutexes in ascending order only, releases only
  what it holds, does every access with the mutex that guards it held (for a read shared will do), starts
  goroutines that keep the discipline, and ends with the same mutexes held on every path.
\<close>

fun check :: "('m \<Rightarrow> nat) \<Rightarrow> ('v \<Rightarrow> bool \<Rightarrow> 'm option) \<Rightarrow> ('m \<times> bool) set \<Rightarrow> ('m, 'v) code \<Rightarrow> ('m \<times> bool) set option" where
  "check ord guard H (Acq m w) = (if \<forall>x \<in> H. ord (fst x) < ord m then Some (insert (m, w) H) else None)"
| "check ord guard H (Rel m w) = (if (m, w) \<in> H then Some (H - {(m, w)}) else None)"
| "check ord guard H (Rd v) = (case guard v False of None \<Rightarrow> Some H
     | Some m \<Rightarrow> if (m, True) \<in> H \<or> (m, False) \<in> H then Some H else None)"
| "check ord guard H (Wr v) = (case guard v True of None \<Rightarrow> Some H | Some m \<Rightarrow> if (m, True) \<in> H then Some H else None)"
| "check ord guard H (Go c) = (if check ord guard {} c = Some {} then Some H else None)"
| "check ord guard H Skip = Some H"
| "check ord guard H (Seq a b) = (case check ord guard H a of None \<Rightarrow> None | Some H' \<Rightarrow> check ord guard H' b)"
| "check ord guard H (Or a b) = (if check ord guard H a = check ord guard H b then check ord guard H a else None)"
| "check ord guard H (Loop a) = (if check ord guard H a = Some H then Some H else None)"

fun check_all :: "('m \<Rightarrow> nat) \<Rightarrow> ('v \<Rightarrow> bool \<Rightarrow> 'm option) \<Rightarrow> ('m \<times> bool) set \<Rightarrow> ('m, 'v) code list \<Rightarrow> ('m \<times> bool) set option" where
  "check_all ord guard H [] = Some H"
| "check_all ord guard H (c # k) = (case check ord guard H c of None \<Rightarrow> None | Some H' \<Rightarrow> check_all ord guard H' k)"

text \<open>No two goroutines hold a mutex unless both only read under it.\<close>

definition exclusive :: "('m, 'v) thread list \<Rightarrow> bool" where
  "exclusive ts \<longleftrightarrow> (\<forall>i < length ts. \<forall>j < length ts. i \<noteq> j \<longrightarrow>
     (\<forall>m w u. (m, w) \<in> fst (ts ! i) \<longrightarrow> (m, u) \<in> fst (ts ! j) \<longrightarrow> \<not> w \<and> \<not> u))"

definition disciplined :: "('m \<Rightarrow> nat) \<Rightarrow> ('v \<Rightarrow> bool \<Rightarrow> 'm option) \<Rightarrow> ('m, 'v) thread list \<Rightarrow> bool" where
  "disciplined ord guard ts \<longleftrightarrow> exclusive ts \<and> list_all (\<lambda>(H, k). check_all ord guard H k = Some {}) ts"

lemma exclusiveD:
  "exclusive ts \<Longrightarrow> i < length ts \<Longrightarrow> j < length ts \<Longrightarrow> i \<noteq> j \<Longrightarrow> (m, w) \<in> fst (ts ! i) \<Longrightarrow> (m, u) \<in> fst (ts ! j) \<Longrightarrow>
    \<not> w \<and> \<not> u"
  unfolding exclusive_def by blast

lemma disciplinedD:
  assumes "disciplined ord guard ts" "i < length ts" "ts ! i = (H, k)"
  shows "check_all ord guard H k = Some {}"
  using assms by (auto simp: disciplined_def list_all_length)

lemma disciplined_update:
  assumes d: "disciplined ord guard ts" and i: "i < length ts" "ts ! i = (H, k)"
    and k: "check_all ord guard H' k' = Some {}"
    and new: "\<And>m w. (m, w) \<in> H' \<Longrightarrow> (m, w) \<in> H \<or> free m w ts"
  shows "disciplined ord guard (ts[i := (H', k')])"
proof -
  let ?ts = "ts[i := (H', k')]"
  have apart: "\<not> w \<and> \<not> u" if "j < length ts" "j \<noteq> i" "(m, w) \<in> H'" "(m, u) \<in> fst (ts ! j)" for j m w u
  proof (cases "(m, w) \<in> H")
    case True
    then show ?thesis using d i that unfolding disciplined_def exclusive_def by (metis fst_conv)
  next
    case False
    then have "free m w ts" using new that(3) by blast
    then show ?thesis using that unfolding free_def list_all_length by (cases "ts ! j"; cases u) auto
  qed
  have "exclusive ?ts"
    unfolding exclusive_def
  proof (intro allI impI)
    fix x y m w u
    assume xy: "x < length ?ts" "y < length ?ts" "x \<noteq> y" "(m, w) \<in> fst (?ts ! x)" "(m, u) \<in> fst (?ts ! y)"
    show "\<not> w \<and> \<not> u"
      using xy apart d unfolding disciplined_def exclusive_def
      by (cases "x = i"; cases "y = i") (simp_all, blast+)
  qed
  moreover have "list_all (\<lambda>(H, k). check_all ord guard H k = Some {}) ?ts"
    using d k set_update_subset_insert [of ts i "(H', k')"] by (auto simp: disciplined_def list_all_iff)
  ultimately show ?thesis by (simp add: disciplined_def)
qed

lemma disciplined_append:
  assumes "disciplined ord guard ts" "check ord guard {} c = Some {}"
  shows "disciplined ord guard (ts @ [({}, [c])])"
proof -
  have "exclusive (ts @ [({}, [c])])"
    unfolding exclusive_def
  proof (intro allI impI)
    fix i j m w u
    assume a: "i < length (ts @ [({}, [c])])" "j < length (ts @ [({}, [c])])" "i \<noteq> j"
      "(m, w) \<in> fst ((ts @ [({}, [c])]) ! i)" "(m, u) \<in> fst ((ts @ [({}, [c])]) ! j)"
    then have "i < length ts" "j < length ts" by (auto simp: nth_append less_Suc_eq)
    then show "\<not> w \<and> \<not> u" using a exclusiveD [of ts i j m w u] assms(1) by (simp add: disciplined_def nth_append)
  qed
  then show ?thesis using assms by (simp add: disciplined_def)
qed

lemma disciplined_step:
  assumes d: "disciplined ord guard ts" and step: "exec i b ts = Some ts'"
  shows "disciplined ord guard ts'"
proof -
  have i: "i < length ts" using step by (simp add: exec_def split: if_splits)
  obtain H k where t: "ts ! i = (H, k)" by (cases "ts ! i")
  note step' = step [unfolded exec_def t] and upd = disciplined_update [OF d i t]
  have ok: "check_all ord guard H k = Some {}" by (rule disciplinedD [OF d i t])
  show ?thesis
  proof (cases k)
    case Nil
    then show ?thesis using step' i by simp
  next
    case (Cons c k')
    show ?thesis
    proof (cases c)
      case (Go a)
      have "check ord guard {} a = Some {}" "disciplined ord guard (ts[i := (H, k')])"
        using ok Cons Go by (auto intro!: upd split: if_splits)
      then show ?thesis using step' i Cons Go disciplined_append by auto
    qed (use step' i ok Cons in \<open>auto intro!: upd split: if_splits option.splits\<close>)
  qed
qed

text \<open>Two accesses for which the guard requires the same mutex are never pending at once, unless both only read.\<close>

lemma disciplined_apart:
  assumes d: "disciplined ord guard ts" and g: "guard v w = Some m" "guard v u = Some m" "w \<or> u"
  shows "\<not> meet v w u ts"
proof
  assume "meet v w u ts"
  then obtain i j where ij: "i < length ts" "j < length ts" "i \<noteq> j" "pending (ts ! i) = Some (v, w)" "pending (ts ! j) = Some (v, u)"
    unfolding meet_def by blast
  have held: "(m, True) \<in> fst t \<or> \<not> x \<and> (m, False) \<in> fst t"
    if "t \<in> set ts" "pending t = Some (v, x)" "guard v x = Some m" for t x
  proof -
    obtain H k where t: "t = (H, k)" by (cases t)
    then have "check_all ord guard H k = Some {}" using d that(1) by (auto simp: disciplined_def list_all_iff)
    then show ?thesis using that(2,3) t by (cases "(H, k)" rule: pending.cases) (auto split: if_splits)
  qed
  have "(m, True) \<in> fst (ts ! i) \<or> \<not> w \<and> (m, False) \<in> fst (ts ! i)" "(m, True) \<in> fst (ts ! j) \<or> \<not> u \<and> (m, False) \<in> fst (ts ! j)"
    using held [of "ts ! i" w] held [of "ts ! j" u] ij g by auto
  then show False using exclusiveD [OF _ ij(1-3), of m] d g(3) by (auto simp: disciplined_def)
qed

text \<open>A goroutine that cannot go on waits for a mutex; what it holds precedes the mutex it waits for.\<close>

lemma stuck_waits:
  assumes d: "disciplined ord guard ts" and i: "i < length ts" "snd (ts ! i) \<noteq> []" and stuck: "exec i b ts = None"
  obtains m w k where "snd (ts ! i) = Acq m w # k" "\<not> free m w ts" "\<forall>x \<in> fst (ts ! i). ord (fst x) < ord m"
proof -
  obtain H k where t: "ts ! i = (H, k)" by (cases "ts ! i")
  have ok: "check_all ord guard H k = Some {}" by (rule disciplinedD [OF d i(1) t])
  obtain c k' where k: "k = c # k'" using i(2) t by (cases k) auto
  show thesis
    using stuck ok that i t by (cases c) (auto simp: exec_def k split: if_splits)
qed

abbreviation holders :: "('m, 'v) thread list \<Rightarrow> nat set" where
  "holders ts \<equiv> {i. i < length ts \<and> fst (ts ! i) \<noteq> {}}"

lemma holder_unfinished: "disciplined ord guard ts \<Longrightarrow> i \<in> holders ts \<Longrightarrow> snd (ts ! i) \<noteq> []"
  using disciplinedD [of ord guard ts i] by (cases "ts ! i") auto

text \<open>Of the goroutines that hold a mutex one can go on: the one that waits for the last mutex in the order cannot wait.\<close>

lemma holder_progress:
  assumes d: "disciplined ord guard ts" and some: "holders ts \<noteq> {}"
  shows "\<exists>i \<in> holders ts. exec i b ts \<noteq> None"
proof (rule ccontr)
  assume "\<not> ?thesis"
  then have stuck: "exec i b ts = None" if "i \<in> holders ts" for i using that by blast
  define W where "W = {m. \<exists>i \<in> holders ts. \<exists>w k. snd (ts ! i) = Acq m w # k}"
  have waits: "\<exists>m \<in> W. (\<exists>w k. snd (ts ! i) = Acq m w # k \<and> \<not> free m w ts) \<and> (\<forall>x \<in> fst (ts ! i). ord (fst x) < ord m)"
    if i: "i \<in> holders ts" for i
  proof -
    obtain m w k where "snd (ts ! i) = Acq m w # k" "\<not> free m w ts" "\<forall>x \<in> fst (ts ! i). ord (fst x) < ord m"
      using stuck_waits [OF d _ holder_unfinished [OF d i] stuck [OF i]] i by blast
    then show ?thesis using i unfolding W_def by blast
  qed
  have sub: "W \<subseteq> (\<lambda>i. case snd (ts ! i) of Acq m w # k \<Rightarrow> m | _ \<Rightarrow> undefined) ` holders ts" unfolding W_def by force
  have "finite W" by (rule finite_subset [OF sub]) simp
  then have fin: "finite (ord ` W)" by simp
  have "W \<noteq> {}" using waits some by blast
  with fin have "Max (ord ` W) \<in> ord ` W" by (intro Max_in) auto
  then obtain m where m: "m \<in> W" "ord m = Max (ord ` W)" by auto
  then obtain i w k where i: "i \<in> holders ts" "snd (ts ! i) = Acq m w # k" unfolding W_def by blast
  then have "\<not> free m w ts" using waits [OF i(1)] by auto
  then obtain j u where j: "j < length ts" "(m, u) \<in> fst (ts ! j)" by (auto simp: free_def list_all_length case_prod_beta)
  then have "j \<in> holders ts" by auto
  from waits [OF this] j(2) obtain m' where m': "m' \<in> W" "ord m < ord m'" by fastforce
  then have "ord m' \<le> Max (ord ` W)" using fin by simp
  then show False using m(2) m'(2) by simp
qed

fun code_size :: "('m, 'v) code \<Rightarrow> nat" where
  "code_size (Seq a b) = 1 + code_size a + code_size b"
| "code_size (Or a b) = 1 + code_size a + code_size b"
| "code_size (Loop a) = 1 + code_size a"
| "code_size c = 1"

text \<open>A step with the loops left: other goroutines stay as they are, the goroutine's own work gets less.\<close>

lemma exec_effect:
  assumes "exec i b ts = Some ts'"
  shows "i < length ts" "length ts \<le> length ts'" "j < length ts \<Longrightarrow> j \<noteq> i \<Longrightarrow> ts' ! j = ts ! j"
    "length ts \<le> j \<Longrightarrow> j < length ts' \<Longrightarrow> fst (ts' ! j) = {}"
    "\<not> b \<Longrightarrow> sum_list (map code_size (snd (ts' ! i))) < sum_list (map code_size (snd (ts ! i)))"
proof -
  have i: "i < length ts" using assms by (simp add: exec_def split: if_splits)
  obtain H k where t: "ts ! i = (H, k)" by (cases "ts ! i")
  note assms' = assms [unfolded exec_def t]
  obtain c k' where k: "k = c # k'" using assms' i by (cases k) auto
  show "i < length ts" by (rule i)
  show "length ts \<le> length ts'" "j < length ts \<Longrightarrow> j \<noteq> i \<Longrightarrow> ts' ! j = ts ! j"
    "length ts \<le> j \<Longrightarrow> j < length ts' \<Longrightarrow> fst (ts' ! j) = {}"
    "\<not> b \<Longrightarrow> sum_list (map code_size (snd (ts' ! i))) < sum_list (map code_size (snd (ts ! i)))"
    using assms' i k by (cases c; auto simp: nth_append t split: if_splits)+
qed

definition held_work :: "('m, 'v) thread list \<Rightarrow> nat" where
  "held_work ts = (\<Sum>i \<in> holders ts. sum_list (map code_size (snd (ts ! i))))"

lemma held_work_less:
  assumes "exec i False ts = Some ts'" "i \<in> holders ts" shows "held_work ts' < held_work ts"
proof -
  let ?f = "\<lambda>ts i. sum_list (map code_size (snd (ts ! i)))"
  note E = exec_effect [OF assms(1)]
  have sub: "holders ts' \<subseteq> holders ts"
  proof
    fix j assume j: "j \<in> holders ts'"
    then have "j < length ts" using E(4) [of j] by force
    then show "j \<in> holders ts" using j E(3) [of j] assms(2) by (cases "j = i") auto
  qed
  have "held_work ts' \<le> (\<Sum>j \<in> holders ts. ?f ts' j)" unfolding held_work_def using sub by (intro sum_mono2) auto
  also have "\<dots> = ?f ts' i + (\<Sum>j \<in> holders ts - {i}. ?f ts j)"
    using assms(2) E(3) by (subst sum.remove [of _ i]) (auto intro!: sum.cong)
  also have "\<dots> < ?f ts i + (\<Sum>j \<in> holders ts - {i}. ?f ts j)" using E(5) by simp
  also have "\<dots> = held_work ts" unfolding held_work_def using assms(2) by (subst (2) sum.remove [of _ i]) auto
  finally show ?thesis .
qed

text \<open>The holders can go on until no mutex is held; the others stay where they are meanwhile.\<close>

lemma all_released:
  assumes "disciplined ord guard ts"
  shows "\<exists>ts'. conc_step\<^sup>*\<^sup>* ts ts' \<and> holders ts' = {} \<and> disciplined ord guard ts' \<and> length ts \<le> length ts' \<and>
    (\<forall>i < length ts. i \<notin> holders ts \<longrightarrow> ts' ! i = ts ! i)"
  using assms
proof (induction "held_work ts" arbitrary: ts rule: less_induct)
  case less
  show ?case
  proof (cases "holders ts = {}")
    case True
    then show ?thesis using less.prems by blast
  next
    case False
    then obtain i t where i: "i \<in> holders ts" "exec i False ts = Some t" using holder_progress [OF less.prems] by blast
    note E = exec_effect [OF i(2)]
    obtain ts' where ts': "conc_step\<^sup>*\<^sup>* t ts'" "holders ts' = {}" "disciplined ord guard ts'" "length t \<le> length ts'"
      "\<forall>j < length t. j \<notin> holders t \<longrightarrow> ts' ! j = t ! j"
      using less.hyps [OF held_work_less [OF i(2,1)] disciplined_step [OF less.prems i(2)]] by blast
    have "ts' ! j = ts ! j" if j: "j < length ts" "j \<notin> holders ts" for j
    proof -
      have "j \<noteq> i" using i(1) j(2) by blast
      then have "t ! j = ts ! j" using E(3) j(1) by blast
      then show ?thesis using ts'(5) E(2) j by auto
    qed
    moreover have "conc_step\<^sup>*\<^sup>* ts ts'" using ts'(1) i(2) conc_step.intros by (metis converse_rtranclp_into_rtranclp)
    moreover have "length ts \<le> length ts'" using ts'(4) E(2) by simp
    ultimately show ?thesis using ts'(2,3) by (intro exI [of _ ts']) simp
  qed
qed

text \<open>A goroutine whose turn came in a run was able to take it when it did.\<close>

lemma moved_could:
  assumes "conc_step\<^sup>*\<^sup>* ts ts'" "i < length ts" "ts' ! i \<noteq> ts ! i"
  shows "\<exists>t b. conc_step\<^sup>*\<^sup>* ts t \<and> t ! i = ts ! i \<and> exec i b t \<noteq> None"
  using assms
proof (induction rule: converse_rtranclp_induct)
  case (step ts t)
  from step.hyps(1) obtain j b where j: "exec j b ts = Some t" by cases
  show ?case
  proof (cases "j = i")
    case True
    then show ?thesis using j by auto
  next
    case False
    then have "t ! i = ts ! i" "i < length t" using exec_effect(2,3) [OF j] step.prems(1) by auto
    then show ?thesis using step.IH step.prems(2) step.hyps(1) by (metis converse_rtranclp_into_rtranclp)
  qed
qed simp

lemma disciplined_never_stuck:
  assumes d: "disciplined ord guard ts" and i: "i < length ts" "snd (ts ! i) \<noteq> []"
  shows "\<exists>t b. conc_step\<^sup>*\<^sup>* ts t \<and> t ! i = ts ! i \<and> exec i b t \<noteq> None"
proof -
  obtain t where t: "conc_step\<^sup>*\<^sup>* ts t" "holders t = {}" "disciplined ord guard t" "length ts \<le> length t"
    using all_released [OF d] by blast
  show ?thesis
  proof (cases "t ! i = ts ! i")
    case True
    have "exec i True t \<noteq> None"
    proof
      assume "exec i True t = None"
      moreover have "i < length t" "snd (t ! i) \<noteq> []" using i t(4) True by simp_all
      ultimately obtain m w where "\<not> free m w t" using stuck_waits [OF t(3)] by metis
      then show False using t(2) unfolding free_def list_all_length by (force split: prod.splits)
    qed
    then show ?thesis using t(1) True by blast
  next
    case False
    then show ?thesis using moved_could [OF t(1) i(1)] by blast
  qed
qed

locale lock_discipline =
  fixes ord :: "'m \<Rightarrow> nat" and guard :: "'v \<Rightarrow> bool \<Rightarrow> 'm option" and program :: "('m, 'v) code"
  assumes follows: "check ord guard {} program = Some {}"
begin

sublocale run: invariant_system "\<lambda>ts. ts = starts program" conc_step "disciplined ord guard"
proof unfold_locales
  fix s assume "s = starts program"
  then show "disciplined ord guard s" using follows by (simp add: disciplined_def exclusive_def)
next
  fix s t :: "('m, 'v) thread list" assume d: "disciplined ord guard s" and "conc_step s t"
  from this(2) show "disciplined ord guard t" by cases (rule disciplined_step [OF d])
qed

lemma reached: "reaches program ts \<Longrightarrow> disciplined ord guard ts"
  using run.reachable_inv unfolding reaches_def by blast

lemma race_free:
  assumes "guard v w = Some m" "guard v u = Some m" "w \<or> u" shows "\<not> races program v w u"
proof -
  have "\<not> meet v w u ts" if "reaches program ts" for ts by (rule disciplined_apart [OF reached [OF that] assms])
  then show ?thesis by (auto simp: races_def)
qed

text \<open>No goroutine waits for a mutex in vain: from every state the others can go on until its turn has come.\<close>

lemma never_stuck:
  "reaches program ts \<Longrightarrow> i < length ts \<Longrightarrow> snd (ts ! i) \<noteq> [] \<Longrightarrow>
    \<exists>t b. conc_step\<^sup>*\<^sup>* ts t \<and> t ! i = ts ! i \<and> exec i b t \<noteq> None"
  by (rule disciplined_never_stuck [OF reached])

end

section \<open>Variables of one goroutine\<close>

text \<open>
  Whether code does an access of \<open>Q\<close> itself, and a bound on the number of goroutines doing so that it starts;
  2 is any number.
\<close>

fun direct :: "('v \<Rightarrow> bool \<Rightarrow> bool) \<Rightarrow> ('m, 'v) code \<Rightarrow> bool" where
  "direct Q (Rd v) = Q v False"
| "direct Q (Wr v) = Q v True"
| "direct Q (Seq a b) = (direct Q a \<or> direct Q b)"
| "direct Q (Or a b) = (direct Q a \<or> direct Q b)"
| "direct Q (Loop a) = direct Q a"
| "direct Q c = False"

fun born :: "('v \<Rightarrow> bool \<Rightarrow> bool) \<Rightarrow> ('m, 'v) code \<Rightarrow> nat" where
  "born Q (Go c) = (if direct Q c then 1 else 0) + born Q c"
| "born Q (Seq a b) = born Q a + born Q b"
| "born Q (Or a b) = max (born Q a) (born Q b)"
| "born Q (Loop a) = (if born Q a = 0 then 0 else 2)"
| "born Q c = 0"

definition weight :: "('v \<Rightarrow> bool \<Rightarrow> bool) \<Rightarrow> ('m, 'v) code list \<Rightarrow> nat" where
  "weight Q k = (if list_ex (direct Q) k then 1 else 0) + sum_list (map (born Q) k)"

definition owners :: "('v \<Rightarrow> bool \<Rightarrow> bool) \<Rightarrow> ('m, 'v) thread list \<Rightarrow> nat" where
  "owners Q ts = (\<Sum>t \<leftarrow> ts. weight Q (snd t))"

lemma owners_update:
  assumes "i < length ts" shows "owners Q (ts[i := (H, k)]) + weight Q (snd (ts ! i)) = owners Q ts + weight Q k"
proof -
  have "owners Q ts = (\<Sum>t \<leftarrow> take i ts. weight Q (snd t)) + weight Q (snd (ts ! i)) + (\<Sum>t \<leftarrow> drop (Suc i) ts. weight Q (snd t))"
    unfolding owners_def by (subst id_take_nth_drop [OF assms]) simp
  then show ?thesis using assms by (simp add: owners_def upd_conv_take_nth_drop)
qed

lemma weight_le_owners: "i < length ts \<Longrightarrow> weight Q (snd (ts ! i)) \<le> owners Q ts"
  using elem_le_sum_list [of i "map (\<lambda>t. weight Q (snd t)) ts"] by (simp add: owners_def)

lemma weight_steps:
  "weight Q k \<le> weight Q (c # k)" "weight Q (a # a' # k) = weight Q (Seq a a' # k)"
  "weight Q (a # k) \<le> weight Q (Or a a' # k)" "weight Q (a' # k) \<le> weight Q (Or a a' # k)"
  "weight Q (Loop a # k) \<le> Suc 0 \<Longrightarrow> weight Q (a # Loop a # k) \<le> weight Q (Loop a # k)"
  by (auto simp: weight_def split: if_splits)

text \<open>At most one owner at the start, at most one ever; none at the start, none ever.\<close>

lemma owners_step:
  assumes step: "exec i b ts = Some ts'" and one: "owners Q ts \<le> n" "n \<le> 1"
  shows "owners Q ts' \<le> n"
proof -
  have i: "i < length ts" using step by (simp add: exec_def split: if_splits)
  obtain H k where t: "ts ! i = (H, k)" by (cases "ts ! i")
  note step' = step [unfolded exec_def t]
  obtain c k' where k: "k = c # k'" using step' i by (cases k) auto
  have upd: "weight Q k'' \<le> weight Q (c # k') \<Longrightarrow> owners Q (ts[i := (H', k'')]) \<le> n" for H' k''
    using owners_update [OF i, of Q H' k''] one t k by simp
  have le: "weight Q k \<le> 1" using weight_le_owners [OF i, of Q] one t by simp
  show ?thesis
  proof (cases c)
    case (Go a)
    have "weight Q k = weight Q k' + weight Q [a]" by (simp add: weight_def k Go)
    then have "owners Q (ts[i := (H, k')]) + weight Q [a] \<le> n"
      using owners_update [OF i, of Q H k'] one t by simp
    moreover have "ts' = ts[i := (H, k')] @ [({}, [a])]" using step' i k Go by simp
    ultimately show ?thesis by (simp add: owners_def)
  qed (use step' i k le in \<open>auto intro!: upd intro: weight_steps simp: weight_steps(2) split: if_splits\<close>)
qed

lemma pending_weight: "pending t = Some (v, w) \<Longrightarrow> Q v w \<Longrightarrow> 0 < weight Q (snd t)"
  by (cases t rule: pending.cases) (auto simp: weight_def)

lemma owners_apart:
  assumes "owners Q ts \<le> 1" "Q v w" "Q v u" shows "\<not> meet v w u ts"
proof
  assume "meet v w u ts"
  then obtain i j where ij: "i < length ts" "j < length ts" "i \<noteq> j" "pending (ts ! i) = Some (v, w)" "pending (ts ! j) = Some (v, u)"
    unfolding meet_def by blast
  let ?w = "\<lambda>n. weight Q (snd (ts ! n))"
  have "0 < ?w i" "0 < ?w j" using pending_weight [OF ij(4)] pending_weight [OF ij(5)] assms(2,3) by simp_all
  moreover have "?w i + ?w j \<le> owners Q ts"
    using weight_le_owners [of j "ts[i := ({}, [])]" Q] owners_update [OF ij(1), of Q "{}" "[]"] ij
    by (simp add: weight_def)
  ultimately show False using assms(1) by simp
qed

locale single_owner =
  fixes Q :: "'v \<Rightarrow> bool \<Rightarrow> bool" and program :: "('m, 'v) code"
  assumes one: "owners Q (starts program) \<le> 1"
begin

sublocale run: invariant_system "\<lambda>ts. ts = starts program" conc_step "\<lambda>ts. owners Q ts \<le> 1"
proof unfold_locales
  fix s t :: "('m, 'v) thread list" assume d: "owners Q s \<le> 1" and "conc_step s t"
  from this(2) show "owners Q t \<le> 1" by cases (rule owners_step [OF _ d order.refl])
qed (use one in simp)

lemma owned: assumes "Q v w" "Q v u" shows "\<not> races program v w u"
proof -
  have "\<not> meet v w u ts" if "reaches program ts" for ts
    using owners_apart [OF run.reachable_inv [OF refl] assms] that unfolding reaches_def by blast
  then show ?thesis by (auto simp: races_def)
qed

end

text \<open>An access no goroutine does cannot race.\<close>

lemma unused_apart:
  assumes "owners Q (starts c) = 0" "Q v w" shows "\<not> races c v w u"
proof -
  have "owners Q ts \<le> 0" if "reaches c ts" for ts
    using that unfolding reaches_def
  proof (induction rule: rtranclp_induct)
    case (step t t')
    from step.hyps(2) show ?case by cases (rule owners_step [OF _ step.IH], simp_all)
  qed (use assms(1) in simp)
  moreover have "0 < owners Q ts" if m: "meet v w u ts" for ts
  proof -
    obtain i where i: "i < length ts" "pending (ts ! i) = Some (v, w)" using m unfolding meet_def by blast
    have "0 < weight Q (snd (ts ! i))" using pending_weight i(2) assms(2) by metis
    then show ?thesis using weight_le_owners [OF i(1), of Q] by simp
  qed
  ultimately show ?thesis unfolding races_def by fastforce
qed

end
