(* ===== verification/Races.thy ===== *)
theory Races
  imports Goroutines
begin

text \<open>
  The shared memory of the three programs: for every function of internal/node, internal/tracker and
  internal/transport/webrtc that a goroutine runs, its accesses to the fields the goroutines share, its locking
  and the goroutines it starts, in the order of the source. The files, the database and channels are not shared
  memory in this sense. Functions that touch nothing shared are left out or are \<open>Skip\<close>.
\<close>

section \<open>The daemon\<close>

text \<open>
  The fields of Node. \<open>PeerFiles\<close> are the maps and slices inside peerChunkMap; \<open>ActivePeers d\<close> and \<open>DownloadMu d\<close> belong
  to the FileDownload object \<open>d\<close>, and \<open>ds\<close> are the objects of a run. Reading a length counts as a read, as does
  looking up the map whose element is then written.
\<close>

datatype node_field =
    NodeId
  | CliRouter
  | Channels
  | PeerConnections
  | PeerDataChannels
  | PeerChunkMap
  | PeerFiles
  | ActiveDownloads
  | PendingRequests
  | ActivePeers nat

datatype node_mutex = NodeMu | DownloadMu nat

type_synonym mem = "(node_mutex, node_field) code"

definition messageCLI_mem :: mem where
  "messageCLI_mem = Rd CliRouter"

text \<open>The lines of init and of handleDownloadSignal that put a chunk map of the daemon's own in place.\<close>

definition own_map_mem :: mem where
  "own_map_mem = locked NodeMu [Rd NodeId, Rd PeerChunkMap, maybe (seq [Rd NodeId, Wr PeerChunkMap]), Rd NodeId, Rd PeerChunkMap, Wr PeerFiles]"

definition init_mem :: mem where
  "init_mem = maybe (seq [Loop own_map_mem, locked NodeMu [Rd NodeId, Wr PeerChunkMap], Go (Loop Skip)])"

subsection \<open>peer.go, manager.go, chunk.go\<close>

definition sendIntroduction_mem :: mem where
  "sendIntroduction_mem = Rd PeerDataChannels"

definition FindEligiblePeers_mem :: mem where
  "FindEligiblePeers_mem = seq [Rd PeerChunkMap, Loop (seq [Rd PeerChunkMap, Rd PeerFiles])]"

definition requestOneMissingChunk_mem :: mem where
  "requestOneMissingChunk_mem = maybe (seq [FindEligiblePeers_mem,
     maybe (seq [Rd PeerDataChannels, maybe (Loop (Rd PeerDataChannels))])])"

definition downloadManager_mem :: "nat \<Rightarrow> mem" where
  "downloadManager_mem d = seq
     [Loop (maybe (locked (DownloadMu d) [Rd (ActivePeers d), maybe requestOneMissingChunk_mem])),
      locked NodeMu [Wr ActiveDownloads], messageCLI_mem]"

definition startFileDownload_mem :: "nat list \<Rightarrow> mem" where
  "startFileDownload_mem ds =
     Or (locked NodeMu [Rd ActiveDownloads])
        (seq [locked NodeMu [Rd ActiveDownloads, Wr ActiveDownloads], one_of ds (\<lambda>d. Go (downloadManager_mem d))])"

definition addPeerToDownload_mem :: "nat list \<Rightarrow> mem" where
  "addPeerToDownload_mem ds = seq [locked NodeMu [Rd ActiveDownloads],
     maybe (one_of ds (\<lambda>d. locked (DownloadMu d) [Wr (ActivePeers d)]))]"

definition removePeerFromDownloads_mem :: "nat list \<Rightarrow> mem" where
  "removePeerFromDownloads_mem ds = locked NodeMu [Rd ActiveDownloads, Loop (one_of ds (\<lambda>d. Wr (ActivePeers d)))]"

definition handleIntroduction_mem :: "nat list \<Rightarrow> mem" where
  "handleIntroduction_mem ds = seq
     [messageCLI_mem, Rd PeerChunkMap, Rd PeerFiles,
      Or (seq [sendIntroduction_mem, locked NodeMu [Wr PeerChunkMap, Rd PeerChunkMap, Wr PeerFiles]])
         (locked NodeMu [Rd PeerChunkMap, Wr PeerFiles]),
      addPeerToDownload_mem ds]"

definition handleChunkRequest_mem :: mem where
  "handleChunkRequest_mem = maybe (Rd PeerDataChannels)"

definition handleChunkResponse_mem :: mem where
  "handleChunkResponse_mem = seq [messageCLI_mem, messageCLI_mem,
     maybe (locked NodeMu [Rd NodeId, Rd PeerChunkMap, Rd PeerFiles, Wr PeerFiles])]"

subsection \<open>webrtc.go\<close>

definition webrtcMessageHandler_mem :: "nat list \<Rightarrow> mem" where
  "webrtcMessageHandler_mem ds =
     maybe (Or (handleIntroduction_mem ds) (Or handleChunkRequest_mem handleChunkResponse_mem))"

definition OnOpen_mem :: "bool \<Rightarrow> mem" where
  "OnOpen_mem isInitiator = (if isInitiator then maybe sendIntroduction_mem else Skip)"

definition OnClose_mem :: "nat list \<Rightarrow> mem" where
  "OnClose_mem ds = seq [locked NodeMu [Wr PeerDataChannels], removePeerFromDownloads_mem ds]"

definition setupDataChannel_mem :: "nat list \<Rightarrow> bool \<Rightarrow> mem" where
  "setupDataChannel_mem ds isInitiator = seq [locked NodeMu [Wr PeerDataChannels], callback (OnOpen_mem isInitiator),
     callback (webrtcMessageHandler_mem ds), callback (OnClose_mem ds)]"

definition OnConnectionStateChange_mem :: "nat list \<Rightarrow> mem" where
  "OnConnectionStateChange_mem ds = maybe (seq [locked NodeMu [Wr PeerConnections], removePeerFromDownloads_mem ds])"

definition handleWebRTCConnection_mem :: "nat list \<Rightarrow> bool \<Rightarrow> mem" where
  "handleWebRTCConnection_mem ds isInitiator = maybe (seq
     [locked NodeMu [Wr PeerConnections], callback (OnConnectionStateChange_mem ds),
      (if isInitiator then maybe (setupDataChannel_mem ds isInitiator) else callback (setupDataChannel_mem ds isInitiator))])"

subsection \<open>tracker.go, download.go, ipc.go, node.go\<close>

text \<open>The cases of the select of handleTrackerMsgs.\<close>

definition handleTrackerMsgs_mem :: "nat list \<Rightarrow> mem" where
  "handleTrackerMsgs_mem ds = Loop
     (Or (seq [Rd PeerConnections, maybe (seq [handleWebRTCConnection_mem ds False, maybe (Rd PeerConnections)])])
     (Or (Rd PendingRequests)
         (seq [Wr NodeId, Rd NodeId])))"

definition handleDownloadSignal_mem :: "nat list \<Rightarrow> mem" where
  "handleDownloadSignal_mem ds = maybe (seq [messageCLI_mem, own_map_mem, maybe (seq [maybe own_map_mem, maybe (seq
     [Rd PendingRequests, maybe (Wr PendingRequests),
      maybe (seq
        [Loop (seq [Rd PeerConnections,
           Or sendIntroduction_mem (seq [handleWebRTCConnection_mem ds True, maybe (Rd PeerConnections)])]),
         startFileDownload_mem ds])])])])"

text \<open>A registration touches no shared field.\<close>

definition handleCLIMsgs_mem :: "nat list \<Rightarrow> mem" where
  "handleCLIMsgs_mem ds = Loop (Or (handleDownloadSignal_mem ds) Skip)"

definition startIPCServer_mem :: "nat list \<Rightarrow> mem" where
  "startIPCServer_mem ds = Loop (maybe (seq [Wr Channels, Wr CliRouter, Go (Loop Skip), Go (handleCLIMsgs_mem ds)]))"

definition Start_mem :: "nat list \<Rightarrow> mem" where
  "Start_mem ds = seq [Go (startIPCServer_mem ds), Go (handleTrackerMsgs_mem ds), init_mem]"

lemmas daemon_mem = Start_mem_def startIPCServer_mem_def handleCLIMsgs_mem_def handleDownloadSignal_mem_def
  handleTrackerMsgs_mem_def handleWebRTCConnection_mem_def OnConnectionStateChange_mem_def setupDataChannel_mem_def
  OnClose_mem_def OnOpen_mem_def webrtcMessageHandler_mem_def handleChunkResponse_mem_def handleChunkRequest_mem_def
  handleIntroduction_mem_def removePeerFromDownloads_mem_def addPeerToDownload_mem_def startFileDownload_mem_def
  downloadManager_mem_def requestOneMissingChunk_mem_def FindEligiblePeers_mem_def sendIntroduction_mem_def
  init_mem_def own_map_mem_def messageCLI_mem_def

lemmas code_forms = seq_def maybe_def locked_def callback_def

section \<open>What the mutex of Node protects\<close>

fun node_order :: "node_mutex \<Rightarrow> nat" where
  "node_order NodeMu = 0"
| "node_order (DownloadMu d) = 0"

text \<open>Reads and writes of the fields in the first lines, only writes of those in the next, are under the node's mutex.\<close>

fun node_guard :: "node_field \<Rightarrow> bool \<Rightarrow> node_mutex option" where
  "node_guard ActiveDownloads w = Some NodeMu"
| "node_guard PeerConnections w = (if w then Some NodeMu else None)"
| "node_guard PeerDataChannels w = (if w then Some NodeMu else None)"
| "node_guard PeerChunkMap w = (if w then Some NodeMu else None)"
| "node_guard PeerFiles w = (if w then Some NodeMu else None)"
| "node_guard v w = None"

lemma check_one_of:
  assumes "\<And>x. check ord guard H (f x) = Some H" shows "check ord guard H (one_of xs f) = Some H"
  using assms by (induction xs) (simp_all add: one_of_def)

text \<open>Every function keeps the discipline, from the inside out.\<close>

abbreviation node_ok :: "mem \<Rightarrow> bool" where
  "node_ok c \<equiv> check node_order node_guard {} c = Some {}"

lemma reads_check:
  "check node_order node_guard H messageCLI_mem = Some H" "check node_order node_guard H sendIntroduction_mem = Some H"
  "check node_order node_guard H requestOneMissingChunk_mem = Some H" "check node_order node_guard H handleChunkRequest_mem = Some H"
  "check node_order node_guard H (OnOpen_mem b) = Some H"
  by (simp_all add: messageCLI_mem_def sendIntroduction_mem_def requestOneMissingChunk_mem_def FindEligiblePeers_mem_def
      handleChunkRequest_mem_def OnOpen_mem_def code_forms)

lemma own_map_ok: "node_ok own_map_mem" and init_ok: "node_ok init_mem"
proof -
  show own: "node_ok own_map_mem" by (simp add: own_map_mem_def code_forms)
  show "node_ok init_mem" by (simp add: init_mem_def code_forms own)
qed

lemma downloads_ok: "node_ok (downloadManager_mem d)" "node_ok (startFileDownload_mem ds)"
  "node_ok (addPeerToDownload_mem ds)" "node_ok (removePeerFromDownloads_mem ds)"
proof -
  show m: "node_ok (downloadManager_mem d)" for d by (simp add: downloadManager_mem_def code_forms reads_check)
  show "node_ok (startFileDownload_mem ds)" by (simp add: startFileDownload_mem_def code_forms m check_one_of)
  show "node_ok (addPeerToDownload_mem ds)" by (simp add: addPeerToDownload_mem_def code_forms check_one_of)
  show "node_ok (removePeerFromDownloads_mem ds)" by (simp add: removePeerFromDownloads_mem_def code_forms check_one_of)
qed

lemma messages_ok: "node_ok (webrtcMessageHandler_mem ds)" "node_ok (OnClose_mem ds)" "node_ok (OnConnectionStateChange_mem ds)"
proof -
  have "node_ok (handleIntroduction_mem ds)" by (simp add: handleIntroduction_mem_def code_forms reads_check downloads_ok)
  moreover have "node_ok handleChunkResponse_mem" by (simp add: handleChunkResponse_mem_def code_forms reads_check)
  ultimately show "node_ok (webrtcMessageHandler_mem ds)" by (simp add: webrtcMessageHandler_mem_def code_forms reads_check)
  show "node_ok (OnClose_mem ds)" by (simp add: OnClose_mem_def code_forms downloads_ok)
  show "node_ok (OnConnectionStateChange_mem ds)" by (simp add: OnConnectionStateChange_mem_def code_forms downloads_ok)
qed

lemma connections_ok: "node_ok (handleWebRTCConnection_mem ds b)"
proof -
  have "node_ok (setupDataChannel_mem ds x)" for x by (simp add: setupDataChannel_mem_def code_forms messages_ok reads_check)
  then show ?thesis by (simp add: handleWebRTCConnection_mem_def code_forms messages_ok)
qed

lemma goroutines_ok: "node_ok (startIPCServer_mem ds)" "node_ok (handleTrackerMsgs_mem ds)"
proof -
  have "node_ok (handleDownloadSignal_mem ds)"
    by (simp add: handleDownloadSignal_mem_def maybe_def seq_def reads_check own_map_ok connections_ok downloads_ok)
  then have "node_ok (handleCLIMsgs_mem ds)" by (simp add: handleCLIMsgs_mem_def)
  then show "node_ok (startIPCServer_mem ds)" by (simp add: startIPCServer_mem_def code_forms)
  show "node_ok (handleTrackerMsgs_mem ds)" by (simp add: handleTrackerMsgs_mem_def code_forms connections_ok)
qed

interpretation daemon_locks: lock_discipline node_order node_guard "Start_mem ds" for ds
  by unfold_locales (simp add: Start_mem_def seq_def goroutines_ok init_ok)

section \<open>What only one goroutine writes\<close>

definition access :: "node_field \<Rightarrow> bool \<Rightarrow> node_field \<Rightarrow> bool \<Rightarrow> bool" where
  "access x b v w \<longleftrightarrow> v = x \<and> w = b"

text \<open>Code that does no access of a set and starts no goroutine that does.\<close>

definition silent :: "(node_field \<times> bool) set \<Rightarrow> mem \<Rightarrow> bool" where
  "silent X c \<longleftrightarrow> (\<forall>(x, b) \<in> X. \<not> direct (access x b) c \<and> born (access x b) c = 0)"

lemma silent_access: "silent X (Rd v) \<longleftrightarrow> (v, False) \<notin> X" "silent X (Wr v) \<longleftrightarrow> (v, True) \<notin> X"
  by (auto simp: silent_def access_def) (metis (full_types))+

lemma silent_simps:
  "silent X (Acq m w)" "silent X (Rel m w)" "silent X (Rd v) \<longleftrightarrow> (v, False) \<notin> X" "silent X (Wr v) \<longleftrightarrow> (v, True) \<notin> X" "silent X Skip"
  "silent X (Go c) \<longleftrightarrow> silent X c" "silent X (Seq a b) \<longleftrightarrow> silent X a \<and> silent X b"
  "silent X (Or a b) \<longleftrightarrow> silent X a \<and> silent X b" "silent X (Loop a) \<longleftrightarrow> silent X a"
  unfolding silent_access by (auto simp: silent_def split: if_splits)

lemma silent_one_of: "(\<And>x. silent X (f x)) \<Longrightarrow> silent X (one_of xs f)"
  by (induction xs) (simp_all add: one_of_def silent_simps)

definition single_fields :: "(node_field \<times> bool) set" where
  "single_fields = {(Channels, True), (Channels, False), (CliRouter, True), (NodeId, True)}"

lemma single_fields_iff: "(v, w) \<in> single_fields \<longleftrightarrow> v = Channels \<or> v = CliRouter \<and> w \<or> v = NodeId \<and> w"
  by (auto simp: single_fields_def)

lemma silent_messages: "silent single_fields (webrtcMessageHandler_mem ds)" "silent single_fields (OnClose_mem ds)"
  "silent single_fields (OnConnectionStateChange_mem ds)" "silent single_fields (OnOpen_mem b)"
  by (simp_all add: webrtcMessageHandler_mem_def handleIntroduction_mem_def handleChunkRequest_mem_def handleChunkResponse_mem_def
      OnClose_mem_def OnConnectionStateChange_mem_def OnOpen_mem_def addPeerToDownload_mem_def removePeerFromDownloads_mem_def
      sendIntroduction_mem_def messageCLI_mem_def code_forms silent_simps silent_one_of single_fields_iff)

lemma silent_connection: "silent single_fields (handleWebRTCConnection_mem ds b)"
  by (simp add: handleWebRTCConnection_mem_def setupDataChannel_mem_def code_forms silent_simps silent_messages single_fields_iff)

lemma silent_download: "silent single_fields (handleDownloadSignal_mem ds)" "silent single_fields init_mem"
  by (simp_all add: handleDownloadSignal_mem_def startFileDownload_mem_def downloadManager_mem_def init_mem_def own_map_mem_def
      requestOneMissingChunk_mem_def FindEligiblePeers_mem_def sendIntroduction_mem_def messageCLI_mem_def code_forms
      silent_simps silent_one_of silent_connection single_fields_iff)

lemma silent_parts:
  assumes "(x, b) \<in> single_fields"
  shows "\<not> direct (access x b) (handleWebRTCConnection_mem ds c)" "born (access x b) (handleWebRTCConnection_mem ds c) = 0"
    "\<not> direct (access x b) (handleDownloadSignal_mem ds)" "born (access x b) (handleDownloadSignal_mem ds) = 0"
    "\<not> direct (access x b) init_mem" "born (access x b) init_mem = 0"
  using silent_connection [of ds c] silent_download(1) [of ds] silent_download(2) assms unfolding silent_def by blast+

lemma one_writer:
  "owners (access NodeId True) (starts (Start_mem ds)) = 1" "owners (access CliRouter True) (starts (Start_mem ds)) = 1"
  "owners (access Channels True) (starts (Start_mem ds)) = 1" "owners (access Channels False) (starts (Start_mem ds)) = 0"
  by (simp_all add: owners_def weight_def Start_mem_def startIPCServer_mem_def handleTrackerMsgs_mem_def handleCLIMsgs_mem_def
      seq_def maybe_def access_def silent_parts single_fields_iff)

interpretation id_writer: single_owner "access NodeId True" "Start_mem ds" for ds
  by unfold_locales (simp add: one_writer)

interpretation channels_writer: single_owner "access Channels True" "Start_mem ds" for ds
  by unfold_locales (simp add: one_writer)

interpretation cli_router_writer: single_owner "access CliRouter True" "Start_mem ds" for ds
  by unfold_locales (simp add: one_writer)

section \<open>Exactly which fields race\<close>

definition read_write :: "(bool \<times> bool) set" where
  "read_write = {(True, False), (False, True)}"

text \<open>
  The fields that one goroutine reads while another writes them; and those that two goroutines may write at once:
  the pending requests of two CLI connections, and the active peers of a download, which are added under the
  download's mutex and removed under the node's.
\<close>

definition daemon_races :: "nat list \<Rightarrow> (node_field \<times> bool \<times> bool) set" where
  "daemon_races ds =
     {NodeId, CliRouter, PeerConnections, PeerDataChannels, PeerChunkMap, PeerFiles} \<times> read_write \<union>
     insert PendingRequests (ActivePeers ` set ds) \<times> insert (True, True) read_write"

definition tour :: "((nat \<times> bool) list \<times> node_field \<times> bool \<times> bool \<times> nat \<times> nat) list" where
  "tour =
     [(along 0 11 [] @ along 2 4 [1, 2], NodeId, False, True, 0, 2),
      (along 1 10 [] @ along 4 4 [] @ along 1 6 [], CliRouter, False, True, 4, 1),
      (along 1 5 [] @ along 0 14 [4] @ along 4 31 [9, 23] @ along 2 7 [5], PendingRequests, False, True, 2,
        4),
      (along 6 35 [13, 27], PendingRequests, True, True, 4, 6),
      (along 4 6 [] @ along 2 13 [], PeerConnections, False, True, 4, 2),
      (along 2 3 [] @ along 4 54 [2, 38, 40] @ along 9 2 [] @ along 10 2 [] @ along 13 4 [] @ along 12 4
        [1], PeerDataChannels, False, True, 12, 13),
      (along 13 12 [] @ along 11 6 [], ActivePeers 0, False, True, 11, 13),
      (along 13 4 [1] @ along 9 2 [] @ along 11 6 [] @ along 14 16 [], PeerChunkMap, False, True, 11, 14),
      (along 14 4 [] @ along 11 6 [], PeerFiles, False, True, 11, 14),
      (along 11 10 [2, 5] @ along 14 3 [] @ along 10 2 [] @ along 14 17 [] @ along 15 16 [], ActivePeers 0,
        True, True, 14, 15)]"

lemma tour_meets: "(\<lambda>(s, v, w, u, i, j). (v, w, u)) ` set tour =
  {(NodeId, False, True), (CliRouter, False, True), (PendingRequests, False, True), (PendingRequests, True, True),
   (PeerConnections, False, True), (PeerDataChannels, False, True), (ActivePeers 0, False, True), (PeerChunkMap, False, True),
   (PeerFiles, False, True), (ActivePeers 0, True, True)}"
  by (simp add: tour_def)

lemma tour_visits: "visits tour (starts (Start_mem [0]))"
  by code_simp

lemma tour_races: "(v, w, u) \<in> (\<lambda>(s, v, w, u, i, j). (v, w, u)) ` set tour \<Longrightarrow> races (Start_mem [0]) v w u"
  using visits_races [OF tour_visits, of "Start_mem [0]"] by (auto simp: reaches_def)

lemma daemon_races_happen:
  assumes "(v, w, u) \<in> daemon_races [0]" shows "races (Start_mem [0]) v w u"
proof -
  have rw: "races (Start_mem [0]) x False True \<and> races (Start_mem [0]) x True False"
    if "x \<in> {NodeId, CliRouter, PeerConnections, PeerDataChannels, PeerChunkMap, PeerFiles, PendingRequests, ActivePeers 0}" for x
  proof -
    have "races (Start_mem [0]) x False True" by (rule tour_races) (use that in \<open>auto simp: tour_meets\<close>)
    then show ?thesis by (simp add: races_sym)
  qed
  have "races (Start_mem [0]) PendingRequests True True" "races (Start_mem [0]) (ActivePeers 0) True True"
    by (rule tour_races, simp add: tour_meets)+
  then show ?thesis using assms rw [of v] by (auto simp: daemon_races_def read_write_def)
qed

text \<open>No other object's active peers are written.\<close>

lemma unwritten_one_of:
  assumes "d \<notin> set ds" "\<And>x. x \<noteq> d \<Longrightarrow> silent {(ActivePeers d, b)} (f x)" shows "silent {(ActivePeers d, b)} (one_of ds f)"
  using assms by (induction ds) (auto simp: one_of_def silent_simps)

lemma unwritten:
  assumes "d \<notin> set ds" shows "owners (access (ActivePeers d) True) (starts (Start_mem ds)) = 0"
proof -
  have "silent {(ActivePeers d, True)} (Start_mem ds)"
    using assms by (simp add: daemon_mem code_forms silent_simps unwritten_one_of)
  then show ?thesis by (simp add: silent_def owners_def weight_def)
qed

text \<open>C9: which fields of a daemon race. In no run, with any number of downloads, callbacks and CLI connections, do two
  goroutines meet at a field otherwise than listed in \<open>daemon_races\<close>; and already with a single download every
  meeting listed there happens. So activeDownloads and channels never race and the writes of the four other
  maps never meet each other, but six fields are read without the lock their writers hold, and the pending
  requests and the active peers of a download can be written by two goroutines at once.\<close>

theorem daemon_races_exactly:
  "{(v, w, u). (w \<or> u) \<and> races (Start_mem ds) v w u} \<subseteq> daemon_races ds \<and>
   {(v, w, u). (w \<or> u) \<and> races (Start_mem [0]) v w u} = daemon_races [0]"
proof -
  have only: "(v, w, u) \<in> daemon_races ds" if r: "w \<or> u" "races (Start_mem ds) v w u" for v w u ds
  proof -
    have r': "races (Start_mem ds) v u w" by (rule races_sym [OF r(2)])
    have guarded: "v \<noteq> ActiveDownloads" "w \<and> u \<Longrightarrow> v \<notin> {PeerConnections, PeerDataChannels, PeerChunkMap, PeerFiles}"
      using daemon_locks.race_free [of v w NodeMu u ds] r by auto
    have single: "w \<and> u \<Longrightarrow> v \<notin> {Channels, CliRouter, NodeId}"
      using id_writer.owned [of v w u ds] channels_writer.owned [of v w u ds] cli_router_writer.owned [of v w u ds] r(2)
      by (auto simp: access_def)
    have channels: "v = Channels \<Longrightarrow> w \<and> u"
      using unused_apart [OF one_writer(4), of Channels False] r(2) r' by (cases w; cases u) (auto simp: access_def)
    have peers: "v = ActivePeers d \<Longrightarrow> d \<in> set ds" for d
      using unused_apart [OF unwritten, of d ds "ActivePeers d" True] r r' by (cases w; cases u) (auto simp: access_def)
    show ?thesis using guarded single channels peers r(1)
      by (cases v; cases w; cases u) (auto simp: daemon_races_def read_write_def)
  qed
  have "w \<or> u" if "(v, w, u) \<in> daemon_races [0]" for v w u
    using that by (auto simp: daemon_races_def read_write_def)
  then have "{(v, w, u). (w \<or> u) \<and> races (Start_mem [0]) v w u} = daemon_races [0]"
    using only [where ds = "[0]"] daemon_races_happen by (intro equalityI subrelI) auto
  then show ?thesis using only by (intro conjI subrelI) auto
qed

end
