(* ===== verification/Locks.thy ===== *)
theory Locks
  imports Races
begin

text \<open>
  The shared memory of the tracker and of the transport, as Races has that of the daemon, and what the locking of
  all three is worth: the transport's two kinds of mutex protect what they are there for, the tracker has none, and
  no goroutine of any of them waits for a mutex in vain.
\<close>

section \<open>The tracker\<close>

datatype tracker_field = TrackerChannels | DaemonRouters

text \<open>handleDaemonMsgs: the early returns, then the select, left by the timeout or a goodbye.\<close>

definition handleDaemonMsgs_mem :: "('m, tracker_field) code" where
  "handleDaemonMsgs_mem = maybe (seq [Wr DaemonRouters, Rd TrackerChannels,
     maybe (seq [Loop (maybe (Rd DaemonRouters)), maybe (Wr DaemonRouters)])])"

definition tracker_Start_mem :: "('m, tracker_field) code" where
  "tracker_Start_mem = Loop (maybe (seq [Wr TrackerChannels, Go (Loop Skip), Go handleDaemonMsgs_mem]))"

text \<open>main of cmd/tracker.\<close>

definition tracker_main_mem :: "('m, tracker_field) code" where
  "tracker_main_mem = Go tracker_Start_mem"


text \<open>Two daemons connect at the same moment; the tracker accepts a third while one is served.\<close>

definition tracker_tour :: "((nat \<times> bool) list \<times> tracker_field \<times> bool \<times> bool \<times> nat \<times> nat) list" where
  "tracker_tour =
     [(along 0 1 [] @ along 1 17 [] @ along 3 2 [] @ along 5 2 [], DaemonRouters, True, True, 3, 5),
      (along 3 2 [] @ along 1 4 [], TrackerChannels, False, True, 3, 1),
      (along 3 6 [], DaemonRouters, False, True, 3, 5)]"

lemma tracker_visits: "visits tracker_tour (starts (tracker_main_mem :: (nat, tracker_field) code))"
  by code_simp

lemma tracker_meets: "(\<lambda>(s, v, w, u, i, j). (v, w, u)) ` set tracker_tour =
  {(DaemonRouters, True, True), (TrackerChannels, False, True), (DaemonRouters, False, True)}"
  by (simp add: tracker_tour_def)

lemma tracker_tour_races:
  "(v, w, u) \<in> (\<lambda>(s, v, w, u, i, j). (v, w, u)) ` set tracker_tour \<Longrightarrow> races (tracker_main_mem :: (nat, tracker_field) code) v w u"
  using visits_races [OF tracker_visits, of tracker_main_mem] by (auto simp: reaches_def)

text \<open>The channels are registered by the goroutine that accepts, and by no other.\<close>

interpretation accepting: single_owner "\<lambda>v w. v = TrackerChannels \<and> w" tracker_main_mem
  by unfold_locales (simp add: owners_def weight_def tracker_main_mem_def tracker_Start_mem_def handleDaemonMsgs_mem_def seq_def maybe_def)

text \<open>C22: the maps of the tracker have no mutex and race: exactly these meetings of two goroutines are possible.
  Two goroutines of handleDaemonMsgs can write DaemonRouters at once, as when two daemons connect together, and
  one can read it while another writes; a new connection can be registered in Channels while another goroutine
  looks up its own. Either way the Go runtime ends the tracker (concurrent map writes).\<close>

theorem tracker_races_exactly:
  "{(v, w, u). (w \<or> u) \<and> races (tracker_main_mem :: (nat, tracker_field) code) v w u} =
   {TrackerChannels} \<times> read_write \<union> {DaemonRouters} \<times> insert (True, True) read_write"
proof -
  have happen: "races (tracker_main_mem :: (nat, tracker_field) code) DaemonRouters True True"
    "races (tracker_main_mem :: (nat, tracker_field) code) TrackerChannels False True"
    "races (tracker_main_mem :: (nat, tracker_field) code) DaemonRouters False True"
    by (rule tracker_tour_races, simp add: tracker_meets)+
  have "\<not> races (tracker_main_mem :: (nat, tracker_field) code) TrackerChannels True True" by (rule accepting.owned) simp_all
  moreover have "races (tracker_main_mem :: (nat, tracker_field) code) TrackerChannels True False"
    "races (tracker_main_mem :: (nat, tracker_field) code) DaemonRouters True False"
    by (rule races_sym, rule happen)+
  ultimately have "(w \<or> u) \<and> races (tracker_main_mem :: (nat, tracker_field) code) v w u \<longleftrightarrow>
      (v, w, u) \<in> {TrackerChannels} \<times> read_write \<union> {DaemonRouters} \<times> insert (True, True) read_write" for v w u
    using happen by (cases v; cases w; cases u) (simp_all add: read_write_def)
  then show ?thesis by (intro equalityI subrelI) auto
qed

section \<open>The transport\<close>

text \<open>\<open>Dc c\<close>, \<open>OnOpenField c\<close> and \<open>ConnMu c\<close> belong to the connection object \<open>c\<close>, and \<open>cs\<close> are the objects of a run.\<close>

datatype transport_field = Connections | Dc nat | OnOpenField nat

datatype transport_mutex = TransportMu | ConnMu nat

type_synonym tmem = "(transport_mutex, transport_field) code"

definition read_locked :: "'m \<Rightarrow> ('m, 'v) code list \<Rightarrow> ('m, 'v) code" where
  "read_locked m cs = seq ([Acq m False] @ cs @ [Rel m False])"

definition conn_setupDataChannel_mem :: "nat \<Rightarrow> tmem" where
  "conn_setupDataChannel_mem c = seq [locked (ConnMu c) [Wr (Dc c)], callback (Rd (OnOpenField c)), callback Skip]"

definition newConnection_mem :: "nat \<Rightarrow> bool \<Rightarrow> tmem" where
  "newConnection_mem c isInitiator = seq [callback Skip, if isInitiator then Skip else callback (conn_setupDataChannel_mem c)]"

definition handleSignal_mem :: "nat \<Rightarrow> tmem" where
  "handleSignal_mem c = locked (ConnMu c) []"

definition Send_mem :: "nat \<Rightarrow> tmem" where
  "Send_mem c = locked (ConnMu c) [Rd (Dc c)]"

definition conn_Close_mem :: "nat \<Rightarrow> tmem" where
  "conn_Close_mem c = locked (ConnMu c) [Rd (Dc c)]"

definition Connect_mem :: "nat list \<Rightarrow> tmem" where
  "Connect_mem cs = maybe (one_of cs (\<lambda>c. seq [newConnection_mem c True, locked TransportMu [Wr Connections],
     maybe (conn_setupDataChannel_mem c)]))"

definition HandleSignal_mem :: "nat list \<Rightarrow> tmem" where
  "HandleSignal_mem cs = seq [read_locked TransportMu [Rd Connections],
     maybe (one_of cs (\<lambda>c. seq
       [maybe (seq [newConnection_mem c False, Wr (OnOpenField c), locked TransportMu [Wr Connections]]), handleSignal_mem c]))]"

definition transport_Close_mem :: "nat list \<Rightarrow> tmem" where
  "transport_Close_mem cs = locked TransportMu [Rd Connections, Loop (one_of cs conn_Close_mem), Wr Connections]"

text \<open>The users of a transport: any number of goroutines that call its methods and those of its connections.\<close>

definition transport_users :: "nat list \<Rightarrow> tmem" where
  "transport_users cs = callback (Or (Connect_mem cs) (Or (HandleSignal_mem cs) (Or (transport_Close_mem cs)
     (one_of cs (\<lambda>c. Or (Send_mem c) (conn_Close_mem c))))))"

fun transport_order :: "transport_mutex \<Rightarrow> nat" where
  "transport_order TransportMu = 0"
| "transport_order (ConnMu c) = 1"

fun transport_guard :: "transport_field \<Rightarrow> bool \<Rightarrow> transport_mutex option" where
  "transport_guard Connections w = Some TransportMu"
| "transport_guard (Dc c) w = Some (ConnMu c)"
| "transport_guard (OnOpenField c) w = None"

lemma connection_check:
  assumes "H \<subseteq> {TransportMu} \<times> UNIV"
  shows "check transport_order transport_guard H (conn_setupDataChannel_mem c) = Some H"
    "check transport_order transport_guard H (newConnection_mem c b) = Some H"
    "check transport_order transport_guard H (handleSignal_mem c) = Some H"
    "check transport_order transport_guard H (Send_mem c) = Some H"
    "check transport_order transport_guard H (conn_Close_mem c) = Some H"
proof -
  have o: "\<forall>x \<in> H. transport_order (fst x) < 1" "insert (ConnMu c, True) H - {(ConnMu c, True)} = H" using assms by auto
  have s: "check transport_order transport_guard H (conn_setupDataChannel_mem c) = Some H"
    if "H \<subseteq> {TransportMu} \<times> UNIV" for H
    using that by (auto simp: conn_setupDataChannel_mem_def code_forms)
  show "check transport_order transport_guard H (conn_setupDataChannel_mem c) = Some H" by (rule s [OF assms])
  show "check transport_order transport_guard H (newConnection_mem c b) = Some H"
    using s [of "{}"] by (simp add: newConnection_mem_def code_forms)
  show "check transport_order transport_guard H (handleSignal_mem c) = Some H"
    "check transport_order transport_guard H (Send_mem c) = Some H" "check transport_order transport_guard H (conn_Close_mem c) = Some H"
    using o by (auto simp: handleSignal_mem_def Send_mem_def conn_Close_mem_def code_forms)
qed

interpretation transport_locks: lock_discipline transport_order transport_guard "transport_users cs" for cs
proof unfold_locales
  let ?ok = "\<lambda>c. check transport_order transport_guard {} c = Some {}"
  have "?ok (Connect_mem cs)" by (simp add: Connect_mem_def code_forms check_one_of connection_check)
  moreover have "?ok (HandleSignal_mem cs)"
    by (simp add: HandleSignal_mem_def read_locked_def code_forms check_one_of connection_check)
  moreover have "?ok (transport_Close_mem cs)" by (simp add: transport_Close_mem_def code_forms check_one_of connection_check)
  moreover have "?ok (one_of cs (\<lambda>c. Or (Send_mem c) (conn_Close_mem c)))" by (rule check_one_of) (simp add: connection_check)
  ultimately show "?ok (transport_users cs)" by (simp add: transport_users_def callback_def)
qed

text \<open>C24: the mutexes of the transport protect its connections and the data channel of each connection: however
  many goroutines call its methods while the library calls back, no access to them meets a write. What is
  left is the field onOpen, set without a lock after the callbacks of the connection were registered.\<close>

theorem transport_fields_protected:
  "{(v, w, u). (w \<or> u) \<and> races (transport_users cs) v w u} \<subseteq> range OnOpenField \<times> UNIV"
proof -
  have "v \<in> range OnOpenField" if "w \<or> u" "races (transport_users cs) v w u" for v w u
    using that transport_locks.race_free [of v w _ u cs] by (cases v) auto
  then show ?thesis by auto
qed

section \<open>Waiting\<close>


text \<open>A download command waits for the mutex that init holds.\<close>

definition sample_wait :: "(node_mutex, node_field) thread list" where
  "sample_wait = the (run_sched (along 0 4 [] @ along 1 10 [] @ along 0 7 [] @ along 4 7 []) (starts (Start_mem [0])))"

lemma sample_wait: "run_sched (along 0 4 [] @ along 1 10 [] @ along 0 7 [] @ along 4 7 []) (starts (Start_mem [0])) = Some sample_wait"
  "4 < length sample_wait" "snd (sample_wait ! 4) \<noteq> []" "exec 4 True sample_wait = None"
proof -
  have "run_sched (along 0 4 [] @ along 1 10 [] @ along 0 7 [] @ along 4 7 []) (starts (Start_mem [0])) \<noteq> None" by code_simp
  then show "run_sched (along 0 4 [] @ along 1 10 [] @ along 0 7 [] @ along 4 7 []) (starts (Start_mem [0])) = Some sample_wait"
    by (simp add: sample_wait_def)
qed (unfold sample_wait_def, code_simp+)


end
