(* ===== verification/Spec2Isabelle.thy ===== *)
theory Spec2Isabelle
  imports System TransportInv HandlerFacts Faults TrackerLife DaemonLife Commands SwarmRun Config Locks
begin

text \<open>
  A verification development for peer-it, a peer-to-peer file sharing system written in Go.

  \<^bold>\<open>The program.\<close> A tracker (internal/tracker) keeps, in SQLite tables, which daemons share which files.
  A daemon (internal/node) runs on every peer: it registers files with the tracker, asks it who else has a
  file, opens WebRTC connections to those daemons with the tracker forwarding the signals, and then
  exchanges the file in chunks of 32 KiB. A command line client (internal/client) tells its daemon over a
  local TCP connection to register or to download, and follows the download by the log messages the daemon
  sends back. All of them talk in length-prefixed protobuf frames through a message router
  (internal/shared/prouter). A file's metadata travels in a text file (.p2p, internal/parser). The package
  internal/transport is a second transport over WebRTC that the daemon does not use yet.

  \<^bold>\<open>The theories and what they model.\<close>
  Prelude: Go's integers, slices and maps; the ways a goroutine can stop (\<open>stop\<close>); the monad \<open>go\<close> of handlers
  that change a state and may stop; the rules \<open>runs_intros\<close> for invariants of handlers; and the locales
  \<open>invariant_system\<close>, interpreted on every transition system below, and \<open>refinement\<close>, interpreted where one
  system implements another.
  Wire: internal/shared/protocol, every message, the getters the program calls, and the builders of
  internal/node/protocol.go.
  Strings: the parts of strings, strconv, fmt and net the program computes with.
  Router: prouter.go and utils.go; \<open>listen\<close> is the listening goroutine as a function of the stream,
  \<open>router_step\<close> the same with bounded channels and a consumer. RouterInv: its properties.
  Database: models.go, schema.sql and queries.sql.go; \<open>tables\<close> is the database, a \<open>slot\<close> of the schedule says
  whether a statement fails and whether foreign keys are enforced for it. DatabaseInv: the constraints as
  an invariant. Store: store.go, with the locales \<open>file_repository\<close> and \<open>chunk_repository\<close> for the two
  interfaces of node.go, interpreted on the stores. Opening: connection.go and the NewDB functions, the
  database file and the pool of connections, which refines the tables with slots.
  FileSys, Chunks: file.go and the pure part of chunk.go. P2PFile: parser.go.
  Tracker: tracker.go; \<open>tracker_step\<close> interleaves the handlers of all connections and the clock.
  TrackerInv: its invariant and the properties of its handlers. TrackerLife: the tracker process of
  cmd/tracker/main.go, from the opened database to the end of the process, and over restarts on one disk.
  Node, NodeTransfer, NodeRtc, NodeFiles: the state of a daemon (\<open>Node\<close>), the world it acts on (\<open>world\<close>) and
  every handler of node.go, chunk.go, peer.go, manager.go, webrtc.go, tracker.go, ipc.go, register.go and
  download.go. Daemon: the goroutines of a daemon as events of one state (\<open>handle_event\<close>, \<open>daemon_step\<close>).
  DaemonLife: node.New, the daemon command, and a daemon over restarts. Config: config.go.
  Cli: client.go and what the register and download commands do with it. Commands: the commands of
  internal/client/cmd as functions from arguments and surroundings to what they log and how they end.
  Logger: logger.go.
  Transport: internal/transport/webrtc, with one event per method and callback (\<open>handle_transport\<close>).
  Network: the tracker and any number of daemons in one transition system (\<open>network_step\<close>), with the messages
  between them in flight; Meeting: a run of it, computed step by step, in which two daemons negotiate a
  connection. Swarm: any number of daemons that share one file and the messages they send each other
  (\<open>swarm_step\<close>); SwarmRun: a run of it, computed step by step, in which one daemon gets the file from another.
  Goroutines: what goroutines do to shared memory and mutexes, interleaved instruction by instruction
  (\<open>conc_step\<close>), with the locales \<open>lock_discipline\<close> and \<open>single_owner\<close>; Races, Locks: the daemon, the tracker and
  the transport as such code (the functions with the suffix _mem).

  \<^bold>\<open>What the lemmas show.\<close>
  NodeInv, DaemonInv: what each handler leaves alone and when it can stop, stated for every predicate that
  its primitive actions respect. DaemonSafety: the daemon's invariant and the complete list of the ways it
  can stop. TransferInv: a receiver whose chunk responses are honest ends with the file, whatever else happens
  and fails; the sender's answers are honest; its locale \<open>data_fact\<close> says once what leaves the data of a daemon alone.
  DaemonFrame: what a handler never takes back, and what it may say to other daemons. Progress: with no failures a transfer takes at most one round
  per missing chunk. FilesInv, DownloadInv: a registration announces only what the daemon can serve, and a
  download of a generated .p2p file sets up exactly the state the transfer starts from. HandlerFacts: the
  effect of single handlers. Faults: inputs a daemon does not survive. System: from registration at one
  daemon to arrival at another, and what each part writes against what the others read. TransportInv: the
  invariant of the transport, its delivery order, and exactly when it panics. Rendezvous: an announced daemon is
  found by every later request until it leaves. Directory: the tracker implements a map from hashes to the ids of
  daemons, which change it only by joining for their own announcements and by leaving. Network, Meeting: signals are
  authentic and ids are unique across the whole network. Swarm, SwarmRun: every copy in a swarm is exact and no member
  of it stops. Opening: the migrations change no row, and foreign
  keys hold while one connection serves all statements. TrackerLife, DaemonLife: what a restart keeps, and
  what a crash leaves behind. Commands: when a command succeeds and what its daemon then got. Races, Locks: exactly
  which shared fields race, and that no goroutine waits for a mutex in vain.

  \<^bold>\<open>Bounds.\<close> Files of at most 2^46 bytes (so that a file has at most 2^31 chunk rows and an index fits the int32 of
  the wire), sizes within 32 KiB of the largest int64 excluded for a registration (\<open>countable_size\<close>); file
  names of at most 60000 printable characters and digests of at most 1000 bytes for the .p2p round trip
  (a scanner line holds 64 KiB). No theorem uses fuel: the loops of the program are structural recursions,
  recursions with a measure, or events of a transition system, and the number of rounds of a transfer is the
  number of missing chunks.

  \<^bold>\<open>Outside the repository, hence parameters or schedules.\<close> The protobuf codec (\<open>marshal\<close>, \<open>unmarshal\<close>; what is
  used of it is \<open>codec_ok\<close>), SHA-256 (\<open>sha\<close>, no property of it is used but the digest length), the
  WebRTC library and the signaler (objects are numbers, calls succeed or fail by a schedule, callbacks are
  events), the SQLite engine and the operating system (any call may fail), the clock and the random numbers.

  \<^bold>\<open>Not modelled.\<close> What handlers compute is modelled with handlers as atomic steps: what becomes of the
  values when two handlers interleave is not, except for the two writes of a frame in RouterInv. Which accesses
  can interleave is the subject of Goroutines, Races and Locks, where in turn values are left out.
  A failing file call changes nothing (no partial writes). A file opened before it is truncated is read as it
  is at the time of the read. Which command a command line selects (cobra), the drawing of the progress bar and the
  place of each log call inside the handlers are not modelled. In Network what goes over WebRTC between two
  daemons is arbitrary; Swarm follows it, with one file to a swarm and without the tracker. The interfaces in internal/transport/transport.go
  and internal/tracker/client.go have no behaviour of their own, and the second has no implementation.
\<close>

end
